(* ===== verification/Js_Prelude.thy ===== *)
theory Js_Prelude
  imports Main "HOL-Library.AList"
begin

text \<open>
  The part of the JavaScript language and standard library that the runtime under
  \<^verbatim>\<open>packages/codeflowmu-runtime/src\<close> uses, and the lemmas the component theories share.

  Strings are \<open>string\<close>, restricted to the ASCII code units that identifiers, role names,
  status words, digests and file names of the program are made of; a code unit from 128 on is
  neither white space nor a letter with case. Optional properties (\<open>x?: T\<close>), \<open>null\<close> and
  \<open>undefined\<close> are \<open>None\<close>. A JavaScript \<open>Map\<close> (and a plain object used as a
  dictionary) is an association list in insertion order: \<open>set\<close> is \<open>AList.update\<close>, which
  keeps the place of a present key and appends a new one, \<open>delete\<close> is \<open>AList.delete\<close>,
  \<open>get\<close> is \<open>map_of\<close>. A point of time is the integer number of milliseconds of
  \<open>Date.getTime()\<close>; the ISO strings the code stores stand for the same instants
  (\<open>Date.parse\<close> inverts \<open>toISOString\<close>).
\<close>

named_theorems js_defs \<comment> \<open>the string functions, for evaluation on literals\<close>

type_synonym time = int
type_synonym ('k, 'v) js_map = "('k \<times> 'v) list"

section \<open>Strings\<close>

definition js_space :: "char \<Rightarrow> bool" where
  "js_space c \<longleftrightarrow> c \<in> {CHR '' '', CHR 0x09, CHR 0x0A, CHR 0x0B, CHR 0x0C, CHR 0x0D}"

definition js_trim :: "string \<Rightarrow> string" where
  "js_trim s = rev (dropWhile js_space (rev (dropWhile js_space s)))"

definition upper_char :: "char \<Rightarrow> char" where
  "upper_char c =
     (case c of Char b0 b1 b2 b3 b4 b5 b6 b7 \<Rightarrow>
        if 97 \<le> (of_char c :: nat) \<and> (of_char c :: nat) \<le> 122
        then Char b0 b1 b2 b3 b4 False b6 b7 else c)"

definition lower_char :: "char \<Rightarrow> char" where
  "lower_char c =
     (case c of Char b0 b1 b2 b3 b4 b5 b6 b7 \<Rightarrow>
        if 65 \<le> (of_char c :: nat) \<and> (of_char c :: nat) \<le> 90
        then Char b0 b1 b2 b3 b4 True b6 b7 else c)"

definition js_upper :: "string \<Rightarrow> string" where
  "js_upper s = map upper_char s"

definition js_lower :: "string \<Rightarrow> string" where
  "js_lower s = map lower_char s"

definition js_digit :: "char \<Rightarrow> bool" where
  "js_digit c \<longleftrightarrow> (let n = of_char c :: nat in 48 \<le> n \<and> n \<le> 57)"

definition js_starts :: "string \<Rightarrow> string \<Rightarrow> bool" where
  "js_starts s p \<longleftrightarrow> take (length p) s = p"

definition js_ends :: "string \<Rightarrow> string \<Rightarrow> bool" where
  "js_ends s p \<longleftrightarrow> length p \<le> length s \<and> drop (length s - length p) s = p"

fun js_includes :: "string \<Rightarrow> string \<Rightarrow> bool" where
  "js_includes [] p = (p = [])"
| "js_includes (c # s) p = (js_starts (c # s) p \<or> js_includes s p)"

text \<open>\<open>s.replace(/\.md$/i, "")\<close>\<close>

definition strip_md :: "string \<Rightarrow> string" where
  "strip_md s =
     (if js_ends (js_lower s) ''.md'' then take (length s - 3) s else s)"

text \<open>\<open>/^TASK-\d{8}-\d{3,}/i.exec(s)?.[0]\<close>\<close>

definition task_id_prefix :: "string \<Rightarrow> string option" where
  "task_id_prefix s =
     (let ds = takeWhile js_digit (drop 14 s) in
      if js_lower (take 5 s) = ''task-'' \<and> length (take 8 (drop 5 s)) = 8
         \<and> list_all js_digit (take 8 (drop 5 s)) \<and> take 1 (drop 13 s) = ''-'' \<and> 3 \<le> length ds
      then Some (take (14 + length ds) s) else None)"

text \<open>
  \<open>String(v ?? "")\<close> of an optional string, and the truthiness of an optional string (absent and
  empty are falsy).
\<close>

definition str_of :: "string option \<Rightarrow> string" where
  "str_of v = (case v of None \<Rightarrow> [] | Some s \<Rightarrow> s)"

definition truthy :: "string option \<Rightarrow> bool" where
  "truthy v \<longleftrightarrow> str_of v \<noteq> []"

text \<open>\<open>v ?? w\<close> with an optional right operand and with a plain one.\<close>

definition coalesce :: "'a option \<Rightarrow> 'a option \<Rightarrow> 'a option" where
  "coalesce v w = (case v of None \<Rightarrow> w | Some x \<Rightarrow> Some x)"

definition or_else :: "'a option \<Rightarrow> 'a \<Rightarrow> 'a" where
  "or_else v d = (case v of None \<Rightarrow> d | Some x \<Rightarrow> x)"

lemmas [js_defs] = js_space_def js_trim_def upper_char_def lower_char_def js_upper_def
  js_lower_def js_digit_def js_starts_def js_ends_def strip_md_def task_id_prefix_def
  str_of_def truthy_def coalesce_def or_else_def

lemma str_of_simps [simp]: "str_of None = []" "str_of (Some s) = s"
  by (simp_all add: str_of_def)

lemma truthy_simps [simp]: "\<not> truthy None" "truthy (Some s) \<longleftrightarrow> s \<noteq> []"
  by (simp_all add: truthy_def)

lemma coalesce_simps [simp]: "coalesce None w = w" "coalesce (Some x) w = Some x"
  by (simp_all add: coalesce_def)

lemma or_else_simps [simp]: "or_else None d = d" "or_else (Some x) d = x"
  by (simp_all add: or_else_def)

lemma js_upper_Nil [simp]: "js_upper [] = []" "js_lower [] = []" "js_trim [] = []"
  by (simp_all add: js_defs)

lemma js_upper_eq_Nil [simp]: "js_upper s = [] \<longleftrightarrow> s = []" "js_lower s = [] \<longleftrightarrow> s = []"
  by (simp_all add: js_upper_def js_lower_def)

lemma upper_char_idem [simp]: "upper_char (upper_char c) = upper_char c"
  by (cases c) (auto simp: upper_char_def of_char_def)

lemma js_upper_idem [simp]: "js_upper (js_upper s) = js_upper s"
  by (simp add: js_upper_def comp_def)

lemma dropWhile_fix: "xs = [] \<or> \<not> P (hd xs) \<Longrightarrow> dropWhile P xs = xs"
  by (cases xs) auto

lemma hd_dropWhile_fix: "dropWhile P xs = [] \<or> \<not> P (hd (dropWhile P xs))"
  by (induction xs) auto

lemma last_dropWhile: "dropWhile P xs \<noteq> [] \<Longrightarrow> last (dropWhile P xs) = last xs"
  by (induction xs) auto

lemma js_trim_hd: "js_trim s = [] \<or> \<not> js_space (hd (js_trim s))"
proof -
  define t where "t = dropWhile js_space s"
  have t: "t = [] \<or> \<not> js_space (hd t)"
    unfolding t_def by (rule hd_dropWhile_fix)
  have "dropWhile js_space (rev t) = [] \<or> last (dropWhile js_space (rev t)) = hd t"
    using last_dropWhile [of js_space "rev t"] by (auto simp: last_rev)
  with t show ?thesis
    by (cases t) (auto simp: js_trim_def t_def [symmetric] hd_rev)
qed

lemma js_trim_idem [simp]: "js_trim (js_trim s) = js_trim s"
proof -
  have "dropWhile js_space (js_trim s) = js_trim s"
    by (rule dropWhile_fix) (rule js_trim_hd)
  moreover have "dropWhile js_space (rev (js_trim s)) = rev (js_trim s)"
    using hd_dropWhile_fix [of js_space "rev (dropWhile js_space s)"]
    by (intro dropWhile_fix) (simp only: js_trim_def rev_rev_ident)
  ultimately show ?thesis
    by (simp add: js_trim_def [of "js_trim s"])
qed

text \<open>
  \<open>toLocalIsoString(d)\<close> prints whole seconds, so the instant that \<open>Date.parse\<close> reads back is
  cut to the second.
\<close>

definition local_iso :: "time \<Rightarrow> time" where
  "local_iso t = 1000 * (t div 1000)"

lemma local_iso_le [simp]: "local_iso t \<le> t"
  by (simp add: local_iso_def minus_mod_eq_mult_div [symmetric])

lemma local_iso_mono: "s \<le> t \<Longrightarrow> local_iso s \<le> local_iso t"
  by (simp add: local_iso_def zdiv_mono1)

section \<open>Lists, sets and maps\<close>

text \<open>\<open>[...new Set(xs)]\<close>: the first occurrence of every element, in order.\<close>

definition js_uniq :: "'a list \<Rightarrow> 'a list" where
  "js_uniq xs = rev (remdups (rev xs))"

lemma set_js_uniq [simp]: "set (js_uniq xs) = set xs"
  by (simp add: js_uniq_def)

lemma distinct_js_uniq [simp]: "distinct (js_uniq xs)"
  by (simp add: js_uniq_def)

lemma js_uniq_Nil_iff [simp]: "js_uniq xs = [] \<longleftrightarrow> xs = []"
  by (simp add: js_uniq_def)

text \<open>\<open>xs.findIndex(P)\<close> where an index is found.\<close>

fun find_index :: "('a \<Rightarrow> bool) \<Rightarrow> 'a list \<Rightarrow> nat option" where
  "find_index P [] = None"
| "find_index P (x # xs) = (if P x then Some 0 else map_option Suc (find_index P xs))"

text \<open>Mutating the first element that \<open>find\<close> returns, through the reference it hands out.\<close>

fun update_first :: "('a \<Rightarrow> bool) \<Rightarrow> ('a \<Rightarrow> 'a) \<Rightarrow> 'a list \<Rightarrow> 'a list" where
  "update_first P f [] = []"
| "update_first P f (x # xs) = (if P x then f x # xs else x # update_first P f xs)"

lemma length_update_first [simp]: "length (update_first P f xs) = length xs"
  by (induction xs) auto

lemma update_first_None: "List.find P xs = None \<Longrightarrow> update_first P f xs = xs"
  by (induction xs) (auto split: if_splits)

lemma map_update_first: "(\<And>x. g (f x) = g x) \<Longrightarrow> map g (update_first P f xs) = map g xs"
  by (induction xs) auto

lemma set_update_first_subset: "set (update_first P f xs) \<subseteq> set xs \<union> f ` set xs"
  by (induction xs) auto

lemma find_SomeD: "List.find P xs = Some x \<Longrightarrow> P x \<and> x \<in> set xs"
  by (auto simp: find_Some_iff in_set_conv_nth)

lemma find_NoneD: "List.find P xs = None \<Longrightarrow> x \<in> set xs \<Longrightarrow> \<not> P x"
  by (auto simp: find_None_iff)

lemma option_caseD: "(case x of None \<Rightarrow> False | Some y \<Rightarrow> P y) \<Longrightarrow> \<exists>y. x = Some y \<and> P y"
  by (cases x) auto

lemma update_conv_same [simp]: "map_of (AList.update k v m) k = Some v"
  by (simp add: update_conv')

lemma update_conv_other [simp]: "k' \<noteq> k \<Longrightarrow> map_of (AList.update k v m) k' = map_of m k'"
  by (simp add: update_conv')

lemma delete_conv_same [simp]: "map_of (AList.delete k m) k = None"
  by (simp add: delete_conv')

lemma delete_conv_other [simp]: "k' \<noteq> k \<Longrightarrow> map_of (AList.delete k m) k' = map_of m k'"
  by (simp add: delete_conv')

lemma update_conv_if: "map_of (AList.update k v m) k' = (if k' = k then Some v else map_of m k')"
  by simp

lemma delete_conv_if: "map_of (AList.delete k m) k' = (if k' = k then None else map_of m k')"
  by simp

lemma length_update: "length (AList.update k v m) = (if k \<in> fst ` set m then length m else Suc (length m))"
  by (induction m) auto

lemma set_update: "distinct (map fst m) \<Longrightarrow> set (AList.update k v m) = insert (k, v) {x \<in> set m. fst x \<noteq> k}"
  by (induction m) (auto simp: image_iff)

lemma set_delete: "set (AList.delete k m) = {x \<in> set m. fst x \<noteq> k}"
  by (auto simp: AList.delete_eq)

lemma distinct_keys_update [simp]:
  "distinct (map fst m) \<Longrightarrow> distinct (map fst (AList.update k v m))"
  by (rule distinct_update)

lemma distinct_keys_delete [simp]:
  "distinct (map fst m) \<Longrightarrow> distinct (map fst (AList.delete k m))"
  by (rule distinct_delete)

lemma map_of_map_snd: "map_of (map (map_prod id f) m) k = map_option f (map_of m k)"
  by (induction m) auto

text \<open>Elements of \<open>filter\<close> over a map keep their keys distinct.\<close>

lemma distinct_keys_filter: "distinct (map fst m) \<Longrightarrow> distinct (map fst (filter P m))"
  by (induction m) auto

section \<open>Results\<close>

text \<open>A call that may throw is \<open>error + value\<close>; sequencing stops at the first error.\<close>

definition bind_res :: "'e + 'a \<Rightarrow> ('a \<Rightarrow> 'e + 'b) \<Rightarrow> 'e + 'b" where
  "bind_res r f = (case r of Inl e \<Rightarrow> Inl e | Inr x \<Rightarrow> f x)"

lemma bind_res_simps [simp]: "bind_res (Inl e) f = Inl e" "bind_res (Inr x) f = f x"
  by (simp_all add: bind_res_def)

lemma bind_res_Inr: "bind_res r f = Inr y \<longleftrightarrow> (\<exists>x. r = Inr x \<and> f x = Inr y)"
  by (cases r) auto

definition check :: "bool \<Rightarrow> 'e \<Rightarrow> 'e + unit" where
  "check P e = (if P then Inr () else Inl e)"

lemma check_simps [simp]: "check P e = Inr u \<longleftrightarrow> P" "check P e = Inl e' \<longleftrightarrow> \<not> P \<and> e' = e"
  by (auto simp: check_def)

lemma check_cases [simp]: "check True e = Inr ()" "check False e = Inl e"
  by (simp_all add: check_def)

section \<open>Actions on a world\<close>

text \<open>
  An asynchronous method that reads and writes the file system is an action: it takes the world and
  returns a result, or the error it throws, with the world as it then is. What was written before
  an error stays written.
\<close>

type_synonym ('w, 'e, 'a) act = "'w \<Rightarrow> ('e + 'a) \<times> 'w"

definition act_return :: "'a \<Rightarrow> ('w, 'e, 'a) act" where
  "act_return x w = (Inr x, w)"

definition act_throw :: "'e \<Rightarrow> ('w, 'e, 'a) act" where
  "act_throw e w = (Inl e, w)"

definition act_bind :: "('w, 'e, 'a) act \<Rightarrow> ('a \<Rightarrow> ('w, 'e, 'b) act) \<Rightarrow> ('w, 'e, 'b) act" where
  "act_bind m f w = (case m w of (Inl e, w') \<Rightarrow> (Inl e, w') | (Inr x, w') \<Rightarrow> f x w')"

definition act_check :: "'e + 'a \<Rightarrow> ('w, 'e, 'a) act" where
  "act_check r w = (r, w)"

definition act_when :: "bool \<Rightarrow> ('w, 'e, unit) act \<Rightarrow> ('w, 'e, unit) act" where
  "act_when b m = (if b then m else act_return ())"

fun act_each :: "('a \<Rightarrow> ('w, 'e, unit) act) \<Rightarrow> 'a list \<Rightarrow> ('w, 'e, unit) act" where
  "act_each f [] = act_return ()"
| "act_each f (x # xs) = act_bind (f x) (\<lambda>_. act_each f xs)"

fun act_map :: "('a \<Rightarrow> ('w, 'e, 'b) act) \<Rightarrow> 'a list \<Rightarrow> ('w, 'e, 'b list) act" where
  "act_map f [] = act_return []"
| "act_map f (x # xs) = act_bind (f x) (\<lambda>y. act_bind (act_map f xs) (\<lambda>ys. act_return (y # ys)))"

named_theorems act_simps \<comment> \<open>evaluation of actions\<close>

lemma act_eval [act_simps]:
  "act_return x w = (Inr x, w)"
  "act_throw e w = (Inl e, w)"
  "act_check r w = (r, w)"
  "act_when True m = m"
  "act_when False m = act_return ()"
  by (simp_all add: act_return_def act_throw_def act_check_def act_when_def)

lemma act_bind_Inr: "m w = (Inr x, w') \<Longrightarrow> act_bind m f w = f x w'"
  by (simp add: act_bind_def)

lemma act_bind_Inl: "m w = (Inl e, w') \<Longrightarrow> act_bind m f w = (Inl e, w')"
  by (simp add: act_bind_def)

text \<open>A bind that succeeds went through both parts.\<close>

lemma act_bindE:
  assumes "act_bind m f w = (Inr y, w')"
  obtains x w1 where "m w = (Inr x, w1)" and "f x w1 = (Inr y, w')"
  using assms by (auto simp: act_bind_def split: prod.splits sum.splits)

lemma act_bind_Inr_iff:
  "act_bind m f w = (Inr y, w') \<longleftrightarrow> (\<exists>x w1. m w = (Inr x, w1) \<and> f x w1 = (Inr y, w'))"
  by (auto simp: act_bind_def split: prod.splits sum.splits)

lemma act_check_bind [act_simps]:
  "act_bind (act_check (Inr x)) f w = f x w"
  "act_bind (act_check (Inl e)) f w = (Inl e, w)"
  "act_bind (act_return x) f w = f x w"
  "act_bind (act_throw e) f w = (Inl e, w)"
  by (simp_all add: act_bind_def act_check_def act_return_def act_throw_def)

section \<open>What every outcome of an action keeps\<close>

text \<open>
  \<open>act_keeps R m\<close>: whether \<open>m\<close> returns or throws, the world before and the world after are
  related by \<open>R\<close>. For a preorder the property passes through sequencing, so it holds for an
  operation as soon as it holds for its primitive writes.
\<close>

definition act_keeps :: "('w \<Rightarrow> 'w \<Rightarrow> bool) \<Rightarrow> ('w, 'e, 'a) act \<Rightarrow> bool" where
  "act_keeps R m \<longleftrightarrow> (\<forall>w. R w (snd (m w)))"

lemma act_keepsI: "(\<And>w. R w (snd (m w))) \<Longrightarrow> act_keeps R m"
  by (simp add: act_keeps_def)

lemma act_keepsD: "act_keeps R m \<Longrightarrow> m w = (r, w') \<Longrightarrow> R w w'"
  by (metis act_keeps_def snd_conv)

text \<open>
  \<open>act_spec R P m Q\<close>: from a world with \<open>P\<close> every outcome of \<open>m\<close> is related to that world, and a
  result has \<open>Q\<close> in the world it leaves.
\<close>

definition act_spec ::
  "('w \<Rightarrow> 'w \<Rightarrow> bool) \<Rightarrow> ('w \<Rightarrow> bool) \<Rightarrow> ('w, 'e, 'a) act \<Rightarrow> ('a \<Rightarrow> 'w \<Rightarrow> bool) \<Rightarrow> bool" where
  "act_spec R P m Q \<longleftrightarrow> (\<forall>w. P w \<longrightarrow> R w (snd (m w)) \<and> (\<forall>x. fst (m w) = Inr x \<longrightarrow> Q x (snd (m w))))"

lemma act_specD:
  assumes "act_spec R P m Q" and "P w"
  shows "R w (snd (m w))" and "m w = (Inr x, w') \<Longrightarrow> Q x w'"
  using assms by (auto simp: act_spec_def)

lemma act_spec_weaken:
  "act_spec R P' m Q' \<Longrightarrow> (\<And>w. P w \<Longrightarrow> P' w) \<Longrightarrow> (\<And>x w. Q' x w \<Longrightarrow> Q x w) \<Longrightarrow> act_spec R P m Q"
  by (simp add: act_spec_def)

named_theorems spec_intros \<comment> \<open>specifications of actions\<close>

named_theorems keeps_intros \<comment> \<open>actions that keep a preorder\<close>

locale step_preorder =
  fixes R :: "'w \<Rightarrow> 'w \<Rightarrow> bool"
  assumes step_refl: "R w w"
    and step_trans: "R a b \<Longrightarrow> R b c \<Longrightarrow> R a c"
begin

lemma keeps_basic [keeps_intros]:
  "act_keeps R (act_return x)" "act_keeps R (act_throw e)" "act_keeps R (act_check r)"
  by (simp_all add: act_keeps_def act_return_def act_throw_def act_check_def step_refl)

lemma keeps_bind [keeps_intros]:
  "act_keeps R m \<Longrightarrow> (\<And>x. act_keeps R (f x)) \<Longrightarrow> act_keeps R (act_bind m f)"
  unfolding act_keeps_def act_bind_def
  by (auto split: prod.splits sum.splits) (metis snd_conv step_trans)+

lemma keeps_when [keeps_intros]: "(b \<Longrightarrow> act_keeps R m) \<Longrightarrow> act_keeps R (act_when b m)"
  by (simp add: act_when_def keeps_basic)

lemma keeps_if [keeps_intros]:
  "(b \<Longrightarrow> act_keeps R m) \<Longrightarrow> (\<not> b \<Longrightarrow> act_keeps R m') \<Longrightarrow> act_keeps R (if b then m else m')"
  by simp

lemma keeps_prod [keeps_intros]:
  "(\<And>a b. x = (a, b) \<Longrightarrow> act_keeps R (f a b)) \<Longrightarrow> act_keeps R (case x of (a, b) \<Rightarrow> f a b)"
  by (cases x) simp

lemma keeps_let [keeps_intros]: "act_keeps R (f v) \<Longrightarrow> act_keeps R (let x = v in f x)"
  by simp

lemma keeps_each [keeps_intros]: "(\<And>x. act_keeps R (f x)) \<Longrightarrow> act_keeps R (act_each f xs)"
  by (induction xs) (simp_all add: keeps_basic keeps_bind)

text \<open>What a sequence does not keep although its first part does, the second part does not keep.\<close>

lemma unkept_bindE:
  assumes "\<not> R w (snd (act_bind m f w))" and "act_keeps R m"
  obtains x w1 where "m w = (Inr x, w1)" and "R w w1" and "\<not> R w1 (snd (f x w1))"
proof (cases "m w")
  case (Pair r w1)
  then have R: "R w w1" using assms(2) by (metis act_keepsD)
  show ?thesis
  proof (cases r)
    case (Inl e)
    with Pair R assms(1) show ?thesis by (simp add: act_bind_def)
  next
    case (Inr x)
    with Pair R assms(1) show ?thesis by (auto simp: act_bind_def intro: that step_trans)
  qed
qed

text \<open>A check that holds may be used for the rest.\<close>

lemma keeps_bind_check:
  "(P \<Longrightarrow> act_keeps R (f ())) \<Longrightarrow> act_keeps R (act_bind (act_check (check P e)) f)"
  by (auto simp: act_keeps_def act_bind_def act_check_def check_def step_refl)

lemma spec_return [spec_intros]: "(\<And>w. P w \<Longrightarrow> Q x w) \<Longrightarrow> act_spec R P (act_return x) Q"
  by (simp add: act_spec_def act_return_def step_refl)

lemma spec_throw [spec_intros]: "act_spec R P (act_throw e) Q"
  by (simp add: act_spec_def act_throw_def step_refl)

lemma spec_bind:
  assumes m: "act_spec R P m Q" and f: "\<And>x. act_spec R (Q x) (f x) S"
  shows "act_spec R P (act_bind m f) S"
  unfolding act_spec_def
proof (intro allI impI)
  fix w assume P: "P w"
  have R: "R w (snd (m w))" by (rule act_specD [OF m P])
  show "R w (snd (act_bind m f w))
    \<and> (\<forall>x. fst (act_bind m f w) = Inr x \<longrightarrow> S x (snd (act_bind m f w)))"
  proof (cases "m w")
    case (Pair r w1)
    show ?thesis
    proof (cases r)
      case (Inl e)
      with Pair R show ?thesis by (simp add: act_bind_def)
    next
      case (Inr x)
      with Pair have mx: "m w = (Inr x, w1)" by simp
      then have "Q x w1" using act_specD(2) [OF m P] by blast
      then have "R w1 (snd (f x w1)) \<and> (\<forall>y. fst (f x w1) = Inr y \<longrightarrow> S y (snd (f x w1)))"
        using f [of x] by (simp add: act_spec_def)
      with R mx show ?thesis by (auto simp: act_bind_def intro: step_trans)
    qed
  qed
qed

lemma spec_if [spec_intros]:
  "(b \<Longrightarrow> act_spec R P m Q) \<Longrightarrow> (\<not> b \<Longrightarrow> act_spec R P m' Q) \<Longrightarrow> act_spec R P (if b then m else m') Q"
  by simp

lemma spec_let [spec_intros]: "act_spec R P (f v) Q \<Longrightarrow> act_spec R P (let x = v in f x) Q"
  by simp

text \<open>A sequence of operations, each run whatever the one before returned.\<close>

lemma keeps_run:
  "(\<And>c. act_keeps R (step c)) \<Longrightarrow> R w (fold (\<lambda>c w. snd (step c w)) cs w)"
proof (induction cs arbitrary: w)
  case (Cons c cs)
  have "R w (snd (step c w))" using Cons.prems [of c] by (simp add: act_keeps_def)
  with Cons.IH [OF Cons.prems, of "snd (step c w)"] show ?case by (auto intro: step_trans)
qed (simp add: step_refl)

end

text \<open>Keeping the value of a view of the world is such a preorder.\<close>

interpretation view: step_preorder "\<lambda>w w'. g w' = g w" for g
  by unfold_locales simp_all

lemma keeps_view_iff: "act_keeps (\<lambda>w w'. g w' = g w) m \<longleftrightarrow> (\<forall>w. g (snd (m w)) = g w)"
  by (simp add: act_keeps_def)

end
