(* ===== verification/Lifecycle_Types.thy ===== *)
theory Lifecycle_Types
  imports Js_Prelude
begin

text \<open>
  The data of the task lifecycle (\<^verbatim>\<open>lifecycle/types.ts\<close>, \<^verbatim>\<open>lifecycle/authorityDefaults.ts\<close>,
  \<^verbatim>\<open>lifecycle/AuthorityGuard.ts\<close>, \<^verbatim>\<open>lifecycle/ArchiveGuard.ts\<close>): the five stages, the YAML
  frontmatter of a task, who may do what to it, and when it may be archived. A frontmatter
  property that no modelled operation reads or writes is left out of \<open>task_fm\<close>; the eleven
  \<open>human_decision*\<close> properties, which one function writes together, are one optional record.
  A Boolean property is tested with \<open>=== true\<close> throughout, so absent and \<open>false\<close> coincide.
\<close>

section \<open>Stages, actions and errors\<close>

datatype lifecycle_stage = Inbox | Active | Review | Done | Archive

datatype lifecycle_action =
  Submit_review | Approve_review | Reject_review | Reopen_task | Archive_task

fun stage_name :: "lifecycle_stage \<Rightarrow> string" where
  "stage_name Inbox = ''inbox''"
| "stage_name Active = ''active''"
| "stage_name Review = ''review''"
| "stage_name Done = ''done''"
| "stage_name Archive = ''archive''"

definition all_stages :: "lifecycle_stage list" where
  "all_stages = [Inbox, Active, Review, Done, Archive]"

definition stage_of_name :: "string \<Rightarrow> lifecycle_stage option" where
  "stage_of_name s = List.find (\<lambda>st. stage_name st = s) all_stages"

lemma stage_name_inject [simp]: "stage_name a = stage_name b \<longleftrightarrow> a = b"
  by (cases a; cases b) auto

lemma set_all_stages [simp]: "set all_stages = UNIV"
  using lifecycle_stage.exhaust by (auto simp: all_stages_def)

lemma stage_of_name_name [simp]: "stage_of_name (stage_name st) = Some st"
  by (cases st) (simp_all add: stage_of_name_def all_stages_def)

text \<open>The errors the lifecycle code throws, without their message texts.\<close>

datatype lifecycle_error =
  Authority_denied lifecycle_action string  \<comment> \<open>\<open>AuthorityError\<close>: action and actor\<close>
| Driver_unresolved                         \<comment> \<open>\<open>AuthorityError\<close>: no driver in the routing\<close>
| Finish_authority_denied string
| Task_frozen
| Expected_state string lifecycle_stage     \<comment> \<open>operation and the stage found\<close>
| Report_id_required
| Reason_required string
| Review_status_not_approved string
| Force_archive_denied lifecycle_stage
| Stage_unresolved
| Task_not_found string
| Task_unreadable
| Rework_not_settled
| Blocking_issue string
| Exception_not_audited
| Human_decision_missing
| Human_decision_untrusted
| Human_decision_mismatch
| Transition_denied lifecycle_stage lifecycle_stage
| Children_open "string list"
| Children_not_accepted "string list"
| Legacy_finish_denied lifecycle_stage
| Ambiguous_duplicate
| Read_back_failed
| Missing_file

section \<open>Frontmatter\<close>

record transition =
  tr_at :: "time option"
  tr_from :: "string option"
  tr_to :: "string option"
  tr_by :: "string option"
  tr_action :: "string option"
  tr_tool :: "string option"
  tr_note :: "string option"
  tr_reason :: "string option"
  tr_report :: "string option"
  tr_decision :: "string option"
  tr_based_on :: "string list option"
  tr_child_task :: "string option"

record human_decision =
  hd_at :: time
  hd_by :: string
  hd_role :: string
  hd_source :: string
  hd_session_id :: string
  hd_decision_id :: string
  hd_review_id :: string
  hd_report_id :: string
  hd_note :: string
  hd_scope :: string

record task_fm =
  fm_sender :: "string option"
  fm_recipient :: "string option"
  fm_task_id :: "string option"
  fm_from :: "string option"
  fm_to :: "string option"
  fm_line :: "string option"
  fm_state :: "string option"
  fm_lifecycle_path :: "string option"
  fm_dispatch_attempt_id :: "string option"
  fm_execution_lease_id :: "string option"
  fm_dispatch_agent_id :: "string option"
  fm_driver :: "string option"
  fm_reviewer :: "string option"
  fm_done_authority :: "string option"
  fm_archive_authority :: "string option"
  fm_current_owner :: "string option"
  fm_parent_task_id :: "string option"
  fm_parent :: "string option"
  fm_thread_key :: "string option"
  fm_review_status :: "string option"
  fm_lifecycle_projection :: "string option"
  fm_display_status :: "string option"
  fm_issue_blocking :: bool
  fm_blocking_issue_id :: "string option"
  fm_review_note :: "string option"
  fm_fact_check_exception :: bool
  fm_fact_check_exception_by :: "string option"
  fm_fact_check_decision_id :: "string option"
  fm_fact_check_exception_review_id :: "string option"
  fm_fact_check_exception_report_id :: "string option"
  fm_rework_completed_by_report :: "string option"
  fm_rework_completed_at :: "time option"
  fm_superseded_by :: "string option"
  fm_superseded_reason :: "string option"
  fm_superseded_at :: "time option"
  fm_archived_by_parent_mainline :: bool
  fm_terminated_by_parent_archive :: bool
  fm_closed_parent_residue :: bool
  fm_delegated_done :: bool
  fm_frozen :: bool
  fm_reopened_count :: "nat option"
  fm_submitted_at :: "time option"
  fm_approved_at :: "time option"
  fm_approved_by :: "string option"
  fm_human_decision :: "human_decision option"
  fm_archived_at :: "time option"
  fm_archived_by :: "string option"
  fm_archive_reason :: "string option"
  fm_archive_mode :: "string option"
  fm_task_type :: "string option"
  fm_reopen_reason :: "string option"
  fm_transitions :: "transition list"

definition empty_fm :: task_fm where
  "empty_fm = \<lparr>
     fm_sender = None, fm_recipient = None, fm_task_id = None, fm_from = None, fm_to = None,
     fm_line = None, fm_state = None, fm_lifecycle_path = None, fm_dispatch_attempt_id = None,
     fm_execution_lease_id = None, fm_dispatch_agent_id = None, fm_driver = None,
     fm_reviewer = None, fm_done_authority = None, fm_archive_authority = None,
     fm_current_owner = None, fm_parent_task_id = None, fm_parent = None, fm_thread_key = None,
     fm_review_status = None, fm_lifecycle_projection = None, fm_display_status = None,
     fm_issue_blocking = False, fm_blocking_issue_id = None, fm_review_note = None,
     fm_fact_check_exception = False, fm_fact_check_exception_by = None,
     fm_fact_check_decision_id = None, fm_fact_check_exception_review_id = None,
     fm_fact_check_exception_report_id = None, fm_rework_completed_by_report = None,
     fm_rework_completed_at = None, fm_superseded_by = None, fm_superseded_reason = None,
     fm_superseded_at = None, fm_archived_by_parent_mainline = False,
     fm_terminated_by_parent_archive = False, fm_closed_parent_residue = False,
     fm_delegated_done = False, fm_frozen = False, fm_reopened_count = None,
     fm_submitted_at = None, fm_approved_at = None, fm_approved_by = None,
     fm_human_decision = None, fm_archived_at = None, fm_archived_by = None,
     fm_archive_reason = None, fm_archive_mode = None, fm_task_type = None,
     fm_reopen_reason = None, fm_transitions = []\<rparr>"

section \<open>Routing and authority defaults (\<^verbatim>\<open>authorityDefaults.ts\<close>)\<close>

definition is_lifecycle_bucket_token :: "string \<Rightarrow> bool" where
  "is_lifecycle_bucket_token v \<longleftrightarrow>
     js_lower (js_trim v) \<in> {''inbox'', ''active'', ''review'', ''done'', ''archive''}"

text \<open>
  \<open>/TASK-\d{8}-\d{3,}-(.+)-to-(.+)$/i\<close>: the leftmost start at which the head matches and the
  rest, free of line ends, splits at its last \<open>-to-\<close> with text on both sides.
\<close>

fun split_last_to :: "nat \<Rightarrow> string \<Rightarrow> (string \<times> string) option" where
  "split_last_to 0 s = None"
| "split_last_to (Suc i) s =
     (if js_lower (take 4 (drop (Suc i) s)) = ''-to-'' \<and> Suc i + 4 < length s
      then Some (take (Suc i) s, drop (Suc i + 4) s) else split_last_to i s)"

definition route_at :: "string \<Rightarrow> (string \<times> string) option" where
  "route_at s =
     (case task_id_prefix s of None \<Rightarrow> None
      | Some p \<Rightarrow>
          let r = drop (length p) s in
          if take 1 r = ''-'' \<and> CHR 0x0A \<notin> set r \<and> CHR 0x0D \<notin> set r
          then split_last_to (length r) (tl r) else None)"

fun route_of_task_id :: "string \<Rightarrow> (string \<times> string) option" where
  "route_of_task_id [] = None"
| "route_of_task_id (c # s) =
     (case route_at (c # s) of Some r \<Rightarrow> Some r | None \<Rightarrow> route_of_task_id s)"

definition task_route_roles :: "task_fm \<Rightarrow> string \<times> string" where
  "task_route_roles t =
     (let from0 = str_of (coalesce (fm_from t) (fm_sender t));
          to0 = str_of (coalesce (fm_to t) (fm_recipient t));
          from1 = (if is_lifecycle_bucket_token from0 then str_of (fm_sender t) else from0);
          to1 = (if is_lifecycle_bucket_token to0 then str_of (fm_recipient t) else to0);
          frm = js_upper from1; to = js_upper to1 in
      if frm \<noteq> [] \<and> to \<noteq> [] then (frm, to)
      else case route_of_task_id (str_of (fm_task_id t)) of
             None \<Rightarrow> (frm, to)
           | Some (a, b) \<Rightarrow>
               (if frm \<noteq> [] then frm else js_upper a, if to \<noteq> [] then to else js_upper b))"

datatype task_line = Main_line | Branch_line

text \<open>\<open>/^(DEV|QA|OPS)(-\d+)?$/i\<close>\<close>

definition is_worker_recipient :: "string \<Rightarrow> bool" where
  "is_worker_recipient s \<longleftrightarrow>
     list_ex (\<lambda>r. js_upper (take (length r) s) = r \<and>
                  (let rest = drop (length r) s in
                   rest = [] \<or> (take 1 rest = ''-'' \<and> tl rest \<noteq> [] \<and> list_all js_digit (tl rest))))
       [''DEV'', ''QA'', ''OPS'']"

definition infer_task_line :: "task_fm \<Rightarrow> task_line" where
  "infer_task_line t =
     (if fm_line t = Some ''main'' then Main_line
      else if fm_line t = Some ''branch'' then Branch_line
      else let (frm, to) = task_route_roles t in
        if frm = ''ADMIN'' \<and> to = ''PM'' then Main_line
        else if frm = ''PM'' \<and> is_worker_recipient to then Branch_line
        else Branch_line)"

definition resolve_driver :: "task_fm \<Rightarrow> string" where
  "resolve_driver t =
     (let explicit = js_trim (str_of (fm_driver t)) in
      if explicit \<noteq> [] then js_upper explicit else snd (task_route_roles t))"

definition resolve_reviewer :: "task_fm \<Rightarrow> string" where
  "resolve_reviewer t =
     (let explicit = js_trim (str_of (fm_reviewer t)) in
      if explicit \<noteq> [] then js_upper explicit
      else if infer_task_line t = Main_line then ''ADMIN'' else ''PM'')"

definition resolve_done_authority :: "task_fm \<Rightarrow> string" where
  "resolve_done_authority t =
     (let explicit = js_trim (str_of (fm_done_authority t)) in
      if explicit \<noteq> [] then js_upper explicit
      else if fm_delegated_done t then ''PM''
      else if infer_task_line t = Main_line then ''ADMIN'' else ''PM'')"

definition resolve_archive_authority :: "task_fm \<Rightarrow> string" where
  "resolve_archive_authority t =
     (let explicit = js_trim (str_of (fm_archive_authority t)) in
      if explicit \<noteq> [] then js_upper explicit
      else if infer_task_line t = Main_line then ''ADMIN'' else ''PM'')"

lemmas authority_defs = resolve_driver_def resolve_reviewer_def resolve_done_authority_def
  resolve_archive_authority_def

lemma task_route_roles_upper:
  "task_route_roles t = (a, b) \<Longrightarrow> js_upper a = a \<and> js_upper b = b"
  by (auto simp: task_route_roles_def Let_def split: if_splits option.splits prod.splits)

lemma resolve_upper [simp]:
  "js_upper (resolve_driver t) = resolve_driver t"
  "js_upper (resolve_reviewer t) = resolve_reviewer t"
  "js_upper (resolve_done_authority t) = resolve_done_authority t"
  "js_upper (resolve_archive_authority t) = resolve_archive_authority t"
  using task_route_roles_upper [of t]
  by (cases "task_route_roles t"; simp add: authority_defs Let_def; simp add: js_defs)+

section \<open>Authority guard (\<^verbatim>\<open>AuthorityGuard.ts\<close>)\<close>

fun authority_assert ::
  "task_fm \<Rightarrow> string \<Rightarrow> lifecycle_action \<Rightarrow> lifecycle_error + unit" where
  "authority_assert t actor Submit_review =
     (let driver = resolve_driver t in
      if driver = [] then Inl Driver_unresolved
      else check (js_upper actor = driver) (Authority_denied Submit_review actor))"
| "authority_assert t actor Approve_review =
     check (js_upper actor = resolve_done_authority t) (Authority_denied Approve_review actor)"
| "authority_assert t actor Reject_review =
     check (js_upper actor = resolve_reviewer t \<or> js_upper actor = resolve_done_authority t)
       (Authority_denied Reject_review actor)"
| "authority_assert t actor Reopen_task =
     check (js_upper actor = resolve_reviewer t \<or> js_upper actor = resolve_done_authority t
            \<or> js_upper actor = ''ADMIN'')
       (Authority_denied Reopen_task actor)"
| "authority_assert t actor Archive_task =
     check (js_upper actor = resolve_archive_authority t) (Authority_denied Archive_task actor)"

section \<open>Archive guard (\<^verbatim>\<open>ArchiveGuard.ts\<close>)\<close>

definition assert_not_frozen :: "task_fm \<Rightarrow> lifecycle_stage \<Rightarrow> lifecycle_error + unit" where
  "assert_not_frozen t st =
     (if st = Archive then Inl Task_frozen else if fm_frozen t then Inl Task_frozen else Inr ())"

definition assert_can_archive ::
  "task_fm \<Rightarrow> string \<Rightarrow> lifecycle_stage \<Rightarrow> lifecycle_error + unit" where
  "assert_can_archive t reason st =
     (if st \<noteq> Done then Inl (Expected_state ''archive_task'' st)
      else if js_trim reason = [] then Inl (Reason_required ''archive_task'')
      else if truthy (fm_review_status t) \<and> fm_review_status t \<noteq> Some ''approved''
      then Inl (Review_status_not_approved (str_of (fm_review_status t)))
      else Inr ())"

definition assert_can_force_archive ::
  "task_fm \<Rightarrow> string \<Rightarrow> lifecycle_stage \<Rightarrow> lifecycle_error + unit" where
  "assert_can_force_archive t reason st =
     (if st = Archive then Inl (Force_archive_denied st)
      else if st = Done then Inl (Force_archive_denied st)
      else if st \<notin> {Inbox, Active, Review} then Inl (Force_archive_denied st)
      else if js_trim reason = [] then Inl (Reason_required ''force_archive_task'')
      else Inr ())"

lemma assert_not_frozen_Inr [simp]:
  "assert_not_frozen t st = Inr u \<longleftrightarrow> st \<noteq> Archive \<and> \<not> fm_frozen t"
  by (auto simp: assert_not_frozen_def)

lemma assert_can_archive_Inr [simp]:
  "assert_can_archive t reason st = Inr u \<longleftrightarrow>
     st = Done \<and> js_trim reason \<noteq> [] \<and>
     (fm_review_status t = None \<or> fm_review_status t = Some [] \<or> fm_review_status t = Some ''approved'')"
  by (cases "fm_review_status t") (auto simp: assert_can_archive_def)

lemma assert_can_force_archive_Inr [simp]:
  "assert_can_force_archive t reason st = Inr u \<longleftrightarrow>
     (st = Inbox \<or> st = Active \<or> st = Review) \<and> js_trim reason \<noteq> []"
  by (cases st) (auto simp: assert_can_force_archive_def)

lemma assert_not_frozen_eq:
  "assert_not_frozen t st = (if st = Archive \<or> fm_frozen t then Inl Task_frozen else Inr ())"
  by (simp add: assert_not_frozen_def)

end
