(* ===== verification/Lifecycle_Store.thy ===== *)
theory Lifecycle_Store
  imports Lifecycle_Types
begin

text \<open>
  Task files: the frontmatter format of \<^verbatim>\<open>lifecycle/TaskFrontmatterStore.ts\<close> (the YAML library is
  the parameters \<open>parse_yaml\<close> and \<open>stringify_yaml\<close>), the store operations \<open>read\<close>, \<open>write\<close> and
  \<open>patch\<close> on the files of the five lifecycle directories, the transition log of
  \<^verbatim>\<open>lifecycle/TransitionRecorder.ts\<close> with the duplicate test of \<^verbatim>\<open>lifecycle/transitionIdempotency.ts\<close>,
  and the lookup of a task file of \<^verbatim>\<open>lifecycle/taskPathUtils.ts\<close>. A path below the lifecycle root
  is the pair of its stage directory and its file name.
\<close>

section \<open>The frontmatter format\<close>

datatype yaml_value = Yaml_object task_fm | Yaml_other

datatype frontmatter_error = Missing_frontmatter | Unclosed_frontmatter | Yaml_parse_failed

abbreviation "newline \<equiv> CHR 0x0A"
abbreviation "carriage \<equiv> CHR 0x0D"

definition strip_cr :: "string \<Rightarrow> string" where
  "strip_cr l = (if l \<noteq> [] \<and> last l = carriage then butlast l else l)"

text \<open>
  The loop of \<open>findClosingDelimiter\<close>: \<open>acc\<close> is the source from \<open>startIndex\<close> to \<open>lineStart\<close>,
  the other argument the source from \<open>lineStart\<close> on; the result is \<open>yamlBody\<close> and the source
  from \<open>bodyStart\<close> on.
\<close>

function find_closing_delimiter :: "string \<Rightarrow> string \<Rightarrow> (string \<times> string) option" where
  "find_closing_delimiter acc src =
     (if src = [] then None
      else let line = takeWhile (\<lambda>c. c \<noteq> newline) src; after = drop (length line) src in
        if strip_cr line = ''---'' then Some (acc, tl after)
        else if after = [] then None
        else find_closing_delimiter (acc @ line @ [newline]) (tl after))"
  by pat_completeness auto
termination
  by (relation "measure (\<lambda>(acc, src). length src)") auto

declare find_closing_delimiter.simps [simp del]

definition js_trim_end :: "string \<Rightarrow> string" where
  "js_trim_end s = rev (dropWhile js_space (rev s))"

definition read_raw ::
  "(string \<Rightarrow> yaml_value option) \<Rightarrow> string \<Rightarrow> frontmatter_error + (task_fm \<times> string)" where
  "read_raw parse_yaml raw =
     (let start = (if js_starts raw (''---'' @ [newline]) then 4
                   else if js_starts raw (''---'' @ [carriage, newline]) then 5 else 0) in
      if start = 0 then Inl Missing_frontmatter
      else case find_closing_delimiter [] (drop start raw) of
             None \<Rightarrow> Inl Unclosed_frontmatter
           | Some (yaml, body) \<Rightarrow>
               (case parse_yaml yaml of
                  None \<Rightarrow> Inl Yaml_parse_failed
                | Some (Yaml_object fm) \<Rightarrow> Inr (fm, body)
                | Some Yaml_other \<Rightarrow> Inr (empty_fm, body)))"

definition write_raw :: "(task_fm \<Rightarrow> string) \<Rightarrow> task_fm \<Rightarrow> string \<Rightarrow> string" where
  "write_raw stringify_yaml fm body =
     ''---'' @ [newline] @ js_trim_end (stringify_yaml fm) @ [newline] @ ''---'' @ [newline] @ body"

text \<open>No line of the text is the closing delimiter.\<close>

function no_delimiter_line :: "string \<Rightarrow> bool" where
  "no_delimiter_line s =
     (let line = takeWhile (\<lambda>c. c \<noteq> newline) s; after = drop (length line) s in
      strip_cr line \<noteq> ''---'' \<and> (if after = [] then True else no_delimiter_line (tl after)))"
  by pat_completeness auto
termination
proof (relation "measure length")
  fix s line after :: string
  assume "after = drop (length line) s" and "after \<noteq> []"
  then show "(tl after, s) \<in> measure length" by (cases s) auto
qed simp

declare no_delimiter_line.simps [simp del]

lemma find_closing_end:
  "find_closing_delimiter acc (''---'' @ [newline] @ body) = Some (acc, body)"
  by (subst find_closing_delimiter.simps) (simp add: strip_cr_def)

lemma takeWhile_line:
  "newline \<notin> set line \<Longrightarrow> takeWhile (\<lambda>c. c \<noteq> newline) (line @ newline # zs) = line"
  by (induction line) auto

lemma find_closing_step:
  "newline \<notin> set line \<Longrightarrow> strip_cr line \<noteq> ''---'' \<Longrightarrow>
   find_closing_delimiter acc (line @ newline # zs) = find_closing_delimiter (acc @ line @ [newline]) zs"
  by (subst find_closing_delimiter.simps) (simp add: Let_def takeWhile_line)

lemma line_split:
  obtains line where "y = line" "newline \<notin> set line"
    "no_delimiter_line y \<longleftrightarrow> strip_cr line \<noteq> ''---''"
  | line z where "y = line @ newline # z" "newline \<notin> set line"
    "no_delimiter_line y \<longleftrightarrow> strip_cr line \<noteq> ''---'' \<and> no_delimiter_line z"
proof (cases "newline \<in> set y")
  case True
  then obtain line z where y: "y = line @ newline # z" "newline \<notin> set line"
    by (meson split_list_first)
  then have "no_delimiter_line y \<longleftrightarrow> strip_cr line \<noteq> ''---'' \<and> no_delimiter_line z"
    by (subst no_delimiter_line.simps) (simp add: Let_def takeWhile_line)
  with y that(2) show thesis by blast
next
  case False
  then have tw: "takeWhile (\<lambda>c. c \<noteq> newline) y = y"
    by (auto simp: takeWhile_eq_all_conv)
  have "no_delimiter_line y \<longleftrightarrow> strip_cr y \<noteq> ''---''"
    unfolding no_delimiter_line.simps [of y] Let_def tw by simp
  with False that(1) show thesis by blast
qed

lemma find_closing_delimiter_append:
  "no_delimiter_line y \<Longrightarrow>
   find_closing_delimiter acc (y @ newline # ''---'' @ newline # body)
     = Some (acc @ y @ [newline], body)"
proof (induction "length y" arbitrary: y acc rule: less_induct)
  case less
  show ?case
  proof (rule line_split [of y])
    fix line assume "y = line" "newline \<notin> set line" "no_delimiter_line y \<longleftrightarrow> strip_cr line \<noteq> ''---''"
    with less.prems find_closing_step [of line acc] find_closing_end [of "acc @ line @ [newline]" body]
    show ?thesis by simp
  next
    fix line z
    assume y: "y = line @ newline # z" "newline \<notin> set line"
      and nd: "no_delimiter_line y \<longleftrightarrow> strip_cr line \<noteq> ''---'' \<and> no_delimiter_line z"
    have "find_closing_delimiter acc (line @ newline # z @ newline # ''---'' @ newline # body)
        = find_closing_delimiter (acc @ line @ [newline]) (z @ newline # ''---'' @ newline # body)"
      using y nd less.prems by (intro find_closing_step) simp_all
    also have "\<dots> = Some ((acc @ line @ [newline]) @ z @ [newline], body)"
      using y nd less.prems by (intro less.hyps) simp_all
    finally show ?thesis using y by simp
  qed
qed

section \<open>The store\<close>

datatype task_file = Task_file task_fm string | Bad_file

type_synonym task_path = "lifecycle_stage \<times> string"
type_synonym task_files = "(task_path, task_file) js_map"

text \<open>\<open>assertWritable\<close>: the frontmatter is not frozen and the path is not below the archive.\<close>

definition assert_writable :: "task_path \<Rightarrow> task_fm \<Rightarrow> bool \<Rightarrow> lifecycle_error + unit" where
  "assert_writable path fm allow_frozen =
     (if allow_frozen then Inr () else if fm_frozen fm then Inl Task_frozen
      else if fst path = Archive then Inl Task_frozen else Inr ())"

definition store_read :: "task_path \<Rightarrow> (task_files, lifecycle_error, task_fm \<times> string) act" where
  "store_read path fs =
     (case map_of fs path of
        None \<Rightarrow> (Inl Missing_file, fs)
      | Some Bad_file \<Rightarrow> (Inl Task_unreadable, fs)
      | Some (Task_file fm body) \<Rightarrow> (Inr (fm, body), fs))"

definition put_file :: "task_path \<Rightarrow> task_file \<Rightarrow> (task_files, lifecycle_error, unit) act" where
  "put_file path f fs = (Inr (), AList.update path f fs)"

definition store_write ::
  "task_path \<Rightarrow> task_fm \<Rightarrow> string \<Rightarrow> bool \<Rightarrow> (task_files, lifecycle_error, unit) act" where
  "store_write path fm body allow_frozen =
     act_bind (act_check (assert_writable path fm allow_frozen))
       (\<lambda>_. put_file path (Task_file fm body))"

definition store_patch ::
  "task_path \<Rightarrow> (task_fm \<Rightarrow> task_fm) \<Rightarrow> bool \<Rightarrow> (task_files, lifecycle_error, unit) act" where
  "store_patch path f allow_frozen =
     act_bind (store_read path) (\<lambda>(fm, body).
     act_bind (act_check (assert_writable path fm allow_frozen)) (\<lambda>_.
     store_write path (f fm) body allow_frozen))"

text \<open>\<open>fs.rename\<close>: the file moves, replacing a file of that path.\<close>

definition rename_file :: "task_path \<Rightarrow> task_path \<Rightarrow> (task_files, lifecycle_error, unit) act" where
  "rename_file src dst fs =
     (case map_of fs src of
        None \<Rightarrow> (Inl Missing_file, fs)
      | Some f \<Rightarrow> (Inr (), AList.update dst f (AList.delete src fs)))"

section \<open>Finding a task\<close>

definition match_task_filename :: "string \<Rightarrow> string \<Rightarrow> bool" where
  "match_task_filename name stem \<longleftrightarrow>
     js_ends name ''.md'' \<and>
     (name = stem @ ''.md'' \<or> js_starts name (stem @ ''-'') \<or> js_starts name stem)"

definition stage_filenames :: "lifecycle_stage \<Rightarrow> task_files \<Rightarrow> string list" where
  "stage_filenames st fs = map (snd \<circ> fst) (filter (\<lambda>x. fst (fst x) = st) fs)"

fun find_in_stages :: "string \<Rightarrow> task_files \<Rightarrow> lifecycle_stage list \<Rightarrow> task_path option" where
  "find_in_stages stem fs [] = None"
| "find_in_stages stem fs (st # sts) =
     (case List.find (\<lambda>n. match_task_filename n stem) (stage_filenames st fs) of
        Some n \<Rightarrow> Some (st, n)
      | None \<Rightarrow> find_in_stages stem fs sts)"

definition find_task_path_by_id :: "task_files \<Rightarrow> string \<Rightarrow> task_path option" where
  "find_task_path_by_id fs task_id = find_in_stages (strip_md task_id) fs all_stages"

section \<open>Transitions\<close>

record transition_input =
  ti_from :: "lifecycle_stage option"
  ti_to :: lifecycle_stage
  ti_by :: string
  ti_action :: string
  ti_reason :: "string option"
  ti_report :: "string option"
  ti_decision :: "string option"
  ti_based_on :: "string list option"
  ti_child_task :: "string option"

record transition_compare =
  tc_from :: "string option"
  tc_to :: string
  tc_by :: string
  tc_tool :: string
  tc_note :: string

definition norm_str :: "string option \<Rightarrow> string" where
  "norm_str v = js_trim (str_of v)"

definition norm_from :: "string option \<Rightarrow> string option" where
  "norm_from v = (let s = norm_str v in if s = [] \<or> s = ''null'' then None else Some s)"

text \<open>\<open>a || b\<close> on optional strings\<close>

definition js_or :: "string option \<Rightarrow> string option \<Rightarrow> string option" where
  "js_or a b = (if truthy a then a else b)"

definition transition_compare_from_record :: "transition \<Rightarrow> transition_compare" where
  "transition_compare_from_record r =
     \<lparr>tc_from = norm_from (tr_from r), tc_to = norm_str (tr_to r), tc_by = norm_str (tr_by r),
      tc_tool = norm_str (js_or (tr_tool r) (tr_action r)),
      tc_note = norm_str (js_or (tr_note r) (tr_reason r))\<rparr>"

definition transition_compare_from_input :: "transition_input \<Rightarrow> transition_compare" where
  "transition_compare_from_input i =
     \<lparr>tc_from = map_option stage_name (ti_from i), tc_to = stage_name (ti_to i), tc_by = ti_by i,
      tc_tool = norm_str (Some (ti_action i)), tc_note = norm_str (ti_reason i)\<rparr>"

definition is_duplicate_transition :: "transition option \<Rightarrow> transition_compare \<Rightarrow> bool" where
  "is_duplicate_transition last_tr next =
     (case last_tr of None \<Rightarrow> False | Some r \<Rightarrow> transition_compare_from_record r = next)"

definition last_transition :: "transition list \<Rightarrow> transition option" where
  "last_transition ts = (if ts = [] then None else Some (last ts))"

definition keep_truthy :: "string option \<Rightarrow> string option" where
  "keep_truthy v = (if truthy v then v else None)"

definition transition_of_input :: "time \<Rightarrow> transition_input \<Rightarrow> transition" where
  "transition_of_input now i =
     \<lparr>tr_at = Some (local_iso now), tr_from = map_option stage_name (ti_from i),
      tr_to = Some (stage_name (ti_to i)), tr_by = Some (ti_by i), tr_action = Some (ti_action i),
      tr_tool = None, tr_note = None, tr_reason = keep_truthy (ti_reason i),
      tr_report = keep_truthy (ti_report i), tr_decision = keep_truthy (ti_decision i),
      tr_based_on = ti_based_on i, tr_child_task = keep_truthy (ti_child_task i)\<rparr>"

definition lifecycle_dir :: "lifecycle_stage \<Rightarrow> string" where
  "lifecycle_dir st = ''fcop/_lifecycle/'' @ stage_name st"

text \<open>
  \<open>TransitionRecorder.append\<close> on the store it was constructed with; the result tells whether a
  transition was appended.
\<close>

definition recorder_append ::
  "('p \<Rightarrow> ('s, 'e, task_fm \<times> string) act) \<Rightarrow>
   ('p \<Rightarrow> task_fm \<Rightarrow> string \<Rightarrow> bool \<Rightarrow> ('s, 'e, unit) act) \<Rightarrow>
   time \<Rightarrow> 'p \<Rightarrow> transition_input \<Rightarrow> bool \<Rightarrow> ('s, 'e, bool) act" where
  "recorder_append rd wr now path i allow_frozen =
     act_bind (rd path) (\<lambda>(fm, body).
     if is_duplicate_transition (last_transition (fm_transitions fm)) (transition_compare_from_input i)
     then act_return False
     else
       act_bind
         (wr path
            (fm\<lparr>fm_state := Some (stage_name (ti_to i)),
                fm_lifecycle_path := Some (lifecycle_dir (ti_to i)),
                fm_transitions := fm_transitions fm @ [transition_of_input now i]\<rparr>)
            body allow_frozen)
         (\<lambda>_. act_return True))"

definition append_transition ::
  "time \<Rightarrow> task_path \<Rightarrow> transition_input \<Rightarrow> bool \<Rightarrow> (task_files, lifecycle_error, bool) act" where
  "append_transition = recorder_append store_read store_write"

section \<open>The contract of the store\<close>

text \<open>
  What the recorder relies on: a read changes nothing, an allowed write is read back and touches
  no other path, a protected one is refused and writes nothing.
\<close>

locale task_store =
  fixes rd :: "'p \<Rightarrow> ('s, 'e, task_fm \<times> string) act"
    and wr :: "'p \<Rightarrow> task_fm \<Rightarrow> string \<Rightarrow> bool \<Rightarrow> ('s, 'e, unit) act"
    and protected_doc :: "'p \<Rightarrow> task_fm \<Rightarrow> bool"
  assumes rd_pure: "snd (rd p s) = s"
    and wr_ok: "allow \<or> \<not> protected_doc p fm \<Longrightarrow> \<exists>s'. wr p fm body allow s = (Inr (), s') \<and>
          fst (rd p s') = Inr (fm, body) \<and> (\<forall>q. q \<noteq> p \<longrightarrow> fst (rd q s') = fst (rd q s))"
    and wr_denied: "\<not> allow \<Longrightarrow> protected_doc p fm \<Longrightarrow> \<exists>e. wr p fm body allow s = (Inl e, s)"
begin

definition appended :: "time \<Rightarrow> transition_input \<Rightarrow> task_fm \<Rightarrow> task_fm" where
  "appended now i fm =
     fm\<lparr>fm_state := Some (stage_name (ti_to i)),
        fm_lifecycle_path := Some (lifecycle_dir (ti_to i)),
        fm_transitions := fm_transitions fm @ [transition_of_input now i]\<rparr>"

lemma rd_eq: "fst (rd p s) = r \<Longrightarrow> rd p s = (r, s)"
  using rd_pure [of p s] by (cases "rd p s") simp

lemma append_duplicate:
  "fst (rd p s) = Inr (fm, body) \<Longrightarrow>
   is_duplicate_transition (last_transition (fm_transitions fm)) (transition_compare_from_input i) \<Longrightarrow>
   recorder_append rd wr now p i allow s = (Inr False, s)"
  by (drule rd_eq) (simp add: recorder_append_def act_bind_Inr act_simps)

lemma append_new:
  assumes "fst (rd p s) = Inr (fm, body)"
    and "\<not> is_duplicate_transition (last_transition (fm_transitions fm)) (transition_compare_from_input i)"
    and "allow \<or> \<not> protected_doc p (appended now i fm)"
  shows "\<exists>s'. recorder_append rd wr now p i allow s = (Inr True, s')
    \<and> fst (rd p s') = Inr (appended now i fm, body) \<and> (\<forall>q. q \<noteq> p \<longrightarrow> fst (rd q s') = fst (rd q s))"
proof -
  from wr_ok [OF assms(3), of body s] obtain s' where
    s': "wr p (appended now i fm) body allow s = (Inr (), s')"
      "fst (rd p s') = Inr (appended now i fm, body)" "\<forall>q. q \<noteq> p \<longrightarrow> fst (rd q s') = fst (rd q s)"
    by blast
  have "recorder_append rd wr now p i allow s = (Inr True, s')"
    using rd_eq [OF assms(1)] assms(2) s'(1)
    by (simp add: recorder_append_def act_bind_Inr act_simps appended_def)
  with s' show ?thesis by blast
qed

lemma append_denied:
  assumes "fst (rd p s) = Inr (fm, body)"
    and "\<not> is_duplicate_transition (last_transition (fm_transitions fm)) (transition_compare_from_input i)"
    and "\<not> allow" and "protected_doc p (appended now i fm)"
  shows "\<exists>e. recorder_append rd wr now p i allow s = (Inl e, s)"
  using rd_eq [OF assms(1)] assms(2) wr_denied [OF assms(3,4), of body s]
  by (auto simp: recorder_append_def act_bind_Inr act_bind_Inl appended_def)

text \<open>An unreadable document is an error, and nothing is written.\<close>

lemma append_unreadable:
  "fst (rd p s) = Inl e \<Longrightarrow> recorder_append rd wr now p i allow s = (Inl e, s)"
  by (drule rd_eq) (simp add: recorder_append_def act_bind_Inl)

end

lemma put_read_same [simp]: "store_read p (AList.update p (Task_file fm body) fs) = (Inr (fm, body), AList.update p (Task_file fm body) fs)"
  by (simp add: store_read_def)

lemma store_read_pure [simp]: "snd (store_read p fs) = fs"
  by (simp add: store_read_def split: option.split task_file.split)

lemma assert_writable_Inr [simp]:
  "assert_writable p fm allow = Inr u \<longleftrightarrow> allow \<or> (\<not> fm_frozen fm \<and> fst p \<noteq> Archive)"
  by (auto simp: assert_writable_def)

lemma assert_writable_cases:
  "assert_writable p fm allow = (if allow \<or> (\<not> fm_frozen fm \<and> fst p \<noteq> Archive) then Inr () else Inl Task_frozen)"
  by (simp add: assert_writable_def)

lemma store_write_eq:
  "store_write p fm body allow fs =
     (if allow \<or> (\<not> fm_frozen fm \<and> fst p \<noteq> Archive)
      then (Inr (), AList.update p (Task_file fm body) fs) else (Inl Task_frozen, fs))"
  by (simp add: store_write_def assert_writable_cases act_simps put_file_def)

lemma store_read_Inr_iff: "store_read p fs = (Inr (fm, body), fs') \<longleftrightarrow> fs' = fs \<and> map_of fs p = Some (Task_file fm body)"
  by (auto simp: store_read_def split: option.splits task_file.splits)

lemma fst_store_read_Inr_iff: "fst (store_read p fs) = Inr (fm, body) \<longleftrightarrow> map_of fs p = Some (Task_file fm body)"
  by (auto simp: store_read_def split: option.splits task_file.splits)

lemma store_read_other: "map_of fs' q = map_of fs q \<Longrightarrow> fst (store_read q fs') = fst (store_read q fs)"
  by (simp add: store_read_def split: option.splits task_file.splits)

interpretation task_files: task_store store_read store_write
  "\<lambda>p fm. fm_frozen fm \<or> fst p = Archive"
  by unfold_locales (auto simp: store_write_eq intro: store_read_other)

text \<open>The three outcomes of an append on the model's files.\<close>

lemma append_transition_eq:
  "append_transition now p i allow fs =
     (case fst (store_read p fs) of
        Inl e \<Rightarrow> (Inl e, fs)
      | Inr (fm, body) \<Rightarrow>
          if is_duplicate_transition (last_transition (fm_transitions fm)) (transition_compare_from_input i)
          then (Inr False, fs)
          else if allow \<or> (\<not> fm_frozen fm \<and> fst p \<noteq> Archive)
          then (Inr True, AList.update p (Task_file (task_files.appended now i fm) body) fs)
          else (Inl Task_frozen, fs))"
proof -
  have "store_read p fs = (fst (store_read p fs), fs)" by (simp add: prod_eq_iff)
  then show ?thesis
    by (cases "fst (store_read p fs)")
       (auto simp: append_transition_def recorder_append_def act_bind_def act_simps
          store_write_eq task_files.appended_def split: prod.splits)
qed

lemma store_patch_eq:
  "store_patch p f allow fs =
     (case fst (store_read p fs) of
        Inl e \<Rightarrow> (Inl e, fs)
      | Inr (fm, body) \<Rightarrow>
          if allow \<or> (\<not> fm_frozen fm \<and> \<not> fm_frozen (f fm) \<and> fst p \<noteq> Archive)
          then (Inr (), AList.update p (Task_file (f fm) body) fs)
          else (Inl Task_frozen, fs))"
proof -
  have "store_read p fs = (fst (store_read p fs), fs)" by (simp add: prod_eq_iff)
  then show ?thesis
    by (cases "fst (store_read p fs)")
       (auto simp: store_patch_def act_bind_def act_simps assert_writable_cases
          store_write_eq split: prod.splits)
qed

section \<open>Duplicate transitions\<close>

lemma js_trim_stage_name [simp]: "js_trim (stage_name st) = stage_name st"
  by (cases st) (simp_all add: js_defs)

lemma norm_from_stage [simp]: "norm_from (Some (stage_name st)) = Some (stage_name st)"
  by (cases st) (simp_all add: norm_from_def norm_str_def js_defs Let_def)

lemma norm_str_keep_truthy [simp]: "norm_str (keep_truthy v) = norm_str v"
  by (cases v) (auto simp: norm_str_def keep_truthy_def)

lemma norm_str_js_or_None [simp]: "norm_str (js_or None v) = norm_str v"
  by (simp add: js_or_def)

text \<open>A recorded transition compares equal to its input once the actor carries no outer blanks.\<close>

lemma compare_recorded:
  assumes "js_trim (ti_by i) = ti_by i"
  shows "transition_compare_from_record (transition_of_input now i) = transition_compare_from_input i"
proof -
  have "norm_from (map_option stage_name (ti_from i)) = map_option stage_name (ti_from i)"
    using norm_from_stage by (cases "ti_from i") (simp_all, simp add: norm_from_def norm_str_def)
  with assms show ?thesis
    by (simp add: transition_compare_from_record_def transition_compare_from_input_def
        transition_of_input_def) (simp add: norm_str_def)
qed

lemma duplicate_after_append:
  "js_trim (ti_by i) = ti_by i \<Longrightarrow>
   is_duplicate_transition (last_transition (ts @ [transition_of_input now i])) (transition_compare_from_input i)"
  by (simp add: is_duplicate_transition_def last_transition_def compare_recorded)

section \<open>Properties\<close>

text \<open>
  C38. A task file that the store writes is taken apart again where it was put together: if the printed frontmatter
  has no line \<open>---\<close> (in YAML such a line ends a document, so none stands inside one), then reading hands the YAML
  parser exactly the printed block, trimmed at its end and closed by one line break, and answers with what the parser
  makes of it and with the very body that was written, also when that body holds lines that look like delimiters.
  Printer and parser are any functions: that the parser understands what the printer wrote is not assumed, and when it
  does not, or finds no object, the answer says so.
\<close>

theorem frontmatter_round_trip:
  assumes "no_delimiter_line (js_trim_end (stringify_yaml fm))"
  shows "read_raw parse_yaml (write_raw stringify_yaml fm body) =
    (case parse_yaml (js_trim_end (stringify_yaml fm) @ [newline]) of
       None \<Rightarrow> Inl Yaml_parse_failed
     | Some (Yaml_object fm') \<Rightarrow> Inr (fm', body)
     | Some Yaml_other \<Rightarrow> Inr (empty_fm, body))"
  using find_closing_delimiter_append [OF assms, of "[]" body]
  by (simp add: read_raw_def write_raw_def js_starts_def)

definition sample_stringify :: "task_fm \<Rightarrow> string" where
  "sample_stringify fm = ''task_id: '' @ str_of (fm_task_id fm) @ [newline]"

definition sample_parse :: "string \<Rightarrow> yaml_value option" where
  "sample_parse s =
     (if js_starts s ''task_id: ''
      then Some (Yaml_object (empty_fm\<lparr>fm_task_id := Some (takeWhile (\<lambda>c. c \<noteq> newline) (drop 9 s))\<rparr>))
      else Some Yaml_other)"

theorem frontmatter_round_trip_witness:
  "read_raw sample_parse (write_raw sample_stringify (empty_fm\<lparr>fm_task_id := Some ''TASK-1''\<rparr>)
     (''text'' @ [newline] @ ''---'' @ [newline]))
   = Inr (empty_fm\<lparr>fm_task_id := Some ''TASK-1''\<rparr>, ''text'' @ [newline] @ ''---'' @ [newline])"
proof -
  let ?fm = "empty_fm\<lparr>fm_task_id := Some ''TASK-1''\<rparr>"
  have "no_delimiter_line (js_trim_end (sample_stringify ?fm))"
    by (subst no_delimiter_line.simps)
       (simp add: sample_stringify_def js_trim_end_def strip_cr_def js_space_def)
  moreover have "sample_parse (js_trim_end (sample_stringify ?fm) @ [newline]) = Some (Yaml_object ?fm)"
    by (simp add: sample_parse_def sample_stringify_def js_trim_end_def js_defs)
  ultimately show ?thesis by (simp only: frontmatter_round_trip option.case yaml_value.case)
qed

text \<open>The hypothesis is needed: a block with such a line is cut there, and the rest becomes part of the body.\<close>

lemma delimiter_in_block_cuts:
  "read_raw (\<lambda>yaml. Some Yaml_other) (write_raw (\<lambda>fm. ''a: 1'' @ [newline] @ ''---'' @ [newline] @ ''b: 2'') empty_fm ''text'')
   = Inr (empty_fm, ''b: 2'' @ [newline] @ ''---'' @ [newline] @ ''text'')"
  by code_simp

text \<open>
  Recording is idempotent: after a transition was appended, appending the same transition
  again, at any later time, reports a duplicate and leaves every file as it is.
\<close>

theorem append_transition_idempotent:
  assumes "js_trim (ti_by i) = ti_by i" and "append_transition now p i allow fs = (Inr done, fs')"
  shows "append_transition later p i allow' fs' = (Inr False, fs')"
proof (cases "fst (store_read p fs)")
  case (Inl e)
  with assms(2) show ?thesis by (simp add: append_transition_eq)
next
  case (Inr doc)
  then obtain fm body where doc: "fst (store_read p fs) = Inr (fm, body)" by (cases doc) auto
  show ?thesis
  proof (cases "is_duplicate_transition (last_transition (fm_transitions fm)) (transition_compare_from_input i)")
    case True
    with assms(2) doc show ?thesis by (simp add: append_transition_eq)
  next
    case False
    with assms(2) doc have "fs' = AList.update p (Task_file (task_files.appended now i fm) body) fs"
      by (simp add: append_transition_eq split: if_splits)
    then show ?thesis
      using duplicate_after_append [OF assms(1), of "fm_transitions fm" now]
      by (simp add: append_transition_eq task_files.appended_def)
  qed
qed

definition sample_transition :: transition_input where
  "sample_transition = \<lparr>ti_from = Some Active, ti_to = Review, ti_by = ''DEV'', ti_action = ''submit_review'',
     ti_reason = None, ti_report = Some ''REPORT-1'', ti_decision = None, ti_based_on = None,
     ti_child_task = None\<rparr>"

definition sample_files :: task_files where
  "sample_files = [((Active, ''TASK-1.md''), Task_file (empty_fm\<lparr>fm_task_id := Some ''TASK-1''\<rparr>) ''body''),
     ((Archive, ''TASK-0.md''), Task_file (empty_fm\<lparr>fm_frozen := True\<rparr>) ''old'')]"

lemma sample_append:
  "append_transition 5 (Active, ''TASK-1.md'') sample_transition False sample_files
   = (Inr True, AList.update (Active, ''TASK-1.md'')
       (Task_file (task_files.appended 5 sample_transition (empty_fm\<lparr>fm_task_id := Some ''TASK-1''\<rparr>)) ''body'')
       sample_files)"
  by (simp add: append_transition_eq store_read_def sample_files_def empty_fm_def
      is_duplicate_transition_def last_transition_def)

theorem append_transition_idempotent_witness:
  "\<exists>fs'. append_transition 5 (Active, ''TASK-1.md'') sample_transition False sample_files = (Inr True, fs')
     \<and> append_transition 9 (Active, ''TASK-1.md'') sample_transition False fs' = (Inr False, fs')"
proof -
  have "js_trim (ti_by sample_transition) = ti_by sample_transition"
    by (simp add: sample_transition_def js_defs)
  then show ?thesis
    using sample_append append_transition_idempotent [OF _ sample_append, of 9 False] by blast
qed

text \<open>
  The transition log is append-only and its last entry is the file's state: an append that
  succeeds leaves every other file alone, and either changes nothing (the log already ends with
  an equal transition) or extends the log of the task by exactly the transition, to which the
  frontmatter's \<open>state\<close> and \<open>lifecycle_path\<close> then agree.
\<close>

theorem append_transition_extends_log:
  assumes "append_transition now p i allow fs = (Inr done, fs')"
    and "map_of fs p = Some (Task_file fm body)"
  shows "\<exists>fm'. map_of fs' p = Some (Task_file fm' body)
     \<and> fm_transitions fm' = fm_transitions fm @ (if done then [transition_of_input now i] else [])
     \<and> (done \<longrightarrow> fm_state fm' = Some (stage_name (ti_to i))
              \<and> fm_lifecycle_path fm' = Some (lifecycle_dir (ti_to i)))
     \<and> (\<not> done \<longrightarrow> fm' = fm)
     \<and> (\<forall>q. q \<noteq> p \<longrightarrow> map_of fs' q = map_of fs q)"
proof -
  have doc: "fst (store_read p fs) = Inr (fm, body)" using assms(2) by (simp add: store_read_def)
  show ?thesis
    using assms doc
    by (cases "is_duplicate_transition (last_transition (fm_transitions fm)) (transition_compare_from_input i)")
       (auto simp: append_transition_eq task_files.appended_def split: if_splits)
qed

theorem append_transition_extends_log_witness:
  "\<exists>fs' fm'. append_transition 5 (Active, ''TASK-1.md'') sample_transition False sample_files = (Inr True, fs')
     \<and> map_of fs' (Active, ''TASK-1.md'') = Some (Task_file fm' ''body'')
     \<and> fm_transitions fm' = [transition_of_input 5 sample_transition]
     \<and> fm_state fm' = Some ''review''"
proof -
  have file_at: "map_of sample_files (Active, ''TASK-1.md'') = Some (Task_file (empty_fm\<lparr>fm_task_id := Some ''TASK-1''\<rparr>) ''body'')"
    by (simp add: sample_files_def)
  show ?thesis
    using sample_append append_transition_extends_log [OF sample_append file_at]
    by (auto simp: sample_transition_def empty_fm_def)
qed

text \<open>
  Archived and frozen tasks are protected: without the explicit permission, a patch or a
  new transition on a task that is frozen or lies in the archive is refused and no file changes.
\<close>

theorem frozen_task_protected:
  assumes "map_of fs p = Some (Task_file fm body)" and "fm_frozen fm \<or> fst p = Archive"
    and "\<not> is_duplicate_transition (last_transition (fm_transitions fm)) (transition_compare_from_input i)"
  shows "store_patch p f False fs = (Inl Task_frozen, fs)
       \<and> append_transition now p i False fs = (Inl Task_frozen, fs)"
proof -
  have doc: "fst (store_read p fs) = Inr (fm, body)" using assms(1) by (simp add: store_read_def)
  with assms(2,3) show ?thesis by (auto simp: store_patch_eq append_transition_eq)
qed

theorem frozen_task_protected_witness:
  "store_patch (Archive, ''TASK-0.md'') (fm_state_update (\<lambda>_. None)) False sample_files = (Inl Task_frozen, sample_files)
   \<and> append_transition 5 (Archive, ''TASK-0.md'') sample_transition False sample_files
       = (Inl Task_frozen, sample_files)"
proof -
  have "map_of sample_files (Archive, ''TASK-0.md'') = Some (Task_file (empty_fm\<lparr>fm_frozen := True\<rparr>) ''old'')"
    by (simp add: sample_files_def)
  then show ?thesis
    by (rule frozen_task_protected) (simp_all add: is_duplicate_transition_def last_transition_def empty_fm_def)
qed

end
