(* ===== verification/Lifecycle_Children.thy ===== *)
theory Lifecycle_Children
  imports Lifecycle_Store
begin

text \<open>
  Parent and child tasks: the residue predicates of \<^verbatim>\<open>lifecycle/closedParentResidue.ts\<close>, and the
  gate of \<^verbatim>\<open>lifecycle/childTaskArchiveGate.ts\<close> that keeps a mainline task from being archived
  while a descendant is still open, or closes the open descendants when the archive is forced.
\<close>

section \<open>Residue predicates (\<^verbatim>\<open>closedParentResidue.ts\<close>)\<close>

definition closed_parent_residue_display :: string where
  "closed_parent_residue_display = ''closed_parent_residue''"

definition norm_text :: "string option \<Rightarrow> string" where
  "norm_text v = js_lower (js_trim (str_of v))"

definition is_admin_mainline_task_filename :: "string \<Rightarrow> bool" where
  "is_admin_mainline_task_filename n \<longleftrightarrow> js_includes (js_lower n) ''-admin-to-pm''"

definition has_explicit_parent :: "task_fm \<Rightarrow> bool" where
  "has_explicit_parent fm \<longleftrightarrow> js_trim (str_of (coalesce (fm_parent fm) (fm_parent_task_id fm))) \<noteq> []"

definition is_admin_mainline_root_task :: "string \<Rightarrow> task_fm \<Rightarrow> bool" where
  "is_admin_mainline_root_task n fm \<longleftrightarrow>
     is_admin_mainline_task_filename n \<and> \<not> has_explicit_parent fm"

definition is_archived_by_parent_mainline :: "task_fm \<Rightarrow> bool" where
  "is_archived_by_parent_mainline fm \<longleftrightarrow> fm_archived_by_parent_mainline fm"

definition is_closed_parent_residue_marked :: "task_fm \<Rightarrow> bool" where
  "is_closed_parent_residue_marked fm \<longleftrightarrow>
     fm_terminated_by_parent_archive fm \<or> fm_closed_parent_residue fm
     \<or> norm_text (fm_display_status fm) = closed_parent_residue_display"

definition open_buckets :: "string set" where
  "open_buckets = {''inbox'', ''active'', ''review''}"

definition is_open_lifecycle_bucket :: "string \<Rightarrow> bool" where
  "is_open_lifecycle_bucket b \<longleftrightarrow> js_lower (js_trim b) \<in> open_buckets"

definition is_open_lifecycle_projection :: "string option \<Rightarrow> bool" where
  "is_open_lifecycle_projection p \<longleftrightarrow> norm_text p \<in> open_buckets"

definition is_state_bucket_mismatch :: "string \<Rightarrow> task_fm \<Rightarrow> bool" where
  "is_state_bucket_mismatch b fm \<longleftrightarrow>
     js_lower (js_trim b) = ''inbox'' \<and> norm_text (fm_state fm) = ''dispatched''"

definition is_parent_task_closed :: "task_fm \<Rightarrow> string \<Rightarrow> bool" where
  "is_parent_task_closed fm b \<longleftrightarrow>
     js_lower (js_trim b) \<in> {''archive'', ''done''} \<or> fm_frozen fm
     \<or> norm_text (fm_lifecycle_projection fm) \<in> {''archive'', ''done''}
     \<or> norm_text (fm_display_status fm) = ''archived''"

definition is_task_open_for_archive_gate :: "string \<Rightarrow> task_fm \<Rightarrow> bool" where
  "is_task_open_for_archive_gate b fm =
     (if is_closed_parent_residue_marked fm then False
      else if js_lower (js_trim b) \<in> {''done'', ''archive''} then False
      else if is_open_lifecycle_bucket (js_lower (js_trim b)) then True
      else is_open_lifecycle_projection (Some (norm_text (fm_lifecycle_projection fm))))"

definition is_force_archived_without_residue_mark :: "task_fm \<Rightarrow> string \<Rightarrow> bool" where
  "is_force_archived_without_residue_mark fm b =
     (if is_closed_parent_residue_marked fm then False
      else if js_lower (js_trim b) \<noteq> ''archive'' then False
      else norm_text (fm_archive_mode fm) = ''force'' \<or> norm_text (fm_task_type fm) = ''force_archive'')"

definition is_closed_parent_residue_task :: "task_fm \<Rightarrow> string \<Rightarrow> bool \<Rightarrow> bool" where
  "is_closed_parent_residue_task fm b parent_closed =
     (if is_closed_parent_residue_marked fm then True
      else if \<not> parent_closed then False
      else if is_open_lifecycle_bucket b then True
      else if is_force_archived_without_residue_mark fm b then True
      else is_open_lifecycle_projection (Some (norm_text (fm_lifecycle_projection fm))))"

lemma norm_text_simps [simp]: "norm_text None = []"
  by (simp add: norm_text_def)

lemma stage_name_lower [simp]: "js_lower (js_trim (stage_name st)) = stage_name st"
  by (cases st) (simp_all add: js_defs)

lemma open_bucket_stage [simp]:
  "is_open_lifecycle_bucket (stage_name st) \<longleftrightarrow> st = Inbox \<or> st = Active \<or> st = Review"
  by (cases st) (simp_all add: is_open_lifecycle_bucket_def open_buckets_def js_defs)

lemma open_for_archive_gate_stage [simp]:
  "is_task_open_for_archive_gate (stage_name st) fm \<longleftrightarrow>
     \<not> is_closed_parent_residue_marked fm \<and> (st = Inbox \<or> st = Active \<or> st = Review)"
  by (cases st) (simp_all add: is_task_open_for_archive_gate_def is_open_lifecycle_bucket_def
      open_buckets_def js_defs)

section \<open>Scanning and the parent chain\<close>

definition normalize_child_id :: "string \<Rightarrow> string" where
  "normalize_child_id raw =
     (let s = js_trim (strip_md raw) in
      case task_id_prefix s of Some p \<Rightarrow> js_upper p | None \<Rightarrow> js_upper s)"

definition parent_field :: "task_fm \<Rightarrow> string" where
  "parent_field fm = str_of (coalesce (fm_parent fm) (fm_parent_task_id fm))"

definition parent_matches_main :: "task_fm \<Rightarrow> string \<Rightarrow> bool" where
  "parent_matches_main fm main_task_id \<longleftrightarrow>
     js_trim (parent_field fm) \<noteq> [] \<and>
     normalize_child_id (js_trim (parent_field fm)) = normalize_child_id main_task_id"

record scanned_child =
  sc_task_id :: string
  sc_filename :: string
  sc_bucket :: lifecycle_stage
  sc_fm :: task_fm

text \<open>
  One directory after the other, in the order \<open>readdir\<close> lists it; files whose name does not match
  or that do not read are skipped. The names in a directory are distinct, so the \<open>seen\<close> set of
  the code never drops one.
\<close>

definition scan_stage :: "task_files \<Rightarrow> lifecycle_stage \<Rightarrow> scanned_child list" where
  "scan_stage fs st = List.map_filter (\<lambda>((s, n), f).
     if s \<noteq> st \<or> \<not> js_starts n ''TASK-'' \<or> \<not> js_ends n ''.md'' then None
     else (case f of Bad_file \<Rightarrow> None
           | Task_file fm body \<Rightarrow>
               Some \<lparr>sc_task_id = normalize_child_id (or_else (fm_task_id fm) (strip_md n)),
                     sc_filename = n, sc_bucket = st, sc_fm = fm\<rparr>)) fs"

definition scan_lifecycle_tasks :: "task_files \<Rightarrow> scanned_child list" where
  "scan_lifecycle_tasks fs = concat (map (scan_stage fs) all_stages)"

text \<open>\<open>new Map(scanned.map(...))\<close>: the last task of an id wins.\<close>

definition child_index :: "scanned_child list \<Rightarrow> (string, scanned_child) js_map" where
  "child_index ts = fold (\<lambda>t. AList.update (sc_task_id t) t) ts []"

function parent_walk :: "(string, scanned_child) js_map \<Rightarrow> string \<Rightarrow> string list \<Rightarrow> string \<Rightarrow> bool" where
  "parent_walk by_id main_id seen pid =
     (if pid = [] \<or> pid \<in> set seen then False
      else if pid = main_id then True
      else case map_of by_id pid of
             None \<Rightarrow> False
           | Some p \<Rightarrow> parent_walk by_id main_id (pid # seen) (normalize_child_id (parent_field (sc_fm p))))"
  by pat_completeness auto

text \<open>The loop ends on cyclic parents too: every round takes one more known id into \<open>seen\<close>.\<close>

termination
proof (relation "measure (\<lambda>(by_id, main_id, seen, pid). card (fst ` set by_id - set seen))")
  fix by_id :: "(string, scanned_child) js_map" and main_id pid :: string and seen p
  assume "\<not> (pid = [] \<or> pid \<in> set seen)" and "map_of by_id pid = Some p"
  then have "pid \<in> fst ` set by_id - set seen"
    by (metis Diff_iff fst_conv image_eqI map_of_SomeD)
  moreover have "fst ` set by_id - set (pid # seen) = (fst ` set by_id - set seen) - {pid}" by auto
  ultimately show "((by_id, main_id, pid # seen, normalize_child_id (parent_field (sc_fm p))),
      (by_id, main_id, seen, pid)) \<in> measure (\<lambda>(by_id, main_id, seen, pid). card (fst ` set by_id - set seen))"
    by (simp only: in_measure prod.case) (rule psubset_card_mono, auto)
qed simp

declare parent_walk.simps [simp del]

definition task_descends_from_main ::
  "scanned_child \<Rightarrow> (string, scanned_child) js_map \<Rightarrow> string \<Rightarrow> bool" where
  "task_descends_from_main t by_id main_task_id =
     parent_walk by_id (normalize_child_id main_task_id) [] (normalize_child_id (parent_field (sc_fm t)))"

section \<open>The gate\<close>

record open_child_ref =
  oc_task_id :: string
  oc_filename :: string
  oc_bucket :: lifecycle_stage
  oc_display_status :: "string option"
  oc_reason :: "string option"

definition open_reason :: "scanned_child \<Rightarrow> string" where
  "open_reason t =
     (if is_open_lifecycle_bucket (stage_name (sc_bucket t))
      then ''physical_bucket='' @ stage_name (sc_bucket t)
      else let projection = js_trim (str_of (fm_lifecycle_projection (sc_fm t))) in
        if projection \<noteq> [] then ''lifecycle_projection='' @ projection else ''lifecycle_state_open'')"

definition child_ref :: "scanned_child \<Rightarrow> open_child_ref" where
  "child_ref t =
     \<lparr>oc_task_id = sc_task_id t, oc_filename = sc_filename t, oc_bucket = sc_bucket t,
      oc_display_status = (let d = js_trim (str_of (fm_display_status (sc_fm t))) in if d = [] then None else Some d),
      oc_reason = Some (open_reason t)\<rparr>"

text \<open>The three \<open>continue\<close> tests that both loops start with.\<close>

definition is_related_child :: "(string, scanned_child) js_map \<Rightarrow> string \<Rightarrow> scanned_child \<Rightarrow> bool" where
  "is_related_child by_id main_id t =
     (if sc_task_id t = main_id then False
      else if is_admin_mainline_root_task (sc_filename t) (sc_fm t) then False
      else parent_matches_main (sc_fm t) main_id \<or> task_descends_from_main t by_id main_id)"

fun collect_loop ::
  "(string, scanned_child) js_map \<Rightarrow> string \<Rightarrow> bool \<Rightarrow> string list \<Rightarrow> scanned_child list \<Rightarrow> open_child_ref list" where
  "collect_loop by_id main_id open_only seen [] = []"
| "collect_loop by_id main_id open_only seen (t # ts) =
     (if \<not> is_related_child by_id main_id t then collect_loop by_id main_id open_only seen ts
      else if open_only \<and> \<not> is_task_open_for_archive_gate (stage_name (sc_bucket t)) (sc_fm t)
      then collect_loop by_id main_id open_only seen ts
      else if sc_task_id t \<in> set seen then collect_loop by_id main_id open_only seen ts
      else child_ref t # collect_loop by_id main_id open_only (sc_task_id t # seen) ts)"

definition collect_related_child_tasks :: "task_files \<Rightarrow> string \<Rightarrow> bool \<Rightarrow> open_child_ref list" where
  "collect_related_child_tasks fs main_task_id open_only =
     (let scanned = scan_lifecycle_tasks fs in
      collect_loop (child_index scanned) (normalize_child_id main_task_id) open_only [] scanned)"

record child_classes =
  blocking_open :: "open_child_ref list"
  blocking_not_accepted :: "open_child_ref list"
  auto_archive :: "open_child_ref list"

fun classify_loop ::
  "(string, scanned_child) js_map \<Rightarrow> string \<Rightarrow> string list \<Rightarrow> scanned_child list \<Rightarrow> open_child_ref list" where
  "classify_loop by_id main_id seen [] = []"
| "classify_loop by_id main_id seen (t # ts) =
     (if \<not> is_related_child by_id main_id t then classify_loop by_id main_id seen ts
      else if sc_task_id t \<in> set seen then classify_loop by_id main_id seen ts
      else if is_closed_parent_residue_marked (sc_fm t) then classify_loop by_id main_id (sc_task_id t # seen) ts
      else if sc_bucket t = Archive then classify_loop by_id main_id (sc_task_id t # seen) ts
      else if is_open_lifecycle_bucket (stage_name (sc_bucket t))
              \<or> is_task_open_for_archive_gate (stage_name (sc_bucket t)) (sc_fm t)
      then child_ref t # classify_loop by_id main_id (sc_task_id t # seen) ts
      else classify_loop by_id main_id (sc_task_id t # seen) ts)"

text \<open>The code never adds to the other two lists.\<close>

definition classify_related_child_tasks :: "task_files \<Rightarrow> string \<Rightarrow> child_classes" where
  "classify_related_child_tasks fs main_task_id =
     (let scanned = scan_lifecycle_tasks fs in
      \<lparr>blocking_open = classify_loop (child_index scanned) (normalize_child_id main_task_id) [] scanned,
       blocking_not_accepted = [], auto_archive = []\<rparr>)"

definition assert_mainline_archive_children_ready ::
  "task_files \<Rightarrow> string \<Rightarrow> lifecycle_error + open_child_ref list" where
  "assert_mainline_archive_children_ready fs main_task_id =
     (let c = classify_related_child_tasks fs main_task_id in
      if blocking_open c \<noteq> [] then Inl (Children_open (map oc_task_id (blocking_open c)))
      else if blocking_not_accepted c \<noteq> []
      then Inl (Children_not_accepted (map oc_task_id (blocking_not_accepted c)))
      else Inr (auto_archive c))"

section \<open>Closing children\<close>

definition child_transition :: "lifecycle_stage \<Rightarrow> string \<Rightarrow> string \<Rightarrow> string \<Rightarrow> string \<Rightarrow> transition_input" where
  "child_transition bucket actor action decision reason =
     \<lparr>ti_from = Some bucket, ti_to = Archive, ti_by = actor, ti_action = action,
      ti_reason = Some reason, ti_report = None, ti_decision = Some decision, ti_based_on = None,
      ti_child_task = None\<rparr>"

definition auto_archive_patch :: "time \<Rightarrow> string \<Rightarrow> string \<Rightarrow> task_fm \<Rightarrow> task_fm" where
  "auto_archive_patch now actor reason fm =
     fm\<lparr>fm_frozen := True, fm_archived_by_parent_mainline := True, fm_archived_by := Some actor,
        fm_archived_at := Some now, fm_archive_reason := Some reason,
        fm_lifecycle_projection := Some ''archive'', fm_state := Some ''archive'',
        fm_display_status := Some ''archived''\<rparr>"

definition auto_archive_child ::
  "time \<Rightarrow> string \<Rightarrow> string \<Rightarrow> open_child_ref \<Rightarrow> (task_files, lifecycle_error, unit) act" where
  "auto_archive_child now actor reason child fs =
     (case find_task_path_by_id fs (oc_task_id child) of
        None \<Rightarrow> (Inr (), fs)
      | Some (bucket, name) \<Rightarrow>
          if bucket = Archive then (Inr (), fs)
          else act_bind (append_transition now (bucket, name)
                  (child_transition bucket actor ''archive_by_parent_mainline'' ''archived'' reason) True) (\<lambda>_.
               act_bind (rename_file (bucket, name) (Archive, name)) (\<lambda>_.
               store_patch (Archive, name) (auto_archive_patch now actor reason) True)) fs)"

definition auto_archive_accepted_children ::
  "time \<Rightarrow> open_child_ref list \<Rightarrow> string \<Rightarrow> string \<Rightarrow> (task_files, lifecycle_error, unit) act" where
  "auto_archive_accepted_children now children actor reason =
     act_each (auto_archive_child now actor reason) children"

definition residue_patch :: "time \<Rightarrow> string \<Rightarrow> string \<Rightarrow> task_fm \<Rightarrow> task_fm" where
  "residue_patch now actor reason fm =
     fm\<lparr>fm_frozen := True, fm_terminated_by_parent_archive := True, fm_closed_parent_residue := True,
        fm_display_status := Some closed_parent_residue_display,
        fm_lifecycle_projection := Some ''archive'', fm_state := Some ''archive'',
        fm_archived_by := Some actor, fm_archived_at := Some now, fm_archive_reason := Some reason\<rparr>"

text \<open>The body of both termination functions, for a task located at \<open>(bucket, name)\<close>.\<close>

definition terminate_located ::
  "time \<Rightarrow> string \<Rightarrow> string \<Rightarrow> task_path \<Rightarrow> (task_files, lifecycle_error, unit) act" where
  "terminate_located now actor reason path =
     act_bind (append_transition now path
         (child_transition (fst path) actor ''terminate_by_parent_archive'' ''terminated'' reason) True) (\<lambda>_.
     act_bind (act_when (fst path \<noteq> Archive) (rename_file path (Archive, snd path))) (\<lambda>_.
     store_patch (Archive, snd path) (residue_patch now actor reason) True))"

definition terminate_child ::
  "time \<Rightarrow> string \<Rightarrow> string \<Rightarrow> string \<Rightarrow> (task_files, lifecycle_error, unit) act" where
  "terminate_child now actor reason task_id fs =
     (case find_task_path_by_id fs task_id of
        None \<Rightarrow> (Inr (), fs)
      | Some path \<Rightarrow> terminate_located now actor reason path fs)"

definition terminate_open_child_tasks ::
  "time \<Rightarrow> string \<Rightarrow> string \<Rightarrow> string \<Rightarrow> (task_files, lifecycle_error, open_child_ref list) act" where
  "terminate_open_child_tasks now main_task_id actor reason fs =
     (let op = collect_related_child_tasks fs main_task_id True in
      act_bind (act_each (\<lambda>c. terminate_child now actor reason (oc_task_id c)) op)
        (\<lambda>_. act_return op) fs)"

definition terminate_single_child ::
  "time \<Rightarrow> string \<Rightarrow> string \<Rightarrow> string \<Rightarrow> (task_files, lifecycle_error, open_child_ref option) act" where
  "terminate_single_child now task_id actor reason fs =
     (case find_task_path_by_id fs task_id of
        None \<Rightarrow> (Inr None, fs)
      | Some path \<Rightarrow>
          act_bind (terminate_located now actor reason path) (\<lambda>_.
          act_bind (store_read (Archive, snd path)) (\<lambda>(fm, body).
          act_return (Some
            \<lparr>oc_task_id = normalize_child_id (or_else (fm_task_id fm) task_id), oc_filename = snd path,
             oc_bucket = Archive, oc_display_status = Some closed_parent_residue_display,
             oc_reason = None\<rparr>))) fs)"

section \<open>The parent chain as a relation\<close>

text \<open>\<open>chain_reaches by_id x y\<close>: following recorded parents from the id \<open>x\<close> leads to \<open>y\<close>.\<close>

inductive chain_reaches :: "(string, scanned_child) js_map \<Rightarrow> string \<Rightarrow> string \<Rightarrow> bool" for by_id where
  here: "x \<noteq> [] \<Longrightarrow> chain_reaches by_id x x"
| up: "x \<noteq> [] \<Longrightarrow> map_of by_id x = Some p \<Longrightarrow>
       chain_reaches by_id (normalize_child_id (parent_field (sc_fm p))) y \<Longrightarrow> chain_reaches by_id x y"

inductive_cases chain_reachesE: "chain_reaches by_id x y"

lemma parent_walk_sound: "parent_walk by_id main_id seen pid \<Longrightarrow> chain_reaches by_id pid main_id"
proof (induction by_id main_id seen pid rule: parent_walk.induct)
  case (1 by_id main_id seen pid)
  from "1.prems" have ne: "pid \<noteq> []" "pid \<notin> set seen"
    by (subst (asm) parent_walk.simps, simp split: if_splits)+
  show ?case
  proof (cases "pid = main_id")
    case True
    with ne show ?thesis by (auto intro: chain_reaches.here)
  next
    case False
    with "1.prems" ne obtain p where p: "map_of by_id pid = Some p"
      "parent_walk by_id main_id (pid # seen) (normalize_child_id (parent_field (sc_fm p)))"
      by (subst (asm) parent_walk.simps) (auto split: option.splits)
    then show ?thesis using "1.IH" [OF _ False p(1) p(2)] ne by (auto intro: chain_reaches.up)
  qed
qed

text \<open>What the walk has seen is closed under parents up to the current id, and holds no main id.\<close>

definition walk_closed :: "(string, scanned_child) js_map \<Rightarrow> string \<Rightarrow> string list \<Rightarrow> string \<Rightarrow> bool" where
  "walk_closed by_id main_id seen pid \<longleftrightarrow>
     (\<forall>x\<in>set seen. x \<noteq> main_id \<and>
        (\<forall>p. map_of by_id x = Some p \<longrightarrow> normalize_child_id (parent_field (sc_fm p)) \<in> insert pid (set seen)))"

lemma closed_not_reaching:
  assumes "chain_reaches by_id x main_id" and "x \<in> set seen" and "pid \<in> set seen"
    and "walk_closed by_id main_id seen pid"
  shows False
  using assms by (induction x main_id rule: chain_reaches.induct) (auto simp: walk_closed_def)

lemma parent_walk_complete:
  "chain_reaches by_id pid main_id \<Longrightarrow> walk_closed by_id main_id seen pid \<Longrightarrow> parent_walk by_id main_id seen pid"
proof (induction by_id main_id seen pid rule: parent_walk.induct)
  case (1 by_id main_id seen pid)
  have ne: "pid \<noteq> []" using "1.prems"(1) by (auto elim: chain_reachesE)
  have fresh: "pid \<notin> set seen" using closed_not_reaching [OF "1.prems"(1)] "1.prems"(2) by blast
  show ?case
  proof (cases "pid = main_id")
    case True
    with ne fresh show ?thesis by (subst parent_walk.simps) simp
  next
    case False
    with "1.prems"(1) obtain p where p: "map_of by_id pid = Some p"
      "chain_reaches by_id (normalize_child_id (parent_field (sc_fm p))) main_id"
      by (auto elim: chain_reachesE)
    have "walk_closed by_id main_id (pid # seen) (normalize_child_id (parent_field (sc_fm p)))"
      using "1.prems"(2) False p(1) by (auto simp: walk_closed_def)
    then have "parent_walk by_id main_id (pid # seen) (normalize_child_id (parent_field (sc_fm p)))"
      using "1.IH" [OF _ False p(1) p(2)] ne fresh by blast
    with p(1) ne fresh show ?thesis by (subst parent_walk.simps) simp
  qed
qed

lemma parent_walk_iff: "parent_walk by_id main_id [] pid \<longleftrightarrow> chain_reaches by_id pid main_id"
  using parent_walk_sound parent_walk_complete [of by_id pid main_id "[]"]
  by (auto simp: walk_closed_def)

section \<open>The loops of the gate\<close>

lemma classify_loop_mem:
  assumes "distinct (map sc_task_id ts)" and "set (map sc_task_id ts) \<inter> set seen = {}"
  shows "r \<in> set (classify_loop by_id main_id seen ts) \<longleftrightarrow>
    (\<exists>t\<in>set ts. r = child_ref t \<and> is_related_child by_id main_id t \<and>
        \<not> is_closed_parent_residue_marked (sc_fm t) \<and> sc_bucket t \<in> {Inbox, Active, Review})"
  using assms
  by (induction by_id main_id seen ts rule: classify_loop.induct) (auto simp del: One_nat_def)

section \<open>What the operations keep of the task files\<close>

text \<open>
  The lifecycle operations write task files in two ways only: they replace the content of a file
  that is there, and they move a file out of a stage other than the archive, under its name. A
  preorder on the files that both keep is kept by every operation.
\<close>

locale files_preorder = step_preorder R for R :: "task_files \<Rightarrow> task_files \<Rightarrow> bool" +
  assumes keeps_put: "map_of fs p \<noteq> None \<Longrightarrow> R fs (AList.update p f fs)"
    and keeps_move: "fst p \<noteq> Archive \<Longrightarrow> map_of fs p = Some f \<Longrightarrow>
          R fs (AList.update (st, snd p) f (AList.delete p fs))"
begin

lemma keeps_read [keeps_intros]: "act_keeps R (store_read p)"
  by (rule act_keepsI) (simp add: step_refl)

lemma keeps_append [keeps_intros]: "act_keeps R (append_transition now p i allow)"
proof (rule act_keepsI)
  fix fs show "R fs (snd (append_transition now p i allow fs))"
    by (cases "fst (store_read p fs)")
       (auto simp: append_transition_eq step_refl fst_store_read_Inr_iff intro!: keeps_put split: prod.splits)
qed

lemma keeps_patch [keeps_intros]: "act_keeps R (store_patch p f allow)"
proof (rule act_keepsI)
  fix fs show "R fs (snd (store_patch p f allow fs))"
    by (cases "fst (store_read p fs)")
       (auto simp: store_patch_eq step_refl fst_store_read_Inr_iff intro!: keeps_put split: prod.splits)
qed

lemma keeps_rename: "fst p \<noteq> Archive \<Longrightarrow> act_keeps R (rename_file p (st, snd p))"
  by (rule act_keepsI) (auto simp: rename_file_def step_refl intro: keeps_move split: option.split)

lemma keeps_terminate_located [keeps_intros]: "act_keeps R (terminate_located now actor reason p)"
  unfolding terminate_located_def by (intro keeps_intros keeps_rename)

lemma keeps_terminate_child [keeps_intros]: "act_keeps R (terminate_child now actor reason t)"
  using keeps_terminate_located [of now actor reason]
  by (auto simp: act_keeps_def terminate_child_def step_refl split: option.split)

lemma keeps_terminate_open [keeps_intros]:
  "act_keeps R (terminate_open_child_tasks now main_id actor reason)"
proof -
  have "act_keeps R (act_bind (act_each (\<lambda>c. terminate_child now actor reason (oc_task_id c)) op)
        (\<lambda>_. act_return op))" for op
    by (intro keeps_intros)
  then show ?thesis
    unfolding act_keeps_def terminate_open_child_tasks_def Let_def by blast
qed

lemma keeps_auto_child [keeps_intros]: "act_keeps R (auto_archive_child now actor reason c)"
proof -
  have "bucket \<noteq> Archive \<Longrightarrow> act_keeps R (act_bind (append_transition now (bucket, name) tr True)
      (\<lambda>_. act_bind (rename_file (bucket, name) (Archive, name)) (\<lambda>_. store_patch (Archive, name) f True)))"
    for bucket name tr f
    using keeps_rename [of "(bucket, name)" Archive] by (intro keeps_intros) simp_all
  then show ?thesis
    unfolding act_keeps_def auto_archive_child_def by (auto simp: step_refl split: option.split)
qed

lemma keeps_auto [keeps_intros]: "act_keeps R (auto_archive_accepted_children now cs actor reason)"
  by (simp add: auto_archive_accepted_children_def keeps_each keeps_auto_child)

end

text \<open>First instance: a file of the archive stays there.\<close>

definition archive_stays :: "task_files \<Rightarrow> task_files \<Rightarrow> bool" where
  "archive_stays fs fs' \<longleftrightarrow> (\<forall>n. map_of fs (Archive, n) \<noteq> None \<longrightarrow> map_of fs' (Archive, n) \<noteq> None)"

interpretation archive_files: files_preorder archive_stays
  by unfold_locales (auto simp: archive_stays_def update_conv_if delete_conv_if)

text \<open>
  Second instance: as long as a file name occurs in one stage only, no task file is lost or
  doubled.
\<close>

definition file_names :: "task_files \<Rightarrow> string list" where
  "file_names fs = map (snd \<circ> fst) fs"

definition same_tasks :: "task_files \<Rightarrow> task_files \<Rightarrow> bool" where
  "same_tasks fs fs' \<longleftrightarrow>
     (distinct (file_names fs) \<longrightarrow> distinct (file_names fs') \<and> set (file_names fs') = set (file_names fs))"

lemma file_names_update_present:
  "map_of fs p \<noteq> None \<Longrightarrow> file_names (AList.update p f fs) = file_names fs"
  by (induction fs) (auto simp: file_names_def)

lemma update_absent: "map_of fs p = None \<Longrightarrow> AList.update p f fs = fs @ [(p, f)]"
  by (induction fs) auto

lemma file_names_move:
  assumes "distinct (file_names fs)" and "map_of fs p = Some f"
  shows "distinct (file_names (AList.update (st, snd p) f (AList.delete p fs)))"
    and "set (file_names (AList.update (st, snd p) f (AList.delete p fs))) = set (file_names fs)"
proof -
  let ?d = "AList.delete p fs"
  have inj: "inj_on (snd \<circ> fst) (set fs)" using assms(1) by (simp add: file_names_def distinct_map)
  have mem: "(p, f) \<in> set fs" using assms(2) by (rule map_of_SomeD)
  have only: "x \<in> set fs \<Longrightarrow> snd (fst x) = snd p \<Longrightarrow> x = (p, f)" for x
    using inj_onD [OF inj, of x "(p, f)"] mem by simp
  have names: "set (file_names ?d) = set (file_names fs) - {snd p}"
    using only by (auto simp: file_names_def set_delete image_iff)
  have absent: "map_of ?d (st, snd p) = None"
  proof (rule ccontr)
    assume "map_of ?d (st, snd p) \<noteq> None"
    then obtain g where "((st, snd p), g) \<in> set ?d" by (auto dest: map_of_SomeD)
    then have "snd p \<in> set (file_names ?d)" by (force simp: file_names_def)
    with names show False by simp
  qed
  have dist: "distinct (file_names ?d)"
    using assms(1) by (simp add: file_names_def AList.delete_eq distinct_map_filter)
  have eq: "file_names (AList.update (st, snd p) f ?d) = file_names ?d @ [snd p]"
    by (simp only: update_absent [OF absent]) (simp add: file_names_def)
  show "distinct (file_names (AList.update (st, snd p) f ?d))"
    using dist names by (simp add: eq)
  have "snd p \<in> set (file_names fs)" using mem by (force simp: file_names_def)
  then show "set (file_names (AList.update (st, snd p) f ?d)) = set (file_names fs)"
    using names by (auto simp: eq)
qed

interpretation named_files: files_preorder same_tasks
proof
  fix p f st and fs :: task_files
  assume "map_of fs p = Some f"
  then show "same_tasks fs (AList.update (st, snd p) f (AList.delete p fs))"
    using file_names_move [of fs p f st] by (simp add: same_tasks_def)
qed (auto simp: same_tasks_def file_names_update_present)

section \<open>Terminating one child\<close>

lemma find_in_stages_present:
  "find_in_stages stem fs sts = Some p \<Longrightarrow> map_of fs p \<noteq> None \<and> fst p \<in> set sts"
  by (induction stem fs sts rule: find_in_stages.induct)
     (force dest!: find_SomeD simp: stage_filenames_def map_of_eq_None_iff split: option.splits)+

lemma find_task_present: "find_task_path_by_id fs t = Some p \<Longrightarrow> map_of fs p \<noteq> None"
  unfolding find_task_path_by_id_def by (drule find_in_stages_present) simp

lemma terminate_located_done:
  assumes "map_of fs p = Some (Task_file fm body)"
  shows "\<exists>fs' fm'. terminate_located now actor reason p fs = (Inr (), fs')
    \<and> map_of fs' (Archive, snd p) = Some (Task_file (residue_patch now actor reason fm') body)
    \<and> (fst p \<noteq> Archive \<longrightarrow> map_of fs' p = None)
    \<and> (\<forall>q. q \<noteq> p \<and> q \<noteq> (Archive, snd p) \<longrightarrow> map_of fs' q = map_of fs q)
    \<and> (\<exists>ts. fm_transitions fm' = fm_transitions fm @ ts \<and> length ts \<le> 1)"
proof -
  let ?i = "child_transition (fst p) actor ''terminate_by_parent_archive'' ''terminated'' reason"
  have doc: "fst (store_read p fs) = Inr (fm, body)" using assms by (simp add: store_read_def)
  obtain d fs1 fm1 where ap: "append_transition now p ?i True fs = (Inr d, fs1)"
    and fm1: "map_of fs1 p = Some (Task_file fm1 body)" "\<exists>ts. fm_transitions fm1 = fm_transitions fm @ ts \<and> length ts \<le> 1"
    and fr: "\<forall>q. q \<noteq> p \<longrightarrow> map_of fs1 q = map_of fs q"
    using doc assms
    by (cases "is_duplicate_transition (last_transition (fm_transitions fm)) (transition_compare_from_input ?i)")
       (auto simp: append_transition_eq task_files.appended_def)
  define fs2 where "fs2 = (if fst p = Archive then fs1
      else AList.update (Archive, snd p) (Task_file fm1 body) (AList.delete p fs1))"
  have mv: "act_when (fst p \<noteq> Archive) (rename_file p (Archive, snd p)) fs1 = (Inr (), fs2)"
    using fm1 by (simp add: act_when_def act_return_def rename_file_def fs2_def)
  have dest: "map_of fs2 (Archive, snd p) = Some (Task_file fm1 body)"
    using fm1 by (cases p) (auto simp: fs2_def)
  let ?fs' = "AList.update (Archive, snd p) (Task_file (residue_patch now actor reason fm1) body) fs2"
  have "terminate_located now actor reason p fs = (Inr (), ?fs')"
    using ap mv dest by (simp add: terminate_located_def act_bind_Inr store_patch_eq store_read_def)
  then show ?thesis
    using fm1 fr
    by (intro exI [of _ ?fs'] exI [of _ fm1]) (cases p, auto simp: fs2_def delete_conv_if update_conv_if)
qed

section \<open>Properties\<close>

text \<open>
  The walk up the parent links terminates on every ledger, cyclic ones included, and finds
  exactly the tasks that descend from the mainline: it answers true if and only if following the
  recorded parents from the task's parent leads to the mainline id.
\<close>

theorem descends_from_main_correct:
  "task_descends_from_main t by_id main_task_id \<longleftrightarrow>
     chain_reaches by_id (normalize_child_id (parent_field (sc_fm t))) (normalize_child_id main_task_id)"
  by (simp add: task_descends_from_main_def parent_walk_iff)

text \<open>
  The archive gate of a mainline is sound and complete: when no two scanned task files carry
  the same task id, it lets the archive pass if and only if every related child that is not
  already marked as residue lies in \<open>done\<close> or \<open>archive\<close>.
\<close>

theorem archive_gate_exact:
  assumes "distinct (map sc_task_id (scan_lifecycle_tasks fs))"
  shows "(\<exists>auto. assert_mainline_archive_children_ready fs main_task_id = Inr auto) \<longleftrightarrow>
    (\<forall>t\<in>set (scan_lifecycle_tasks fs).
       is_related_child (child_index (scan_lifecycle_tasks fs)) (normalize_child_id main_task_id) t \<and>
       \<not> is_closed_parent_residue_marked (sc_fm t) \<longrightarrow> sc_bucket t = Done \<or> sc_bucket t = Archive)"
proof -
  let ?ts = "scan_lifecycle_tasks fs"
  let ?m = "child_index ?ts" and ?main = "normalize_child_id main_task_id"
  have st: "b \<notin> {Inbox, Active, Review} \<longleftrightarrow> b = Done \<or> b = Archive" for b
    by (cases b) simp_all
  have "(\<exists>auto. assert_mainline_archive_children_ready fs main_task_id = Inr auto)
      \<longleftrightarrow> (\<forall>r. r \<notin> set (classify_loop ?m ?main [] ?ts))"
    by (auto simp: assert_mainline_archive_children_ready_def classify_related_child_tasks_def Let_def)
  also have "\<dots> \<longleftrightarrow> (\<forall>t\<in>set ?ts. is_related_child ?m ?main t \<and> \<not> is_closed_parent_residue_marked (sc_fm t)
      \<longrightarrow> sc_bucket t \<notin> {Inbox, Active, Review})"
    using classify_loop_mem [OF assms, of "[]" _ ?m ?main] by auto
  also have "\<dots> \<longleftrightarrow> (\<forall>t\<in>set ?ts. is_related_child ?m ?main t \<and> \<not> is_closed_parent_residue_marked (sc_fm t)
      \<longrightarrow> sc_bucket t = Done \<or> sc_bucket t = Archive)"
    by (simp only: st)
  finally show ?thesis .
qed

definition sample_family :: task_files where
  "sample_family =
    [((Active, ''TASK-20250101-002-PM-to-DEV.md''),
        Task_file (empty_fm\<lparr>fm_task_id := Some ''TASK-20250101-002'', fm_parent := Some ''TASK-20250101-001''\<rparr>) ''a''),
     ((Done, ''TASK-20250101-001-ADMIN-to-PM.md''),
        Task_file (empty_fm\<lparr>fm_task_id := Some ''TASK-20250101-001''\<rparr>) ''b''),
     ((Inbox, ''TASK-20250101-003-DEV-to-QA.md''),
        Task_file (empty_fm\<lparr>fm_task_id := Some ''TASK-20250101-003'', fm_parent := Some ''TASK-20250101-002''\<rparr>) ''c'')]"

lemma sample_family_scan:
  "map sc_task_id (scan_lifecycle_tasks sample_family)
     = [''TASK-20250101-003'', ''TASK-20250101-002'', ''TASK-20250101-001'']"
  by code_simp

lemma sample_family_blocked:
  "assert_mainline_archive_children_ready sample_family ''TASK-20250101-001''
     = Inl (Children_open [''TASK-20250101-003'', ''TASK-20250101-002''])"
  by code_simp

theorem archive_gate_exact_witness:
  "\<exists>t\<in>set (scan_lifecycle_tasks sample_family).
     is_related_child (child_index (scan_lifecycle_tasks sample_family)) (normalize_child_id ''TASK-20250101-001'') t
     \<and> sc_bucket t \<noteq> Done \<and> sc_bucket t \<noteq> Archive"
proof -
  have "distinct (map sc_task_id (scan_lifecycle_tasks sample_family))"
    by (simp add: sample_family_scan)
  from archive_gate_exact [OF this, of "''TASK-20250101-001''"] show ?thesis
    by (auto simp: sample_family_blocked)
qed

text \<open>
  Terminating a located child always succeeds when its file reads: the file ends up in the
  archive under the same name, frozen and marked as residue with its body kept, so that the gate
  no longer counts it; at most one transition is added, and no other path is touched.
\<close>

theorem terminate_child_closes:
  assumes "find_task_path_by_id fs task_id = Some p" and "map_of fs p = Some (Task_file fm body)"
  shows "\<exists>fs' fm'. terminate_child now actor reason task_id fs = (Inr (), fs')
    \<and> map_of fs' (Archive, snd p) = Some (Task_file fm' body)
    \<and> fm_frozen fm' \<and> is_closed_parent_residue_marked fm'
    \<and> (fst p \<noteq> Archive \<longrightarrow> map_of fs' p = None)
    \<and> (\<exists>ts. fm_transitions fm' = fm_transitions fm @ ts \<and> length ts \<le> 1)
    \<and> (\<forall>q. q \<noteq> p \<and> q \<noteq> (Archive, snd p) \<longrightarrow> map_of fs' q = map_of fs q)"
proof -
  from terminate_located_done [OF assms(2), of now actor reason] obtain fs' fm' where
    "terminate_located now actor reason p fs = (Inr (), fs')"
    "map_of fs' (Archive, snd p) = Some (Task_file (residue_patch now actor reason fm') body)"
    "fst p \<noteq> Archive \<longrightarrow> map_of fs' p = None"
    "\<forall>q. q \<noteq> p \<and> q \<noteq> (Archive, snd p) \<longrightarrow> map_of fs' q = map_of fs q"
    "\<exists>ts. fm_transitions fm' = fm_transitions fm @ ts \<and> length ts \<le> 1" by blast
  with assms(1) show ?thesis
    by (intro exI [of _ fs'] exI [of _ "residue_patch now actor reason fm'"])
       (simp add: terminate_child_def residue_patch_def is_closed_parent_residue_marked_def)
qed

theorem terminate_child_closes_witness:
  "\<exists>fs' fm'. terminate_child 7 ''ADMIN'' ''stop'' ''TASK-20250101-002'' sample_family = (Inr (), fs')
     \<and> map_of fs' (Archive, ''TASK-20250101-002-PM-to-DEV.md'') = Some (Task_file fm' ''a'')
     \<and> is_closed_parent_residue_marked fm'"
proof -
  have "find_task_path_by_id sample_family ''TASK-20250101-002'' = Some (Active, ''TASK-20250101-002-PM-to-DEV.md'')"
    by code_simp
  moreover have "map_of sample_family (Active, ''TASK-20250101-002-PM-to-DEV.md'') = Some (Task_file
      (empty_fm\<lparr>fm_task_id := Some ''TASK-20250101-002'', fm_parent := Some ''TASK-20250101-001''\<rparr>) ''a'')"
    by (simp add: sample_family_def)
  ultimately show ?thesis
    using terminate_child_closes [of sample_family "''TASK-20250101-002''" _ _ "''a''" 7 "''ADMIN''" "''stop''"] by force
qed

end
