(* ===== verification/Lifecycle_Rework.thy ===== *)
theory Lifecycle_Rework
  imports Lifecycle_Types
begin

text \<open>
  The rework gate (\<^verbatim>\<open>ledger/taskReworkSemantics.ts\<close>, \<^verbatim>\<open>ledger/reworkSettlement.ts\<close>): when a task
  counts as reopened for rework, and which report settles the rework so that the task may be
  submitted again. The reports are the parsed files of \<^verbatim>\<open>fcop/reports\<close>, the ledger the parsed
  lines of \<^verbatim>\<open>fcop/ledger/tasks.jsonl\<close> (\<open>None\<close> for a line that is not JSON). The two Chinese
  marker phrases are their UTF-8 bytes.
\<close>

section \<open>Rework state of a task (\<^verbatim>\<open>taskReworkSemantics.ts\<close>)\<close>

definition virtual_pm_review_marker :: string where
  "virtual_pm_review_marker =
     [CHR 0xE8, CHR 0x99, CHR 0x9A, CHR 0xE6, CHR 0x8B, CHR 0x9F] @ '' PM '' @
     [CHR 0xE8, CHR 0x87, CHR 0xAA, CHR 0xE5, CHR 0x8A, CHR 0xA8,
      CHR 0xE5, CHR 0xAE, CHR 0xA1, CHR 0xE6, CHR 0xA0, CHR 0xB8]"

definition virtual_pm_archive_marker :: string where
  "virtual_pm_archive_marker =
     [CHR 0xE8, CHR 0x99, CHR 0x9A, CHR 0xE6, CHR 0x8B, CHR 0x9F] @ '' PM '' @
     [CHR 0xE8, CHR 0x87, CHR 0xAA, CHR 0xE5, CHR 0x8A, CHR 0xA8,
      CHR 0xE5, CHR 0xBD, CHR 0x92, CHR 0xE6, CHR 0xA1, CHR 0xA3]"

text \<open>
  The two further comparisons of the code are with constants that contain the markers, so the
  \<open>includes\<close> tests decide them already.
\<close>

definition is_virtual_pm_settlement_note :: "string option \<Rightarrow> bool" where
  "is_virtual_pm_settlement_note text \<longleftrightarrow>
     (let s = js_trim (str_of text) in
      s \<noteq> [] \<and> (js_includes s virtual_pm_review_marker \<or> js_includes s virtual_pm_archive_marker))"

record rework_fields =
  rf_display_status :: "string option"
  rf_reopen_reason :: "string option"
  rf_review_note :: "string option"
  rf_review_status :: "string option"
  rf_reopened_count :: "nat option"
  rf_rework_completed_by_report :: "string option"
  rf_bucket :: "string option"
  rf_scope :: "string option"
  rf_state :: "string option"

definition norm_word :: "string option \<Rightarrow> string" where
  "norm_word v = js_lower (js_trim (str_of v))"

definition is_rework_resubmit_unblocked :: "rework_fields \<Rightarrow> bool" where
  "is_rework_resubmit_unblocked f \<longleftrightarrow>
     norm_word (rf_display_status f) = ''ready_for_review''
     \<or> norm_word (rf_review_status f) = ''rework_done''
     \<or> js_trim (str_of (rf_rework_completed_by_report f)) \<noteq> []"

definition is_task_settled_closed :: "rework_fields \<Rightarrow> bool" where
  "is_task_settled_closed f =
     (if norm_word (rf_review_status f) \<noteq> ''approved'' then False
      else let scope = norm_word (rf_scope f) in
        if scope \<in> {''inbox'', ''active'', ''review''} then False
        else if scope \<in> {''done'', ''archive''} then True
        else if norm_word (rf_display_status f) = ''done'' then True
        else norm_word (coalesce (rf_bucket f) (rf_state f)) \<in> {''archive'', ''done''})"

definition is_task_reopened_for_rework :: "rework_fields \<Rightarrow> bool" where
  "is_task_reopened_for_rework f =
     (if is_task_settled_closed f then False
      else if is_rework_resubmit_unblocked f then False
      else if norm_word (rf_review_status f) = ''approved'' then False
      else if norm_word (rf_display_status f) = ''admin_rejected'' then True
      else if norm_word (rf_display_status f) \<in> {''waiting_pm_rework'', ''pm_rework_required''} then True
      else if norm_word (rf_review_status f) = ''rejected'' then True
      else if 0 < or_else (rf_reopened_count f) 0 then True
      else let reopen = js_trim (str_of (rf_reopen_reason f)) in
        reopen \<noteq> [] \<and> \<not> is_virtual_pm_settlement_note (Some reopen))"

section \<open>Reports and the ledger\<close>

record report_doc =
  rp_sender :: "string option"
  rp_recipient :: "string option"
  rp_status :: "string option"
  rp_valid :: "string option"
  rp_invalidated_by :: "string option"
  rp_superseded_by :: "string option"
  rp_task_id :: "string option"
  rp_references :: "string list"
  rp_created_at :: "time option"  \<comment> \<open>\<open>created_at\<close> with an explicit offset that parses\<close>
  rp_mtime :: "time option"       \<comment> \<open>\<open>stat\<close> of the file\<close>

record ledger_yaml =
  ly_thread_key :: "string option"
  ly_recipient :: "string option"
  ly_display_status :: "string option"
  ly_lifecycle_projection :: "string option"
  ly_review_status :: "string option"
  ly_parent :: "string option"
  ly_references :: "string list"

record ledger_row =
  lr_task_id :: "string option"
  lr_thread_key :: "string option"
  lr_recipient :: "string option"
  lr_bucket :: "string option"
  lr_display_status :: "string option"
  lr_lifecycle_projection :: "string option"
  lr_review_status :: "string option"
  lr_parent :: "string option"
  lr_created_at :: "time option"
  lr_yaml :: ledger_yaml

record ledger_task =
  lt_task_id :: string
  lt_thread_key :: string
  lt_recipient :: string
  lt_bucket :: string
  lt_display_status :: string
  lt_lifecycle_projection :: string
  lt_review_status :: string
  lt_parent :: string
  lt_references :: "string list"
  lt_created_at :: "time option"

definition ledger_task_of_row :: "ledger_row \<Rightarrow> ledger_task" where
  "ledger_task_of_row r = (let y = lr_yaml r in
     \<lparr>lt_task_id = str_of (lr_task_id r),
      lt_thread_key = str_of (coalesce (lr_thread_key r) (ly_thread_key y)),
      lt_recipient = str_of (coalesce (lr_recipient r) (ly_recipient y)),
      lt_bucket = str_of (lr_bucket r),
      lt_display_status = str_of (coalesce (lr_display_status r) (ly_display_status y)),
      lt_lifecycle_projection = str_of (coalesce (lr_lifecycle_projection r) (ly_lifecycle_projection y)),
      lt_review_status = str_of (coalesce (lr_review_status r) (ly_review_status y)),
      lt_parent = str_of (coalesce (lr_parent r) (ly_parent y)),
      lt_references = ly_references y, lt_created_at = lr_created_at r\<rparr>)"

definition load_tasks_from_ledger :: "ledger_row option list \<Rightarrow> ledger_task list" where
  "load_tasks_from_ledger rows = map ledger_task_of_row (List.map_filter id rows)"

definition str_field :: "string option \<Rightarrow> string" where
  "str_field v = js_trim (str_of v)"

definition report_status_done :: "report_doc \<Rightarrow> bool" where
  "report_status_done r =
     (if js_lower (js_trim (str_of (rp_valid r))) = ''false'' \<or> str_field (rp_invalidated_by r) \<noteq> []
         \<or> str_field (rp_superseded_by r) \<noteq> []
      then False
      else js_lower (str_field (rp_status r)) \<in> {''done'', ''completed''})"

text \<open>\<open>getReportCreatedAtMs\<close>: the fallbacks pass through \<open>toLocalIsoString\<close>.\<close>

definition get_report_created_at_ms :: "time \<Rightarrow> report_doc \<Rightarrow> time" where
  "get_report_created_at_ms now r =
     (case rp_created_at r of Some t \<Rightarrow> t
      | None \<Rightarrow> local_iso (or_else (rp_mtime r) now))"

definition report_blocks_current_round_wake :: "time \<Rightarrow> time option \<Rightarrow> bool" where
  "report_blocks_current_round_wake created latest =
     (case latest of None \<Rightarrow> True | Some t \<Rightarrow> t < created)"

section \<open>Settlement (\<^verbatim>\<open>reworkSettlement.ts\<close>)\<close>

definition normalize_rework_id :: "string \<Rightarrow> string" where
  "normalize_rework_id s = js_trim (strip_md s)"

fun latest_gate :: "time option \<Rightarrow> transition list \<Rightarrow> time option" where
  "latest_gate m [] = m"
| "latest_gate m (t # ts) =
     (if js_lower (js_trim (str_of (tr_action t))) \<notin> {''reject_review'', ''reopen_task''} then latest_gate m ts
      else case tr_at t of
             None \<Rightarrow> latest_gate m ts
           | Some ms \<Rightarrow> latest_gate (case m of None \<Rightarrow> Some ms | Some x \<Rightarrow> if x < ms then Some ms else m) ts)"

definition get_latest_rework_gate_at_ms :: "task_fm \<Rightarrow> time option" where
  "get_latest_rework_gate_at_ms fm = latest_gate None (fm_transitions fm)"

definition report_resolves_to_task_id :: "report_doc \<Rightarrow> string \<Rightarrow> bool" where
  "report_resolves_to_task_id r task_id \<longleftrightarrow>
     (let norm = normalize_rework_id task_id; t = str_field (rp_task_id r) in
      (t \<noteq> [] \<and> normalize_rework_id t = norm)
      \<or> list_ex (\<lambda>x. normalize_rework_id x = norm) (rp_references r))"

definition task_references_main :: "ledger_task \<Rightarrow> string \<Rightarrow> bool" where
  "task_references_main t main_id \<longleftrightarrow>
     (let norm = normalize_rework_id main_id; parent = js_trim (lt_parent t) in
      (parent \<noteq> [] \<and> (parent = norm \<or> js_starts parent (norm @ ''-'')))
      \<or> list_ex (\<lambda>x. js_includes x norm) (lt_references t))"

definition is_task_done_bucket :: "ledger_task \<Rightarrow> bool" where
  "is_task_done_bucket t \<longleftrightarrow>
     js_lower (lt_bucket t) \<in> {''done'', ''archive''}
     \<or> norm_word (Some (lt_lifecycle_projection t)) \<in> {''review'', ''done'', ''archive''}
     \<or> norm_word (Some (lt_review_status t)) \<in> {''pending'', ''approved'', ''rework_done''}
     \<or> norm_word (Some (lt_display_status t)) \<in> {''waiting_pm_review'', ''ready_for_review'', ''done''}"

datatype settle_reason =
  Not_in_rework | Report_not_found | Report_not_done | Worker_report_before_reopen
| Worker_report_mismatch | No_reject_transition | Not_pm_to_admin | Report_before_reject
| No_rework_children | Children_not_done

datatype settlement =
  Settled string bool  \<comment> \<open>report id, and whether the result carries the completion patch\<close>
| Not_settled settle_reason

definition fields_of_fm :: "task_fm \<Rightarrow> rework_fields" where
  "fields_of_fm fm =
     \<lparr>rf_display_status = fm_display_status fm, rf_reopen_reason = fm_reopen_reason fm,
      rf_review_note = fm_review_note fm, rf_review_status = fm_review_status fm,
      rf_reopened_count = fm_reopened_count fm,
      rf_rework_completed_by_report = fm_rework_completed_by_report fm,
      rf_bucket = None, rf_scope = None, rf_state = fm_state fm\<rparr>"

definition settlement_fields :: "task_fm \<Rightarrow> rework_fields" where
  "settlement_fields fm =
     \<lparr>rf_display_status = Some (str_field (fm_display_status fm)),
      rf_reopen_reason = Some (str_field (fm_reopen_reason fm)),
      rf_review_note = Some (str_field (fm_review_note fm)),
      rf_review_status = Some (str_field (fm_review_status fm)),
      rf_reopened_count = Some (or_else (fm_reopened_count fm) 0),
      rf_rework_completed_by_report = None, rf_bucket = None, rf_scope = None, rf_state = None\<rparr>"

definition is_rework_child :: "task_fm \<Rightarrow> string \<Rightarrow> time \<Rightarrow> ledger_task \<Rightarrow> bool" where
  "is_rework_child fm task_id reject_at t =
     (if normalize_rework_id (lt_task_id t) = normalize_rework_id task_id then False
      else if str_field (fm_thread_key fm) \<noteq> [] \<and> lt_thread_key t \<noteq> str_field (fm_thread_key fm) then False
      else if \<not> task_references_main t task_id then False
      else if js_upper (lt_recipient t) \<noteq> ''DEV'' \<and> js_upper (lt_recipient t) \<noteq> ''QA'' then False
      else case lt_created_at t of Some c \<Rightarrow> \<not> c < reject_at | None \<Rightarrow> True)"

definition report_file_name :: "string \<Rightarrow> string" where
  "report_file_name report_id = (if js_ends report_id ''.md'' then report_id else report_id @ ''.md'')"

definition evaluate_rework_settlement ::
  "time \<Rightarrow> (string, report_doc) js_map \<Rightarrow> ledger_row option list \<Rightarrow> task_fm \<Rightarrow> string \<Rightarrow> string \<Rightarrow> settlement" where
  "evaluate_rework_settlement now reports ledger fm task_id report_id =
     (if is_rework_resubmit_unblocked (fields_of_fm fm)
      then Settled (normalize_rework_id report_id) False
      else if \<not> is_task_reopened_for_rework (settlement_fields fm) then Not_settled Not_in_rework
      else case map_of reports (report_file_name report_id) of
        None \<Rightarrow> Not_settled Report_not_found
      | Some r \<Rightarrow>
          if \<not> report_status_done r then Not_settled Report_not_done
          else
            let recipient = js_upper (str_field (fm_recipient fm));
                gate = get_latest_rework_gate_at_ms fm;
                created = get_report_created_at_ms now r;
                settled = Settled (normalize_rework_id report_id) True in
            if recipient \<in> {''DEV'', ''QA'', ''OPS''} then
              (if js_upper (str_field (rp_sender r)) = recipient \<and> report_resolves_to_task_id r task_id
               then (if gate = None \<or> report_blocks_current_round_wake created gate then settled
                     else Not_settled Worker_report_before_reopen)
               else Not_settled Worker_report_mismatch)
            else case gate of
              None \<Rightarrow> Not_settled No_reject_transition
            | Some reject_at \<Rightarrow>
                if js_upper (str_field (rp_sender r)) \<noteq> ''PM'' \<or> js_upper (str_field (rp_recipient r)) \<noteq> ''ADMIN''
                then Not_settled Not_pm_to_admin
                else if \<not> report_blocks_current_round_wake created (Some reject_at)
                then Not_settled Report_before_reject
                else
                  let children = filter (is_rework_child fm task_id reject_at) (load_tasks_from_ledger ledger) in
                  if children = [] then Not_settled No_rework_children
                  else if \<not> list_all is_task_done_bucket children then Not_settled Children_not_done
                  else settled)"

definition rework_patch :: "time \<Rightarrow> string \<Rightarrow> task_fm \<Rightarrow> task_fm" where
  "rework_patch now report_id fm =
     fm\<lparr>fm_display_status := Some ''ready_for_review'', fm_review_status := Some ''rework_done'',
        fm_rework_completed_by_report := Some report_id, fm_rework_completed_at := Some now\<rparr>"

section \<open>Facts and properties\<close>

lemma unblocked_not_reopened: "is_rework_resubmit_unblocked f \<Longrightarrow> \<not> is_task_reopened_for_rework f"
  by (simp add: is_task_reopened_for_rework_def)

lemma rework_done_unblocked: "rf_review_status f = Some ''rework_done'' \<Longrightarrow> is_rework_resubmit_unblocked f"
  by (simp add: is_rework_resubmit_unblocked_def norm_word_def) (simp add: js_defs)

lemma rejected_reopened:
  "rf_review_status f = Some ''rejected'' \<Longrightarrow> \<not> is_rework_resubmit_unblocked f \<Longrightarrow>
   is_task_reopened_for_rework f"
  by (simp add: is_task_reopened_for_rework_def is_task_settled_closed_def norm_word_def js_defs)

lemma latest_gate_mono: "latest_gate (Some m) ts \<noteq> None \<and> m \<le> the (latest_gate (Some m) ts)"
proof (induction ts arbitrary: m)
  case (Cons t ts)
  show ?case
    using Cons [of m] Cons [of "the (tr_at t)"] by (auto split: option.split)
qed simp

lemma latest_gate_ge:
  "t \<in> set ts \<Longrightarrow> js_lower (js_trim (str_of (tr_action t))) \<in> {''reject_review'', ''reopen_task''} \<Longrightarrow>
   tr_at t = Some a \<Longrightarrow> \<exists>g. latest_gate m ts = Some g \<and> a \<le> g"
proof (induction ts arbitrary: m)
  case (Cons u us)
  show ?case
  proof (cases "u = t")
    case True
    define m' where "m' = (case m of None \<Rightarrow> a | Some x \<Rightarrow> if x < a then a else x)"
    have "latest_gate m (u # us) = latest_gate (Some m') us" and "a \<le> m'"
      using Cons.prems True by (auto simp: m'_def split: option.split)
    then show ?thesis using latest_gate_mono [of m' us] by auto
  next
    case False
    then have "t \<in> set us" using Cons.prems by simp
    then have IH: "\<exists>g. latest_gate m' us = Some g \<and> a \<le> g" for m'
      using Cons.IH Cons.prems by blast
    show ?thesis using IH by (simp split: option.split)
  qed
qed simp

text \<open>
  C18. A settlement that completes a rework round rests on evidence of that round: the named
  report exists and is a valid done report; for a worker task it is the worker's own report on
  this task; for a PM task it is a PM-to-ADMIN report created strictly after the latest rejection
  or reopening, and DEV or QA rework tasks exist in the ledger and all of them are done.
\<close>

theorem settlement_rests_on_evidence:
  assumes "evaluate_rework_settlement now reports ledger fm task_id report_id = Settled rid True"
  shows "\<exists>r. map_of reports (report_file_name report_id) = Some r \<and> report_status_done r
    \<and> rid = normalize_rework_id report_id
    \<and> (if js_upper (str_field (fm_recipient fm)) \<in> {''DEV'', ''QA'', ''OPS''}
       then js_upper (str_field (rp_sender r)) = js_upper (str_field (fm_recipient fm))
          \<and> report_resolves_to_task_id r task_id
          \<and> (\<forall>g. get_latest_rework_gate_at_ms fm = Some g \<longrightarrow> g < get_report_created_at_ms now r)
       else js_upper (str_field (rp_sender r)) = ''PM'' \<and> js_upper (str_field (rp_recipient r)) = ''ADMIN''
          \<and> (\<exists>g. get_latest_rework_gate_at_ms fm = Some g \<and> g < get_report_created_at_ms now r
               \<and> (let children = filter (is_rework_child fm task_id g) (load_tasks_from_ledger ledger) in
                  children \<noteq> [] \<and> list_all is_task_done_bucket children)))"
proof -
  have nb: "\<not> is_rework_resubmit_unblocked (fields_of_fm fm)"
    and ro: "is_task_reopened_for_rework (settlement_fields fm)"
    using assms by (auto simp: evaluate_rework_settlement_def split: if_splits)
  with assms obtain r where r: "map_of reports (report_file_name report_id) = Some r"
    by (auto simp: evaluate_rework_settlement_def split: option.splits)
  with assms nb ro have done_r: "report_status_done r"
    by (auto simp: evaluate_rework_settlement_def split: if_splits)
  show ?thesis
  proof (cases "js_upper (str_field (fm_recipient fm)) \<in> {''DEV'', ''QA'', ''OPS''}")
    case True
    with assms nb ro r done_r show ?thesis
      by (auto simp: evaluate_rework_settlement_def Let_def report_blocks_current_round_wake_def
          split: if_splits option.splits)
  next
    case False
    with assms nb ro r done_r obtain g where g: "get_latest_rework_gate_at_ms fm = Some g"
      by (cases "get_latest_rework_gate_at_ms fm") (simp_all add: evaluate_rework_settlement_def Let_def)
    with assms nb ro r done_r False show ?thesis
      by (simp add: evaluate_rework_settlement_def Let_def report_blocks_current_round_wake_def
          split: if_splits)
  qed
qed

definition sample_rejected :: task_fm where
  "sample_rejected = empty_fm\<lparr>fm_recipient := Some ''DEV'', fm_task_id := Some ''TASK-20250101-001'',
     fm_review_status := Some ''rejected'',
     fm_transitions := [\<lparr>tr_at = Some 1000, tr_from = Some ''review'', tr_to = Some ''active'',
        tr_by = Some ''PM'', tr_action = Some ''reject_review'', tr_tool = None, tr_note = None,
        tr_reason = None, tr_report = None, tr_decision = None, tr_based_on = None,
        tr_child_task = None\<rparr>]\<rparr>"

definition sample_report :: report_doc where
  "sample_report = \<lparr>rp_sender = Some ''DEV'', rp_recipient = Some ''PM'', rp_status = Some ''done'',
     rp_valid = None, rp_invalidated_by = None, rp_superseded_by = None,
     rp_task_id = Some ''TASK-20250101-001'', rp_references = [], rp_created_at = Some 2000,
     rp_mtime = None\<rparr>"

lemma sample_settlement:
  "evaluate_rework_settlement 9000 [(''REPORT-1.md'', sample_report)] [] sample_rejected
     ''TASK-20250101-001'' ''REPORT-1'' = Settled ''REPORT-1'' True"
  by code_simp

theorem settlement_rests_on_evidence_witness:
  "\<exists>r. map_of [(''REPORT-1.md'', sample_report)] (report_file_name ''REPORT-1'') = Some r
     \<and> report_status_done r \<and> report_resolves_to_task_id r ''TASK-20250101-001''"
proof -
  have "js_upper (str_field (fm_recipient sample_rejected)) = ''DEV''" by code_simp
  then show ?thesis using settlement_rests_on_evidence [OF sample_settlement] by (auto split: if_splits)
qed

text \<open>
  Settling ends the rework round: once the completion patch is in the frontmatter, the task
  no longer counts as reopened for rework, whatever its other fields say, and evaluating again
  settles without a further patch.
\<close>

theorem rework_patch_clears_gate:
  "\<not> is_task_reopened_for_rework (fields_of_fm (rework_patch now rid fm))
   \<and> evaluate_rework_settlement later reports ledger (rework_patch now rid fm) task_id report_id
       = Settled (normalize_rework_id report_id) False"
proof -
  have "is_rework_resubmit_unblocked (fields_of_fm (rework_patch now rid fm))"
    by (rule rework_done_unblocked) (simp add: fields_of_fm_def rework_patch_def)
  then show ?thesis by (simp add: unblocked_not_reopened evaluate_rework_settlement_def)
qed

end
