(* ===== verification/Agent_Queue.thy ===== *)
theory Agent_Queue
  imports Js_Prelude "HOL-Library.Multiset"
begin

text \<open>
  The per-agent FIFO queue of tasks with pause and resume (\<^verbatim>\<open>pm/agentTaskQueue.ts\<close>). The state
  is the JSON file the code loads, changes and saves; an operation on a project root is
  the operation on that state between \<open>load_agent_task_queue\<close> and \<open>save_agent_task_queue\<close>.
  The ISO time stamps are instants, so \<open>localeCompare\<close> on them is the order of \<open>time\<close>, and
  \<open>Array.prototype.sort\<close>, which is stable, is \<open>sort_key\<close>.
\<close>

section \<open>State\<close>

datatype dispatch_status = Running_status | Queued_status | Paused_status

record running_entry =
  re_task_id :: string
  re_session_id :: string
  re_started_at :: time

record queue_item =
  qi_task_id :: string
  qi_agent_id :: string
  qi_queued_at :: time
  qi_reason :: string
  qi_filepath :: "string option"
  qi_role :: "string option"
  qi_filename :: "string option"
  qi_recipient :: "string option"
  qi_resume_dispatch :: bool

text \<open>\<open>QueueEntryInput\<close>: a queue item whose \<open>queued_at\<close> may be left out.\<close>

record queue_entry_input =
  in_task_id :: string
  in_agent_id :: string
  in_queued_at :: "time option"
  in_reason :: string
  in_filepath :: "string option"
  in_role :: "string option"
  in_filename :: "string option"
  in_recipient :: "string option"
  in_resume_dispatch :: bool

record queue_slot =
  slot_running :: "running_entry option"
  slot_queue :: "queue_item list"

record paused_entry =
  pe_task_id :: string
  pe_agent_id :: string
  pe_paused_at :: time
  pe_paused_by :: string
  pe_pause_reason :: string

text \<open>\<open>PausedTaskRecord\<close>: what a caller of \<open>pauseAgentTask\<close> may pass in addition.\<close>

record paused_record = paused_entry +
  pr_filepath :: "string option"
  pr_filename :: "string option"

record agent_task_queue =
  aq_updated_at :: time
  aq_agents :: "(string, queue_slot) js_map"
  aq_paused :: "(string, paused_entry) js_map"

definition norm_queue_task_id :: "string \<Rightarrow> string" where
  "norm_queue_task_id s = js_upper (js_trim (strip_md s))"

definition empty_agent_task_queue :: "time \<Rightarrow> agent_task_queue" where
  "empty_agent_task_queue now = \<lparr>aq_updated_at = now, aq_agents = [], aq_paused = []\<rparr>"

text \<open>\<open>None\<close> is a file that is absent, is not JSON, or has another version.\<close>

definition load_agent_task_queue :: "time \<Rightarrow> agent_task_queue option \<Rightarrow> agent_task_queue" where
  "load_agent_task_queue now file =
     (case file of Some q \<Rightarrow> q | None \<Rightarrow> empty_agent_task_queue now)"

definition save_agent_task_queue :: "time \<Rightarrow> agent_task_queue \<Rightarrow> agent_task_queue option" where
  "save_agent_task_queue now q = Some (q\<lparr>aq_updated_at := now\<rparr>)"

definition with_agent_task_queue ::
  "time \<Rightarrow> (agent_task_queue \<Rightarrow> agent_task_queue) \<Rightarrow> agent_task_queue option
     \<Rightarrow> agent_task_queue option" where
  "with_agent_task_queue now mutate file =
     save_agent_task_queue now (mutate (load_agent_task_queue now file))"

definition update_agent_task_queue_if_changed ::
  "time \<Rightarrow> (agent_task_queue \<Rightarrow> agent_task_queue) \<Rightarrow> agent_task_queue option
     \<Rightarrow> agent_task_queue option \<times> bool" where
  "update_agent_task_queue_if_changed now mutate file =
     (let state = load_agent_task_queue now file; state' = mutate state;
          changed = (aq_agents state \<noteq> aq_agents state' \<or> aq_paused state \<noteq> aq_paused state')
      in (if changed then save_agent_task_queue now state' else file, changed))"

section \<open>Operations\<close>

definition get_slot :: "agent_task_queue \<Rightarrow> string \<Rightarrow> queue_slot" where
  "get_slot q agent =
     (case map_of (aq_agents q) (js_trim agent) of
        Some slot \<Rightarrow> slot | None \<Rightarrow> \<lparr>slot_running = None, slot_queue = []\<rparr>)"

definition put_slot :: "string \<Rightarrow> queue_slot \<Rightarrow> agent_task_queue \<Rightarrow> agent_task_queue" where
  "put_slot agent slot q =
     q\<lparr>aq_agents := AList.update (js_trim agent) slot (aq_agents q)\<rparr>"

definition drop_paused :: "string \<Rightarrow> agent_task_queue \<Rightarrow> agent_task_queue" where
  "drop_paused tid q = q\<lparr>aq_paused := AList.delete tid (aq_paused q)\<rparr>"

definition without_task :: "string \<Rightarrow> queue_item list \<Rightarrow> queue_item list" where
  "without_task tid xs = filter (\<lambda>i. norm_queue_task_id (qi_task_id i) \<noteq> tid) xs"

definition move_to_front :: "(queue_item \<Rightarrow> bool) \<Rightarrow> queue_item list \<Rightarrow> queue_item list" where
  "move_to_front P xs =
     (case find_index P xs of
        Some i \<Rightarrow> if 0 < i then xs ! i # (take i xs @ drop (Suc i) xs) else xs
      | None \<Rightarrow> xs)"

definition enqueue_agent_task_in_state ::
  "time \<Rightarrow> queue_entry_input \<Rightarrow> bool \<Rightarrow> agent_task_queue \<Rightarrow> agent_task_queue" where
  "enqueue_agent_task_in_state now e at_front q =
     (let tid = norm_queue_task_id (in_task_id e); agent = js_trim (in_agent_id e) in
      if tid = [] \<or> agent = [] then q
      else
        let q1 = drop_paused tid q;
            slot = get_slot q1 agent;
            item = \<lparr>qi_task_id = tid, qi_agent_id = agent,
                    qi_queued_at = or_else (in_queued_at e) now, qi_reason = in_reason e,
                    qi_filepath = in_filepath e, qi_role = in_role e,
                    qi_filename = in_filename e, qi_recipient = in_recipient e,
                    qi_resume_dispatch = in_resume_dispatch e\<rparr>;
            rest = without_task tid (slot_queue slot);
            placed = (if at_front then item # rest else rest @ [item]);
            sorted_q = sort_key qi_queued_at placed;
            final = (if at_front
                     then move_to_front (\<lambda>i. norm_queue_task_id (qi_task_id i) = tid) sorted_q
                     else sorted_q)
        in put_slot agent (slot\<lparr>slot_queue := final\<rparr>) q1)"

definition set_agent_running ::
  "string \<Rightarrow> running_entry \<Rightarrow> agent_task_queue \<Rightarrow> agent_task_queue" where
  "set_agent_running agent running q =
     (let tid = norm_queue_task_id (re_task_id running); slot = get_slot q agent in
      drop_paused tid
        (put_slot agent
           (slot\<lparr>slot_running := Some (running\<lparr>re_task_id := tid\<rparr>),
                 slot_queue := without_task tid (slot_queue slot)\<rparr>) q))"

definition clear_agent_running_in_state ::
  "string \<Rightarrow> string option \<Rightarrow> agent_task_queue \<Rightarrow> agent_task_queue" where
  "clear_agent_running_in_state agent task q =
     (case map_of (aq_agents q) (js_trim agent) of
        None \<Rightarrow> q
      | Some slot \<Rightarrow>
          (case slot_running slot of
             None \<Rightarrow> q
           | Some r \<Rightarrow>
               if truthy task \<and> norm_queue_task_id (str_of task) \<noteq> norm_queue_task_id (re_task_id r)
               then q
               else put_slot agent (slot\<lparr>slot_running := None\<rparr>) q))"

definition pause_agent_task :: "paused_record \<Rightarrow> agent_task_queue \<Rightarrow> agent_task_queue" where
  "pause_agent_task rec q =
     (let tid = norm_queue_task_id (pe_task_id rec); agent = js_trim (pe_agent_id rec);
          slot = get_slot q agent;
          running = (case slot_running slot of
                       Some r \<Rightarrow> if norm_queue_task_id (re_task_id r) = tid then None else Some r
                     | None \<Rightarrow> None);
          q1 = put_slot agent
                 \<lparr>slot_running = running, slot_queue = without_task tid (slot_queue slot)\<rparr> q
      in q1\<lparr>aq_paused := AList.update tid
             \<lparr>pe_task_id = tid, pe_agent_id = agent, pe_paused_at = pe_paused_at rec,
              pe_paused_by = pe_paused_by rec, pe_pause_reason = pe_pause_reason rec\<rparr>
             (aq_paused q1)\<rparr>)"

text \<open>
  The code reads \<open>filepath\<close> and \<open>filename\<close> off the stored entry, which \<open>pauseAgentTask\<close> built
  without them: both are undefined.
\<close>

definition resume_paused_task ::
  "time \<Rightarrow> string \<Rightarrow> bool \<Rightarrow> agent_task_queue \<Rightarrow> agent_task_queue \<times> bool" where
  "resume_paused_task now task priority q =
     (let tid = norm_queue_task_id task in
      case map_of (aq_paused q) tid of
        None \<Rightarrow> (q, False)
      | Some p \<Rightarrow>
          (enqueue_agent_task_in_state now
             \<lparr>in_task_id = tid, in_agent_id = pe_agent_id p, in_queued_at = None,
              in_reason = (if priority then ''resume_priority'' else ''resume_fifo''),
              in_filepath = None, in_role = None, in_filename = None, in_recipient = None,
              in_resume_dispatch = True\<rparr>
             priority (drop_paused tid q), True))"

definition dequeue_next_agent_task ::
  "string \<Rightarrow> agent_task_queue \<Rightarrow> agent_task_queue \<times> queue_item option" where
  "dequeue_next_agent_task agent q =
     (case map_of (aq_agents q) (js_trim agent) of
        None \<Rightarrow> (q, None)
      | Some slot \<Rightarrow>
          if slot_running slot \<noteq> None then (q, None)
          else (case slot_queue slot of
                  [] \<Rightarrow> (q, None)
                | x # xs \<Rightarrow> (put_slot agent (slot\<lparr>slot_queue := xs\<rparr>) q, Some x)))"

definition clean_slot :: "string \<Rightarrow> queue_slot \<Rightarrow> queue_slot" where
  "clean_slot tid slot =
     \<lparr>slot_running = (case slot_running slot of
          Some r \<Rightarrow> if norm_queue_task_id (re_task_id r) = tid then None else Some r
        | None \<Rightarrow> None),
      slot_queue = without_task tid (slot_queue slot)\<rparr>"

definition slot_has_task :: "string \<Rightarrow> queue_slot \<Rightarrow> bool" where
  "slot_has_task tid s \<longleftrightarrow> list_ex (\<lambda>i. norm_queue_task_id (qi_task_id i) = tid) (slot_queue s)"

definition slot_runs_task :: "string \<Rightarrow> queue_slot \<Rightarrow> bool" where
  "slot_runs_task tid s \<longleftrightarrow>
     (case slot_running s of Some r \<Rightarrow> norm_queue_task_id (re_task_id r) = tid | None \<Rightarrow> False)"

definition purge_task :: "string \<Rightarrow> agent_task_queue \<Rightarrow> agent_task_queue" where
  "purge_task tid q =
     q\<lparr>aq_agents := map (map_prod id (clean_slot tid)) (aq_agents q),
       aq_paused := AList.delete tid (aq_paused q)\<rparr>"

definition remove_task_from_agent_queue ::
  "time \<Rightarrow> string \<Rightarrow> agent_task_queue option \<Rightarrow> agent_task_queue option" where
  "remove_task_from_agent_queue now task file =
     (let tid = norm_queue_task_id task; q = load_agent_task_queue now file;
          slots_changed = list_ex (\<lambda>as.
              length (without_task tid (slot_queue (snd as))) \<noteq> length (slot_queue (snd as))
              \<or> slot_runs_task tid (snd as)) (aq_agents q);
          paused_changed = (map_of (aq_paused q) tid \<noteq> None)
      in if slots_changed \<or> paused_changed
         then save_agent_task_queue now (purge_task tid q)
         else file)"

definition pause_task_in_queue ::
  "time \<Rightarrow> string \<Rightarrow> string \<Rightarrow> string \<Rightarrow> string \<Rightarrow> agent_task_queue option
     \<Rightarrow> agent_task_queue option \<times> paused_entry option" where
  "pause_task_in_queue now task agent by_whom reason file =
     (let q = pause_agent_task
                \<lparr>pe_task_id = task, pe_agent_id = agent, pe_paused_at = now,
                 pe_paused_by = by_whom, pe_pause_reason = reason,
                 pr_filepath = None, pr_filename = None\<rparr>
                (load_agent_task_queue now file)
      in (save_agent_task_queue now q, map_of (aq_paused q) (norm_queue_task_id task)))"

definition clear_paused_task ::
  "time \<Rightarrow> string \<Rightarrow> agent_task_queue option \<Rightarrow> agent_task_queue option \<times> bool" where
  "clear_paused_task now task file =
     (let tid = norm_queue_task_id task; q = load_agent_task_queue now file in
      if map_of (aq_paused q) tid = None then (file, False)
      else (save_agent_task_queue now (drop_paused tid q), True))"

definition dequeue_next_for_agent ::
  "time \<Rightarrow> string \<Rightarrow> agent_task_queue option \<Rightarrow> agent_task_queue option \<times> queue_item option" where
  "dequeue_next_for_agent now agent file =
     (let (q, next) = dequeue_next_agent_task agent (load_agent_task_queue now file) in
      (if next \<noteq> None then save_agent_task_queue now q else file, next))"

section \<open>Queries\<close>

definition is_task_paused_in_state :: "agent_task_queue \<Rightarrow> string \<Rightarrow> bool" where
  "is_task_paused_in_state q task \<longleftrightarrow> map_of (aq_paused q) (norm_queue_task_id task) \<noteq> None"

definition is_task_queued_in_state :: "agent_task_queue \<Rightarrow> string \<Rightarrow> bool" where
  "is_task_queued_in_state q task \<longleftrightarrow>
     list_ex (\<lambda>as. slot_has_task (norm_queue_task_id task) (snd as)) (aq_agents q)"

definition is_task_running_in_state :: "agent_task_queue \<Rightarrow> string \<Rightarrow> bool" where
  "is_task_running_in_state q task \<longleftrightarrow>
     list_ex (\<lambda>as. slot_runs_task (norm_queue_task_id task) (snd as)) (aq_agents q)"

definition get_task_dispatch_status :: "agent_task_queue \<Rightarrow> string \<Rightarrow> dispatch_status option" where
  "get_task_dispatch_status q task =
     (let tid = norm_queue_task_id task in
      if map_of (aq_paused q) tid \<noteq> None then Some Paused_status
      else if is_task_running_in_state q tid then Some Running_status
      else if is_task_queued_in_state q tid then Some Queued_status
      else None)"

fun position_in_slots :: "string \<Rightarrow> (string, queue_slot) js_map \<Rightarrow> nat option" where
  "position_in_slots tid [] = None"
| "position_in_slots tid ((a, s) # rest) =
     (case find_index (\<lambda>i. norm_queue_task_id (qi_task_id i) = tid) (slot_queue s) of
        Some i \<Rightarrow> Some (i + 1)
      | None \<Rightarrow> position_in_slots tid rest)"

definition get_queue_position_from_state :: "agent_task_queue \<Rightarrow> string \<Rightarrow> nat option" where
  "get_queue_position_from_state q task =
     position_in_slots (norm_queue_task_id task) (aq_agents q)"

definition is_agent_idle_in_state :: "agent_task_queue \<Rightarrow> string \<Rightarrow> bool" where
  "is_agent_idle_in_state q agent \<longleftrightarrow>
     (case map_of (aq_agents q) (js_trim agent) of
        None \<Rightarrow> True | Some s \<Rightarrow> slot_running s = None)"

record task_row =
  row_task_id :: string
  row_agent_id :: string
  row_status :: dispatch_status
  row_position :: "nat option"

definition slot_rows :: "string \<times> queue_slot \<Rightarrow> task_row list" where
  "slot_rows as = (case as of (agent, s) \<Rightarrow>
     (case slot_running s of
        Some r \<Rightarrow> [\<lparr>row_task_id = re_task_id r, row_agent_id = agent,
                    row_status = Running_status, row_position = None\<rparr>]
      | None \<Rightarrow> []) @
     map (\<lambda>(i, it). \<lparr>row_task_id = qi_task_id it, row_agent_id = agent,
                     row_status = Queued_status, row_position = Some (i + 1)\<rparr>)
       (enumerate 0 (slot_queue s)))"

definition snapshot_agent_queues :: "agent_task_queue \<Rightarrow> task_row list" where
  "snapshot_agent_queues q =
     concat (map slot_rows (aq_agents q)) @
     map (\<lambda>(k, p). \<lparr>row_task_id = pe_task_id p, row_agent_id = pe_agent_id p,
                    row_status = Paused_status, row_position = None\<rparr>) (aq_paused q)"

section \<open>Facts about slots\<close>

lemma find_index_Some_nth:
  "find_index P xs = Some i \<Longrightarrow> i < length xs \<and> P (xs ! i)"
  by (induction xs arbitrary: i) (auto split: if_splits)

lemma find_index_None_iff: "find_index P xs = None \<longleftrightarrow> (\<forall>x\<in>set xs. \<not> P x)"
  by (induction xs) auto

lemma mset_move_to_front [simp]: "mset (move_to_front P xs) = mset xs"
proof (cases "find_index P xs")
  case (Some i)
  then have i: "i < length xs" by (blast dest: find_index_Some_nth)
  have "mset xs = mset (take i xs @ xs ! i # drop (Suc i) xs)"
    by (simp only: id_take_nth_drop [OF i, symmetric])
  with Some show ?thesis by (simp add: move_to_front_def)
qed (simp add: move_to_front_def)

lemma set_move_to_front [simp]: "set (move_to_front P xs) = set xs"
  by (metis mset_move_to_front set_mset_mset)

lemma move_to_front_hd:
  assumes "x \<in> set xs" and "P x"
  shows "move_to_front P xs \<noteq> [] \<and> P (hd (move_to_front P xs))"
proof -
  from assms obtain i where i: "find_index P xs = Some i"
    using find_index_None_iff [of P xs] by (cases "find_index P xs") auto
  then have "i < length xs" "P (xs ! i)" by (auto dest: find_index_Some_nth)
  with i show ?thesis
    by (auto simp: move_to_front_def hd_conv_nth)
qed

lemma sorted_drop_nth:
  assumes "sorted ys"
  shows "sorted (take i ys @ drop (Suc i) ys)"
proof (cases "i < length ys")
  case True
  with assms have "sorted (take i ys @ ys ! i # drop (Suc i) ys)"
    by (simp only: id_take_nth_drop [OF True, symmetric])
  then show ?thesis by (auto simp: sorted_append)
next
  case False
  with assms show ?thesis by simp
qed

lemma sorted_tl_move_to_front:
  "sorted (map f xs) \<Longrightarrow> sorted (map f (tl (move_to_front P xs)))"
  using sorted_drop_nth [of "map f xs"]
  by (auto simp: move_to_front_def map_tl sorted_tl take_map drop_map split: option.split)

lemma sorted_tl_filter:
  "sorted (map f (tl xs)) \<Longrightarrow> sorted (map f (tl (filter P xs)))"
  by (cases xs) (auto simp: sorted_filter map_tl sorted_tl)

lemma distinct_map_mset: "mset xs = mset ys \<Longrightarrow> distinct (map f xs) = distinct (map f ys)"
  by (metis mset_eq_imp_distinct_iff mset_map)

section \<open>The invariant\<close>

definition norm_stable :: "string \<Rightarrow> bool" where
  "norm_stable t \<longleftrightarrow> norm_queue_task_id (norm_queue_task_id t) = norm_queue_task_id t"

definition slot_ok :: "string \<Rightarrow> queue_slot \<Rightarrow> bool" where
  "slot_ok a s \<longleftrightarrow>
     (\<forall>i\<in>set (slot_queue s). qi_agent_id i = a \<and> norm_queue_task_id (qi_task_id i) = qi_task_id i) \<and>
     distinct (map qi_task_id (slot_queue s)) \<and>
     sorted (map qi_queued_at (tl (slot_queue s))) \<and>
     (\<forall>r. slot_running s = Some r \<longrightarrow> norm_queue_task_id (re_task_id r) = re_task_id r)"

definition queue_inv :: "agent_task_queue \<Rightarrow> bool" where
  "queue_inv q \<longleftrightarrow>
     distinct (map fst (aq_agents q)) \<and> distinct (map fst (aq_paused q)) \<and>
     (\<forall>(a, s)\<in>set (aq_agents q). js_trim a = a \<and> slot_ok a s) \<and>
     (\<forall>(k, p)\<in>set (aq_paused q). pe_task_id p = k \<and> norm_queue_task_id k = k)"

lemma queue_inv_empty [simp]: "queue_inv (empty_agent_task_queue now)"
  by (simp add: queue_inv_def empty_agent_task_queue_def)

lemma slot_ok_empty [simp]: "slot_ok a \<lparr>slot_running = None, slot_queue = []\<rparr>"
  by (simp add: slot_ok_def)

lemma get_slot_ok: "queue_inv q \<Longrightarrow> slot_ok (js_trim a) (get_slot q a)"
  by (auto simp: get_slot_def queue_inv_def split: option.split dest: map_of_SomeD)

lemma put_slot_inv:
  "queue_inv q \<Longrightarrow> slot_ok (js_trim a) s \<Longrightarrow> queue_inv (put_slot a s q)"
  by (auto simp: queue_inv_def put_slot_def set_update)

lemma drop_paused_inv: "queue_inv q \<Longrightarrow> queue_inv (drop_paused t q)"
  by (auto simp: queue_inv_def drop_paused_def set_delete)

lemma without_task_slot_ok:
  "slot_ok a s \<Longrightarrow> slot_ok a (s\<lparr>slot_queue := without_task t (slot_queue s)\<rparr>)"
  by (auto simp: slot_ok_def without_task_def sorted_tl_filter distinct_map_filter)

lemma slot_ok_running:
  "slot_ok a s \<Longrightarrow> (\<And>r'. r = Some r' \<Longrightarrow> norm_queue_task_id (re_task_id r') = re_task_id r')
   \<Longrightarrow> slot_ok a (s\<lparr>slot_running := r\<rparr>)"
  by (auto simp: slot_ok_def)

lemma get_put_slot [simp]:
  "get_slot (put_slot a s q) a = s"
  "js_trim b \<noteq> js_trim a \<Longrightarrow> get_slot (put_slot a s q) b = get_slot q b"
  by (simp_all add: get_slot_def put_slot_def)

lemma get_slot_drop_paused [simp]: "get_slot (drop_paused t q) a = get_slot q a"
  by (simp add: get_slot_def drop_paused_def)

text \<open>The slot an enqueue leaves behind.\<close>

definition placed_queue :: "bool \<Rightarrow> queue_item \<Rightarrow> queue_item list \<Rightarrow> queue_item list" where
  "placed_queue at_front item xs =
     (let rest = without_task (qi_task_id item) xs;
          s = sort_key qi_queued_at (if at_front then item # rest else rest @ [item]) in
      if at_front then move_to_front (\<lambda>i. norm_queue_task_id (qi_task_id i) = qi_task_id item) s
      else s)"

definition entry_item :: "time \<Rightarrow> queue_entry_input \<Rightarrow> queue_item" where
  "entry_item now e =
     \<lparr>qi_task_id = norm_queue_task_id (in_task_id e), qi_agent_id = js_trim (in_agent_id e),
      qi_queued_at = or_else (in_queued_at e) now, qi_reason = in_reason e,
      qi_filepath = in_filepath e, qi_role = in_role e, qi_filename = in_filename e,
      qi_recipient = in_recipient e, qi_resume_dispatch = in_resume_dispatch e\<rparr>"

lemma entry_item_simps [simp]:
  "qi_task_id (entry_item now e) = norm_queue_task_id (in_task_id e)"
  "qi_agent_id (entry_item now e) = js_trim (in_agent_id e)"
  "qi_queued_at (entry_item now e) = or_else (in_queued_at e) now"
  by (simp_all add: entry_item_def)

lemma enqueue_eq:
  "enqueue_agent_task_in_state now e at_front q =
     (if norm_queue_task_id (in_task_id e) = [] \<or> js_trim (in_agent_id e) = [] then q
      else put_slot (in_agent_id e)
             ((get_slot q (in_agent_id e))\<lparr>slot_queue :=
                placed_queue at_front (entry_item now e) (slot_queue (get_slot q (in_agent_id e)))\<rparr>)
             (drop_paused (norm_queue_task_id (in_task_id e)) q))"
  by (simp add: enqueue_agent_task_in_state_def Let_def placed_queue_def entry_item_def
      get_slot_def put_slot_def drop_paused_def)

lemma mset_placed_queue:
  "mset (placed_queue f item xs) = add_mset item (mset (without_task (qi_task_id item) xs))"
  by (simp add: placed_queue_def Let_def)

lemma set_placed_queue:
  "set (placed_queue f item xs) = insert item (set (without_task (qi_task_id item) xs))"
  by (metis mset_placed_queue set_mset_add_mset_insert set_mset_mset)

lemma sorted_placed_queue: "sorted (map qi_queued_at (placed_queue False item xs))"
  by (simp add: placed_queue_def Let_def)

lemma sorted_tl_placed_queue: "sorted (map qi_queued_at (tl (placed_queue f item xs)))"
proof (cases f)
  case True
  then show ?thesis
    by (simp only: placed_queue_def Let_def if_True) (rule sorted_tl_move_to_front, rule sorted_sort_key)
next
  case False
  then show ?thesis using sorted_placed_queue [of item xs] by (simp add: map_tl sorted_tl)
qed

lemma placed_queue_front:
  assumes "norm_queue_task_id (qi_task_id item) = qi_task_id item"
  shows "\<exists>ys. placed_queue True item xs = item # ys"
proof -
  let ?P = "\<lambda>i. norm_queue_task_id (qi_task_id i) = qi_task_id item"
  let ?s = "sort_key qi_queued_at (item # without_task (qi_task_id item) xs)"
  have eq: "placed_queue True item xs = move_to_front ?P ?s"
    by (simp only: placed_queue_def Let_def if_True)
  have hd: "move_to_front ?P ?s \<noteq> [] \<and> ?P (hd (move_to_front ?P ?s))"
    by (rule move_to_front_hd [of item]) (use assms in \<open>simp_all del: sort_key_simps\<close>)
  then have "hd (move_to_front ?P ?s) \<in> set (item # without_task (qi_task_id item) xs)"
    using hd_in_set [of "move_to_front ?P ?s"] by (simp del: sort_key_simps)
  with hd eq show ?thesis by (cases "move_to_front ?P ?s") (auto simp: without_task_def)
qed

lemma distinct_placed_queue:
  assumes "\<forall>i\<in>set xs. norm_queue_task_id (qi_task_id i) = qi_task_id i"
    and "distinct (map qi_task_id xs)"
  shows "distinct (map qi_task_id (placed_queue f item xs))"
proof -
  have "distinct (map qi_task_id (item # without_task (qi_task_id item) xs))"
    using assms by (auto simp: without_task_def distinct_map_filter)
  moreover have "mset (map qi_task_id (placed_queue f item xs))
      = mset (map qi_task_id (item # without_task (qi_task_id item) xs))"
    by (simp add: mset_placed_queue)
  ultimately show ?thesis by (metis mset_eq_imp_distinct_iff)
qed

lemma enqueue_inv:
  assumes q: "queue_inv q" and st: "norm_stable (in_task_id e)"
  shows "queue_inv (enqueue_agent_task_in_state now e f q)"
proof -
  let ?s = "get_slot q (in_agent_id e)"
  have s: "slot_ok (js_trim (in_agent_id e)) ?s" using q by (rule get_slot_ok)
  have "slot_ok (js_trim (in_agent_id e))
      (?s\<lparr>slot_queue := placed_queue f (entry_item now e) (slot_queue ?s)\<rparr>)"
    using s st distinct_placed_queue [of "slot_queue ?s"]
    by (auto simp: slot_ok_def set_placed_queue sorted_tl_placed_queue without_task_def norm_stable_def)
  with q show ?thesis
    by (simp add: enqueue_eq put_slot_inv drop_paused_inv)
qed

lemma set_agent_running_inv:
  assumes q: "queue_inv q" and st: "norm_stable (re_task_id r)"
  shows "queue_inv (set_agent_running a r q)"
proof -
  let ?s = "get_slot q a" and ?t = "norm_queue_task_id (re_task_id r)"
  have "slot_ok (js_trim a) (?s\<lparr>slot_queue := without_task ?t (slot_queue ?s)\<rparr>)"
    using q by (intro without_task_slot_ok get_slot_ok)
  then have "slot_ok (js_trim a)
      (?s\<lparr>slot_running := Some (r\<lparr>re_task_id := ?t\<rparr>),
          slot_queue := without_task ?t (slot_queue ?s)\<rparr>)"
    using st by (auto simp: slot_ok_def norm_stable_def)
  with q show ?thesis
    by (simp add: set_agent_running_def Let_def put_slot_inv drop_paused_inv)
qed

lemma clear_agent_running_inv: "queue_inv q \<Longrightarrow> queue_inv (clear_agent_running_in_state a t q)"
  using get_slot_ok [of q a]
  by (auto simp: clear_agent_running_in_state_def get_slot_def
      intro!: put_slot_inv slot_ok_running split: option.splits)

lemma clean_slot_ok: "slot_ok a s \<Longrightarrow> slot_ok a (clean_slot t s)"
  using without_task_slot_ok [of a s t]
  by (auto simp: slot_ok_def clean_slot_def split: option.splits if_splits)

lemma pause_slot_eq:
  "pause_agent_task rec q =
     (let tid = norm_queue_task_id (pe_task_id rec);
          q1 = put_slot (pe_agent_id rec) (clean_slot tid (get_slot q (pe_agent_id rec))) q
      in q1\<lparr>aq_paused := AList.update tid
             \<lparr>pe_task_id = tid, pe_agent_id = js_trim (pe_agent_id rec), pe_paused_at = pe_paused_at rec,
              pe_paused_by = pe_paused_by rec, pe_pause_reason = pe_pause_reason rec\<rparr>
             (aq_paused q1)\<rparr>)"
  by (simp add: pause_agent_task_def clean_slot_def Let_def get_slot_def put_slot_def)

lemma add_paused_inv:
  "queue_inv q \<Longrightarrow> pe_task_id p = t \<Longrightarrow> norm_queue_task_id t = t \<Longrightarrow>
   queue_inv (q\<lparr>aq_paused := AList.update t p (aq_paused q)\<rparr>)"
  by (auto simp: queue_inv_def set_update)

lemma pause_agent_task_inv:
  "queue_inv q \<Longrightarrow> norm_stable (pe_task_id rec) \<Longrightarrow> queue_inv (pause_agent_task rec q)"
  by (simp add: pause_slot_eq Let_def norm_stable_def)
     (intro add_paused_inv put_slot_inv clean_slot_ok get_slot_ok; simp)

lemma resume_paused_task_inv:
  assumes q: "queue_inv q"
  shows "queue_inv (fst (resume_paused_task now t pr q))"
proof (cases "map_of (aq_paused q) (norm_queue_task_id t)")
  case None
  with q show ?thesis by (simp add: resume_paused_task_def)
next
  case (Some p)
  with q have "norm_queue_task_id (norm_queue_task_id t) = norm_queue_task_id t"
    by (auto simp: queue_inv_def dest: map_of_SomeD)
  with q Some show ?thesis
    by (simp add: resume_paused_task_def Let_def enqueue_inv drop_paused_inv norm_stable_def)
qed

lemma dequeue_inv: "queue_inv q \<Longrightarrow> queue_inv (fst (dequeue_next_agent_task a q))"
  using get_slot_ok [of q a]
  by (auto simp: dequeue_next_agent_task_def get_slot_def slot_ok_def map_tl
      intro!: put_slot_inv split: option.splits list.splits dest: sorted_tl)

lemma load_inv: "(\<And>q. file = Some q \<Longrightarrow> queue_inv q) \<Longrightarrow> queue_inv (load_agent_task_queue now file)"
  by (auto simp: load_agent_task_queue_def split: option.split)

lemma queue_inv_updated_at [simp]: "queue_inv (q\<lparr>aq_updated_at := n\<rparr>) = queue_inv q"
  by (simp add: queue_inv_def)

lemma purge_task_inv: "queue_inv q \<Longrightarrow> queue_inv (purge_task t q)"
  by (auto simp: queue_inv_def purge_task_def set_delete clean_slot_ok comp_def)

lemma remove_task_inv:
  assumes "\<And>q. file = Some q \<Longrightarrow> queue_inv q"
    and "remove_task_from_agent_queue now t file = Some q'"
  shows "queue_inv q'"
proof -
  have "queue_inv (load_agent_task_queue now file)" using assms(1) by (rule load_inv)
  then have "queue_inv (purge_task (norm_queue_task_id t) (load_agent_task_queue now file))"
    by (rule purge_task_inv)
  with assms show ?thesis
    by (auto simp: remove_task_from_agent_queue_def Let_def save_agent_task_queue_def split: if_splits)
qed

section \<open>Status\<close>

lemma slot_has_clean: "slot_has_task t (clean_slot u s) \<longleftrightarrow> t \<noteq> u \<and> slot_has_task t s"
  by (auto simp: slot_has_task_def clean_slot_def without_task_def list_ex_iff)

lemma slot_runs_clean: "slot_runs_task t (clean_slot u s) \<longleftrightarrow> t \<noteq> u \<and> slot_runs_task t s"
  by (auto simp: slot_runs_task_def clean_slot_def split: option.splits)

text \<open>What \<open>get_task_dispatch_status\<close> looks at, for an id that normalises to itself.\<close>

lemma status_eq:
  assumes "norm_stable t"
  shows "get_task_dispatch_status q t =
     (let u = norm_queue_task_id t in
      if map_of (aq_paused q) u \<noteq> None then Some Paused_status
      else if list_ex (\<lambda>as. slot_runs_task u (snd as)) (aq_agents q) then Some Running_status
      else if list_ex (\<lambda>as. slot_has_task u (snd as)) (aq_agents q) then Some Queued_status
      else None)"
  using assms
  by (simp add: get_task_dispatch_status_def Let_def is_task_running_in_state_def
      is_task_queued_in_state_def norm_stable_def)

lemma purge_runs:
  "list_ex (\<lambda>as. slot_runs_task u (snd as)) (aq_agents (purge_task t q)) \<longleftrightarrow>
   u \<noteq> t \<and> list_ex (\<lambda>as. slot_runs_task u (snd as)) (aq_agents q)"
  by (auto simp: purge_task_def list_ex_iff slot_runs_clean)

lemma purge_has:
  "list_ex (\<lambda>as. slot_has_task u (snd as)) (aq_agents (purge_task t q)) \<longleftrightarrow>
   u \<noteq> t \<and> list_ex (\<lambda>as. slot_has_task u (snd as)) (aq_agents q)"
  by (auto simp: purge_task_def list_ex_iff slot_has_clean)

lemma purge_paused:
  "map_of (aq_paused (purge_task t q)) u = (if u = t then None else map_of (aq_paused q) u)"
  by (simp add: purge_task_def)

lemma purge_status:
  "norm_stable u \<Longrightarrow>
   get_task_dispatch_status (purge_task t q) u =
     (if norm_queue_task_id u = t then None else get_task_dispatch_status q u)"
  by (simp add: status_eq Let_def purge_runs purge_has purge_paused)

lemma without_task_same_length:
  "length (without_task t xs) = length xs \<longleftrightarrow> (\<forall>i\<in>set xs. norm_queue_task_id (qi_task_id i) \<noteq> t)"
  using length_filter_less [of _ xs "\<lambda>i. norm_queue_task_id (qi_task_id i) \<noteq> t"]
  by (fastforce simp: without_task_def)

lemma status_updated_at [simp]:
  "get_task_dispatch_status (q\<lparr>aq_updated_at := n\<rparr>) u = get_task_dispatch_status q u"
  by (simp add: get_task_dispatch_status_def is_task_running_in_state_def
      is_task_queued_in_state_def Let_def)

lemma status_load: "get_task_dispatch_status (load_agent_task_queue now' file) u
    = get_task_dispatch_status (load_agent_task_queue now file) u"
  by (cases "file") (simp_all add: load_agent_task_queue_def empty_agent_task_queue_def
      get_task_dispatch_status_def is_task_running_in_state_def is_task_queued_in_state_def Let_def)

lemma remove_load_status:
  assumes u: "norm_stable u"
  shows "get_task_dispatch_status
      (load_agent_task_queue now' (remove_task_from_agent_queue now t file)) u =
     (if norm_queue_task_id u = norm_queue_task_id t then None
      else get_task_dispatch_status (load_agent_task_queue now file) u)"
proof -
  let ?q = "load_agent_task_queue now file" and ?t = "norm_queue_task_id t"
  let ?changed = "list_ex (\<lambda>as.
        length (without_task ?t (slot_queue (snd as))) \<noteq> length (slot_queue (snd as))
        \<or> slot_runs_task ?t (snd as)) (aq_agents ?q) \<or> map_of (aq_paused ?q) ?t \<noteq> None"
  show ?thesis
  proof (cases ?changed)
    case True
    then have "remove_task_from_agent_queue now t file
        = Some ((purge_task ?t ?q)\<lparr>aq_updated_at := now\<rparr>)"
      by (simp add: remove_task_from_agent_queue_def Let_def save_agent_task_queue_def)
    then show ?thesis
      using u by (simp add: load_agent_task_queue_def [of now'] purge_status)
  next
    case False
    then have "remove_task_from_agent_queue now t file = file"
      by (auto simp: remove_task_from_agent_queue_def Let_def)
    moreover have "norm_queue_task_id u = ?t \<Longrightarrow> get_task_dispatch_status ?q u = None"
      using False u
      by (auto simp: status_eq Let_def list_ex_iff without_task_same_length slot_has_task_def)
    ultimately show ?thesis by (simp add: status_load [of now' _ _ now])
  qed
qed

lemma enqueue_status:
  assumes "norm_stable (in_task_id e)" and "norm_queue_task_id (in_task_id e) \<noteq> []"
    and "js_trim (in_agent_id e) \<noteq> []" and "\<not> is_task_running_in_state q (in_task_id e)"
    and "queue_inv q"
  shows "get_task_dispatch_status (enqueue_agent_task_in_state now e f q) (in_task_id e)
    = Some Queued_status"
proof -
  let ?t = "norm_queue_task_id (in_task_id e)"
  let ?s = "(get_slot q (in_agent_id e))\<lparr>slot_queue :=
              placed_queue f (entry_item now e) (slot_queue (get_slot q (in_agent_id e)))\<rparr>"
  have keys: "distinct (map fst (aq_agents q))" using assms(5) by (simp add: queue_inv_def)
  have "slot_runs_task ?t ?s \<Longrightarrow> list_ex (\<lambda>as. slot_runs_task ?t (snd as)) (aq_agents q)"
    by (auto simp: slot_runs_task_def get_slot_def list_ex_iff
        split: option.splits dest!: map_of_SomeD intro: bexI [rotated])
  then have "\<not> slot_runs_task ?t ?s" using assms(4) by (auto simp: is_task_running_in_state_def)
  moreover have "slot_has_task ?t ?s"
    using assms(1) by (auto simp: slot_has_task_def set_placed_queue list_ex_iff norm_stable_def)
  ultimately show ?thesis
    using assms keys
    by (auto simp: status_eq Let_def enqueue_eq put_slot_def drop_paused_def list_ex_iff set_update
        is_task_running_in_state_def norm_stable_def)
qed

lemma pause_status:
  assumes "norm_stable (pe_task_id rec)"
  shows "get_task_dispatch_status (pause_agent_task rec q) (pe_task_id rec) = Some Paused_status"
  by (simp add: get_task_dispatch_status_def pause_slot_eq Let_def)

lemma set_running_status:
  assumes "norm_stable (re_task_id r)" and "queue_inv q"
  shows "get_task_dispatch_status (set_agent_running a r q) (re_task_id r) = Some Running_status"
  using assms
  by (auto simp: status_eq Let_def set_agent_running_def put_slot_def drop_paused_def list_ex_iff
      set_update set_delete queue_inv_def slot_runs_task_def norm_stable_def)

section \<open>Order of service\<close>

lemma dequeue_eq:
  "dequeue_next_agent_task a q = (q', Some x) \<longleftrightarrow>
     map_of (aq_agents q) (js_trim a) \<noteq> None \<and> slot_running (get_slot q a) = None \<and>
     (\<exists>xs. slot_queue (get_slot q a) = x # xs \<and>
           q' = put_slot a ((get_slot q a)\<lparr>slot_queue := xs\<rparr>) q)"
  by (auto simp: dequeue_next_agent_task_def get_slot_def split: option.splits list.splits)

lemma enqueue_slot:
  "norm_queue_task_id (in_task_id e) \<noteq> [] \<Longrightarrow> js_trim (in_agent_id e) \<noteq> [] \<Longrightarrow>
   slot_queue (get_slot (enqueue_agent_task_in_state now e f q) (in_agent_id e))
     = placed_queue f (entry_item now e) (slot_queue (get_slot q (in_agent_id e)))"
  by (simp add: enqueue_eq)

section \<open>The cleanup contract other components rely on\<close>

text \<open>
  What the lifecycle machine needs of the queue when a task is finished: the task is no longer
  tracked, every other one is tracked as before.
\<close>

locale queue_cleanup =
  fixes remove :: "string \<Rightarrow> 'q \<Rightarrow> 'q"
    and status :: "'q \<Rightarrow> string \<Rightarrow> 's option"
    and key :: "string \<Rightarrow> string"
    and valid :: "string \<Rightarrow> bool"
  assumes kept: "valid u \<Longrightarrow> key u \<noteq> key t \<Longrightarrow> status (remove t q) u = status q u"
    and same_key: "valid u \<Longrightarrow> key u = key t \<Longrightarrow> status (remove t q) u = None"
begin

lemma fold_remove_other:
  "valid u \<Longrightarrow> (\<And>t. t \<in> set ts \<Longrightarrow> key u \<noteq> key t) \<Longrightarrow> status (fold remove ts q) u = status q u"
  by (induction ts arbitrary: q) (simp_all add: kept)

lemma fold_remove_gone:
  "valid u \<Longrightarrow> status q u = None \<Longrightarrow> status (fold remove ts q) u = None"
proof (induction ts arbitrary: q)
  case (Cons t ts)
  have "status (remove t q) u = None"
    using Cons.prems by (cases "key u = key t") (simp_all add: same_key kept)
  with Cons show ?case by simp
qed simp

lemma fold_remove_all:
  "valid u \<Longrightarrow> u \<in> set ts \<Longrightarrow> status (fold remove ts q) u = None"
proof (induction ts arbitrary: q)
  case (Cons t ts)
  then show ?case by (cases "u = t") (simp_all add: same_key fold_remove_gone)
qed simp

end

interpretation agent_queue: queue_cleanup
  "remove_task_from_agent_queue now"
  "\<lambda>file. get_task_dispatch_status (load_agent_task_queue now file)"
  norm_queue_task_id norm_stable
  by unfold_locales (simp_all add: remove_load_status)

lemma enqueue_tracked:
  assumes "norm_stable (in_task_id e)" and "norm_queue_task_id (in_task_id e) \<noteq> []"
    and "js_trim (in_agent_id e) \<noteq> []" and "queue_inv q"
  shows "get_task_dispatch_status (enqueue_agent_task_in_state now e f q) (in_task_id e) \<noteq> None"
  using assms
  by (auto simp: status_eq Let_def enqueue_eq put_slot_def drop_paused_def list_ex_iff set_update
      queue_inv_def slot_has_task_def set_placed_queue norm_stable_def)

section \<open>Runs of operations\<close>

datatype queue_op =
  Enqueue_op time queue_entry_input bool
| Set_running_op string running_entry
| Clear_running_op string "string option"
| Pause_op paused_record
| Resume_op time string bool
| Dequeue_op string
| Remove_op time string

fun run_queue_op :: "queue_op \<Rightarrow> agent_task_queue \<Rightarrow> agent_task_queue" where
  "run_queue_op (Enqueue_op now e f) q = enqueue_agent_task_in_state now e f q"
| "run_queue_op (Set_running_op a r) q = set_agent_running a r q"
| "run_queue_op (Clear_running_op a t) q = clear_agent_running_in_state a t q"
| "run_queue_op (Pause_op rec) q = pause_agent_task rec q"
| "run_queue_op (Resume_op now t p) q = fst (resume_paused_task now t p q)"
| "run_queue_op (Dequeue_op a) q = fst (dequeue_next_agent_task a q)"
| "run_queue_op (Remove_op now t) q =
     load_agent_task_queue now (remove_task_from_agent_queue now t (Some q))"

fun queue_op_stable :: "queue_op \<Rightarrow> bool" where
  "queue_op_stable (Enqueue_op now e f) = norm_stable (in_task_id e)"
| "queue_op_stable (Set_running_op a r) = norm_stable (re_task_id r)"
| "queue_op_stable (Pause_op rec) = norm_stable (pe_task_id rec)"
| "queue_op_stable _ = True"

lemma remove_op_inv:
  "queue_inv q \<Longrightarrow> queue_inv (load_agent_task_queue now (remove_task_from_agent_queue now t (Some q)))"
  by (rule load_inv) (rule remove_task_inv [of "Some q" now t], simp_all)

lemma run_queue_op_inv: "queue_op_stable op \<Longrightarrow> queue_inv q \<Longrightarrow> queue_inv (run_queue_op op q)"
  by (cases op) (simp_all add: enqueue_inv set_agent_running_inv clear_agent_running_inv
      pause_agent_task_inv resume_paused_task_inv dequeue_inv remove_op_inv)

section \<open>Properties\<close>

text \<open>
  Every run of queue operations on task ids that normalise to a fixed point keeps the queue
  well formed: no agent queues a task twice, each item sits in its own agent's queue under its
  normalised id, paused entries are filed under their own id, and all but the head of a queue is
  ordered by the time of queueing.
\<close>

theorem queue_runs_well_formed:
  "list_all queue_op_stable ops \<Longrightarrow> queue_inv (fold run_queue_op ops (empty_agent_task_queue t0))"
proof -
  assume ops: "list_all queue_op_stable ops"
  have "queue_inv q \<Longrightarrow> queue_inv (fold run_queue_op ops q)" for q
    using ops by (induction ops arbitrary: q) (simp_all add: run_queue_op_inv)
  then show ?thesis by simp
qed

definition sample_entry :: "string \<Rightarrow> time \<Rightarrow> queue_entry_input" where
  "sample_entry t at = \<lparr>in_task_id = t, in_agent_id = ''DEV-01'', in_queued_at = Some at,
     in_reason = ''busy'', in_filepath = None, in_role = None, in_filename = None,
     in_recipient = None, in_resume_dispatch = False\<rparr>"

theorem queue_runs_well_formed_witness:
  "queue_inv (fold run_queue_op
     [Enqueue_op 5 (sample_entry ''task-a.md'' 5) False, Enqueue_op 3 (sample_entry ''TASK-B'' 3) True]
     (empty_agent_task_queue 0))"
  by (rule queue_runs_well_formed) (simp add: norm_stable_def norm_queue_task_id_def sample_entry_def js_defs)

text \<open>
  Resuming a paused task with priority puts it first: if its agent is idle, the next task
  dequeued for that agent is the resumed one. Its file path is lost, though: the paused entry
  never stored it.
\<close>

theorem resume_priority_served_next:
  assumes "queue_inv q" and "map_of (aq_paused q) (norm_queue_task_id t) = Some p"
    and "norm_queue_task_id t \<noteq> []" and "js_trim (pe_agent_id p) \<noteq> []"
    and "slot_running (get_slot q (pe_agent_id p)) = None"
  shows "\<exists>q' x. dequeue_next_agent_task (pe_agent_id p) (fst (resume_paused_task now t True q)) = (q', Some x)
     \<and> qi_task_id x = norm_queue_task_id t \<and> qi_reason x = ''resume_priority'' \<and> qi_filepath x = None"
proof -
  let ?t = "norm_queue_task_id t"
  let ?e = "\<lparr>in_task_id = ?t, in_agent_id = pe_agent_id p, in_queued_at = None,
              in_reason = ''resume_priority'', in_filepath = None, in_role = None,
              in_filename = None, in_recipient = None, in_resume_dispatch = True\<rparr>"
  let ?q = "enqueue_agent_task_in_state now ?e True (drop_paused ?t q)"
  have stable: "norm_queue_task_id ?t = ?t"
    using assms(1,2) by (auto simp: queue_inv_def dest: map_of_SomeD)
  have q: "fst (resume_paused_task now t True q) = ?q"
    using assms(2) by (simp add: resume_paused_task_def Let_def)
  have slot: "slot_queue (get_slot ?q (pe_agent_id p))
      = placed_queue True (entry_item now ?e) (slot_queue (get_slot q (pe_agent_id p)))"
    using enqueue_slot [of ?e now True "drop_paused ?t q"] assms stable by simp
  obtain xs where xs: "slot_queue (get_slot ?q (pe_agent_id p)) = entry_item now ?e # xs"
    using placed_queue_front [of "entry_item now ?e" "slot_queue (get_slot q (pe_agent_id p))"]
      stable slot by auto
  have "slot_running (get_slot ?q (pe_agent_id p)) = None"
    "map_of (aq_agents ?q) (js_trim (pe_agent_id p)) \<noteq> None"
    using assms stable by (simp_all add: enqueue_eq put_slot_def get_slot_def drop_paused_def)
  with xs have "dequeue_next_agent_task (pe_agent_id p) ?q
      = (put_slot (pe_agent_id p) ((get_slot ?q (pe_agent_id p))\<lparr>slot_queue := xs\<rparr>) ?q,
         Some (entry_item now ?e))"
    by (simp add: dequeue_eq)
  then show ?thesis
    unfolding q by (intro exI conjI) (assumption, simp_all add: entry_item_def stable)
qed

definition sample_paused :: agent_task_queue where
  "sample_paused = fold run_queue_op
     [Enqueue_op 1 (sample_entry ''T-OLD'' 1) False,
      Pause_op \<lparr>pe_task_id = ''T-PAUSED'', pe_agent_id = ''DEV-01'', pe_paused_at = 2,
                pe_paused_by = ''ADMIN'', pe_pause_reason = ''wait'',
                pr_filepath = Some ''fcop/t.md'', pr_filename = None\<rparr>]
     (empty_agent_task_queue 0)"

lemma sample_paused_inv: "queue_inv sample_paused"
  unfolding sample_paused_def
  by (simp add: run_queue_op_inv sample_entry_def norm_stable_def norm_queue_task_id_def js_defs
      del: run_queue_op.simps)

theorem resume_priority_served_next_witness:
  "\<exists>q' x. dequeue_next_agent_task ''DEV-01'' (fst (resume_paused_task 9 ''T-PAUSED'' True sample_paused)) = (q', Some x)
     \<and> qi_task_id x = ''T-PAUSED'' \<and> qi_reason x = ''resume_priority'' \<and> qi_filepath x = None"
proof -
  let ?p = "\<lparr>pe_task_id = ''T-PAUSED'', pe_agent_id = ''DEV-01'', pe_paused_at = 2,
             pe_paused_by = ''ADMIN'', pe_pause_reason = ''wait''\<rparr>"
  have "map_of (aq_paused sample_paused) (norm_queue_task_id ''T-PAUSED'') = Some ?p"
    by code_simp
  moreover have "norm_queue_task_id ''T-PAUSED'' = ''T-PAUSED''" "js_trim ''DEV-01'' = ''DEV-01''"
    "slot_running (get_slot sample_paused ''DEV-01'') = None"
    by code_simp+
  ultimately show ?thesis
    using resume_priority_served_next [of sample_paused "''T-PAUSED''" ?p 9] sample_paused_inv
    by simp
qed

text \<open>
  First come, first served: after an ordinary enqueue, the item dequeued for the agent was
  queued no later than any item that stays in its queue.
\<close>

theorem enqueue_dequeue_earliest:
  assumes "norm_queue_task_id (in_task_id e) \<noteq> []" and "js_trim (in_agent_id e) \<noteq> []"
    and "dequeue_next_agent_task (in_agent_id e) (enqueue_agent_task_in_state now e False q) = (q', Some x)"
  shows "\<forall>i\<in>set (slot_queue (get_slot q' (in_agent_id e))). qi_queued_at x \<le> qi_queued_at i"
  using assms sorted_placed_queue [of "entry_item now e" "slot_queue (get_slot q (in_agent_id e))"]
  by (auto simp: dequeue_eq enqueue_slot)

theorem enqueue_dequeue_earliest_witness:
  "\<exists>q' x. dequeue_next_agent_task ''DEV-01''
       (enqueue_agent_task_in_state 9 (sample_entry ''T-NEW'' 9) False sample_paused) = (q', Some x)
     \<and> (\<forall>i\<in>set (slot_queue (get_slot q' ''DEV-01'')). qi_queued_at x \<le> qi_queued_at i)
     \<and> slot_queue (get_slot q' ''DEV-01'') \<noteq> []"
proof -
  let ?r = "dequeue_next_agent_task ''DEV-01''
       (enqueue_agent_task_in_state 9 (sample_entry ''T-NEW'' 9) False sample_paused)"
  have some: "snd ?r \<noteq> None" and rest: "slot_queue (get_slot (fst ?r) ''DEV-01'') \<noteq> []"
    by code_simp+
  from some obtain q' x where r: "?r = (q', Some x)" by (cases ?r) auto
  have "norm_queue_task_id (in_task_id (sample_entry ''T-NEW'' 9)) \<noteq> []"
    "js_trim (in_agent_id (sample_entry ''T-NEW'' 9)) \<noteq> []"
    by code_simp+
  with r rest enqueue_dequeue_earliest [of "sample_entry ''T-NEW'' 9" 9 sample_paused q' x]
  show ?thesis by (auto simp: sample_entry_def)
qed

text \<open>
  The place at the front does not last: once any other task is enqueued for the same agent,
  a task resumed with priority is not the next one served as long as an older item waits.
\<close>

theorem priority_lost_on_enqueue:
  assumes "norm_queue_task_id (in_task_id e) \<noteq> []" and "js_trim (in_agent_id e) \<noteq> []"
    and old: "i \<in> set (slot_queue (get_slot q (in_agent_id e)))" "qi_queued_at i < at"
      "norm_queue_task_id (qi_task_id i) \<noteq> norm_queue_task_id (in_task_id e)"
    and "dequeue_next_agent_task (in_agent_id e) (enqueue_agent_task_in_state now e False q) = (q', Some x)"
  shows "qi_queued_at x < at"
proof -
  let ?xs = "placed_queue False (entry_item now e) (slot_queue (get_slot q (in_agent_id e)))"
  have "i \<in> set ?xs" using old by (simp add: set_placed_queue without_task_def)
  moreover obtain ys where "?xs = x # ys" using assms(1,2,6) by (auto simp: dequeue_eq enqueue_slot)
  ultimately have "qi_queued_at x \<le> qi_queued_at i"
    using sorted_placed_queue [of "entry_item now e" "slot_queue (get_slot q (in_agent_id e))"] by auto
  with old(2) show ?thesis by simp
qed

theorem priority_lost_on_enqueue_witness:
  "\<exists>q' x. dequeue_next_agent_task ''DEV-01''
       (enqueue_agent_task_in_state 10 (sample_entry ''T-NEW'' 10) False
          (fst (resume_paused_task 9 ''T-PAUSED'' True sample_paused))) = (q', Some x)
     \<and> qi_queued_at x < 9"
proof -
  let ?q = "fst (resume_paused_task 9 ''T-PAUSED'' True sample_paused)"
  let ?e = "sample_entry ''T-NEW'' 10"
  let ?r = "dequeue_next_agent_task ''DEV-01'' (enqueue_agent_task_in_state 10 ?e False ?q)"
  let ?i = "slot_queue (get_slot ?q ''DEV-01'') ! 1"
  have some: "snd ?r \<noteq> None" and len: "1 < length (slot_queue (get_slot ?q ''DEV-01''))"
    by code_simp+
  from some obtain q' x where r: "?r = (q', Some x)" by (cases ?r) auto
  have "norm_queue_task_id (in_task_id ?e) \<noteq> []" "js_trim (in_agent_id ?e) \<noteq> []"
    "qi_queued_at ?i < 9" "norm_queue_task_id (qi_task_id ?i) \<noteq> norm_queue_task_id (in_task_id ?e)"
    by code_simp+
  moreover have "in_agent_id ?e = ''DEV-01''" by (simp add: sample_entry_def)
  ultimately show ?thesis
    using r len priority_lost_on_enqueue [of ?e ?i ?q 9 10 q' x] by (auto simp: nth_mem)
qed

text \<open>
  Removing a task leaves it without a dispatch status on any agent, and changes the status of
  no other task, whether or not the queue file existed.
\<close>

theorem remove_task_status:
  assumes "norm_stable u"
  shows "get_task_dispatch_status
      (load_agent_task_queue now (remove_task_from_agent_queue now t queue_file)) u =
     (if norm_queue_task_id u = norm_queue_task_id t then None
      else get_task_dispatch_status (load_agent_task_queue now queue_file) u)"
  using agent_queue.kept [OF assms] agent_queue.same_key [OF assms] by auto

theorem remove_task_status_witness:
  "get_task_dispatch_status
      (load_agent_task_queue 9 (remove_task_from_agent_queue 9 ''t-paused.md'' (Some sample_paused))) ''T-PAUSED'' = None
   \<and> get_task_dispatch_status
      (load_agent_task_queue 9 (remove_task_from_agent_queue 9 ''t-paused.md'' (Some sample_paused))) ''T-OLD''
      = Some Queued_status"
proof -
  have st: "norm_stable ''T-PAUSED''" "norm_stable ''T-OLD''" by code_simp+
  have "norm_queue_task_id ''T-PAUSED'' = norm_queue_task_id ''t-paused.md''"
    "norm_queue_task_id ''T-OLD'' \<noteq> norm_queue_task_id ''t-paused.md''"
    "get_task_dispatch_status (load_agent_task_queue 9 (Some sample_paused)) ''T-OLD'' = Some Queued_status"
    by code_simp+
  then show ?thesis using remove_task_status [OF st(1)] remove_task_status [OF st(2)] by simp
qed

text \<open>
  The operations give a task the status they announce: an enqueued task that is not running
  is queued, a task set running is running (even when it was paused), a paused one is paused.
\<close>

theorem operations_set_status:
  assumes "queue_inv q" and "norm_stable t" and "norm_queue_task_id t \<noteq> []" and "js_trim a \<noteq> []"
    and "in_task_id e = t" and "in_agent_id e = a" and "re_task_id r = t" and "pe_task_id rec = t"
  shows "(if is_task_running_in_state q t
          then get_task_dispatch_status (enqueue_agent_task_in_state now e f q) t \<noteq> None
          else get_task_dispatch_status (enqueue_agent_task_in_state now e f q) t = Some Queued_status)
     \<and> get_task_dispatch_status (set_agent_running a r q) t = Some Running_status
     \<and> get_task_dispatch_status (pause_agent_task rec q) t = Some Paused_status"
  using assms enqueue_status [of e q now f] enqueue_tracked [of e q now f]
    set_running_status [of r q a] pause_status [of rec q]
  by simp

theorem operations_set_status_witness:
  "get_task_dispatch_status (enqueue_agent_task_in_state 9 (sample_entry ''T-NEW'' 9) False sample_paused) ''T-NEW''
      = Some Queued_status
   \<and> get_task_dispatch_status
       (set_agent_running ''DEV-01'' \<lparr>re_task_id = ''T-NEW'', re_session_id = ''s1'', re_started_at = 9\<rparr> sample_paused)
       ''T-NEW'' = Some Running_status
   \<and> get_task_dispatch_status
       (pause_agent_task \<lparr>pe_task_id = ''T-NEW'', pe_agent_id = ''DEV-01'', pe_paused_at = 9,
          pe_paused_by = ''PM'', pe_pause_reason = ''hold'', pr_filepath = None, pr_filename = None\<rparr> sample_paused)
       ''T-NEW'' = Some Paused_status"
proof -
  have "norm_stable ''T-NEW''" "norm_queue_task_id ''T-NEW'' \<noteq> []" "js_trim ''DEV-01'' \<noteq> []"
    "\<not> is_task_running_in_state sample_paused ''T-NEW''"
    by code_simp+
  then show ?thesis
    using operations_set_status [OF sample_paused_inv, of "''T-NEW''" "''DEV-01''" "sample_entry ''T-NEW'' 9"
        "\<lparr>re_task_id = ''T-NEW'', re_session_id = ''s1'', re_started_at = 9\<rparr>"
        "\<lparr>pe_task_id = ''T-NEW'', pe_agent_id = ''DEV-01'', pe_paused_at = 9,
          pe_paused_by = ''PM'', pe_pause_reason = ''hold'', pr_filepath = None, pr_filename = None\<rparr>" 9 False]
    by (simp add: sample_entry_def)
qed

end
