(* ===== verification/Lifecycle_Machine.thy ===== *)
theory Lifecycle_Machine
  imports Lifecycle_Children Lifecycle_Rework Agent_Queue
begin

text \<open>
  The lifecycle state machine (\<^verbatim>\<open>lifecycle/LifecycleStateMachine.ts\<close>), the human acceptance of
  \<^verbatim>\<open>lifecycle/humanTaskAcceptance.ts\<close> it asks for, and the kernel of \<^verbatim>\<open>lifecycle/LifecycleKernel.ts\<close>
  through which every caller goes. The world is what the operations read and write on disk: the
  task files, the agent queue file, the reports, the ledger and the reviews. An operation takes
  the time as an argument; its clock readings are taken as one instant.
\<close>

section \<open>Human acceptance (\<^verbatim>\<open>humanTaskAcceptance.ts\<close>)\<close>

record review_doc =
  rv_task_id :: "string option"
  rv_subject_id :: "string option"
  rv_decision :: "string option"
  rv_fact_check_verdict :: "string option"
  rv_approved_at :: "string option"
  rv_human_approved_at :: "string option"  \<comment> \<open>\<open>human_approval.approved_at\<close>\<close>
  rv_review_id :: "string option"
  rv_report_id :: "string option"

record pending_human_review =
  ph_review_id :: string
  ph_report_id :: string

record human_acceptance =
  ha_decision_id :: string
  ha_review_id :: string
  ha_report_id :: string
  ha_operator_role :: string
  ha_source :: string
  ha_session_id :: "string option"
  ha_note :: "string option"

definition is_review_filename :: "string \<Rightarrow> bool" where
  "is_review_filename n \<longleftrightarrow>
     js_starts (js_lower n) ''review-'' \<and> js_ends (js_lower n) ''.md'' \<and> newline \<notin> set n \<and> carriage \<notin> set n"

definition canonical_task_id :: "string \<Rightarrow> string" where
  "canonical_task_id t = js_upper (or_else (task_id_prefix t) t)"

text \<open>The tests a review of the loop has to pass; an unreadable file is \<open>None\<close>.\<close>

definition review_needs_human :: "string \<Rightarrow> string \<Rightarrow> review_doc \<Rightarrow> bool" where
  "review_needs_human canonical n r =
     (if \<not> is_review_filename n then False
      else if \<not> js_includes (js_upper (str_of (coalesce (rv_task_id r) (rv_subject_id r)))) canonical then False
      else if js_lower (str_of (coalesce (rv_decision r) (rv_fact_check_verdict r)))
                \<notin> {''needs_human'', ''needs_admin''} then False
      else js_trim (str_of (rv_approved_at r)) = [] \<and> js_trim (str_of (rv_human_approved_at r)) = [])"

fun find_pending_review :: "string \<Rightarrow> (string \<times> review_doc option) list \<Rightarrow> pending_human_review option" where
  "find_pending_review canonical [] = None"
| "find_pending_review canonical ((n, None) # rest) = find_pending_review canonical rest"
| "find_pending_review canonical ((n, Some r) # rest) =
     (if review_needs_human canonical n r
      then Some \<lparr>ph_review_id = js_trim (or_else (rv_review_id r) (strip_md n)),
                 ph_report_id = js_trim (str_of (coalesce (rv_report_id r) (rv_subject_id r)))\<rparr>
      else find_pending_review canonical rest)"

definition find_pending_human_review ::
  "(string \<times> review_doc option) list \<Rightarrow> string \<Rightarrow> pending_human_review option" where
  "find_pending_human_review reviews task_id = find_pending_review (canonical_task_id task_id) reviews"

definition trusted_source :: string where
  "trusted_source = ''panel_trusted_foreground_confirmation''"

definition assert_trusted_human_task_acceptance ::
  "task_fm \<Rightarrow> string \<Rightarrow> pending_human_review \<Rightarrow> human_acceptance option \<Rightarrow> lifecycle_error + human_acceptance" where
  "assert_trusted_human_task_acceptance fm actor pending acceptance =
     (let decision_id = js_trim (str_of (fm_fact_check_decision_id fm));
          review_id = js_trim (str_of (fm_fact_check_exception_review_id fm));
          report_id = js_trim (str_of (fm_fact_check_exception_report_id fm)) in
      if \<not> fm_fact_check_exception fm
         \<or> js_upper (js_trim (str_of (fm_fact_check_exception_by fm))) \<noteq> ''ADMIN''
         \<or> decision_id = [] \<or> review_id = [] \<or> report_id = []
      then Inl Exception_not_audited
      else case acceptance of
        None \<Rightarrow> Inl Human_decision_missing
      | Some a \<Rightarrow>
          if ha_source a \<noteq> trusted_source
             \<or> js_upper (js_trim (ha_operator_role a)) \<noteq> js_upper (js_trim actor)
          then Inl Human_decision_untrusted
          else if ha_decision_id a \<noteq> decision_id \<or> ha_review_id a \<noteq> review_id \<or> ha_report_id a \<noteq> report_id
             \<or> (ph_review_id pending \<noteq> [] \<and> ha_review_id a \<noteq> ph_review_id pending)
             \<or> (ph_report_id pending \<noteq> [] \<and> ha_report_id a \<noteq> ph_report_id pending)
          then Inl Human_decision_mismatch
          else Inr a)"

definition human_decision_of :: "human_acceptance \<Rightarrow> string \<Rightarrow> time \<Rightarrow> string option \<Rightarrow> human_decision" where
  "human_decision_of a actor at note =
     \<lparr>hd_at = at, hd_by = js_upper (js_trim actor), hd_role = js_upper (js_trim actor),
      hd_source = ha_source a, hd_session_id = str_of (ha_session_id a),
      hd_decision_id = ha_decision_id a, hd_review_id = ha_review_id a, hd_report_id = ha_report_id a,
      hd_note = str_of (coalesce (ha_note a) note),
      hd_scope = ''task_review_only_no_wp_publish_deploy_archive''\<rparr>"

section \<open>The world\<close>

record lc_world =
  w_files :: task_files
  w_queue :: "agent_task_queue option"
  w_reports :: "(string, report_doc) js_map"
  w_ledger :: "ledger_row option list"
  w_reviews :: "(string \<times> review_doc option) list"

type_synonym 'a lc = "(lc_world, lifecycle_error, 'a) act"

definition on_files :: "(task_files, lifecycle_error, 'a) act \<Rightarrow> 'a lc" where
  "on_files m w = (case m (w_files w) of (r, fs) \<Rightarrow> (r, w\<lparr>w_files := fs\<rparr>))"

record transition_result =
  res_task_id :: string
  res_from :: lifecycle_stage
  res_to :: lifecycle_stage
  res_path :: string

definition lifecycle_rel_path :: "lifecycle_stage \<Rightarrow> string \<Rightarrow> string" where
  "lifecycle_rel_path st n = ''fcop/_lifecycle/'' @ stage_name st @ ''/'' @ n"

definition forbidden_transitions :: "(lifecycle_stage \<times> lifecycle_stage) list" where
  "forbidden_transitions = [(Active, Done), (Active, Archive), (Review, Archive)]"

definition resolve_reject_display_status :: "task_fm \<Rightarrow> string \<Rightarrow> string" where
  "resolve_reject_display_status fm actor =
     (if js_upper (js_trim actor) \<noteq> ''ADMIN'' then ''waiting_rework''
      else let to = js_upper (js_trim (str_of (coalesce (fm_to fm) (fm_recipient fm))));
               driver = js_upper (js_trim (str_of (fm_driver fm))) in
        if to = ''PM'' \<or> driver = ''PM'' then ''waiting_pm_rework'' else ''waiting_rework'')"

definition locate_task :: "string \<Rightarrow> task_path lc" where
  "locate_task task_id w =
     (case find_task_path_by_id (w_files w) task_id of
        None \<Rightarrow> (Inl (Task_not_found task_id), w)
      | Some p \<Rightarrow> (Inr p, w))"

text \<open>
  \<open>locateTask\<close>, \<open>store.read\<close> and \<open>resolveStage\<close>, with which every operation starts. A located
  path lies below a stage directory, so \<open>resolveStage\<close> answers that stage.
\<close>

definition open_task :: "string \<Rightarrow> (task_path \<times> task_fm) lc" where
  "open_task task_id =
     act_bind (locate_task task_id) (\<lambda>p.
     act_bind (on_files (store_read p)) (\<lambda>(fm, body). act_return (p, fm)))"

definition best_effort_queue_removal :: "time \<Rightarrow> string \<Rightarrow> unit lc" where
  "best_effort_queue_removal now task_id w =
     (Inr (), w\<lparr>w_queue := remove_task_from_agent_queue now task_id (w_queue w)\<rparr>)"

definition move_task ::
  "time \<Rightarrow> task_path \<Rightarrow> lifecycle_stage \<Rightarrow> lifecycle_stage \<Rightarrow> bool \<Rightarrow> transition_result lc" where
  "move_task now path frm to bypass =
     act_bind (act_check (check (bypass \<or> (frm, to) \<notin> set forbidden_transitions) (Transition_denied frm to))) (\<lambda>_.
     act_bind (act_check (check (frm \<noteq> Archive) (Transition_denied frm to))) (\<lambda>_.
     act_bind (on_files (rename_file path (to, snd path))) (\<lambda>_.
     act_bind (on_files (store_read (to, snd path))) (\<lambda>(fm, body).
     let task_id = or_else (fm_task_id fm) (strip_md (snd path)) in
     act_bind (act_when (to = Done \<or> to = Archive) (best_effort_queue_removal now task_id)) (\<lambda>_.
     act_return \<lparr>res_task_id = task_id, res_from = frm, res_to = to,
                 res_path = lifecycle_rel_path to (snd path)\<rparr>)))))"

definition transition_entry ::
  "lifecycle_stage \<Rightarrow> lifecycle_stage \<Rightarrow> string \<Rightarrow> string \<Rightarrow> transition_input" where
  "transition_entry frm to actor action =
     \<lparr>ti_from = Some frm, ti_to = to, ti_by = actor, ti_action = action, ti_reason = None,
      ti_report = None, ti_decision = None, ti_based_on = None, ti_child_task = None\<rparr>"

section \<open>Operations\<close>

definition submit_patch :: "time \<Rightarrow> task_fm \<Rightarrow> task_fm \<Rightarrow> task_fm" where
  "submit_patch now fm0 fm =
     fm\<lparr>fm_review_status := Some ''pending'', fm_submitted_at := Some now,
        fm_current_owner := coalesce (fm_reviewer fm0) (coalesce (fm_done_authority fm0) (fm_from fm0))\<rparr>"

definition submit_rework_fields :: "task_fm \<Rightarrow> lifecycle_stage \<Rightarrow> rework_fields" where
  "submit_rework_fields fm frm = (fields_of_fm fm)\<lparr>rf_scope := Some (stage_name frm)\<rparr>"

definition settle_rework :: "time \<Rightarrow> string \<Rightarrow> string \<Rightarrow> task_path \<Rightarrow> task_fm \<Rightarrow> unit lc" where
  "settle_rework now task_id report_id path fm w =
     (case evaluate_rework_settlement now (w_reports w) (w_ledger w) fm task_id report_id of
        Not_settled reason \<Rightarrow> (Inl Rework_not_settled, w)
      | Settled rid patched \<Rightarrow>
          act_when patched (on_files (store_patch path (rework_patch now rid) False)) w)"

definition submit_review ::
  "time \<Rightarrow> string \<Rightarrow> string \<Rightarrow> string \<Rightarrow> string option \<Rightarrow> transition_result lc" where
  "submit_review now task_id actor report_id reason =
     act_bind (open_task task_id) (\<lambda>(path, fm). let frm = fst path in
     act_bind (act_check (assert_not_frozen fm frm)) (\<lambda>_.
     act_bind (act_check (check (frm = Active) (Expected_state ''submit_review'' frm))) (\<lambda>_.
     act_bind (act_check (authority_assert fm actor Submit_review)) (\<lambda>_.
     act_bind (act_check (check (js_trim report_id \<noteq> []) Report_id_required)) (\<lambda>_.
     act_bind (act_when (is_task_reopened_for_rework (submit_rework_fields fm frm))
                (settle_rework now task_id report_id path fm)) (\<lambda>_.
     act_bind (on_files (append_transition now path
                ((transition_entry frm Review actor ''submit_review'')
                   \<lparr>ti_report := Some report_id, ti_reason := keep_truthy reason\<rparr>) False)) (\<lambda>_.
     act_bind (on_files (store_patch path (submit_patch now fm) False)) (\<lambda>_.
     move_task now path frm Review False))))))))"

definition approve_patch ::
  "time \<Rightarrow> string \<Rightarrow> human_acceptance option \<Rightarrow> string option \<Rightarrow> task_fm \<Rightarrow> task_fm" where
  "approve_patch now actor acceptance note fm =
     (let fm1 = fm\<lparr>fm_review_status := Some ''approved'', fm_approved_by := Some actor,
                   fm_approved_at := Some now, fm_lifecycle_projection := Some ''done'',
                   fm_display_status := Some ''done''\<rparr> in
      case acceptance of None \<Rightarrow> fm1
      | Some a \<Rightarrow> fm1\<lparr>fm_human_decision := Some (human_decision_of a actor now note)\<rparr>)"

definition require_acceptance ::
  "task_fm \<Rightarrow> string \<Rightarrow> string \<Rightarrow> human_acceptance option \<Rightarrow> human_acceptance option lc" where
  "require_acceptance fm task_id actor acceptance w =
     (case find_pending_human_review (w_reviews w) task_id of
        None \<Rightarrow> (Inr None, w)
      | Some pending \<Rightarrow>
          (case assert_trusted_human_task_acceptance fm actor pending acceptance of
             Inl e \<Rightarrow> (Inl e, w) | Inr a \<Rightarrow> (Inr (Some a), w)))"

definition approve_review ::
  "time \<Rightarrow> string \<Rightarrow> string \<Rightarrow> string option \<Rightarrow> human_acceptance option \<Rightarrow> transition_result lc" where
  "approve_review now task_id actor note acceptance =
     act_bind (open_task task_id) (\<lambda>(path, fm). let frm = fst path in
     act_bind (act_check (assert_not_frozen fm frm)) (\<lambda>_.
     act_bind (act_check (check (frm = Review) (Expected_state ''approve_review'' frm))) (\<lambda>_.
     act_bind (act_check (check (\<not> (fm_issue_blocking fm \<and> js_trim (str_of (fm_blocking_issue_id fm)) \<noteq> []))
                (Blocking_issue (str_of (fm_blocking_issue_id fm))))) (\<lambda>_.
     act_bind (act_check (authority_assert fm actor Approve_review)) (\<lambda>_.
     act_bind (require_acceptance fm task_id actor acceptance) (\<lambda>accepted.
     act_bind (on_files (append_transition now path
                ((transition_entry frm Done actor ''approve_review'')
                   \<lparr>ti_decision := Some ''approved'',
                    ti_based_on := map_option (\<lambda>a. [ha_decision_id a, ha_review_id a, ha_report_id a]) accepted,
                    ti_reason := keep_truthy note\<rparr>) False)) (\<lambda>_.
     act_bind (on_files (store_patch path (approve_patch now actor accepted note) False)) (\<lambda>_.
     move_task now path frm Done False))))))))"

definition reject_patch :: "string \<Rightarrow> string \<Rightarrow> task_fm \<Rightarrow> task_fm \<Rightarrow> task_fm" where
  "reject_patch actor reason fm0 fm =
     fm\<lparr>fm_review_status := Some ''rejected'', fm_reopen_reason := Some reason,
        fm_reopened_count := Some (or_else (fm_reopened_count fm0) 0 + 1),
        fm_current_owner := coalesce (fm_driver fm0) (fm_to fm0),
        fm_display_status := Some (resolve_reject_display_status fm0 actor)\<rparr>"

definition reject_review :: "time \<Rightarrow> string \<Rightarrow> string \<Rightarrow> string \<Rightarrow> transition_result lc" where
  "reject_review now task_id actor reason =
     act_bind (open_task task_id) (\<lambda>(path, fm). let frm = fst path in
     act_bind (act_check (assert_not_frozen fm frm)) (\<lambda>_.
     act_bind (act_check (check (frm = Review) (Expected_state ''reject_review'' frm))) (\<lambda>_.
     act_bind (act_check (check (js_trim reason \<noteq> []) (Reason_required ''reject_review''))) (\<lambda>_.
     act_bind (act_when (js_upper (js_trim actor) \<noteq> ''ADMIN'')
                (act_check (authority_assert fm actor Reject_review))) (\<lambda>_.
     act_bind (on_files (store_patch path (reject_patch actor reason fm) False)) (\<lambda>_.
     act_bind (on_files (append_transition now path
                ((transition_entry frm Active actor ''reject_review'')
                   \<lparr>ti_decision := Some ''rejected'', ti_reason := Some reason\<rparr>) False)) (\<lambda>_.
     move_task now path frm Active False)))))))"

definition reopen_patch :: "string \<Rightarrow> task_fm \<Rightarrow> task_fm \<Rightarrow> task_fm" where
  "reopen_patch reason fm0 fm =
     fm\<lparr>fm_review_status := Some ''reopened'', fm_reopen_reason := Some reason,
        fm_reopened_count := Some (or_else (fm_reopened_count fm0) 0 + 1),
        fm_current_owner := coalesce (fm_driver fm0) (fm_to fm0), fm_frozen := False\<rparr>"

definition reopen_task :: "time \<Rightarrow> string \<Rightarrow> string \<Rightarrow> string \<Rightarrow> transition_result lc" where
  "reopen_task now task_id actor reason =
     act_bind (open_task task_id) (\<lambda>(path, fm). let frm = fst path in
     act_bind (act_check (assert_not_frozen fm frm)) (\<lambda>_.
     act_bind (act_check (check (frm \<noteq> Archive) Task_frozen)) (\<lambda>_.
     act_bind (act_check (check (frm = Done) (Expected_state ''reopen_task'' frm))) (\<lambda>_.
     act_bind (act_check (check (js_trim reason \<noteq> []) (Reason_required ''reopen_task''))) (\<lambda>_.
     act_bind (act_check (authority_assert fm actor Reopen_task)) (\<lambda>_.
     act_bind (on_files (append_transition now path
                ((transition_entry frm Active actor ''reopen_task'')
                   \<lparr>ti_decision := Some ''reopened'', ti_reason := Some reason\<rparr>) False)) (\<lambda>_.
     act_bind (on_files (store_patch path (reopen_patch reason fm) False)) (\<lambda>_.
     move_task now path frm Active False))))))))"

definition archive_patch :: "time \<Rightarrow> string \<Rightarrow> string \<Rightarrow> bool \<Rightarrow> task_fm \<Rightarrow> task_fm" where
  "archive_patch now actor reason force fm =
     (let fm1 = fm\<lparr>fm_frozen := True, fm_archived_by := Some actor, fm_archived_at := Some now,
                   fm_archive_reason := Some reason, fm_lifecycle_projection := Some ''archive'',
                   fm_display_status := Some ''archived''\<rparr> in
      if force then fm1\<lparr>fm_archive_mode := Some ''force'', fm_task_type := Some ''force_archive''\<rparr> else fm1)"

definition archive_children_ready :: "time \<Rightarrow> string \<Rightarrow> string \<Rightarrow> string \<Rightarrow> unit lc" where
  "archive_children_ready now main_task_id actor reason w =
     act_bind (act_check (assert_mainline_archive_children_ready (w_files w) main_task_id))
       (\<lambda>children. on_files (auto_archive_accepted_children now children actor reason)) w"

definition archive_task :: "time \<Rightarrow> string \<Rightarrow> string \<Rightarrow> string \<Rightarrow> bool \<Rightarrow> transition_result lc" where
  "archive_task now task_id actor reason force =
     act_bind (open_task task_id) (\<lambda>(path, fm).
     let frm = fst path; dest = (Archive, snd path);
         mainline = is_admin_mainline_task_filename (snd path);
         main_task_id = strip_md (or_else (fm_task_id fm) task_id) in
     act_bind (act_check (assert_not_frozen fm frm)) (\<lambda>_.
     act_bind (act_check (authority_assert fm actor Archive_task)) (\<lambda>_.
     act_bind (act_check (if force then assert_can_force_archive fm reason frm
                          else assert_can_archive fm reason frm)) (\<lambda>_.
     act_bind (act_when (mainline \<and> \<not> force) (archive_children_ready now main_task_id actor reason)) (\<lambda>_.
     act_bind (move_task now path frm Archive force) (\<lambda>moved.
     act_bind (on_files (append_transition now dest
                ((transition_entry frm Archive actor (if force then ''force_archive_task'' else ''archive_task''))
                   \<lparr>ti_decision := Some ''archived'', ti_reason := Some reason\<rparr>) True)) (\<lambda>_.
     act_bind (on_files (store_patch dest (archive_patch now actor reason force) True)) (\<lambda>_.
     act_bind (act_when (mainline \<and> force)
                (act_bind (on_files (terminate_open_child_tasks now main_task_id actor reason))
                   (\<lambda>_. act_return ()))) (\<lambda>_.
     act_return moved)))))))))"

definition finish_task_legacy :: "time \<Rightarrow> string \<Rightarrow> string \<Rightarrow> string option \<Rightarrow> transition_result lc" where
  "finish_task_legacy now task_id actor note =
     act_bind (open_task task_id) (\<lambda>(path, fm). let stage = fst path in
     act_bind (act_check (assert_not_frozen fm stage)) (\<lambda>_.
     if stage = Review
     then act_bind (act_check (check (js_upper actor = resolve_done_authority fm) (Finish_authority_denied actor)))
            (\<lambda>_. approve_review now task_id actor note None)
     else act_throw (Legacy_finish_denied stage)))"

section \<open>Runtime operations\<close>

definition dest_absent :: "task_path \<Rightarrow> unit lc" where
  "dest_absent dest w =
     (if map_of (w_files w) dest \<noteq> None then (Inl Ambiguous_duplicate, w) else (Inr (), w))"

definition rename_quiet :: "task_path \<Rightarrow> task_path \<Rightarrow> unit lc" where
  "rename_quiet src dst w = (Inr (), snd (on_files (rename_file src dst) w))"

text \<open>Read back the moved file; move it back when it does not carry the state.\<close>

definition read_back :: "task_path \<Rightarrow> task_path \<Rightarrow> lifecycle_stage \<Rightarrow> unit lc" where
  "read_back src dest st =
     act_bind (on_files (store_read dest)) (\<lambda>(fm, body).
     act_when (fst dest \<noteq> st \<or> str_of (fm_state fm) \<noteq> stage_name st)
       (act_bind (rename_quiet dest src) (\<lambda>_. act_throw Read_back_failed)))"

definition dispatch_patch :: "string option \<Rightarrow> string option \<Rightarrow> string option \<Rightarrow> task_fm \<Rightarrow> task_fm" where
  "dispatch_patch attempt lease agent fm =
     fm\<lparr>fm_state := Some ''active'', fm_lifecycle_path := Some ''fcop/_lifecycle/active'',
        fm_dispatch_attempt_id := (if truthy attempt then attempt else fm_dispatch_attempt_id fm),
        fm_execution_lease_id := (if truthy lease then lease else fm_execution_lease_id fm),
        fm_dispatch_agent_id := (if truthy agent then agent else fm_dispatch_agent_id fm)\<rparr>"

definition runtime_dispatch_inbox_to_active ::
  "time \<Rightarrow> task_path \<Rightarrow> string option \<Rightarrow> string option \<Rightarrow> string option \<Rightarrow> unit lc" where
  "runtime_dispatch_inbox_to_active now path attempt lease agent =
     (if fst path \<noteq> Inbox then act_return ()
      else let dest = (Active, snd path) in
        act_bind (dest_absent dest) (\<lambda>_.
        act_bind (on_files (append_transition now path
                   (transition_entry Inbox Active ''CodeFlowMu'' ''runtime_dispatch'') False)) (\<lambda>_.
        act_bind (on_files (store_patch path (dispatch_patch attempt lease agent) False)) (\<lambda>_.
        act_bind (on_files (rename_file path dest)) (\<lambda>_.
        read_back path dest Active)))))"

definition repair_patch :: "task_fm \<Rightarrow> task_fm" where
  "repair_patch fm =
     fm\<lparr>fm_state := Some ''inbox'', fm_lifecycle_path := Some ''fcop/_lifecycle/inbox'',
        fm_dispatch_attempt_id := None, fm_execution_lease_id := None, fm_dispatch_agent_id := None\<rparr>"

definition runtime_repair_inbox_split :: "time \<Rightarrow> task_path \<Rightarrow> string \<Rightarrow> unit lc" where
  "runtime_repair_inbox_split now path reason =
     (if fst path \<noteq> Inbox then act_return ()
      else
        act_bind (on_files (append_transition now path
                   ((transition_entry Inbox Inbox ''CodeFlowMu'' ''runtime_repair_lifecycle_split'')
                      \<lparr>ti_reason := Some reason\<rparr>) False)) (\<lambda>_.
        act_bind (on_files (store_patch path repair_patch False)) (\<lambda>_.
        act_bind (on_files (store_read path)) (\<lambda>(fm, body).
        act_when (str_of (fm_state fm) \<noteq> ''inbox'') (act_throw Read_back_failed)))))"

definition restore_patch :: "task_fm \<Rightarrow> task_fm" where
  "restore_patch fm = fm\<lparr>fm_state := Some ''inbox'', fm_lifecycle_path := Some ''fcop/_lifecycle/inbox''\<rparr>"

definition runtime_restore_active_to_inbox :: "time \<Rightarrow> task_path \<Rightarrow> string \<Rightarrow> unit lc" where
  "runtime_restore_active_to_inbox now path reason =
     (if fst path \<noteq> Active then act_return ()
      else let dest = (Inbox, snd path) in
        act_bind (dest_absent dest) (\<lambda>_.
        act_bind (on_files (append_transition now path
                   ((transition_entry Active Inbox ''CodeFlowMu'' ''runtime_restore_failed_dispatch'')
                      \<lparr>ti_reason := Some reason\<rparr>) False)) (\<lambda>_.
        act_bind (on_files (store_patch path restore_patch False)) (\<lambda>_.
        act_bind (on_files (rename_file path dest)) (\<lambda>_.
        read_back path dest Inbox)))))"

definition supersede_closed_patch :: "lifecycle_stage \<Rightarrow> string \<Rightarrow> string \<Rightarrow> task_fm \<Rightarrow> task_fm" where
  "supersede_closed_patch st superseded_by reason fm =
     fm\<lparr>fm_review_status := Some ''rejected'', fm_lifecycle_projection := Some (stage_name st),
        fm_display_status := Some ''rejected_superseded'', fm_superseded_by := Some superseded_by,
        fm_superseded_reason := Some reason\<rparr>"

definition runtime_supersede_for_rework ::
  "time \<Rightarrow> string \<Rightarrow> string \<Rightarrow> string \<Rightarrow> transition_result lc" where
  "runtime_supersede_for_rework now task_id superseded_by reason =
     act_bind (open_task task_id) (\<lambda>(path, fm). let frm = fst path in
     if frm = Archive \<or> frm = Done then
       act_bind (on_files (store_patch path (supersede_closed_patch frm superseded_by reason) False)) (\<lambda>_.
       act_return \<lparr>res_task_id = or_else (fm_task_id fm) task_id, res_from = frm, res_to = frm,
                   res_path = lifecycle_rel_path frm (snd path)\<rparr>)
     else
       act_bind (on_files (append_transition now path
                  ((transition_entry frm Done ''CodeFlowMu'' ''supersede_for_rework'')
                     \<lparr>ti_decision := Some ''rejected'', ti_reason := Some reason\<rparr>) False)) (\<lambda>_.
       act_bind (on_files (store_patch path
                  (\<lambda>fm. (supersede_closed_patch Done superseded_by reason fm)\<lparr>fm_superseded_at := Some now\<rparr>) False)) (\<lambda>_.
       move_task now path frm Done True)))"

section \<open>The kernel (\<^verbatim>\<open>LifecycleKernel.ts\<close>)\<close>

text \<open>
  Every call of the kernel runs one operation of the state machine under the project write lease,
  with its default for an omitted reason.
\<close>

datatype kernel_call =
  K_submit string string string "string option"
| K_approve string string "string option" "human_acceptance option"
| K_reject string string "string option"
| K_archive string string "string option" bool
| K_reopen string string "string option"
| K_finish string string "string option"
| K_dispatch task_path "string option" "string option" "string option"
| K_repair task_path "string option"
| K_restore task_path "string option"
| K_supersede string string string

definition no_result :: "unit lc \<Rightarrow> transition_result option lc" where
  "no_result m = act_bind m (\<lambda>_. act_return None)"

definition with_result :: "transition_result lc \<Rightarrow> transition_result option lc" where
  "with_result m = act_bind m (\<lambda>r. act_return (Some r))"

fun run_kernel :: "time \<Rightarrow> kernel_call \<Rightarrow> transition_result option lc" where
  "run_kernel now (K_submit t a r reason) = with_result (submit_review now t a r reason)"
| "run_kernel now (K_approve t a note acc) = with_result (approve_review now t a note acc)"
| "run_kernel now (K_reject t a reason) =
     with_result (reject_review now t a (or_else reason ''LifecycleKernel.rejectReview''))"
| "run_kernel now (K_archive t a reason force) =
     with_result (archive_task now t a (or_else reason ''LifecycleKernel.archiveTask'') force)"
| "run_kernel now (K_reopen t a reason) = with_result (reopen_task now t a (or_else reason ''''))"
| "run_kernel now (K_finish t a note) = with_result (finish_task_legacy now t a note)"
| "run_kernel now (K_dispatch p attempt lease agent) =
     no_result (runtime_dispatch_inbox_to_active now p attempt lease agent)"
| "run_kernel now (K_repair p reason) =
     no_result (runtime_repair_inbox_split now p (or_else reason ''lifecycle_split_repair''))"
| "run_kernel now (K_restore p reason) =
     no_result (runtime_restore_active_to_inbox now p (or_else reason ''runtime_dispatch_failed''))"
| "run_kernel now (K_supersede t by_id reason) =
     with_result (runtime_supersede_for_rework now t by_id reason)"

section \<open>Every kernel call keeps what the file writes keep\<close>

sublocale files_preorder \<subseteq> world: step_preorder "\<lambda>w w'. R (w_files w) (w_files w')"
  by unfold_locales (auto intro: step_refl step_trans)

context files_preorder
begin

abbreviation (input) RW :: "lc_world \<Rightarrow> lc_world \<Rightarrow> bool" where
  "RW w w' \<equiv> R (w_files w) (w_files w')"

lemma keeps_on_files [keeps_intros]: "act_keeps R m \<Longrightarrow> act_keeps RW (on_files m)"
  by (auto simp: act_keeps_def on_files_def split: prod.splits) (metis snd_conv)

lemma keeps_open_task [keeps_intros]: "act_keeps RW (locate_task t)" "act_keeps RW (open_task t)"
proof -
  show "act_keeps RW (locate_task t)"
    by (auto simp: act_keeps_def locate_task_def step_refl split: option.split)
  then show "act_keeps RW (open_task t)"
    unfolding open_task_def by (intro keeps_intros)
qed

lemma keeps_queue_removal [keeps_intros]: "act_keeps RW (best_effort_queue_removal now t)"
  by (simp add: act_keeps_def best_effort_queue_removal_def step_refl)

lemma keeps_require [keeps_intros]: "act_keeps RW (require_acceptance fm t a acc)"
  by (auto simp: act_keeps_def require_acceptance_def step_refl split: option.split sum.split)

lemma keeps_dest_absent [keeps_intros]: "act_keeps RW (dest_absent d)"
  by (simp add: act_keeps_def dest_absent_def step_refl)

lemma keeps_settle [keeps_intros]: "act_keeps RW (settle_rework now t r p fm)"
proof -
  have "act_keeps RW (act_when b (on_files (store_patch p f False)))" for b f
    by (intro keeps_intros)
  then show ?thesis
    unfolding act_keeps_def settle_rework_def by (auto simp: step_refl split: settlement.split)
qed

lemma keeps_children_ready [keeps_intros]: "act_keeps RW (archive_children_ready now t a r)"
proof -
  have "act_keeps RW (act_bind (act_check c) (\<lambda>children. on_files (auto_archive_accepted_children now children a r)))" for c
    by (intro keeps_intros)
  then show ?thesis unfolding act_keeps_def archive_children_ready_def by blast
qed

lemma keeps_move: "frm = fst path \<Longrightarrow> act_keeps RW (move_task now path frm to bypass)"
  unfolding move_task_def by (intro keeps_intros world.keeps_bind_check keeps_rename) simp_all

lemma keeps_rename_quiet: "fst p \<noteq> Archive \<Longrightarrow> act_keeps RW (rename_quiet p (st, snd p))"
  using keeps_on_files [OF keeps_rename [of p st]] by (simp add: act_keeps_def rename_quiet_def)

lemma keeps_read_back:
  assumes "fst dest \<noteq> Archive" and "snd src = snd dest"
  shows "act_keeps RW (read_back src dest st)"
proof -
  have "src = (fst src, snd dest)" using assms(2) by (simp add: prod_eq_iff)
  then have "act_keeps RW (rename_quiet dest src)" using keeps_rename_quiet [OF assms(1)] by metis
  then show ?thesis unfolding read_back_def by (intro keeps_intros)
qed

lemmas keeps_ops = keeps_move keeps_read_back keeps_rename keeps_intros

lemma keeps_submit: "act_keeps RW (submit_review now t a r reason)"
  unfolding submit_review_def Let_def by (intro keeps_ops) simp

lemma keeps_approve [keeps_intros]: "act_keeps RW (approve_review now t a note acc)"
  unfolding approve_review_def Let_def by (intro keeps_ops) simp

lemma keeps_reject: "act_keeps RW (reject_review now t a reason)"
  unfolding reject_review_def Let_def by (intro keeps_ops) simp

lemma keeps_reopen: "act_keeps RW (reopen_task now t a reason)"
  unfolding reopen_task_def Let_def by (intro keeps_ops) simp

lemma keeps_archive_task: "act_keeps RW (archive_task now t a reason force)"
  unfolding archive_task_def Let_def by (intro keeps_ops) simp

lemma keeps_finish: "act_keeps RW (finish_task_legacy now t a note)"
  unfolding finish_task_legacy_def Let_def by (intro keeps_ops keeps_approve)

lemma keeps_dispatch: "act_keeps RW (runtime_dispatch_inbox_to_active now p x y z)"
  unfolding runtime_dispatch_inbox_to_active_def Let_def by (intro keeps_ops) simp_all

lemma keeps_repair: "act_keeps RW (runtime_repair_inbox_split now p reason)"
  unfolding runtime_repair_inbox_split_def Let_def by (intro keeps_ops)

lemma keeps_restore: "act_keeps RW (runtime_restore_active_to_inbox now p reason)"
  unfolding runtime_restore_active_to_inbox_def Let_def by (intro keeps_ops) simp_all

lemma keeps_supersede: "act_keeps RW (runtime_supersede_for_rework now t s reason)"
  unfolding runtime_supersede_for_rework_def Let_def by (intro keeps_ops) simp

lemma keeps_kernel: "act_keeps RW (run_kernel now call)"
  by (cases call)
     (auto simp: with_result_def no_result_def intro!: keeps_intros
        intro: keeps_submit keeps_reject keeps_reopen keeps_archive_task keeps_finish
          keeps_dispatch keeps_repair keeps_restore keeps_supersede)

end

section \<open>What a successful operation has checked\<close>

lemma on_files_Inr_iff:
  "on_files m w = (Inr x, w') \<longleftrightarrow> (\<exists>fs'. m (w_files w) = (Inr x, fs') \<and> w' = w\<lparr>w_files := fs'\<rparr>)"
  by (auto simp: on_files_def split: prod.splits)

lemma act_check_Inr_iff: "act_check r w = (Inr x, w') \<longleftrightarrow> r = Inr x \<and> w' = w"
  by (auto simp: act_check_def)

lemma act_when_Inr_iff:
  "act_when b m w = (Inr u, w') \<longleftrightarrow> (if b then m w = (Inr u, w') else w' = w)"
  by (auto simp: act_when_def act_return_def)

lemma act_return_Inr_iff: "act_return y w = (Inr x, w') \<longleftrightarrow> x = y \<and> w' = w"
  by (auto simp: act_return_def)

lemmas act_Inr = act_bind_Inr_iff on_files_Inr_iff act_check_Inr_iff act_when_Inr_iff act_return_Inr_iff

lemma open_task_Inr_iff:
  "open_task t w = (Inr (p, fm), w') \<longleftrightarrow>
     w' = w \<and> find_task_path_by_id (w_files w) t = Some p \<and> (\<exists>body. map_of (w_files w) p = Some (Task_file fm body))"
proof -
  have "w\<lparr>w_files := w_files w\<rparr> = w" by simp
  then show ?thesis
    by (auto simp: open_task_def locate_task_def act_Inr store_read_Inr_iff split: option.splits)
qed

lemma store_patch_Inr_iff:
  "store_patch p f allow fs = (Inr u, fs') \<longleftrightarrow>
     (\<exists>fm body. map_of fs p = Some (Task_file fm body) \<and>
        (allow \<or> (\<not> fm_frozen fm \<and> \<not> fm_frozen (f fm) \<and> fst p \<noteq> Archive)) \<and>
        fs' = AList.update p (Task_file (f fm) body) fs)"
  by (cases "fst (store_read p fs)")
     (auto simp: store_patch_eq fst_store_read_Inr_iff store_read_def split: if_splits option.splits task_file.splits)

lemma append_transition_Inr_iff:
  "append_transition now p i allow fs = (Inr d, fs') \<longleftrightarrow>
     (\<exists>fm body. map_of fs p = Some (Task_file fm body) \<and>
        (if is_duplicate_transition (last_transition (fm_transitions fm)) (transition_compare_from_input i)
         then \<not> d \<and> fs' = fs
         else d \<and> (allow \<or> (\<not> fm_frozen fm \<and> fst p \<noteq> Archive)) \<and>
              fs' = AList.update p (Task_file (task_files.appended now i fm) body) fs))"
  by (cases "fst (store_read p fs)")
     (auto simp: append_transition_eq fst_store_read_Inr_iff store_read_def split: if_splits option.splits task_file.splits)

lemma move_task_Inr_iff:
  "move_task now p frm to bypass w = (Inr r, w') \<longleftrightarrow>
     (bypass \<or> (frm, to) \<notin> set forbidden_transitions) \<and> frm \<noteq> Archive \<and>
     (\<exists>fm body. map_of (w_files w) p = Some (Task_file fm body) \<and>
        w' = w\<lparr>w_files := AList.update (to, snd p) (Task_file fm body) (AList.delete p (w_files w)),
               w_queue := (if to = Done \<or> to = Archive
                  then remove_task_from_agent_queue now (or_else (fm_task_id fm) (strip_md (snd p))) (w_queue w)
                  else w_queue w)\<rparr> \<and>
        r = \<lparr>res_task_id = or_else (fm_task_id fm) (strip_md (snd p)), res_from = frm, res_to = to,
             res_path = lifecycle_rel_path to (snd p)\<rparr>)"
proof (cases "map_of (w_files w) p")
  case None
  then show ?thesis
    by (auto simp: move_task_def act_Inr rename_file_def)
next
  case (Some f)
  show ?thesis
  proof (cases f)
    case (Task_file fm body)
    with Some show ?thesis
      by (auto simp: move_task_def act_Inr rename_file_def store_read_Inr_iff Let_def best_effort_queue_removal_def)
  next
    case Bad_file
    with Some show ?thesis
      by (auto simp: move_task_def act_Inr rename_file_def store_read_Inr_iff)
  qed
qed

text \<open>A move into \<open>done\<close> or \<open>archive\<close> leaves the task without an entry in the agent queue.\<close>

lemma move_task_dequeues:
  "move_task now p frm to bypass w = (Inr r, w') \<Longrightarrow> to = Done \<or> to = Archive \<Longrightarrow>
   norm_stable (res_task_id r) \<Longrightarrow>
   get_task_dispatch_status (load_agent_task_queue now (w_queue w')) (res_task_id r) = None"
  by (auto simp: move_task_Inr_iff agent_queue.same_key)

section \<open>The tail shared by the reviewed moves\<close>

lemma appended_frozen [simp]: "fm_frozen (task_files.appended now i fm) = fm_frozen fm"
  by (simp add: task_files.appended_def)

lemma on_files_Inr: "m (w_files w) = (Inr x, fs') \<Longrightarrow> on_files m w = (Inr x, w\<lparr>w_files := fs'\<rparr>)"
  by (simp add: on_files_def)

lemma append_some:
  assumes "map_of fs p = Some (Task_file fm body)" and "allow \<or> (\<not> fm_frozen fm \<and> fst p \<noteq> Archive)"
  shows "\<exists>d fm1. append_transition now p i allow fs = (Inr d, if d then AList.update p (Task_file fm1 body) fs else fs)
    \<and> fm1 = (if d then task_files.appended now i fm else fm)"
  using assms
  by (cases "is_duplicate_transition (last_transition (fm_transitions fm)) (transition_compare_from_input i)")
     (auto simp: append_transition_eq store_read_def)

text \<open>Append, patch, move: all three succeed on a readable file that is not frozen.\<close>

lemma append_patch_move:
  assumes file_at: "map_of (w_files w) p = Some (Task_file fm body)"
    and live: "\<not> fm_frozen fm" "fst p \<noteq> Archive"
    and f: "\<And>fm. \<not> fm_frozen fm \<Longrightarrow> \<not> fm_frozen (f fm)"
    and ok: "bypass \<or> (fst p, to) \<notin> set forbidden_transitions"
  shows "\<exists>r w' fm1. act_bind (on_files (append_transition now p i False)) (\<lambda>_.
             act_bind (on_files (store_patch p f False)) (\<lambda>_. move_task now p (fst p) to bypass)) w = (Inr r, w')
    \<and> fm1 \<in> {fm, task_files.appended now i fm}
    \<and> w_files w' = AList.update (to, snd p) (Task_file (f fm1) body) (AList.delete p
          (AList.update p (Task_file (f fm1) body) (w_files w)))
    \<and> w_queue w' = (if to = Done \<or> to = Archive
          then remove_task_from_agent_queue now (res_task_id r) (w_queue w) else w_queue w)
    \<and> res_task_id r = or_else (fm_task_id (f fm1)) (strip_md (snd p))
    \<and> res_from r = fst p \<and> res_to r = to"
proof -
  from append_some [of "w_files w" p fm body False now i] file_at live obtain d fm1 where
    ap: "append_transition now p i False (w_files w)
        = (Inr d, if d then AList.update p (Task_file fm1 body) (w_files w) else w_files w)"
    and fm1: "fm1 = (if d then task_files.appended now i fm else fm)" by blast
  define fs1 where "fs1 = (if d then AList.update p (Task_file fm1 body) (w_files w) else w_files w)"
  have at1: "map_of fs1 p = Some (Task_file fm1 body)" using file_at fm1 by (simp add: fs1_def)
  have fr1: "\<not> fm_frozen fm1" using live fm1 by simp
  have pt: "store_patch p f False fs1 = (Inr (), AList.update p (Task_file (f fm1) body) fs1)"
    using at1 fr1 f live by (simp add: store_patch_eq store_read_def)
  have up: "AList.update p (Task_file (f fm1) body) fs1 = AList.update p (Task_file (f fm1) body) (w_files w)"
    by (simp add: fs1_def)
  let ?w2 = "w\<lparr>w_files := AList.update p (Task_file (f fm1) body) (w_files w)\<rparr>"
  obtain r w' where mv: "move_task now p (fst p) to bypass ?w2 = (Inr r, w')"
    using ok live by (simp add: move_task_Inr_iff)
  have "act_bind (on_files (append_transition now p i False)) (\<lambda>_.
      act_bind (on_files (store_patch p f False)) (\<lambda>_. move_task now p (fst p) to bypass)) w = (Inr r, w')"
    using ap pt up mv fs1_def [symmetric] by (simp add: act_bind_Inr [OF on_files_Inr])
  then show ?thesis
    using mv fm1 by (intro exI [of _ r] exI [of _ w'] exI [of _ fm1]) (auto simp: move_task_Inr_iff)
qed

lemma append_patch_move_result:
  assumes "map_of (w_files w) p = Some (Task_file fm body)"
    and "\<not> fm_frozen fm" and "fst p \<noteq> Archive"
    and "\<And>fm. \<not> fm_frozen fm \<Longrightarrow> \<not> fm_frozen (f fm)"
    and "bypass \<or> (fst p, to) \<notin> set forbidden_transitions"
    and "act_bind (on_files (append_transition now p i False)) (\<lambda>_.
             act_bind (on_files (store_patch p f False)) (\<lambda>_. move_task now p (fst p) to bypass)) w = (Inr r, w')"
  shows "\<exists>fm1. fm1 \<in> {fm, task_files.appended now i fm}
    \<and> w_files w' = AList.update (to, snd p) (Task_file (f fm1) body) (AList.delete p
          (AList.update p (Task_file (f fm1) body) (w_files w)))
    \<and> w_queue w' = (if to = Done \<or> to = Archive
          then remove_task_from_agent_queue now (res_task_id r) (w_queue w) else w_queue w)
    \<and> res_task_id r = or_else (fm_task_id (f fm1)) (strip_md (snd p))
    \<and> res_from r = fst p \<and> res_to r = to"
proof -
  from append_patch_move [OF assms(1-3), of f bypass to now i] assms(4,5)
  obtain r0 w0 fm1 where eq: "act_bind (on_files (append_transition now p i False)) (\<lambda>_.
             act_bind (on_files (store_patch p f False)) (\<lambda>_. move_task now p (fst p) to bypass)) w = (Inr r0, w0)"
    and rest: "fm1 \<in> {fm, task_files.appended now i fm}
    \<and> w_files w0 = AList.update (to, snd p) (Task_file (f fm1) body) (AList.delete p
          (AList.update p (Task_file (f fm1) body) (w_files w)))
    \<and> w_queue w0 = (if to = Done \<or> to = Archive
          then remove_task_from_agent_queue now (res_task_id r0) (w_queue w) else w_queue w)
    \<and> res_task_id r0 = or_else (fm_task_id (f fm1)) (strip_md (snd p))
    \<and> res_from r0 = fst p \<and> res_to r0 = to"
    by blast
  from eq assms(6) have "r0 = r" "w0 = w'" by simp_all
  with rest show ?thesis by blast
qed

lemma append_patch_move_ok:
  assumes "map_of (w_files w) p = Some (Task_file fm body)"
    and "\<not> fm_frozen fm" and "fst p \<noteq> Archive"
    and "\<And>fm. \<not> fm_frozen fm \<Longrightarrow> \<not> fm_frozen (f fm)"
    and "bypass \<or> (fst p, to) \<notin> set forbidden_transitions"
  shows "\<exists>r w'. act_bind (on_files (append_transition now p i False)) (\<lambda>_.
             act_bind (on_files (store_patch p f False)) (\<lambda>_. move_task now p (fst p) to bypass)) w = (Inr r, w')"
  using append_patch_move [OF assms(1-3), of f bypass to now i] assms(4,5) by blast

lemma patch_append_move_result:
  assumes file_at: "map_of (w_files w) p = Some (Task_file fm body)"
    and run: "act_bind (on_files (store_patch p f False)) (\<lambda>_.
             act_bind (on_files (append_transition now p i False)) (\<lambda>_. move_task now p (fst p) to bypass)) w = (Inr r, w')"
  shows "\<exists>fm2. fm2 \<in> {f fm, task_files.appended now i (f fm)}
    \<and> w_files w' = AList.update (to, snd p) (Task_file fm2 body) (AList.delete p
          (AList.update p (Task_file fm2 body) (w_files w)))"
proof -
  let ?w1 = "w\<lparr>w_files := AList.update p (Task_file (f fm) body) (w_files w)\<rparr>"
  from run file_at obtain d fs2 where
    ap: "append_transition now p i False (w_files ?w1) = (Inr d, fs2)"
    and mv: "move_task now p (fst p) to bypass (?w1\<lparr>w_files := fs2\<rparr>) = (Inr r, w')"
    by (auto simp: act_bind_Inr_iff on_files_Inr_iff store_patch_Inr_iff)
  define fm2 where "fm2 = (if d then task_files.appended now i (f fm) else f fm)"
  have fs2: "fs2 = AList.update p (Task_file fm2 body) (w_files w)"
    using ap by (auto simp: append_transition_Inr_iff fm2_def split: if_splits)
  have "w_files w' = AList.update (to, snd p) (Task_file fm2 body) (AList.delete p fs2)"
    using mv fs2 by (simp add: move_task_Inr_iff)
  with fs2 show ?thesis by (auto simp: fm2_def intro!: exI [of _ fm2])
qed

end
