(* ===== verification/Lifecycle_Properties.thy ===== *)
theory Lifecycle_Properties
  imports Lifecycle_Machine
begin

text \<open>
  The theorems on the lifecycle machine: what each operation demands and does, which moves between
  the stages there are, and what every sequence of kernel calls keeps.
\<close>

section \<open>Guards\<close>

lemma open_task_Inr:
  "find_task_path_by_id (w_files w) t = Some p \<Longrightarrow> map_of (w_files w) p = Some (Task_file fm body) \<Longrightarrow>
   open_task t w = (Inr (p, fm), w)"
  by (simp add: open_task_Inr_iff)

lemma open_task_bind:
  "find_task_path_by_id (w_files w) t = Some p \<Longrightarrow> map_of (w_files w) p = Some (Task_file fm body) \<Longrightarrow>
   act_bind (open_task t) f w = f (p, fm) w"
  by (rule act_bind_Inr) (rule open_task_Inr)

lemma map_sum_Some_Inr [simp]: "map_sum id Some x = Inr y \<longleftrightarrow> (\<exists>h. x = Inr h \<and> y = Some h)"
  by (cases x) auto

lemma act_bind_check:
  "act_bind (act_check c) f w = (case c of Inl e \<Rightarrow> (Inl e, w) | Inr x \<Rightarrow> f x w)"
  by (simp add: act_bind_def act_check_def split: sum.split)

lemma act_bind_when_check:
  "act_bind (act_when b (act_check c)) f w =
     (if b then (case c of Inl e \<Rightarrow> (Inl e, w) | Inr x \<Rightarrow> f x w) else f () w)"
  by (simp add: act_bind_def act_check_def act_when_def act_return_def split: sum.split)

lemma require_acceptance_eq:
  "require_acceptance fm t a acc w =
     (case find_pending_human_review (w_reviews w) t of
        None \<Rightarrow> Inr None
      | Some pending \<Rightarrow> map_sum id Some (assert_trusted_human_task_acceptance fm a pending acc), w)"
  by (simp add: require_acceptance_def split: option.split sum.split)

lemma approve_frozen [simp]: "fm_frozen (approve_patch now a acc nt fm) = fm_frozen fm"
  by (simp add: approve_patch_def Let_def split: option.split)

lemma submit_frozen [simp]: "fm_frozen (submit_patch now fm0 fm) = fm_frozen fm"
  by (simp add: submit_patch_def)

lemma reject_frozen [simp]: "fm_frozen (reject_patch a r fm0 fm) = fm_frozen fm"
  by (simp add: reject_patch_def)

lemma reopen_frozen [simp]: "\<not> fm_frozen (reopen_patch r fm0 fm)"
  by (simp add: reopen_patch_def)

definition approve_guards ::
  "lc_world \<Rightarrow> string \<Rightarrow> string \<Rightarrow> human_acceptance option \<Rightarrow> task_path \<Rightarrow> task_fm \<Rightarrow> bool" where
  "approve_guards w t a acc p fm \<longleftrightarrow>
     fst p = Review \<and> \<not> fm_frozen fm \<and>
     \<not> (fm_issue_blocking fm \<and> js_trim (str_of (fm_blocking_issue_id fm)) \<noteq> []) \<and>
     js_upper a = resolve_done_authority fm \<and>
     (case find_pending_human_review (w_reviews w) t of None \<Rightarrow> True
      | Some pending \<Rightarrow> (\<exists>h. assert_trusted_human_task_acceptance fm a pending acc = Inr h))"

lemma approve_review_guards:
  assumes "approve_review now t a nt acc w = (Inr r, w')"
  shows "\<exists>p fm body. find_task_path_by_id (w_files w) t = Some p \<and>
     map_of (w_files w) p = Some (Task_file fm body) \<and> approve_guards w t a acc p fm"
proof -
  from assms obtain p fm body where p: "find_task_path_by_id (w_files w) t = Some p"
    "map_of (w_files w) p = Some (Task_file fm body)"
    unfolding approve_review_def by (auto simp: act_bind_Inr_iff open_task_Inr_iff)
  then have "approve_guards w t a acc p fm"
    using assms unfolding approve_review_def approve_guards_def
    by (auto simp: open_task_bind act_bind_check Let_def act_bind_Inr_iff require_acceptance_eq
        split: sum.splits option.splits)
  with p show ?thesis by blast
qed

lemma approve_review_tail:
  assumes "find_task_path_by_id (w_files w) t = Some p" and "map_of (w_files w) p = Some (Task_file fm body)"
    and "approve_guards w t a acc p fm"
  shows "\<exists>accepted. require_acceptance fm t a acc w = (Inr accepted, w) \<and>
    approve_review now t a nt acc w =
      act_bind (on_files (append_transition now p
                ((transition_entry Review Done a ''approve_review'')
                   \<lparr>ti_decision := Some ''approved'',
                    ti_based_on := map_option (\<lambda>a. [ha_decision_id a, ha_review_id a, ha_report_id a]) accepted,
                    ti_reason := keep_truthy nt\<rparr>) False)) (\<lambda>_.
     act_bind (on_files (store_patch p (approve_patch now a accepted nt) False)) (\<lambda>_.
     move_task now p (fst p) Done False)) w"
proof -
  from assms(3) obtain accepted where acc: "require_acceptance fm t a acc w = (Inr accepted, w)"
    by (cases "find_pending_human_review (w_reviews w) t") (auto simp: approve_guards_def require_acceptance_eq)
  have bind: "act_bind (require_acceptance fm t a acc) f w = f accepted w" for f :: "_ \<Rightarrow> transition_result lc"
    by (rule act_bind_Inr) (rule acc)
  show ?thesis
    using assms(3)
    by (intro exI [of _ accepted])
       (simp add: acc approve_review_def open_task_bind [OF assms(1,2)] act_bind_check
          approve_guards_def bind assert_not_frozen_eq act_simps)
qed

section \<open>Properties of the review\<close>

text \<open>
  C6. Approval succeeds exactly when it should: the task is found and readable, lies in review, is
  not frozen, has no unresolved blocking issue, the actor is its done authority, and, if a review
  still waits for a human, the caller presents a trusted human decision that matches it.
\<close>

theorem approve_review_iff:
  "(\<exists>r w'. approve_review now t a nt acc w = (Inr r, w')) \<longleftrightarrow>
   (\<exists>p fm body. find_task_path_by_id (w_files w) t = Some p \<and>
      map_of (w_files w) p = Some (Task_file fm body) \<and> approve_guards w t a acc p fm)"
proof
  assume "\<exists>p fm body. find_task_path_by_id (w_files w) t = Some p \<and>
      map_of (w_files w) p = Some (Task_file fm body) \<and> approve_guards w t a acc p fm"
  then obtain p fm body where p: "find_task_path_by_id (w_files w) t = Some p"
    "map_of (w_files w) p = Some (Task_file fm body)" "approve_guards w t a acc p fm" by blast
  from approve_review_tail [OF p, of now nt] obtain accepted where
    eq: "approve_review now t a nt acc w =
      act_bind (on_files (append_transition now p
                ((transition_entry Review Done a ''approve_review'')
                   \<lparr>ti_decision := Some ''approved'',
                    ti_based_on := map_option (\<lambda>a. [ha_decision_id a, ha_review_id a, ha_report_id a]) accepted,
                    ti_reason := keep_truthy nt\<rparr>) False)) (\<lambda>_.
     act_bind (on_files (store_patch p (approve_patch now a accepted nt) False)) (\<lambda>_.
     move_task now p (fst p) Done False)) w" by blast
  show "\<exists>r w'. approve_review now t a nt acc w = (Inr r, w')"
    unfolding eq using p(3)
    by (intro append_patch_move_ok [OF p(2)]) (simp_all add: approve_guards_def forbidden_transitions_def)
qed (blast dest: approve_review_guards)

text \<open>
  What an approval does: the task moves from review to done with its body, its frontmatter
  says who approved it and when, its log gains at most one transition, no other task file changes,
  and the task has no entry left in the agent queue.
\<close>

theorem approve_review_effect:
  assumes "approve_review now t a nt acc w = (Inr r, w')" and "norm_stable (res_task_id r)"
  shows "\<exists>n fm fm' body. map_of (w_files w) (Review, n) = Some (Task_file fm body)
    \<and> map_of (w_files w') (Review, n) = None
    \<and> map_of (w_files w') (Done, n) = Some (Task_file fm' body)
    \<and> fm_review_status fm' = Some ''approved'' \<and> fm_approved_by fm' = Some a \<and> fm_approved_at fm' = Some now
    \<and> (\<exists>ts. fm_transitions fm' = fm_transitions fm @ ts \<and> length ts \<le> 1)
    \<and> (\<forall>q. q \<noteq> (Review, n) \<and> q \<noteq> (Done, n) \<longrightarrow> map_of (w_files w') q = map_of (w_files w) q)
    \<and> get_task_dispatch_status (load_agent_task_queue now (w_queue w')) (res_task_id r) = None"
proof -
  from approve_review_guards [OF assms(1)] obtain p fm body where
    p: "find_task_path_by_id (w_files w) t = Some p"
    "map_of (w_files w) p = Some (Task_file fm body)" "approve_guards w t a acc p fm" by blast
  then have st: "fst p = Review" "\<not> fm_frozen fm" by (simp_all add: approve_guards_def)
  from approve_review_tail [OF p, of now nt] obtain accepted where
    eq: "approve_review now t a nt acc w =
      act_bind (on_files (append_transition now p
                ((transition_entry Review Done a ''approve_review'')
                   \<lparr>ti_decision := Some ''approved'',
                    ti_based_on := map_option (\<lambda>a. [ha_decision_id a, ha_review_id a, ha_report_id a]) accepted,
                    ti_reason := keep_truthy nt\<rparr>) False)) (\<lambda>_.
     act_bind (on_files (store_patch p (approve_patch now a accepted nt) False)) (\<lambda>_.
     move_task now p (fst p) Done False)) w" by blast
  let ?i = "(transition_entry Review Done a ''approve_review'')
                   \<lparr>ti_decision := Some ''approved'',
                    ti_based_on := map_option (\<lambda>a. [ha_decision_id a, ha_review_id a, ha_report_id a]) accepted,
                    ti_reason := keep_truthy nt\<rparr>"
  have st': "fst p \<noteq> Archive" "(fst p, Done) \<notin> set forbidden_transitions"
    using st by (simp_all add: forbidden_transitions_def)
  have run: "act_bind (on_files (append_transition now p ?i False)) (\<lambda>_.
     act_bind (on_files (store_patch p (approve_patch now a accepted nt) False)) (\<lambda>_.
     move_task now p (fst p) Done False)) w = (Inr r, w')"
    using eq assms(1) by simp
  obtain fm1 where fm1: "fm1 \<in> {fm, task_files.appended now ?i fm}"
    and files: "w_files w' = AList.update (Done, snd p) (Task_file (approve_patch now a accepted nt fm1) body)
        (AList.delete p (AList.update p (Task_file (approve_patch now a accepted nt fm1) body) (w_files w)))"
    and queue: "w_queue w' = remove_task_from_agent_queue now (res_task_id r) (w_queue w)"
    using append_patch_move_result [OF p(2) st(2) st'(1) _ _ run] st'(2) by auto
  let ?fm' = "approve_patch now a accepted nt fm1"
  have fields: "fm_review_status ?fm' = Some ''approved'' \<and> fm_approved_by ?fm' = Some a
      \<and> fm_approved_at ?fm' = Some now \<and> fm_transitions ?fm' = fm_transitions fm1"
    by (simp add: approve_patch_def Let_def split: option.split)
  have log: "\<exists>ts. fm_transitions fm1 = fm_transitions fm @ ts \<and> length ts \<le> 1"
    using fm1 by (auto simp: task_files.appended_def)
  obtain n where n: "p = (Review, n)" using st by (cases p) auto
  have "map_of (w_files w) (Review, n) = Some (Task_file fm body)
    \<and> map_of (w_files w') (Review, n) = None \<and> map_of (w_files w') (Done, n) = Some (Task_file ?fm' body)
    \<and> (\<forall>q. q \<noteq> (Review, n) \<and> q \<noteq> (Done, n) \<longrightarrow> map_of (w_files w') q = map_of (w_files w) q)"
    using p(2) n by (simp add: files update_conv_if delete_conv_if)
  moreover have "get_task_dispatch_status (load_agent_task_queue now (w_queue w')) (res_task_id r) = None"
    using assms(2) by (simp add: queue agent_queue.same_key)
  ultimately show ?thesis using fields log by metis
qed

text \<open>A project with a reviewed worker task, its mainline and a queue that still lists the task.\<close>

definition sample_task_fm :: task_fm where
  "sample_task_fm = empty_fm\<lparr>fm_task_id := Some ''TASK-20250101-002-PM-to-DEV'', fm_sender := Some ''PM'',
     fm_recipient := Some ''DEV'', fm_state := Some ''review'', fm_review_status := Some ''pending''\<rparr>"

definition sample_path :: task_path where
  "sample_path = (Review, ''TASK-20250101-002-PM-to-DEV.md'')"

definition sample_world :: lc_world where
  "sample_world = \<lparr>w_files = [(sample_path, Task_file sample_task_fm ''text''),
       ((Active, ''TASK-20250101-001-ADMIN-to-PM.md''), Task_file empty_fm ''main'')],
     w_queue = None, w_reports = [], w_ledger = [], w_reviews = []\<rparr>"

lemma sample_approve:
  "\<exists>w' r. approve_review 9 ''TASK-20250101-002'' ''pm'' None None sample_world = (Inr r, w')
     \<and> res_task_id r = ''TASK-20250101-002-PM-to-DEV''"
proof -
  let ?x = "approve_review 9 ''TASK-20250101-002'' ''pm'' None None sample_world"
  have "map_sum (\<lambda>_. ()) res_task_id (fst ?x) = Inr ''TASK-20250101-002-PM-to-DEV''" by code_simp
  then show ?thesis by (cases ?x; cases "fst ?x") auto
qed

theorem approve_review_effect_witness:
  "\<exists>w' r fm'. approve_review 9 ''TASK-20250101-002'' ''pm'' None None sample_world = (Inr r, w')
     \<and> map_of (w_files w') (Done, ''TASK-20250101-002-PM-to-DEV.md'') = Some (Task_file fm' ''text'')
     \<and> fm_approved_by fm' = Some ''pm''"
proof -
  from sample_approve obtain w' r where
    run: "approve_review 9 ''TASK-20250101-002'' ''pm'' None None sample_world = (Inr r, w')"
    and id: "res_task_id r = ''TASK-20250101-002-PM-to-DEV''" by blast
  have "norm_stable (res_task_id r)" unfolding id by code_simp
  from approve_review_effect [OF run this] obtain n fm fm' body where
    "map_of (w_files sample_world) (Review, n) = Some (Task_file fm body)"
    "map_of (w_files w') (Done, n) = Some (Task_file fm' body)" "fm_approved_by fm' = Some ''pm''"
    by blast
  with run show ?thesis
    by (auto simp: sample_world_def sample_path_def split: if_splits)
qed

section \<open>Authority\<close>

text \<open>
  C8. Nobody acts beyond their authority: when the authority guard refuses the actor for the task
  found, none of the five decisions goes through, and the world (files, queue, everything) is as
  it was; for a rejection this holds unless the actor is ADMIN.
\<close>

theorem unauthorized_changes_nothing:
  assumes "find_task_path_by_id (w_files w) t = Some p"
    and "map_of (w_files w) p = Some (Task_file fm body)"
    and "authority_assert fm a act = Inl e"
  shows "case act of
      Submit_review \<Rightarrow> \<exists>e'. submit_review now t a report reason w = (Inl e', w)
    | Approve_review \<Rightarrow> \<exists>e'. approve_review now t a nt acc w = (Inl e', w)
    | Reject_review \<Rightarrow> js_upper (js_trim a) = ''ADMIN'' \<or> (\<exists>e'. reject_review now t a reason' w = (Inl e', w))
    | Reopen_task \<Rightarrow> \<exists>e'. reopen_task now t a reason' w = (Inl e', w)
    | Archive_task \<Rightarrow> \<exists>e'. archive_task now t a reason' force w = (Inl e', w)"
proof (cases act)
  case Submit_review
  with assms(3) show ?thesis
    unfolding submit_review_def
    by (auto simp: open_task_bind [OF assms(1,2)] Let_def act_bind_check simp del: authority_assert.simps split: sum.split)
next
  case Approve_review
  with assms(3) show ?thesis
    unfolding approve_review_def
    by (auto simp: open_task_bind [OF assms(1,2)] Let_def act_bind_check simp del: authority_assert.simps split: sum.split)
next
  case Reject_review
  with assms(3) show ?thesis
    unfolding reject_review_def
    by (auto simp: open_task_bind [OF assms(1,2)] Let_def act_bind_check act_bind_when_check
        simp del: authority_assert.simps split: sum.split)
next
  case Reopen_task
  with assms(3) show ?thesis
    unfolding reopen_task_def
    by (auto simp: open_task_bind [OF assms(1,2)] Let_def act_bind_check simp del: authority_assert.simps split: sum.split)
next
  case Archive_task
  with assms(3) show ?thesis
    unfolding archive_task_def
    by (auto simp: open_task_bind [OF assms(1,2)] Let_def act_bind_check simp del: authority_assert.simps split: sum.split)
qed

theorem unauthorized_changes_nothing_witness:
  "\<exists>e. approve_review 9 ''TASK-20250101-002'' ''DEV'' None None sample_world = (Inl e, sample_world)"
proof -
  have "find_task_path_by_id (w_files sample_world) ''TASK-20250101-002'' = Some sample_path" by code_simp
  moreover have "map_of (w_files sample_world) sample_path = Some (Task_file sample_task_fm ''text'')"
    by (simp add: sample_world_def)
  moreover have "authority_assert sample_task_fm ''DEV'' Approve_review = Inl (Authority_denied Approve_review ''DEV'')"
    by code_simp
  ultimately show ?thesis
    using unauthorized_changes_nothing [of sample_world "''TASK-20250101-002''" sample_path sample_task_fm "''text''"
        "''DEV''" Approve_review _ 9 "[]" None None None "[]" False] by simp
qed

section \<open>Which moves there are\<close>

inductive lifecycle_edge :: "kernel_call \<Rightarrow> lifecycle_stage \<Rightarrow> lifecycle_stage \<Rightarrow> bool" where
  "lifecycle_edge (K_submit t a r reason) Active Review"
| "lifecycle_edge (K_approve t a nt acc) Review Done"
| "lifecycle_edge (K_finish t a nt) Review Done"
| "lifecycle_edge (K_reject t a r) Review Active"
| "lifecycle_edge (K_reopen t a r) Done Active"
| "lifecycle_edge (K_archive t a r False) Done Archive"
| "s \<in> {Inbox, Active, Review} \<Longrightarrow> lifecycle_edge (K_archive t a r True) s Archive"
| "s \<noteq> Archive \<Longrightarrow> lifecycle_edge (K_supersede t b r) s Done"

inductive_simps lifecycle_edge_simps:
  "lifecycle_edge (K_submit t a r reason) s s'"
  "lifecycle_edge (K_approve t a nt acc) s s'"
  "lifecycle_edge (K_finish t a nt) s s'"
  "lifecycle_edge (K_reject t a x) s s'"
  "lifecycle_edge (K_reopen t a x) s s'"
  "lifecycle_edge (K_archive t a x force) s s'"
  "lifecycle_edge (K_supersede t b y) s s'"

lemma submit_edge: "submit_review now t a r reason w = (Inr x, w') \<Longrightarrow> res_from x = Active \<and> res_to x = Review"
  unfolding submit_review_def Let_def
  by (auto simp: act_bind_Inr_iff act_check_Inr_iff move_task_Inr_iff split: if_splits)

lemma approve_edge: "approve_review now t a nt acc w = (Inr x, w') \<Longrightarrow> res_from x = Review \<and> res_to x = Done"
  unfolding approve_review_def Let_def
  by (auto simp: act_bind_Inr_iff act_check_Inr_iff move_task_Inr_iff split: if_splits)

lemma reject_edge: "reject_review now t a r w = (Inr x, w') \<Longrightarrow> res_from x = Review \<and> res_to x = Active"
  unfolding reject_review_def Let_def
  by (auto simp: act_bind_Inr_iff act_check_Inr_iff move_task_Inr_iff split: if_splits)

lemma reopen_edge: "reopen_task now t a r w = (Inr x, w') \<Longrightarrow> res_from x = Done \<and> res_to x = Active"
  unfolding reopen_task_def Let_def
  by (auto simp: act_bind_Inr_iff act_check_Inr_iff move_task_Inr_iff split: if_splits)

lemma finish_edge: "finish_task_legacy now t a nt w = (Inr x, w') \<Longrightarrow> res_from x = Review \<and> res_to x = Done"
  unfolding finish_task_legacy_def Let_def
  by (auto simp: act_bind_Inr_iff act_check_Inr_iff act_throw_def split: if_splits dest: approve_edge)

lemma archive_edge:
  "archive_task now t a r force w = (Inr x, w') \<Longrightarrow>
   (if force then res_from x \<in> {Inbox, Active, Review} else res_from x = Done) \<and> res_to x = Archive"
  unfolding archive_task_def Let_def
  by (auto simp: act_bind_Inr_iff act_check_Inr_iff move_task_Inr_iff act_return_Inr_iff split: if_splits)

lemma supersede_edge:
  "runtime_supersede_for_rework now t b r w = (Inr x, w') \<Longrightarrow> res_from x \<noteq> Archive \<and> res_to x = Done"
  unfolding runtime_supersede_for_rework_def Let_def
  by (auto simp: act_bind_Inr_iff move_task_Inr_iff act_return_Inr_iff on_files_Inr_iff store_patch_Inr_iff
      split: if_splits)

lemma with_result_Inr_iff: "with_result m w = (Inr y, w') \<longleftrightarrow> (\<exists>r. y = Some r \<and> m w = (Inr r, w'))"
  by (auto simp: with_result_def act_bind_Inr_iff act_return_Inr_iff)

lemma no_result_None: "no_result m w = (Inr y, w') \<Longrightarrow> y = None"
  by (auto simp: no_result_def act_bind_Inr_iff act_return_Inr_iff)

text \<open>
  C1. The state machine: whatever kernel call reports a move, it is one of these edges: submit
  goes from active to review, approval (and the legacy finish) from review to done, rejection from
  review to active, reopening from done to active, archiving from done, forced archiving from
  inbox, active or review, and superseding a rejected round ends in done. So a task gets to done
  by a worker's or PM's call only through a review, and nothing leaves the archive.
\<close>

theorem kernel_moves_legal:
  assumes "run_kernel now c w = (Inr (Some r), w')"
  shows "lifecycle_edge c (res_from r) (res_to r)"
  using assms
  by (cases c)
     (auto simp: with_result_Inr_iff lifecycle_edge_simps dest!: no_result_None submit_edge approve_edge
        reject_edge reopen_edge finish_edge archive_edge supersede_edge split: if_splits)

theorem kernel_moves_legal_witness:
  "\<exists>w' r. run_kernel 9 (K_approve ''TASK-20250101-002'' ''pm'' None None) sample_world = (Inr (Some r), w')
     \<and> lifecycle_edge (K_approve ''TASK-20250101-002'' ''pm'' None None) (res_from r) (res_to r)"
proof -
  from sample_approve obtain w' r where
    "approve_review 9 ''TASK-20250101-002'' ''pm'' None None sample_world = (Inr r, w')" by blast
  then have "run_kernel 9 (K_approve ''TASK-20250101-002'' ''pm'' None None) sample_world = (Inr (Some r), w')"
    by (simp add: with_result_Inr_iff)
  with kernel_moves_legal [OF this] show ?thesis by blast
qed

section \<open>Runs of kernel calls\<close>

definition run_kernel_calls :: "(time \<times> kernel_call) list \<Rightarrow> lc_world \<Rightarrow> lc_world" where
  "run_kernel_calls cs w = fold (\<lambda>(now, c) w. snd (run_kernel now c w)) cs w"

lemma run_kernel_calls_fold:
  "run_kernel_calls cs w = fold (\<lambda>c w. snd (run_kernel (fst c) (snd c) w)) cs w"
  by (simp add: run_kernel_calls_def case_prod_beta')

text \<open>
  C9. No task is lost or doubled: if every task file name occurs in one stage only, then after any
  sequence of kernel calls, failing ones included, the same names are there, each still in one
  stage only.
\<close>

theorem kernel_run_conserves_tasks:
  assumes "distinct (file_names (w_files w))"
  shows "distinct (file_names (w_files (run_kernel_calls cs w)))
       \<and> set (file_names (w_files (run_kernel_calls cs w))) = set (file_names (w_files w))"
proof -
  have "same_tasks (w_files w) (w_files (run_kernel_calls cs w))"
    unfolding run_kernel_calls_fold by (rule named_files.world.keeps_run) (rule named_files.keeps_kernel)
  with assms show ?thesis by (simp add: same_tasks_def)
qed

theorem kernel_run_conserves_tasks_witness:
  "distinct (file_names (w_files (run_kernel_calls
     [(9, K_approve ''TASK-20250101-002'' ''pm'' None None),
      (10, K_archive ''TASK-20250101-002'' ''pm'' None False)] sample_world)))"
proof -
  have "distinct (file_names (w_files sample_world))" by code_simp
  from kernel_run_conserves_tasks [OF this] show ?thesis by blast
qed

text \<open>
  C13. The archive is final: after any sequence of kernel calls an archived task is still in the
  archive, and, file names being unique, in no other stage.
\<close>

theorem kernel_run_archive_final:
  assumes "map_of (w_files w) (Archive, n) \<noteq> None" and "distinct (file_names (w_files w))"
  shows "map_of (w_files (run_kernel_calls cs w)) (Archive, n) \<noteq> None
       \<and> (\<forall>st. st = Archive \<or> map_of (w_files (run_kernel_calls cs w)) (st, n) = None)"
proof -
  let ?fs = "w_files (run_kernel_calls cs w)"
  have "archive_stays (w_files w) ?fs"
    unfolding run_kernel_calls_fold by (rule archive_files.world.keeps_run) (rule archive_files.keeps_kernel)
  with assms have there: "map_of ?fs (Archive, n) \<noteq> None" by (simp add: archive_stays_def)
  have "same_tasks (w_files w) ?fs"
    unfolding run_kernel_calls_fold by (rule named_files.world.keeps_run) (rule named_files.keeps_kernel)
  with assms have dist: "distinct (file_names ?fs)" by (simp add: same_tasks_def)
  have "st = Archive \<or> map_of ?fs (st, n) = None" for st
  proof (rule ccontr)
    assume other: "\<not> (st = Archive \<or> map_of ?fs (st, n) = None)"
    then obtain f g where "((st, n), f) \<in> set ?fs" "((Archive, n), g) \<in> set ?fs"
      using there by (auto dest!: map_of_SomeD)
    then have "((st, n), f) = ((Archive, n), g)"
      using dist unfolding file_names_def distinct_map by (metis comp_apply fst_conv inj_onD snd_conv)
    with other show False by simp
  qed
  with there show ?thesis by blast
qed

definition sample_archived :: lc_world where
  "sample_archived = sample_world\<lparr>w_files :=
     ((Archive, ''TASK-20240101-001.md''), Task_file empty_fm ''old'') # w_files sample_world\<rparr>"

theorem kernel_run_archive_final_witness:
  "map_of (w_files (run_kernel_calls [(9, K_reopen ''TASK-20240101-001'' ''ADMIN'' (Some ''again''))] sample_archived))
     (Archive, ''TASK-20240101-001.md'') \<noteq> None"
proof -
  have "map_of (w_files sample_archived) (Archive, ''TASK-20240101-001.md'') \<noteq> None"
    "distinct (file_names (w_files sample_archived))"
    by (simp add: sample_archived_def) code_simp
  from kernel_run_archive_final [OF this] show ?thesis by blast
qed

section \<open>Rejection and rework\<close>

lemma reject_display: "resolve_reject_display_status fm a \<in> {''waiting_rework'', ''waiting_pm_rework''}"
  by (simp add: resolve_reject_display_status_def Let_def)

lemma reject_fields_unblocked:
  "is_rework_resubmit_unblocked (submit_rework_fields (reject_patch a reason fm0 fm) st)
   \<longleftrightarrow> js_trim (str_of (fm_rework_completed_by_report fm)) \<noteq> []"
proof -
  have words: "norm_word (Some ''rejected'') = ''rejected''" "norm_word (Some ''waiting_rework'') = ''waiting_rework''"
    "norm_word (Some ''waiting_pm_rework'') = ''waiting_pm_rework''"
    by code_simp+
  from reject_display [of fm0 a] words(2,3)
  have "norm_word (Some (resolve_reject_display_status fm0 a)) \<noteq> ''ready_for_review''" by auto
  with words(1) show ?thesis
    by (simp add: is_rework_resubmit_unblocked_def submit_rework_fields_def fields_of_fm_def reject_patch_def)
qed

lemma reject_fields_reopened:
  "is_task_reopened_for_rework (submit_rework_fields (reject_patch a reason fm0 fm) st)
   \<longleftrightarrow> js_trim (str_of (fm_rework_completed_by_report fm)) = []"
proof (cases "js_trim (str_of (fm_rework_completed_by_report fm)) = []")
  case True
  then have nb: "\<not> is_rework_resubmit_unblocked (submit_rework_fields (reject_patch a reason fm0 fm) st)"
    by (simp add: reject_fields_unblocked)
  have "is_task_reopened_for_rework (submit_rework_fields (reject_patch a reason fm0 fm) st)"
    by (rule rejected_reopened [OF _ nb]) (simp add: submit_rework_fields_def fields_of_fm_def reject_patch_def)
  with True show ?thesis by simp
next
  case False
  then show ?thesis by (simp add: unblocked_not_reopened reject_fields_unblocked)
qed

lemma submit_fields_appended [simp]:
  "submit_rework_fields (task_files.appended now i fm) st
     = (submit_rework_fields fm st)\<lparr>rf_state := Some (stage_name (ti_to i))\<rparr>"
  by (simp add: submit_rework_fields_def fields_of_fm_def task_files.appended_def)

lemma reopened_state_irrelevant:
  "rf_scope f = Some (stage_name Active) \<Longrightarrow>
   is_task_reopened_for_rework (f\<lparr>rf_state := x\<rparr>) = is_task_reopened_for_rework f"
proof -
  have settled: "rf_scope f = Some (stage_name Active) \<Longrightarrow> \<not> is_task_settled_closed f" for f :: rework_fields
    by (simp add: is_task_settled_closed_def norm_word_def js_defs)
  assume "rf_scope f = Some (stage_name Active)"
  with settled [of f] settled [of "f\<lparr>rf_state := x\<rparr>"] show ?thesis
    by (simp add: is_task_reopened_for_rework_def is_rework_resubmit_unblocked_def)
qed

text \<open>
  C15. What a rejection does to the rework gate. A rejection that succeeds moves the task back to
  active with its body, counts the reopening and files it as rejected. The gate that demands
  rework before the next submission is closed exactly if no earlier round had been completed: the
  rejection does not clear \<open>rework_completed_by_report\<close>, so from the second round on a rejected
  task can be submitted again without any rework.
\<close>

theorem rejection_gate_exact:
  assumes "reject_review now t a reason w = (Inr r, w')"
  shows "\<exists>n fm fm' body. map_of (w_files w) (Review, n) = Some (Task_file fm body)
    \<and> map_of (w_files w') (Active, n) = Some (Task_file fm' body)
    \<and> map_of (w_files w') (Review, n) = None
    \<and> fm_review_status fm' = Some ''rejected''
    \<and> fm_reopened_count fm' = Some (or_else (fm_reopened_count fm) 0 + 1)
    \<and> (is_task_reopened_for_rework (submit_rework_fields fm' Active)
         \<longleftrightarrow> js_trim (str_of (fm_rework_completed_by_report fm)) = [])"
proof -
  from assms obtain p fm body w1 where
    p: "map_of (w_files w) p = Some (Task_file fm body)" "fst p = Review"
    and tail: "act_bind (on_files (store_patch p (reject_patch a reason fm) False)) (\<lambda>_.
     act_bind (on_files (append_transition now p
                ((transition_entry (fst p) Active a ''reject_review'')
                   \<lparr>ti_decision := Some ''rejected'', ti_reason := Some reason\<rparr>) False)) (\<lambda>_.
     move_task now p (fst p) Active False)) w = (Inr r, w')"
    unfolding reject_review_def Let_def
    by (auto simp: act_bind_Inr_iff open_task_Inr_iff act_check_Inr_iff act_when_Inr_iff split: if_splits)
  obtain n where n: "p = (Review, n)" using p(2) by (cases p) auto
  let ?fm1 = "reject_patch a reason fm fm"
  let ?i = "(transition_entry (fst p) Active a ''reject_review'')
                   \<lparr>ti_decision := Some ''rejected'', ti_reason := Some reason\<rparr>"
  from patch_append_move_result [OF p(1) tail] obtain fm2 where
    fm2: "fm2 \<in> {?fm1, task_files.appended now ?i ?fm1}"
    and files': "w_files w' = AList.update (Active, snd p) (Task_file fm2 body) (AList.delete p
          (AList.update p (Task_file fm2 body) (w_files w)))"
    by blast
  have files: "map_of (w_files w') (Active, n) = Some (Task_file fm2 body)" "map_of (w_files w') (Review, n) = None"
    unfolding files' by (simp_all add: n)
  have gate: "is_task_reopened_for_rework (submit_rework_fields fm2 Active)
      \<longleftrightarrow> js_trim (str_of (fm_rework_completed_by_report fm)) = []"
    using fm2 reject_fields_reopened [of a reason fm fm Active]
    by (auto simp: reopened_state_irrelevant submit_rework_fields_def [of "reject_patch a reason fm fm"])
  have "fm_review_status fm2 = Some ''rejected''"
    "fm_reopened_count fm2 = Some (or_else (fm_reopened_count fm) 0 + 1)"
    using fm2 by (auto simp: reject_patch_def task_files.appended_def)
  with p(1) n files gate show ?thesis by blast
qed

definition sample_second_round :: lc_world where
  "sample_second_round = sample_world\<lparr>w_files := [(sample_path,
     Task_file (sample_task_fm\<lparr>fm_rework_completed_by_report := Some ''REPORT-1''\<rparr>) ''text'')]\<rparr>"

theorem rejection_gate_exact_witness:
  "\<exists>w' r fm'. reject_review 9 ''TASK-20250101-002'' ''PM'' ''not done'' sample_second_round = (Inr r, w')
     \<and> map_of (w_files w') (Active, ''TASK-20250101-002-PM-to-DEV.md'') = Some (Task_file fm' ''text'')
     \<and> fm_review_status fm' = Some ''rejected''
     \<and> \<not> is_task_reopened_for_rework (submit_rework_fields fm' Active)"
proof -
  let ?x = "reject_review 9 ''TASK-20250101-002'' ''PM'' ''not done'' sample_second_round"
  have "map_sum (\<lambda>_. ()) (\<lambda>_. ()) (fst ?x) = Inr ()" by code_simp
  then obtain r w' where run: "?x = (Inr r, w')" by (cases ?x; cases "fst ?x") auto
  from rejection_gate_exact [OF run] obtain n fm fm' body where
    facts: "map_of (w_files sample_second_round) (Review, n) = Some (Task_file fm body)"
    "map_of (w_files w') (Active, n) = Some (Task_file fm' body)" "fm_review_status fm' = Some ''rejected''"
    "is_task_reopened_for_rework (submit_rework_fields fm' Active)
       \<longleftrightarrow> js_trim (str_of (fm_rework_completed_by_report fm)) = []" by blast
  then have at: "n = ''TASK-20250101-002-PM-to-DEV.md''" "body = ''text''"
    and fm: "fm_rework_completed_by_report fm = Some ''REPORT-1''"
    by (auto simp: sample_second_round_def sample_path_def split: if_splits)
  have "js_trim (str_of (fm_rework_completed_by_report fm)) \<noteq> []" unfolding fm by code_simp
  with run facts at show ?thesis by blast
qed

text \<open>
  C14. Submission demands rework while the gate is closed: a submission that succeeds was made by
  the driver, on a live task in active, with a report id, and, when the task counts as reopened
  for rework, with a report that settles it.
\<close>

theorem submit_review_demands:
  assumes "submit_review now t a report reason w = (Inr r, w')"
  shows "\<exists>n fm body. map_of (w_files w) (Active, n) = Some (Task_file fm body)
    \<and> \<not> fm_frozen fm \<and> js_upper a = resolve_driver fm \<and> resolve_driver fm \<noteq> [] \<and> js_trim report \<noteq> []
    \<and> (\<not> is_task_reopened_for_rework (submit_rework_fields fm Active) \<or>
        (\<exists>rid patched. evaluate_rework_settlement now (w_reports w) (w_ledger w) fm t report = Settled rid patched))
    \<and> map_of (w_files w') (Active, n) = None
    \<and> (\<exists>fm'. map_of (w_files w') (Review, n) = Some (Task_file fm' body) \<and> fm_review_status fm' = Some ''pending'')"
proof -
  from assms obtain p fm body w1 where
    p: "map_of (w_files w) p = Some (Task_file fm body)" "fst p = Active" "\<not> fm_frozen fm"
    and who: "js_upper a = resolve_driver fm" "resolve_driver fm \<noteq> []" "js_trim report \<noteq> []"
    and rework: "act_when (is_task_reopened_for_rework (submit_rework_fields fm (fst p)))
                (settle_rework now t report p fm) w = (Inr (), w1)"
    and tail: "act_bind (on_files (append_transition now p
                ((transition_entry (fst p) Review a ''submit_review'')
                   \<lparr>ti_report := Some report, ti_reason := keep_truthy reason\<rparr>) False)) (\<lambda>_.
     act_bind (on_files (store_patch p (submit_patch now fm) False)) (\<lambda>_.
     move_task now p (fst p) Review False)) w1 = (Inr r, w')"
    unfolding submit_review_def Let_def
    by (auto simp: act_bind_Inr_iff open_task_Inr_iff act_check_Inr_iff Let_def split: if_splits)
  obtain n where n: "p = (Active, n)" using p(2) by (cases p) auto
  have settled: "\<not> is_task_reopened_for_rework (submit_rework_fields fm Active) \<or>
      (\<exists>rid patched. evaluate_rework_settlement now (w_reports w) (w_ledger w) fm t report = Settled rid patched)"
    using rework n by (auto simp: act_when_def settle_rework_def split: settlement.splits if_splits)
  obtain fm1 where w1: "map_of (w_files w1) p = Some (Task_file fm1 body)"
    using rework p(1)
    by (auto simp: act_when_Inr_iff settle_rework_def on_files_Inr_iff store_patch_Inr_iff
        split: settlement.splits if_splits)
  from tail w1 have "map_of (w_files w') (Active, n) = None
      \<and> (\<exists>fm'. map_of (w_files w') (Review, n) = Some (Task_file fm' body) \<and> fm_review_status fm' = Some ''pending'')"
    by (auto simp: act_bind_Inr_iff on_files_Inr_iff store_patch_Inr_iff append_transition_Inr_iff
        move_task_Inr_iff n update_conv_if delete_conv_if submit_patch_def split: if_splits)
  with p n who settled show ?thesis by blast
qed

theorem submit_review_demands_witness:
  "\<exists>w' r. submit_review 9 ''TASK-20250101-001'' ''PM'' ''REPORT-1'' None
       (sample_world\<lparr>w_files := [((Active, ''TASK-20250101-001-ADMIN-to-PM.md''),
          Task_file (empty_fm\<lparr>fm_recipient := Some ''pm'', fm_sender := Some ''ADMIN''\<rparr>) ''main'')]\<rparr>) = (Inr r, w')
     \<and> (\<exists>fm'. map_of (w_files w') (Review, ''TASK-20250101-001-ADMIN-to-PM.md'') = Some (Task_file fm' ''main'')
          \<and> fm_review_status fm' = Some ''pending'')"
proof -
  let ?w = "sample_world\<lparr>w_files := [((Active, ''TASK-20250101-001-ADMIN-to-PM.md''),
          Task_file (empty_fm\<lparr>fm_recipient := Some ''pm'', fm_sender := Some ''ADMIN''\<rparr>) ''main'')]\<rparr>"
  let ?x = "submit_review 9 ''TASK-20250101-001'' ''PM'' ''REPORT-1'' None ?w"
  have "map_sum (\<lambda>_. ()) (\<lambda>_. ()) (fst ?x) = Inr ()" by code_simp
  then obtain r w' where run: "?x = (Inr r, w')" by (cases ?x; cases "fst ?x") auto
  from submit_review_demands [OF run] obtain n fm body fm' where
    "map_of (w_files ?w) (Active, n) = Some (Task_file fm body)"
    "map_of (w_files w') (Review, n) = Some (Task_file fm' body)" "fm_review_status fm' = Some ''pending''"
    by blast
  with run show ?thesis by (auto split: if_splits)
qed

section \<open>Dispatch and its rollback\<close>

lemma dispatch_fields [simp]:
  "fm_frozen (dispatch_patch x y z fm) = fm_frozen fm" "fm_state (dispatch_patch x y z fm) = Some ''active''"
  "fm_frozen (restore_patch fm) = fm_frozen fm" "fm_state (restore_patch fm) = Some ''inbox''"
  by (simp_all add: dispatch_patch_def restore_patch_def)

text \<open>Append, patch, rename and read back, as both runtime moves do it.\<close>

lemma runtime_move:
  assumes "map_of (w_files w) (st, n) = Some (Task_file fm body)" and "\<not> fm_frozen fm"
    and "st \<noteq> Archive" and "st \<noteq> st'" and "map_of (w_files w) (st', n) = None"
    and "\<And>fm. fm_frozen (f fm) = fm_frozen fm" and "\<And>fm. fm_state (f fm) = Some (stage_name st')"
  shows "\<exists>w' fm1. act_bind (dest_absent (st', n)) (\<lambda>_.
        act_bind (on_files (append_transition now (st, n) i False)) (\<lambda>_.
        act_bind (on_files (store_patch (st, n) f False)) (\<lambda>_.
        act_bind (on_files (rename_file (st, n) (st', n))) (\<lambda>_.
        read_back (st, n) (st', n) st')))) w = (Inr (), w')
    \<and> fm1 \<in> {fm, task_files.appended now i fm}
    \<and> w' = w\<lparr>w_files := AList.update (st', n) (Task_file (f fm1) body) (AList.delete (st, n)
          (AList.update (st, n) (Task_file (f fm1) body) (w_files w)))\<rparr>"
proof -
  from append_some [of "w_files w" "(st, n)" fm body False now i] assms obtain d fm1 where
    ap: "append_transition now (st, n) i False (w_files w)
        = (Inr d, if d then AList.update (st, n) (Task_file fm1 body) (w_files w) else w_files w)"
    and fm1: "fm1 = (if d then task_files.appended now i fm else fm)" by auto
  define fs1 where "fs1 = (if d then AList.update (st, n) (Task_file fm1 body) (w_files w) else w_files w)"
  have at1: "map_of fs1 (st, n) = Some (Task_file fm1 body)" using assms(1) fm1 by (simp add: fs1_def)
  have "\<not> fm_frozen fm1" using assms(2) fm1 by simp
  then have pt: "store_patch (st, n) f False fs1 = (Inr (), AList.update (st, n) (Task_file (f fm1) body) fs1)"
    using at1 assms(3,6) by (simp add: store_patch_eq store_read_def)
  have up: "AList.update (st, n) (Task_file (f fm1) body) fs1 = AList.update (st, n) (Task_file (f fm1) body) (w_files w)"
    by (simp add: fs1_def)
  let ?fs3 = "AList.update (st', n) (Task_file (f fm1) body) (AList.delete (st, n)
          (AList.update (st, n) (Task_file (f fm1) body) (w_files w)))"
  have "dest_absent (st', n) w = (Inr (), w)" using assms(5) by (simp add: dest_absent_def)
  moreover have "rename_file (st, n) (st', n) (AList.update (st, n) (Task_file (f fm1) body) (w_files w))
      = (Inr (), ?fs3)" by (simp add: rename_file_def)
  moreover have "read_back (st, n) (st', n) st' (w\<lparr>w_files := ?fs3\<rparr>) = (Inr (), w\<lparr>w_files := ?fs3\<rparr>)"
    using assms(7) by (simp add: read_back_def act_bind_def on_files_def act_when_def act_return_def)
  ultimately show ?thesis
    using ap pt up fm1 fs1_def [symmetric]
    by (intro exI [of _ "w\<lparr>w_files := ?fs3\<rparr>"] exI [of _ fm1])
       (simp add: act_bind_Inr [OF on_files_Inr] act_bind_Inr)
qed

lemma dispatch_eq:
  "runtime_dispatch_inbox_to_active now (Inbox, n) attempt lease agent =
     act_bind (dest_absent (Active, n)) (\<lambda>_.
     act_bind (on_files (append_transition now (Inbox, n)
         (transition_entry Inbox Active ''CodeFlowMu'' ''runtime_dispatch'') False)) (\<lambda>_.
     act_bind (on_files (store_patch (Inbox, n) (dispatch_patch attempt lease agent) False)) (\<lambda>_.
     act_bind (on_files (rename_file (Inbox, n) (Active, n))) (\<lambda>_.
     read_back (Inbox, n) (Active, n) Active))))"
  by (simp add: runtime_dispatch_inbox_to_active_def Let_def)

lemma restore_eq:
  "runtime_restore_active_to_inbox now (Active, n) reason =
     act_bind (dest_absent (Inbox, n)) (\<lambda>_.
     act_bind (on_files (append_transition now (Active, n)
         ((transition_entry Active Inbox ''CodeFlowMu'' ''runtime_restore_failed_dispatch'')
            \<lparr>ti_reason := Some reason\<rparr>) False)) (\<lambda>_.
     act_bind (on_files (store_patch (Active, n) restore_patch False)) (\<lambda>_.
     act_bind (on_files (rename_file (Active, n) (Inbox, n))) (\<lambda>_.
     read_back (Active, n) (Inbox, n) Inbox))))"
  by (simp add: runtime_restore_active_to_inbox_def Let_def)

text \<open>
  Dispatch and its rollback are inverse up to the log: dispatching a live inbox task whose name
  is free in active succeeds, moves it with its body, sets its state and stores the claim ids that
  were given; restoring it then succeeds and brings it back to the inbox with its body and the
  state \<open>inbox\<close>.
\<close>

theorem dispatch_restore_round_trip:
  assumes "map_of (w_files w) (Inbox, n) = Some (Task_file fm body)" and "\<not> fm_frozen fm"
    and "map_of (w_files w) (Active, n) = None"
  shows "\<exists>w1 fm1 w2 fm2.
      runtime_dispatch_inbox_to_active now (Inbox, n) attempt lease agent w = (Inr (), w1)
    \<and> map_of (w_files w1) (Active, n) = Some (Task_file fm1 body) \<and> map_of (w_files w1) (Inbox, n) = None
    \<and> fm_state fm1 = Some ''active''
    \<and> fm_dispatch_attempt_id fm1 = (if truthy attempt then attempt else fm_dispatch_attempt_id fm)
    \<and> runtime_restore_active_to_inbox later (Active, n) reason w1 = (Inr (), w2)
    \<and> map_of (w_files w2) (Inbox, n) = Some (Task_file fm2 body) \<and> map_of (w_files w2) (Active, n) = None
    \<and> fm_state fm2 = Some ''inbox''"
proof -
  let ?i = "transition_entry Inbox Active ''CodeFlowMu'' ''runtime_dispatch''"
  let ?d = "dispatch_patch attempt lease agent"
  from runtime_move [OF assms(1,2), of Active ?d now ?i] assms(3) obtain w1 fa where
    run1: "runtime_dispatch_inbox_to_active now (Inbox, n) attempt lease agent w = (Inr (), w1)"
    and fa: "fa \<in> {fm, task_files.appended now ?i fm}"
    and w1: "w1 = w\<lparr>w_files := AList.update (Active, n) (Task_file (?d fa) body) (AList.delete (Inbox, n)
          (AList.update (Inbox, n) (Task_file (?d fa) body) (w_files w)))\<rparr>"
    by (auto simp: dispatch_eq)
  have at1: "map_of (w_files w1) (Active, n) = Some (Task_file (?d fa) body)" "map_of (w_files w1) (Inbox, n) = None"
    by (simp_all add: w1)
  have live: "\<not> fm_frozen (?d fa)" using fa assms(2) by auto
  let ?j = "(transition_entry Active Inbox ''CodeFlowMu'' ''runtime_restore_failed_dispatch'')\<lparr>ti_reason := Some reason\<rparr>"
  from runtime_move [OF at1(1) live, of Inbox restore_patch later ?j] at1(2) obtain w2 fb where
    run2: "runtime_restore_active_to_inbox later (Active, n) reason w1 = (Inr (), w2)"
    and w2: "w2 = w1\<lparr>w_files := AList.update (Inbox, n) (Task_file (restore_patch fb) body) (AList.delete (Active, n)
          (AList.update (Active, n) (Task_file (restore_patch fb) body) (w_files w1)))\<rparr>"
    by (auto simp: restore_eq)
  have at2: "map_of (w_files w2) (Inbox, n) = Some (Task_file (restore_patch fb) body)" "map_of (w_files w2) (Active, n) = None"
    by (simp_all add: w2)
  have "fm_dispatch_attempt_id (?d fa) = (if truthy attempt then attempt else fm_dispatch_attempt_id fm)"
    using fa by (auto simp: dispatch_patch_def task_files.appended_def)
  with run1 at1 run2 at2 dispatch_fields(2,4) show ?thesis by blast
qed

definition sample_inbox :: lc_world where
  "sample_inbox = sample_world\<lparr>w_files := [((Inbox, ''TASK-20250101-003.md''), Task_file empty_fm ''do it'')]\<rparr>"

theorem dispatch_restore_round_trip_witness:
  "\<exists>w1 w2 fm2.
      runtime_dispatch_inbox_to_active 5 (Inbox, ''TASK-20250101-003.md'') (Some ''att-1'') None None sample_inbox = (Inr (), w1)
    \<and> runtime_restore_active_to_inbox 6 (Active, ''TASK-20250101-003.md'') ''session_failed'' w1 = (Inr (), w2)
    \<and> map_of (w_files w2) (Inbox, ''TASK-20250101-003.md'') = Some (Task_file fm2 ''do it'')"
proof -
  have "map_of (w_files sample_inbox) (Inbox, ''TASK-20250101-003.md'') = Some (Task_file empty_fm ''do it'')"
    "\<not> fm_frozen empty_fm" "map_of (w_files sample_inbox) (Active, ''TASK-20250101-003.md'') = None"
    by (simp_all add: sample_inbox_def empty_fm_def)
  from dispatch_restore_round_trip [OF this, of 5 "Some ''att-1''" None None 6 "''session_failed''"]
  show ?thesis by blast
qed

section \<open>Archiving\<close>

text \<open>
  What an ordinary archive demands and does: the archive authority acts on a live task in done,
  gives a reason, the review is approved or never took place, and for a mainline no related child
  blocks. The task ends up frozen in the archive with its body, and without an entry in the agent
  queue.
\<close>

theorem archive_task_demands:
  assumes "archive_task now t a reason False w = (Inr r, w')" and "norm_stable (res_task_id r)"
  shows "\<exists>n fm fm' body. map_of (w_files w) (Done, n) = Some (Task_file fm body)
    \<and> \<not> fm_frozen fm \<and> js_upper a = resolve_archive_authority fm \<and> js_trim reason \<noteq> []
    \<and> fm_review_status fm \<in> {None, Some [], Some ''approved''}
    \<and> (\<not> is_admin_mainline_task_filename n \<or>
        blocking_open (classify_related_child_tasks (w_files w) (strip_md (or_else (fm_task_id fm) t))) = [])
    \<and> map_of (w_files w') (Done, n) = None
    \<and> map_of (w_files w') (Archive, n) = Some (Task_file fm' body) \<and> fm_frozen fm'
    \<and> get_task_dispatch_status (load_agent_task_queue now (w_queue w')) (res_task_id r) = None"
proof -
  from assms(1) obtain p fm body where at: "find_task_path_by_id (w_files w) t = Some p"
    and p: "map_of (w_files w) p = Some (Task_file fm body)"
    unfolding archive_task_def by (auto simp: act_bind_Inr_iff open_task_Inr_iff)
  let ?main = "strip_md (or_else (fm_task_id fm) t)"
  let ?tr = "(transition_entry (fst p) Archive a ''archive_task'')\<lparr>ti_decision := Some ''archived'', ti_reason := Some reason\<rparr>"
  note run = assms(1) [unfolded archive_task_def open_task_bind [OF at p] Let_def prod.case]
  have guards: "fst p = Done" "\<not> fm_frozen fm" "js_upper a = resolve_archive_authority fm" "js_trim reason \<noteq> []"
    "fm_review_status fm \<in> {None, Some [], Some ''approved''}"
    using run by (auto simp: act_bind_check split: sum.splits if_splits)
  from run guards have tail: "act_bind (act_when (is_admin_mainline_task_filename (snd p)) (archive_children_ready now ?main a reason)) (\<lambda>_.
     act_bind (move_task now p (fst p) Archive False) (\<lambda>moved.
     act_bind (on_files (append_transition now (Archive, snd p) ?tr True)) (\<lambda>_.
     act_bind (on_files (store_patch (Archive, snd p) (archive_patch now a reason False) True)) (\<lambda>_.
     act_bind (act_when False (act_bind (on_files (terminate_open_child_tasks now ?main a reason))
                   (\<lambda>_. act_return ()))) (\<lambda>_. act_return moved))))) w = (Inr r, w')"
    by (simp add: act_bind_check split: sum.splits)
  from tail obtain w1 w2 w3 d where
    kids: "act_when (is_admin_mainline_task_filename (snd p)) (archive_children_ready now ?main a reason) w = (Inr (), w1)"
    and mv: "move_task now p (fst p) Archive False w1 = (Inr r, w2)"
    and ap: "append_transition now (Archive, snd p) ?tr True (w_files w2) = (Inr d, w3)"
    and pt: "store_patch (Archive, snd p) (archive_patch now a reason False) True w3 = (Inr (), w_files w')"
    and q: "w_queue w' = w_queue w2"
    by (elim act_bindE) (force simp: on_files_Inr_iff act_when_Inr_iff act_return_Inr_iff)
  note p = p guards(1) guards(2) and who = guards(3-5)
  obtain n where n: "p = (Done, n)" using p(2) by (cases p) auto
  have w1: "w1 = w" and gate: "\<not> is_admin_mainline_task_filename n \<or>
        blocking_open (classify_related_child_tasks (w_files w) (strip_md (or_else (fm_task_id fm) t))) = []"
    using kids n
    by (auto simp: act_when_Inr_iff archive_children_ready_def act_bind_Inr_iff act_check_Inr_iff on_files_Inr_iff
        assert_mainline_archive_children_ready_def classify_related_child_tasks_def
        auto_archive_accepted_children_def act_return_def Let_def split: if_splits)
  have w2: "map_of (w_files w2) (Archive, n) = Some (Task_file fm body)" "map_of (w_files w2) (Done, n) = None"
    and dq: "get_task_dispatch_status (load_agent_task_queue now (w_queue w')) (res_task_id r) = None"
    using mv p(1) move_task_dequeues [OF mv] assms(2) by (auto simp: move_task_Inr_iff n w1 q)
  from ap pt w2 n obtain fm' where "map_of (w_files w') (Archive, n) = Some (Task_file fm' body)"
    "fm_frozen fm'" "map_of (w_files w') (Done, n) = None"
    by (auto simp: append_transition_Inr_iff store_patch_Inr_iff archive_patch_def Let_def split: if_splits)
  with p n who gate dq show ?thesis by blast
qed

definition sample_done :: lc_world where
  "sample_done = sample_world\<lparr>w_files := [((Done, ''TASK-20250101-002-PM-to-DEV.md''),
     Task_file (sample_task_fm\<lparr>fm_review_status := Some ''approved''\<rparr>) ''text'')]\<rparr>"

theorem archive_task_demands_witness:
  "\<exists>w' r fm'. archive_task 9 ''TASK-20250101-002'' ''PM'' ''closed'' False sample_done = (Inr r, w')
     \<and> map_of (w_files w') (Archive, ''TASK-20250101-002-PM-to-DEV.md'') = Some (Task_file fm' ''text'')
     \<and> fm_frozen fm'"
proof -
  let ?x = "archive_task 9 ''TASK-20250101-002'' ''PM'' ''closed'' False sample_done"
  have "map_sum (\<lambda>_. ()) res_task_id (fst ?x) = Inr ''TASK-20250101-002-PM-to-DEV''" by code_simp
  then obtain r w' where run: "?x = (Inr r, w')" and id: "res_task_id r = ''TASK-20250101-002-PM-to-DEV''"
    by (cases ?x; cases "fst ?x") auto
  have "norm_stable (res_task_id r)" unfolding id by code_simp
  from archive_task_demands [OF run this] obtain n fm fm' body where
    "map_of (w_files sample_done) (Done, n) = Some (Task_file fm body)"
    "map_of (w_files w') (Archive, n) = Some (Task_file fm' body)" "fm_frozen fm'"
    by blast
  with run show ?thesis by (auto simp: sample_done_def split: if_splits)
qed

section \<open>Human decisions\<close>

text \<open>
  A review that waits for a human is approved by a human decision only: when such a review is
  pending and the approval succeeds, the caller presented an acceptance from the trusted panel
  source, by an operator in the actor's own role, that names the audited exception of the task and
  the pending review, and exactly this decision is recorded in the task.
\<close>

theorem human_review_needs_human:
  assumes "approve_review now t a nt acc w = (Inr r, w')"
    and "find_pending_human_review (w_reviews w) t = Some pending"
  shows "\<exists>h n fm fm' body. acc = Some h \<and> map_of (w_files w) (Review, n) = Some (Task_file fm body)
    \<and> fm_fact_check_exception fm \<and> js_upper (js_trim (str_of (fm_fact_check_exception_by fm))) = ''ADMIN''
    \<and> ha_source h = trusted_source \<and> js_upper (js_trim (ha_operator_role h)) = js_upper (js_trim a)
    \<and> ha_decision_id h = js_trim (str_of (fm_fact_check_decision_id fm)) \<and> ha_decision_id h \<noteq> []
    \<and> (ph_review_id pending = [] \<or> ha_review_id h = ph_review_id pending)
    \<and> map_of (w_files w') (Done, n) = Some (Task_file fm' body)
    \<and> fm_human_decision fm' = Some (human_decision_of h a now nt)"
proof -
  from approve_review_guards [OF assms(1)] obtain p fm body where
    p: "find_task_path_by_id (w_files w) t = Some p"
    "map_of (w_files w) p = Some (Task_file fm body)" "approve_guards w t a acc p fm" by blast
  then have st: "fst p = Review" "\<not> fm_frozen fm" "fst p \<noteq> Archive" "(fst p, Done) \<notin> set forbidden_transitions"
    by (simp_all add: approve_guards_def forbidden_transitions_def)
  from approve_review_tail [OF p, of now nt] obtain accepted i where
    req: "require_acceptance fm t a acc w = (Inr accepted, w)"
    and run: "act_bind (on_files (append_transition now p i False)) (\<lambda>_.
     act_bind (on_files (store_patch p (approve_patch now a accepted nt) False)) (\<lambda>_.
     move_task now p (fst p) Done False)) w = (Inr r, w')"
    using assms(1) by auto
  from req assms(2) obtain h where h: "assert_trusted_human_task_acceptance fm a pending acc = Inr h"
    and acc: "accepted = Some h"
    by (auto simp: require_acceptance_eq)
  from h have facts: "acc = Some h" "fm_fact_check_exception fm"
    "js_upper (js_trim (str_of (fm_fact_check_exception_by fm))) = ''ADMIN''" "ha_source h = trusted_source"
    "js_upper (js_trim (ha_operator_role h)) = js_upper (js_trim a)"
    "ha_decision_id h = js_trim (str_of (fm_fact_check_decision_id fm))" "ha_decision_id h \<noteq> []"
    "ph_review_id pending = [] \<or> ha_review_id h = ph_review_id pending"
    by (auto simp: assert_trusted_human_task_acceptance_def Let_def split: if_splits option.splits)
  obtain fm1 where files: "w_files w' = AList.update (Done, snd p) (Task_file (approve_patch now a accepted nt fm1) body)
        (AList.delete p (AList.update p (Task_file (approve_patch now a accepted nt fm1) body) (w_files w)))"
    using append_patch_move_result [OF p(2) st(2) st(3) _ _ run] st(4) by auto
  obtain n where n: "p = (Review, n)" using st(1) by (cases p) auto
  have "map_of (w_files w') (Done, n) = Some (Task_file (approve_patch now a accepted nt fm1) body)"
    unfolding files n by simp
  moreover have "fm_human_decision (approve_patch now a accepted nt fm1) = Some (human_decision_of h a now nt)"
    by (simp add: approve_patch_def acc Let_def)
  moreover have "map_of (w_files w) (Review, n) = Some (Task_file fm body)" using p(2) n by simp
  ultimately show ?thesis using facts by metis
qed

definition sample_human_world :: lc_world where
  "sample_human_world = sample_world\<lparr>
     w_files := [(sample_path, Task_file (sample_task_fm\<lparr>fm_fact_check_exception := True,
        fm_fact_check_exception_by := Some ''ADMIN'', fm_fact_check_decision_id := Some ''D-1'',
        fm_fact_check_exception_review_id := Some ''REVIEW-1'',
        fm_fact_check_exception_report_id := Some ''REPORT-1''\<rparr>) ''text'')],
     w_reviews := [(''REVIEW-1.md'', Some \<lparr>rv_task_id = Some ''TASK-20250101-002'', rv_subject_id = None,
        rv_decision = Some ''needs_human'', rv_fact_check_verdict = None, rv_approved_at = None,
        rv_human_approved_at = None, rv_review_id = None, rv_report_id = Some ''REPORT-1''\<rparr>)]\<rparr>"

definition sample_acceptance :: human_acceptance where
  "sample_acceptance = \<lparr>ha_decision_id = ''D-1'', ha_review_id = ''REVIEW-1'', ha_report_id = ''REPORT-1'',
     ha_operator_role = ''pm'', ha_source = trusted_source, ha_session_id = None, ha_note = None\<rparr>"

theorem human_review_needs_human_witness:
  "\<exists>w' r fm'. approve_review 9 ''TASK-20250101-002'' ''PM'' None (Some sample_acceptance) sample_human_world = (Inr r, w')
     \<and> map_of (w_files w') (Done, ''TASK-20250101-002-PM-to-DEV.md'') = Some (Task_file fm' ''text'')
     \<and> fm_human_decision fm' = Some (human_decision_of sample_acceptance ''PM'' 9 None)"
proof -
  let ?x = "approve_review 9 ''TASK-20250101-002'' ''PM'' None (Some sample_acceptance) sample_human_world"
  have "map_sum (\<lambda>_. ()) (\<lambda>_. ()) (fst ?x) = Inr ()" by code_simp
  then obtain r w' where run: "?x = (Inr r, w')" by (cases ?x; cases "fst ?x") auto
  have "find_pending_human_review (w_reviews sample_human_world) ''TASK-20250101-002''
      = Some \<lparr>ph_review_id = ''REVIEW-1'', ph_report_id = ''REPORT-1''\<rparr>" by code_simp
  from human_review_needs_human [OF run this] obtain h n fm fm' body where
    "Some sample_acceptance = Some h" "map_of (w_files sample_human_world) (Review, n) = Some (Task_file fm body)"
    "map_of (w_files w') (Done, n) = Some (Task_file fm' body)"
    "fm_human_decision fm' = Some (human_decision_of h ''PM'' 9 None)"
    by blast
  with run show ?thesis by (auto simp: sample_human_world_def sample_path_def split: if_splits)
qed

end
