(* ===== verification/Project_Barrier.thy ===== *)
theory Project_Barrier
  imports Js_Prelude
begin

text \<open>
  The barrier between project writers and the FCoP initialization (\<^verbatim>\<open>project/ProjectWriteBarrier.ts\<close>).
  Writers and initializers are processes that run concurrently on the files of
  \<^verbatim>\<open>.codeflowmu\<close>; an event is one file system operation of one of them. A writer is named by its
  lease id, which is also the name of its lease file. The initializer takes the lock file with
  an exclusive create, waits with \<open>waitForProjectWriteLeasesToDrain\<close>, works, and removes the lock;
  its own code calls the barrier and is represented by the events \<open>Init_lock\<close> and \<open>Init_release\<close>.
  Waiter markers, which nothing reads, and the polling delay are left out; a deadline that passes is
  an event that may happen in any round of a loop.
\<close>

section \<open>State and events\<close>

datatype writer_pc =
  W_idle     \<comment> \<open>before the test of the lock file\<close>
| W_ready    \<comment> \<open>saw no lock file\<close>
| W_opened   \<comment> \<open>created its lease file, still empty\<close>
| W_written  \<comment> \<open>wrote the metadata into it\<close>
| W_active   \<comment> \<open>holds the lease: the operation runs\<close>
| W_failed   \<comment> \<open>gave up with an error\<close>
| W_dead     \<comment> \<open>the process has died\<close>

datatype init_pc = I_idle | I_draining | I_judged string | I_active

record barrier =
  br_lock :: "string option"
  br_leases :: "(string, bool) js_map"  \<comment> \<open>lease file, and whether its metadata is complete\<close>
  br_writer :: "string \<Rightarrow> writer_pc"
  br_init :: "string \<Rightarrow> init_pc"

datatype barrier_event =
  Writer_test string | Writer_open string | Writer_fill string | Writer_retest string
| Writer_release string | Writer_refused string | Writer_timeout string | Writer_restart string | Writer_crash string
| Init_lock string | Init_judge string string | Init_unlink string | Init_drained string
| Init_timeout string | Init_release string

definition initial_barrier :: barrier where
  "initial_barrier = \<lparr>br_lock = None, br_leases = [], br_writer = (\<lambda>_. W_idle), br_init = (\<lambda>_. I_idle)\<rparr>"

definition set_writer :: "string \<Rightarrow> writer_pc \<Rightarrow> barrier \<Rightarrow> barrier" where
  "set_writer w pc s = s\<lparr>br_writer := (br_writer s)(w := pc)\<rparr>"

definition set_init :: "string \<Rightarrow> init_pc \<Rightarrow> barrier \<Rightarrow> barrier" where
  "set_init i pc s = s\<lparr>br_init := (br_init s)(i := pc)\<rparr>"

text \<open>\<open>writeMarker\<close> in its two steps, and \<open>releaseLease\<close>.\<close>

definition open_marker :: "string \<Rightarrow> barrier \<Rightarrow> barrier" where
  "open_marker w s = s\<lparr>br_leases := AList.update w False (br_leases s)\<rparr>"

definition fill_marker :: "string \<Rightarrow> barrier \<Rightarrow> barrier" where
  "fill_marker w s =
     (if map_of (br_leases s) w = None then s else s\<lparr>br_leases := AList.update w True (br_leases s)\<rparr>)"

definition release_lease :: "string \<Rightarrow> barrier \<Rightarrow> barrier" where
  "release_lease w s = s\<lparr>br_leases := AList.delete w (br_leases s)\<rparr>"

text \<open>
  The test of \<open>removeStaleEntries\<close>: metadata that does not parse counts as process id 0, and a
  process id without a live process makes the entry stale.
\<close>

definition entry_stale :: "string \<Rightarrow> barrier \<Rightarrow> bool" where
  "entry_stale w s \<longleftrightarrow> map_of (br_leases s) w \<noteq> Some True \<or> br_writer s w = W_dead"

section \<open>Steps\<close>

text \<open>
  \<open>acquireProjectWriteLease\<close>, its synchronous twin, and the release. \<open>Writer_refused\<close> is the error of the synchronous
  one when it finds the lock of its own process: it gives up at once and leaves the files alone. Which process a
  writer runs in is no part of the state, so the event is possible whenever the lock is there.
\<close>

fun writer_step :: "barrier_event \<Rightarrow> barrier \<Rightarrow> barrier option" where
  "writer_step (Writer_test w) s =
     (if br_writer s w = W_idle \<and> br_lock s = None then Some (set_writer w W_ready s) else None)"
| "writer_step (Writer_open w) s =
     (if br_writer s w \<noteq> W_ready then None
      else if map_of (br_leases s) w = None then Some (set_writer w W_opened (open_marker w s))
      else Some (set_writer w W_idle s))"
| "writer_step (Writer_fill w) s =
     (if br_writer s w = W_opened then Some (set_writer w W_written (fill_marker w s)) else None)"
| "writer_step (Writer_retest w) s =
     (if br_writer s w \<noteq> W_written then None
      else if br_lock s = None then Some (set_writer w W_active s)
      else Some (set_writer w W_idle (release_lease w s)))"
| "writer_step (Writer_release w) s =
     (if br_writer s w = W_active then Some (set_writer w W_idle (release_lease w s)) else None)"
| "writer_step (Writer_refused w) s =
     (if br_writer s w = W_idle \<and> br_lock s \<noteq> None then Some (set_writer w W_failed s) else None)"
| "writer_step (Writer_timeout w) s =
     (if br_writer s w = W_idle then Some (set_writer w W_failed (release_lease w s)) else None)"
| "writer_step (Writer_restart w) s =
     (if br_writer s w = W_failed then Some (set_writer w W_idle s) else None)"
| "writer_step (Writer_crash w) s = Some (set_writer w W_dead s)"
| "writer_step _ s = None"

text \<open>The initializer, with \<open>waitForProjectWriteLeasesToDrain\<close> between its two own events.\<close>

fun init_step :: "barrier_event \<Rightarrow> barrier \<Rightarrow> barrier option" where
  "init_step (Init_lock i) s =
     (if br_init s i = I_idle \<and> br_lock s = None
      then Some (set_init i I_draining (s\<lparr>br_lock := Some i\<rparr>)) else None)"
| "init_step (Init_judge i w) s =
     (if br_init s i = I_draining \<and> map_of (br_leases s) w \<noteq> None \<and> entry_stale w s
      then Some (set_init i (I_judged w) s) else None)"
| "init_step (Init_unlink i) s =
     (case br_init s i of
        I_judged w \<Rightarrow> Some (set_init i I_draining (release_lease w s))
      | _ \<Rightarrow> None)"
| "init_step (Init_drained i) s =
     (if br_init s i = I_draining \<and> br_leases s = [] then Some (set_init i I_active s) else None)"
| "init_step (Init_timeout i) s =
     (if br_init s i = I_draining then Some (set_init i I_idle (s\<lparr>br_lock := None\<rparr>)) else None)"
| "init_step (Init_release i) s =
     (if br_init s i = I_active then Some (set_init i I_idle (s\<lparr>br_lock := None\<rparr>)) else None)"
| "init_step _ s = None"

definition barrier_step :: "barrier_event \<Rightarrow> barrier \<Rightarrow> barrier option" where
  "barrier_step e s = (case writer_step e s of Some s' \<Rightarrow> Some s' | None \<Rightarrow> init_step e s)"

inductive barrier_reachable :: "barrier \<Rightarrow> bool" where
  start: "barrier_reachable initial_barrier"
| step: "barrier_reachable s \<Longrightarrow> barrier_step e s = Some s' \<Longrightarrow> barrier_reachable s'"

fun run_barrier :: "barrier_event list \<Rightarrow> barrier \<Rightarrow> barrier option" where
  "run_barrier [] s = Some s"
| "run_barrier (e # es) s = (case barrier_step e s of None \<Rightarrow> None | Some s' \<Rightarrow> run_barrier es s')"

lemma run_barrier_reachable:
  "barrier_reachable s \<Longrightarrow> run_barrier es s = Some s' \<Longrightarrow> barrier_reachable s'"
  by (induction es arbitrary: s) (auto split: option.splits intro: barrier_reachable.step)

section \<open>The invariant\<close>

text \<open>
  The lock belongs to the initializer that is at work, and while it works every lease file that
  exists belongs to a writer that has not passed its second test, or is dead.
\<close>

definition barrier_inv :: "barrier \<Rightarrow> bool" where
  "barrier_inv s \<longleftrightarrow>
     (\<forall>i. br_init s i \<noteq> I_idle \<longleftrightarrow> br_lock s = Some i) \<and>
     (\<forall>i w. br_init s i = I_active \<longrightarrow> map_of (br_leases s) w \<noteq> None \<longrightarrow>
        br_writer s w \<in> {W_opened, W_written, W_dead})"

lemmas barrier_ops = set_writer_def set_init_def open_marker_def fill_marker_def release_lease_def

lemma barrier_inv_initial: "barrier_inv initial_barrier"
  by (simp add: barrier_inv_def initial_barrier_def)

lemma writer_step_frame: "writer_step e s = Some s' \<Longrightarrow> br_lock s' = br_lock s \<and> br_init s' = br_init s"
  by (cases e) (auto simp: barrier_ops split: if_splits)

lemma writer_step_leases:
  assumes "writer_step e s = Some s'" and "br_lock s \<noteq> None"
    and "\<And>w. map_of (br_leases s) w \<noteq> None \<Longrightarrow> br_writer s w \<in> {W_opened, W_written, W_dead}"
    and "map_of (br_leases s') w \<noteq> None"
  shows "br_writer s' w \<in> {W_opened, W_written, W_dead}"
  using assms(1,2,4) assms(3) [of w]
  by (cases e) (auto simp: barrier_ops update_conv_if delete_conv_if split: if_splits)

lemma writer_step_inv: "barrier_inv s \<Longrightarrow> writer_step e s = Some s' \<Longrightarrow> barrier_inv s'"
  using writer_step_frame [of e s s'] writer_step_leases [of e s s']
  unfolding barrier_inv_def by (metis option.distinct(1) init_pc.distinct(5))

lemma barrier_inv_owner:
  assumes "barrier_inv s" and "br_init s i \<noteq> I_idle"
  shows "br_lock s = Some i" and "\<forall>j. j = i \<or> br_init s j = I_idle"
  using assms by (auto simp: barrier_inv_def)

text \<open>A step of the initializer that is at work, which leaves it at work or idle with the lock removed.\<close>

lemma init_step_busy:
  assumes inv: "barrier_inv s" and busy: "br_init s i \<noteq> I_idle"
    and lock: "br_lock s' = (if br_init s' i = I_idle then None else Some i)"
    and rest: "\<forall>j. j = i \<or> br_init s' j = br_init s j"
    and active: "br_init s' i = I_active \<Longrightarrow> br_leases s' = []"
  shows "barrier_inv s'"
  using barrier_inv_owner [OF inv busy] lock rest active
  unfolding barrier_inv_def
  by (metis init_pc.distinct(5) map_of.simps(1) option.distinct(1) option.inject)

lemma init_step_inv:
  assumes inv: "barrier_inv s" and st: "init_step e s = Some s'"
  shows "barrier_inv s'"
proof (cases e)
  case (Init_lock i)
  with inv st show ?thesis
    by (auto simp: barrier_inv_def barrier_ops split: if_splits)
next
  case (Init_judge i w)
  then have "br_init s i \<noteq> I_idle" using st by (auto split: if_splits)
  with Init_judge st barrier_inv_owner(1) [OF inv this] show ?thesis
    by (intro init_step_busy [OF inv]) (auto simp: barrier_ops split: if_splits init_pc.splits)
next
  case (Init_unlink i)
  then have "br_init s i \<noteq> I_idle" using st by (auto split: init_pc.splits)
  with Init_unlink st barrier_inv_owner(1) [OF inv this] show ?thesis
    by (intro init_step_busy [OF inv]) (auto simp: barrier_ops split: if_splits init_pc.splits)
next
  case (Init_drained i)
  then have "br_init s i \<noteq> I_idle" using st by (auto split: if_splits)
  with Init_drained st barrier_inv_owner(1) [OF inv this] show ?thesis
    by (intro init_step_busy [OF inv]) (auto simp: barrier_ops split: if_splits init_pc.splits)
next
  case (Init_timeout i)
  then have "br_init s i \<noteq> I_idle" using st by (auto split: if_splits)
  with Init_timeout st barrier_inv_owner(1) [OF inv this] show ?thesis
    by (intro init_step_busy [OF inv]) (auto simp: barrier_ops split: if_splits init_pc.splits)
next
  case (Init_release i)
  then have "br_init s i \<noteq> I_idle" using st by (auto split: if_splits)
  with Init_release st barrier_inv_owner(1) [OF inv this] show ?thesis
    by (intro init_step_busy [OF inv]) (auto simp: barrier_ops split: if_splits init_pc.splits)
qed (use st in simp_all)

lemma barrier_reachable_inv: "barrier_reachable s \<Longrightarrow> barrier_inv s"
proof (induction rule: barrier_reachable.induct)
  case (step s e s')
  then show ?case
    by (auto simp: barrier_step_def intro: writer_step_inv init_step_inv split: option.splits)
qed (rule barrier_inv_initial)

section \<open>Properties\<close>

text \<open>
  C12. Mutual exclusion: in every interleaving of any number of writers and initializers, a writer
  that holds its lease and whose lease file is still there never runs together with an active
  initialization, and two initializations are never active together.
\<close>

theorem lease_excludes_initialization:
  assumes "barrier_reachable s" and "br_init s i = I_active"
  shows "\<not> (br_writer s w = W_active \<and> map_of (br_leases s) w \<noteq> None)
       \<and> (br_init s j = I_active) = (j = i)"
proof -
  have inv: "barrier_inv s" by (rule barrier_reachable_inv) (rule assms(1))
  have "br_init s i \<noteq> I_idle" using assms(2) by simp
  from barrier_inv_owner(2) [OF inv this] have "(br_init s j = I_active) = (j = i)" using assms(2) by auto
  moreover have "map_of (br_leases s) w \<noteq> None \<Longrightarrow> br_writer s w \<in> {W_opened, W_written, W_dead}"
    using inv assms(2) unfolding barrier_inv_def by blast
  ultimately show ?thesis by (metis insertE singletonD writer_pc.distinct)
qed

text \<open>A writer is granted its lease and releases it, then an initializer gets through to its work.\<close>

definition sample_barrier_run :: "barrier_event list" where
  "sample_barrier_run = [Writer_test ''w1'', Writer_open ''w1'', Writer_fill ''w1'', Writer_retest ''w1'',
     Writer_test ''w2'', Init_lock ''i1'', Writer_release ''w1'', Init_drained ''i1'', Writer_open ''w2'',
     Writer_fill ''w2'']"

theorem lease_excludes_initialization_witness:
  "\<exists>s. run_barrier sample_barrier_run initial_barrier = Some s \<and> br_init s ''i1'' = I_active
     \<and> map_of (br_leases s) ''w2'' \<noteq> None \<and> br_writer s ''w2'' \<noteq> W_active"
proof -
  let ?x = "run_barrier sample_barrier_run initial_barrier"
  have "map_option (\<lambda>s. (br_init s ''i1'', map_of (br_leases s) ''w2'')) ?x = Some (I_active, Some True)"
    by (simp add: sample_barrier_run_def barrier_step_def initial_barrier_def barrier_ops)
  then obtain s where s: "?x = Some s" "br_init s ''i1'' = I_active" "map_of (br_leases s) ''w2'' = Some True"
    by auto
  have "barrier_reachable s" by (rule run_barrier_reachable [OF barrier_reachable.start s(1)])
  from lease_excludes_initialization [OF this s(2), of "''w2''"] s show ?thesis by auto
qed

text \<open>
  The lease file does not always stay: a writer that is suspended between creating its marker and
  writing the metadata can have the empty file judged stale and removed by a first initialization,
  be granted the lease after that initialization is over, and then run at the same time as a second
  one. The state in which both are active is reachable.
\<close>

theorem stale_sweep_breaks_exclusion:
  "\<exists>s w i. barrier_reachable s \<and> br_writer s w = W_active \<and> br_init s i = I_active"
proof -
  let ?es = "[Writer_test ''w'', Writer_open ''w'', Init_lock ''i'', Init_judge ''i'' ''w'', Init_unlink ''i'',
     Init_drained ''i'', Init_release ''i'', Writer_fill ''w'', Writer_retest ''w'', Init_lock ''j'', Init_drained ''j'']"
  let ?x = "run_barrier ?es initial_barrier"
  have "map_option (\<lambda>s. (br_init s ''j'', br_writer s ''w'')) ?x = Some (I_active, W_active)"
    by (simp add: barrier_step_def initial_barrier_def barrier_ops entry_stale_def)
  then obtain s where s: "?x = Some s" "br_init s ''j'' = I_active" "br_writer s ''w'' = W_active" by auto
  have "barrier_reachable s" by (rule run_barrier_reachable [OF barrier_reachable.start s(1)])
  with s show ?thesis by blast
qed

end
