(* ===== verification/Operation_Facts.thy ===== *)
theory Operation_Facts
  imports Js_Prelude
begin

text \<open>
  What an agent's tool call would do, and when it needs approval: the facts of an operation, the
  fifteen negative predicates on them (\<^verbatim>\<open>approval/OperationFacts.ts\<close>) and the two-way policy over
  them (\<^verbatim>\<open>approval/UnifiedOperationPolicy.ts\<close>). How the facts are gathered from the tool call, the
  shell line and the file system (\<open>buildOperationFacts\<close>) is not modelled: the facts are the input.
  Paths in the facts are canonical: absolute POSIX paths without dot segments. The Chinese
  explanations of the rules are left out.
\<close>

section \<open>Facts\<close>

datatype operation_kind =
  Kind_read | Kind_create | Kind_write | Kind_append | Kind_delete | Kind_move | Kind_copy
| Kind_execute | Kind_network_read | Kind_network_write | Kind_process_control | Kind_remote_git
| Kind_publish | Kind_governance_change | Kind_unknown

datatype lifecycle_class =
  Class_task_scratch | Class_generated | Class_product | Class_governance | Class_shared
| Class_protected | Class_external | Class_unknown

datatype link_boundary = Link_none | Link_symlink | Link_junction | Link_hardlink | Link_unknown

datatype reversibility = Reversible | Irreversible | Reversibility_unknown

record operation_facts =
  of_role :: string
  of_agent_id :: string
  of_session_id :: string
  of_project_id :: string
  of_project_root :: string
  of_task_id :: string
  of_thread_key :: string
  of_task_scope_digest :: string
  of_tool_id :: string       \<comment> \<open>\<open>canonical_tool_id\<close>\<close>
  of_adapter_id :: string
  of_source_channel :: string
  of_kind :: operation_kind
  of_exact_targets :: "string list"
  of_targets :: "string list"  \<comment> \<open>\<open>canonical_targets\<close>\<close>
  of_target_set_stable :: bool
  of_recursive :: bool
  of_dynamic :: bool
  of_class :: lifecycle_class
  of_owner_task_id :: "string option"
  of_owner_session_id :: "string option"
  of_git_tracked :: "bool option"
  of_locked :: "bool option"
  of_link_boundary :: "link_boundary option"
  of_persistent :: bool
  of_external :: bool
  of_shared :: bool
  of_reversible :: reversibility
  of_recovery_evidence :: "string option"
  of_privilege_change :: bool
  of_runtime_change :: bool
  of_governance_change :: bool
  of_complete :: bool
  of_unresolved :: "string list"
  of_detectors :: "string list"

datatype negative_rule =
  Scope_escape_write | Protected_boundary_write | Governance_bypass | Shared_state_write
| Tracked_delete | Bulk_cleanup | Irreversible_effect | External_write_rule | Security_authority
| Runtime_control | Remote_git_write | Release_production | Software_system_change
| Task_contract_change | Concurrency_conflict

fun rule_name :: "negative_rule \<Rightarrow> string" where
  "rule_name Scope_escape_write = ''NEG.SCOPE.ESCAPE.WRITE''"
| "rule_name Protected_boundary_write = ''NEG.PROTECTED.BOUNDARY.WRITE''"
| "rule_name Governance_bypass = ''NEG.GOVERNANCE.BYPASS''"
| "rule_name Shared_state_write = ''NEG.SHARED.STATE.WRITE''"
| "rule_name Tracked_delete = ''NEG.TRACKED.DELETE''"
| "rule_name Bulk_cleanup = ''NEG.BULK.CLEANUP''"
| "rule_name Irreversible_effect = ''NEG.IRREVERSIBLE.EFFECT''"
| "rule_name External_write_rule = ''NEG.EXTERNAL.WRITE''"
| "rule_name Security_authority = ''NEG.SECURITY.AUTHORITY''"
| "rule_name Runtime_control = ''NEG.RUNTIME.CONTROL''"
| "rule_name Remote_git_write = ''NEG.REMOTE.GIT.WRITE''"
| "rule_name Release_production = ''NEG.RELEASE.PRODUCTION''"
| "rule_name Software_system_change = ''NEG.SOFTWARE.SYSTEM.CHANGE''"
| "rule_name Task_contract_change = ''NEG.TASK.CONTRACT.CHANGE''"
| "rule_name Concurrency_conflict = ''NEG.CONCURRENCY.CONFLICT''"

record negative_match =
  nm_rule :: negative_rule
  nm_matched :: bool
  nm_evidence :: "string list"
  nm_required :: "string list"

definition neg_match :: "negative_rule \<Rightarrow> bool \<Rightarrow> string list \<Rightarrow> string list \<Rightarrow> negative_match" where
  "neg_match r matched evidence required =
     \<lparr>nm_rule = r, nm_matched = matched, nm_evidence = (if matched then evidence else []), nm_required = required\<rparr>"

text \<open>\<open>relative(root, target)\<close> is empty, or goes down and does not start with two dots.\<close>

definition path_inside :: "string \<Rightarrow> string \<Rightarrow> bool" where
  "path_inside root target \<longleftrightarrow>
     (let base = (if root = ''/'' then root else root @ ''/'') in
      target = root \<or> (js_starts target base \<and> \<not> js_starts (drop (length base) target) ''..''))"

section \<open>The negative predicates\<close>

definition negative_scope_escape :: "operation_facts \<Rightarrow> negative_match" where
  "negative_scope_escape f = neg_match Scope_escape_write
     (of_persistent f \<and> of_kind f \<notin> {Kind_network_write, Kind_remote_git, Kind_publish}
      \<and> list_ex (\<lambda>t. \<not> path_inside (of_project_root f) t) (of_targets f))
     [''context.project_root_realpath'', ''operation.canonical_targets'']
     [''context.project_root_realpath'', ''operation.canonical_targets'']"

definition negative_protected_boundary :: "operation_facts \<Rightarrow> negative_match" where
  "negative_protected_boundary f = neg_match Protected_boundary_write
     (of_persistent f \<and> of_class f = Class_protected)
     [''target_state.lifecycle_class'', ''operation.canonical_targets'']
     [''target_state.lifecycle_class'', ''operation.canonical_targets'']"

definition formal_governance_tools :: "string list" where
  "formal_governance_tools = [''write_task'', ''create_task'', ''write_report'', ''write_issue'', ''write_review'',
     ''submit_review'', ''review_task'', ''approve_review'', ''reject_review'', ''mark_human_approved'',
     ''archive_task'', ''approve_task'', ''reject_task'', ''claim_task'', ''submit_task'', ''finish_task'']"

definition negative_governance_bypass :: "operation_facts \<Rightarrow> negative_match" where
  "negative_governance_bypass f = neg_match Governance_bypass
     (''governance.untrusted_self_attestation'' \<in> set (of_detectors f)
      \<or> (of_persistent f \<and> of_governance_change f \<and> of_class f = Class_governance
         \<and> of_tool_id f \<notin> set formal_governance_tools))
     [''tool.canonical_tool_id'', ''target_state.lifecycle_class'', ''impact.governance_change'', ''confidence.detector_ids'']
     [''tool.canonical_tool_id'', ''target_state.lifecycle_class'']"

definition negative_shared_state :: "operation_facts \<Rightarrow> negative_match" where
  "negative_shared_state f = neg_match Shared_state_write
     (of_persistent f \<and> (of_shared f \<or> of_class f = Class_shared))
     [''impact.shared'', ''target_state.lifecycle_class'', ''target_state.owner_task_id'']
     [''impact.shared'', ''target_state.owner_task_id'']"

definition negative_tracked_delete :: "operation_facts \<Rightarrow> negative_match" where
  "negative_tracked_delete f = neg_match Tracked_delete
     (of_kind f = Kind_delete \<and> of_git_tracked f = Some True)
     [''operation.kind'', ''target_state.git_tracked'', ''operation.canonical_targets'']
     [''operation.kind'', ''target_state.git_tracked'', ''operation.canonical_targets'']"

definition negative_irreversible_effect :: "operation_facts \<Rightarrow> negative_match" where
  "negative_irreversible_effect f = neg_match Irreversible_effect
     (of_persistent f \<and> of_reversible f = Irreversible)
     [''impact.persistent'', ''impact.reversible'', ''confidence.detector_ids'']
     [''impact.persistent'', ''impact.reversible'']"

definition negative_bulk_dynamic_targets :: "operation_facts \<Rightarrow> negative_match" where
  "negative_bulk_dynamic_targets f =
     (let fixed = length (of_targets f) in
      neg_match Bulk_cleanup
        (of_kind f = Kind_delete \<and>
         ((of_recursive f \<and> 0 < fixed) \<or> (of_dynamic f \<and> 1 < fixed) \<or> 200 < fixed))
        [''operation.kind'', ''operation.recursive'', ''operation.dynamic_or_wildcard'', ''operation.canonical_targets'']
        [''operation.kind'', ''operation.canonical_targets'', ''operation.recursive''])"

definition negative_external_side_effect :: "operation_facts \<Rightarrow> negative_match" where
  "negative_external_side_effect f = neg_match External_write_rule
     (of_external f \<and> of_kind f = Kind_network_write)
     [''impact.external'', ''operation.kind''] [''impact.external'', ''operation.kind'']"

definition negative_security_authority :: "operation_facts \<Rightarrow> negative_match" where
  "negative_security_authority f = neg_match Security_authority (of_privilege_change f)
     [''impact.privilege_change''] [''impact.privilege_change'']"

definition negative_runtime_control :: "operation_facts \<Rightarrow> negative_match" where
  "negative_runtime_control f = neg_match Runtime_control
     (of_runtime_change f \<or> of_kind f = Kind_process_control)
     [''impact.runtime_change'', ''operation.kind''] [''impact.runtime_change'', ''operation.kind'']"

definition negative_remote_git_write :: "operation_facts \<Rightarrow> negative_match" where
  "negative_remote_git_write f = neg_match Remote_git_write (of_kind f = Kind_remote_git)
     [''operation.kind'', ''confidence.detector_ids''] [''operation.kind'']"

definition negative_release_production :: "operation_facts \<Rightarrow> negative_match" where
  "negative_release_production f = neg_match Release_production (of_kind f = Kind_publish)
     [''operation.kind'', ''confidence.detector_ids''] [''operation.kind'']"

definition negative_software_system_change :: "operation_facts \<Rightarrow> negative_match" where
  "negative_software_system_change f = neg_match Software_system_change
     (list_ex (\<lambda>d. js_ends d ''software_system_change'') (of_detectors f))
     [''confidence.detector_ids''] [''confidence.detector_ids'']"

definition negative_contract_change :: "operation_facts \<Rightarrow> negative_match" where
  "negative_contract_change f = neg_match Task_contract_change
     (of_tool_id f \<in> {''edit_task_contract'', ''change_task_scope'', ''change_acceptance_gate''})
     [''tool.canonical_tool_id'', ''context.task_scope_digest'']
     [''tool.canonical_tool_id'', ''context.task_scope_digest'']"

definition negative_concurrency_conflict :: "operation_facts \<Rightarrow> negative_match" where
  "negative_concurrency_conflict f = neg_match Concurrency_conflict (of_locked f = Some True)
     [''target_state.locked_or_in_use'', ''target_state.owner_session_id'']
     [''target_state.locked_or_in_use'', ''target_state.owner_session_id'']"

definition negative_predicates :: "(operation_facts \<Rightarrow> negative_match) list" where
  "negative_predicates =
     [negative_scope_escape, negative_protected_boundary, negative_governance_bypass, negative_shared_state,
      negative_tracked_delete, negative_bulk_dynamic_targets, negative_irreversible_effect,
      negative_external_side_effect, negative_security_authority, negative_runtime_control,
      negative_remote_git_write, negative_release_production, negative_software_system_change,
      negative_contract_change, negative_concurrency_conflict]"

definition evaluate_negative_predicates :: "operation_facts \<Rightarrow> negative_match list" where
  "evaluate_negative_predicates f = filter nm_matched (map (\<lambda>p. p f) negative_predicates)"

definition matched_rules :: "operation_facts \<Rightarrow> negative_rule list" where
  "matched_rules f = map nm_rule (evaluate_negative_predicates f)"

lemmas negative_defs = negative_scope_escape_def negative_protected_boundary_def negative_governance_bypass_def
  negative_shared_state_def negative_tracked_delete_def negative_bulk_dynamic_targets_def
  negative_irreversible_effect_def negative_external_side_effect_def negative_security_authority_def
  negative_runtime_control_def negative_remote_git_write_def negative_release_production_def
  negative_software_system_change_def negative_contract_change_def negative_concurrency_conflict_def

lemma neg_match_simps [simp]:
  "nm_rule (neg_match r m e q) = r" "nm_matched (neg_match r m e q) = m"
  by (simp_all add: neg_match_def)

section \<open>Effects and approval kinds\<close>

datatype approval_kind =
  Destructive_operation | External_write | Production_release | Security_authority_change
| Governance_boundary_change | Software_change | Process_control | High_cost_operation

record operation_effects =
  ef_destructive :: bool
  ef_external_write :: bool
  ef_production :: bool
  ef_security_change :: bool
  ef_governance_change :: bool
  ef_software_change :: bool
  ef_process_control :: bool
  ef_high_cost :: bool
  ef_prohibited :: bool
  ef_target_unbounded :: bool
  ef_credential_exposure :: bool
  ef_governance_bypass :: bool
  ef_force_push :: bool
  ef_out_of_scope :: bool
  ef_unknown :: bool

definition no_effects :: operation_effects where
  "no_effects = \<lparr>ef_destructive = False, ef_external_write = False, ef_production = False,
     ef_security_change = False, ef_governance_change = False, ef_software_change = False,
     ef_process_control = False, ef_high_cost = False, ef_prohibited = False, ef_target_unbounded = False,
     ef_credential_exposure = False, ef_governance_bypass = False, ef_force_push = False,
     ef_out_of_scope = False, ef_unknown = False\<rparr>"

definition effects_from_facts :: "operation_facts \<Rightarrow> operation_effects" where
  "effects_from_facts f = no_effects\<lparr>
     ef_destructive := (of_kind f = Kind_delete \<or> of_reversible f = Irreversible),
     ef_external_write := of_external f,
     ef_production := (of_kind f = Kind_publish),
     ef_security_change := of_privilege_change f,
     ef_governance_change := of_governance_change f,
     ef_software_change := (of_persistent f \<and> of_class f \<in> {Class_product, Class_protected}),
     ef_process_control := of_runtime_change f\<rparr>"

definition approval_kind_for_negative_rule :: "negative_rule \<Rightarrow> approval_kind" where
  "approval_kind_for_negative_rule r =
     (if r \<in> {Tracked_delete, Bulk_cleanup, Irreversible_effect} then Destructive_operation
      else if r \<in> {External_write_rule, Remote_git_write} then External_write
      else if r = Security_authority then Security_authority_change
      else if r = Runtime_control then Process_control
      else if r = Release_production then Production_release
      else if r = Software_system_change then Software_change
      else Governance_boundary_change)"

section \<open>The policy\<close>

datatype policy_decision =
  Policy_allow operation_effects "string list"
| Policy_require_approval "negative_rule list"

text \<open>\<open>evaluateUnifiedOperationPolicy\<close> once the facts are there.\<close>

definition unified_policy :: "operation_facts \<Rightarrow> policy_decision" where
  "unified_policy f =
     (let matches = evaluate_negative_predicates f in
      if matches = [] then Policy_allow (effects_from_facts f) (of_targets f)
      else Policy_require_approval (map nm_rule matches))"

section \<open>Properties\<close>

text \<open>
  What the policy lets through without approval. An operation is allowed only if it changes
  nothing outside the project and nothing protected or shared, deletes no tracked file and no
  unbounded set, is not known to be irreversible, writes to no external system, remote or release,
  changes neither privileges nor running services, touches no locked target and attests no
  governance authority of its own.
\<close>

theorem policy_allows_only_bounded:
  assumes "unified_policy f = Policy_allow e ts"
  shows "(\<not> of_persistent f \<or>
            ((of_kind f \<in> {Kind_network_write, Kind_remote_git, Kind_publish} \<or>
              list_all (path_inside (of_project_root f)) (of_targets f))
             \<and> of_class f \<noteq> Class_protected \<and> of_class f \<noteq> Class_shared \<and> \<not> of_shared f
             \<and> of_reversible f \<noteq> Irreversible))
    \<and> (of_kind f \<noteq> Kind_delete \<or>
            (of_git_tracked f \<noteq> Some True \<and> length (of_targets f) \<le> 200
             \<and> (\<not> of_recursive f \<or> of_targets f = [])))
    \<and> \<not> (of_external f \<and> of_kind f = Kind_network_write)
    \<and> of_kind f \<notin> {Kind_remote_git, Kind_publish, Kind_process_control}
    \<and> \<not> of_privilege_change f \<and> \<not> of_runtime_change f \<and> of_locked f \<noteq> Some True
    \<and> ''governance.untrusted_self_attestation'' \<notin> set (of_detectors f)"
proof -
  have none: "evaluate_negative_predicates f = []"
    using assms by (simp add: unified_policy_def Let_def split: if_splits)
  have un: "p \<in> set negative_predicates \<Longrightarrow> \<not> nm_matched (p f)" for p
    using none by (simp add: evaluate_negative_predicates_def filter_empty_conv)
  have writes: "\<not> nm_matched (negative_scope_escape f)" "\<not> nm_matched (negative_protected_boundary f)"
    "\<not> nm_matched (negative_shared_state f)" "\<not> nm_matched (negative_irreversible_effect f)"
    and deletes: "\<not> nm_matched (negative_tracked_delete f)" "\<not> nm_matched (negative_bulk_dynamic_targets f)"
    and kinds: "\<not> nm_matched (negative_remote_git_write f)" "\<not> nm_matched (negative_release_production f)"
    "\<not> nm_matched (negative_runtime_control f)"
    and others: "\<not> nm_matched (negative_external_side_effect f)" "\<not> nm_matched (negative_security_authority f)"
    "\<not> nm_matched (negative_concurrency_conflict f)" "\<not> nm_matched (negative_governance_bypass f)"
    by (rule un, simp add: negative_predicates_def)+
  have 1: "\<not> of_persistent f \<or>
            ((of_kind f \<in> {Kind_network_write, Kind_remote_git, Kind_publish} \<or>
              list_all (path_inside (of_project_root f)) (of_targets f))
             \<and> of_class f \<noteq> Class_protected \<and> of_class f \<noteq> Class_shared \<and> \<not> of_shared f
             \<and> of_reversible f \<noteq> Irreversible)"
    using writes by (auto simp: negative_defs list_ex_iff list_all_iff)
  have 2: "of_kind f \<noteq> Kind_delete \<or>
            (of_git_tracked f \<noteq> Some True \<and> length (of_targets f) \<le> 200
             \<and> (\<not> of_recursive f \<or> of_targets f = []))"
    using deletes by (auto simp: negative_defs Let_def)
  have 3: "of_kind f \<notin> {Kind_remote_git, Kind_publish, Kind_process_control} \<and> \<not> of_runtime_change f"
    using kinds by (simp add: negative_defs)
  have 4: "\<not> (of_external f \<and> of_kind f = Kind_network_write) \<and> \<not> of_privilege_change f
      \<and> of_locked f \<noteq> Some True \<and> ''governance.untrusted_self_attestation'' \<notin> set (of_detectors f)"
    using others by (simp add: negative_defs)
  from 1 2 3 4 show ?thesis by blast
qed

definition sample_facts :: operation_facts where
  "sample_facts = \<lparr>of_role = ''DEV'', of_agent_id = ''DEV-01'', of_session_id = ''s1'', of_project_id = ''p'',
     of_project_root = ''/work/p'', of_task_id = ''T-1'', of_thread_key = ''th'', of_task_scope_digest = ''d'',
     of_tool_id = ''write_file'', of_adapter_id = ''file'', of_source_channel = ''mcp'', of_kind = Kind_write,
     of_exact_targets = [''src/a.ts''], of_targets = [''/work/p/src/a.ts''], of_target_set_stable = True,
     of_recursive = False, of_dynamic = False, of_class = Class_product, of_owner_task_id = None,
     of_owner_session_id = None, of_git_tracked = Some True,
     of_locked = None, of_link_boundary = None, of_persistent = True, of_external = False, of_shared = False,
     of_reversible = Reversible, of_recovery_evidence = None, of_privilege_change = False, of_runtime_change = False,
     of_governance_change = False, of_complete = True, of_unresolved = [], of_detectors = []\<rparr>"

theorem policy_allows_only_bounded_witness:
  "unified_policy sample_facts = Policy_allow (effects_from_facts sample_facts) [''/work/p/src/a.ts'']
   \<and> list_all (path_inside (of_project_root sample_facts)) (of_targets sample_facts)"
proof -
  have "unified_policy sample_facts = Policy_allow (effects_from_facts sample_facts) [''/work/p/src/a.ts'']"
    by (simp add: unified_policy_def evaluate_negative_predicates_def negative_predicates_def negative_defs
        sample_facts_def path_inside_def js_starts_def formal_governance_tools_def)
  with policy_allows_only_bounded [OF this] show ?thesis
    by (auto simp: sample_facts_def)
qed

end
