(* ===== verification/Operation_Approval.thy ===== *)
theory Operation_Approval
  imports Operation_Facts
begin

text \<open>
  The approval records of risky operations (\<^verbatim>\<open>approval/OperationApprovalService.ts\<close>): when a request
  needs approval, and the life of a record from \<open>pending_approval\<close> over ADMIN's decision to the one
  use of the authorization. The world is the directory of record files (a file that does not parse
  is \<open>Corrupt_record\<close>), the lock files a crashed process left, and the audit log. SHA-256 and the
  JSON text it is applied to, the process table, the clock, the process id and the verifier of UI
  confirmations are the components of \<open>approval_env\<close>; random ids and tokens are arguments. Inside
  one process the service is synchronous, so an operation is one step; \<open>execute\<close>, which awaits the
  executor, is two steps.
\<close>

section \<open>Data\<close>

datatype initiator = By_agent | By_user | By_system
datatype authorization_source = Source_none | Source_trusted_ui | Source_operation_approval

record capability_request =
  cr_actor :: string
  cr_role :: string
  cr_project_id :: string
  cr_agent_id :: "string option"
  cr_session_id :: "string option"
  cr_task_id :: "string option"
  cr_capability :: string
  cr_operation :: string
  cr_executor :: string
  cr_resource_type :: string
  cr_targets :: "string list"
  cr_scope :: string     \<comment> \<open>the \<open>scope\<close> object as JSON text\<close>
  cr_workspace :: string
  cr_environment :: string
  cr_initiated_by :: initiator
  cr_authorization_source :: authorization_source
  cr_confirmation_id :: "string option"
  cr_effect :: operation_effects
  cr_snapshot :: string  \<comment> \<open>the \<open>snapshot\<close> object as JSON text\<close>

datatype approval_status =
  Pending | Pending_information | Pending_executor | Pending_approval | Approved | Rejected
| Cancelled | Expired | Stale | Executing | Succeeded | Partial_failed | Failed | Revoked
| Executed | Execution_failed

datatype auth_status = Auth_available | Auth_consumed | Auth_invalid

record consumed_by =
  cb_agent_id :: string
  cb_session_id :: string
  cb_task_id :: string
  cb_thread_key :: string
  cb_role :: string

record authorization =
  au_status :: auth_status
  au_issued_at :: "time option"
  au_consumed_at :: "time option"
  au_consumed_by :: "consumed_by option"

record delivery =
  dl_delivered :: bool
  dl_event_id :: "string option"
  dl_delivered_at :: "time option"
  dl_wake_id :: "string option"
  dl_wake_session_id :: "string option"
  dl_attempts :: nat
  dl_last_error :: "string option"

datatype decision_result = Res_approved | Res_rejected | Res_cancelled | Res_expired | Res_stale | Res_revoked

record decision =
  de_result :: decision_result
  de_actor :: string
  de_at :: time
  de_reason :: string

datatype exec_status = Not_started | Exec_running | Exec_succeeded | Exec_partial_failed | Exec_failed

record execution =
  ex_status :: exec_status
  ex_started_at :: "time option"
  ex_finished_at :: "time option"
  ex_pid :: "int option"
  ex_evidence :: "string list"
  ex_error :: "string option"

datatype decision_mode = Mode_auto | Mode_admin_manual
datatype executor_status = Executor_ready | Executor_missing | Executor_incompatible

record legacy_recovery =
  le_original_status :: approval_status
  le_migrated_at :: time
  le_reason :: string

record approval_record =
  ap_id :: string
  ap_primary_kind :: approval_kind
  ap_risk_tags :: "approval_kind list"
  ap_project_id :: string
  ap_project_root :: string
  ap_requested_by :: string
  ap_initiator :: initiator
  ap_agent_id :: "string option"
  ap_session_id :: "string option"
  ap_task_id :: "string option"
  ap_authorization_source :: authorization_source
  ap_confirmation_id :: "string option"
  ap_requested_at :: time
  ap_expires_at :: time
  ap_status :: approval_status
  ap_decision_mode :: decision_mode
  ap_rule_ids :: "string list"
  ap_facts :: "operation_facts option"
  ap_fingerprint :: "string option"
  ap_thread_key :: "string option"
  ap_missing_information :: "string list"
  ap_executor_status :: "executor_status option"
  ap_suggested_executor :: "string option"
  ap_notice_delivered :: bool
  ap_notice_at :: "time option"
  ap_authorization :: "authorization option"
  ap_delivery :: "delivery option"
  ap_invalid_legacy :: bool
  ap_legacy :: "legacy_recovery option"
  ap_request :: capability_request
  ap_digest :: string
  ap_reason :: string
  ap_effects :: "string list"
  ap_non_effects :: "string list"
  ap_recovery :: string
  ap_comment_required :: bool
  ap_expires_in :: int
  ap_decision :: "decision option"
  ap_execution :: execution
  ap_token_hash :: "string option"
  ap_updated_at :: time

record prepare_input =
  pi_request :: capability_request
  pi_reason :: string
  pi_effects :: "string list"
  pi_non_effects :: "string list"
  pi_recovery :: string
  pi_expires_in :: "int option"
  pi_comment_required :: "bool option"
  pi_rule_ids :: "string list option"
  pi_facts :: "operation_facts option"
  pi_fingerprint :: "string option"
  pi_thread_key :: "string option"
  pi_missing_information :: "string list option"
  pi_executor_status :: "executor_status option"
  pi_suggested_executor :: "string option"
  pi_decision_mode :: "decision_mode option"

datatype approval_error =
  Approval_routing_incomplete "string list"
| Approval_already_consumed
| Approval_rejected_replay
| Approval_not_found string
| Approval_not_pending approval_status
| Approval_reason_required
| Approver_not_authorized
| Pre_approval_required approval_status
| Resume_not_allowed
| Rejection_reason_required
| Canceller_not_authorized
| Approval_scope_mismatch "string list"
| Approval_not_decided
| Approval_token_invalid
| Approval_stale
| Approval_state_conflict approval_status
| Approval_id_conflict string
| Approval_store_corrupt string
| Approval_busy string

datatype prepare_result = Prepare_allow string string | Prepare_require approval_record

datatype stored_record = Stored approval_record | Corrupt_record

record audit_entry =
  ad_event :: string
  ad_at :: time
  ad_approval :: "string option"
  ad_digest :: "string option"

record approval_world =
  aw_records :: "(string, stored_record) js_map"
  aw_locks :: "string list"
  aw_audit :: "audit_entry list"

record approval_env =
  env_root :: string
  env_now :: time
  env_pid :: int
  env_alive :: "int \<Rightarrow> bool"
  env_hash :: "string \<Rightarrow> string"                 \<comment> \<open>\<open>createHash("sha256")\<close> of a string, in hex\<close>
  env_json :: "capability_request \<Rightarrow> string"     \<comment> \<open>\<open>JSON.stringify(stable(request))\<close>\<close>
  env_verify :: "(string \<Rightarrow> string \<Rightarrow> capability_request \<Rightarrow> bool) option"

type_synonym 'a ap = "(approval_world, approval_error, 'a) act"

section \<open>Digest and classification\<close>

definition compute_operation_digest :: "approval_env \<Rightarrow> capability_request \<Rightarrow> string" where
  "compute_operation_digest env r =
     ''sha256:'' @ env_hash env (env_json env (r\<lparr>cr_session_id := None\<rparr>))"

definition kind_priority :: "approval_kind list" where
  "kind_priority = [Governance_boundary_change, Security_authority_change, Production_release,
     Destructive_operation, External_write, Software_change, Process_control, High_cost_operation]"

definition matched_kinds :: "operation_effects \<Rightarrow> approval_kind list" where
  "matched_kinds e =
     (if ef_destructive e then [Destructive_operation] else []) @
     (if ef_external_write e then [External_write] else []) @
     (if ef_production e then [Production_release] else []) @
     (if ef_security_change e then [Security_authority_change] else []) @
     (if ef_governance_change e then [Governance_boundary_change] else []) @
     (if ef_software_change e then [Software_change] else []) @
     (if ef_process_control e then [Process_control] else []) @
     (if ef_high_cost e then [High_cost_operation] else [])"

datatype classification =
  Classified_allow string
| Classified_approval approval_kind "approval_kind list" string

definition prohibited_fields :: "operation_effects \<Rightarrow> (bool \<times> string) list" where
  "prohibited_fields e =
     [(ef_prohibited e, ''operation_permanently_prohibited''),
      (ef_target_unbounded e, ''target_set_unbounded''),
      (ef_credential_exposure e, ''credential_exposure_prohibited''),
      (ef_governance_bypass e, ''governance_bypass_prohibited''),
      (ef_force_push e, ''force_push_prohibited''),
      (ef_out_of_scope e, ''operation_out_of_scope'')]"

definition incomplete_request :: "capability_request \<Rightarrow> bool" where
  "incomplete_request r \<longleftrightarrow>
     js_trim (cr_actor r) = [] \<or> js_trim (cr_role r) = [] \<or> js_trim (cr_project_id r) = []
     \<or> js_trim (cr_capability r) = [] \<or> js_trim (cr_operation r) = [] \<or> js_trim (cr_executor r) = []
     \<or> js_trim (cr_resource_type r) = [] \<or> js_trim (cr_workspace r) = []
     \<or> filter (\<lambda>t. t \<noteq> []) (map js_trim (cr_targets r)) = []"

definition kind_name :: "approval_kind \<Rightarrow> string" where
  "kind_name k = (case k of
       Destructive_operation \<Rightarrow> ''destructive_operation'' | External_write \<Rightarrow> ''external_write''
     | Production_release \<Rightarrow> ''production_release'' | Security_authority_change \<Rightarrow> ''security_authority_change''
     | Governance_boundary_change \<Rightarrow> ''governance_boundary_change'' | Software_change \<Rightarrow> ''software_change''
     | Process_control \<Rightarrow> ''process_control'' | High_cost_operation \<Rightarrow> ''high_cost_operation'')"

definition classify_capability_request :: "capability_request \<Rightarrow> classification" where
  "classify_capability_request r =
     (if incomplete_request r then Classified_allow ''no_positive_negative_rule_evidence''
      else if ef_unknown (cr_effect r) then Classified_allow ''unknown_is_not_negative_evidence''
      else
        let tags = matched_kinds (cr_effect r) in
        case List.find fst (prohibited_fields (cr_effect r)) of
          Some (b, reason) \<Rightarrow>
            let primary = or_else (List.find (\<lambda>k. k \<in> set tags) kind_priority) Governance_boundary_change in
            Classified_approval primary (if tags \<noteq> [] then tags else [primary]) reason
        | None \<Rightarrow>
            if tags = [] then Classified_allow ''within_default_local_reversible_boundary''
            else let primary = or_else (List.find (\<lambda>k. k \<in> set tags) kind_priority) (hd tags) in
              Classified_approval primary tags (''capability_boundary:'' @ kind_name primary))"

definition is_pending_approval_status :: "approval_status \<Rightarrow> bool" where
  "is_pending_approval_status s \<longleftrightarrow> s \<in> {Pending, Pending_information, Pending_executor, Pending_approval}"

definition id_char :: "char \<Rightarrow> bool" where
  "id_char c \<longleftrightarrow> js_digit c \<or> (let n = of_char (upper_char c) :: nat in 65 \<le> n \<and> n \<le> 90)
     \<or> c \<in> {CHR ''.'', CHR ''_'', CHR ''-''}"

definition sanitize_id :: "string \<Rightarrow> string" where
  "sanitize_id s = map (\<lambda>c. if id_char c then c else CHR ''_'') s"

lemma id_char_underscore [simp]: "id_char (CHR ''_'')"
  unfolding id_char_def by blast

lemma sanitize_idem [simp]: "sanitize_id (sanitize_id s) = sanitize_id s"
  by (simp add: sanitize_id_def)

section \<open>The record store\<close>

definition clone_record :: "approval_record \<Rightarrow> approval_record" where
  "clone_record r = r\<lparr>ap_token_hash := None\<rparr>"

definition read_record :: "string \<Rightarrow> approval_record option ap" where
  "read_record approval_id w =
     (case map_of (aw_records w) (sanitize_id approval_id) of
        None \<Rightarrow> (Inr None, w)
      | Some Corrupt_record \<Rightarrow> (Inl (Approval_store_corrupt approval_id), w)
      | Some (Stored r) \<Rightarrow> (Inr (Some r), w))"

definition write_record :: "approval_record \<Rightarrow> bool \<Rightarrow> unit ap" where
  "write_record r create_only w =
     (if create_only \<and> map_of (aw_records w) (sanitize_id (ap_id r)) \<noteq> None
      then (Inl (Approval_id_conflict (ap_id r)), w)
      else (Inr (), w\<lparr>aw_records := AList.update (sanitize_id (ap_id r)) (Stored r) (aw_records w)\<rparr>))"

definition audit :: "approval_env \<Rightarrow> string \<Rightarrow> string option \<Rightarrow> string option \<Rightarrow> unit ap" where
  "audit env event approval digest w =
     (Inr (), w\<lparr>aw_audit := aw_audit w @
        [\<lparr>ad_event = event, ad_at = env_now env, ad_approval = approval, ad_digest = digest\<rparr>]\<rparr>)"

text \<open>
  \<open>withLock\<close>: the lock file is created exclusively and removed at the end, so between operations
  only the locks of crashed processes are there.
\<close>

definition with_lock :: "string \<Rightarrow> 'a ap \<Rightarrow> 'a ap" where
  "with_lock approval_id m w =
     (if sanitize_id approval_id \<in> set (aw_locks w) then (Inl (Approval_busy approval_id), w) else m w)"

definition get_mutable :: "string \<Rightarrow> approval_record ap" where
  "get_mutable approval_id =
     act_bind (read_record approval_id) (\<lambda>r.
       case r of None \<Rightarrow> act_throw (Approval_not_found approval_id) | Some r \<Rightarrow> act_return r)"

definition pending_delivery :: "delivery option \<Rightarrow> delivery" where
  "pending_delivery d =
     \<lparr>dl_delivered = False, dl_event_id = Option.bind d dl_event_id, dl_delivered_at = None,
      dl_wake_id = Option.bind d dl_wake_id, dl_wake_session_id = None,
      dl_attempts = (case d of Some x \<Rightarrow> dl_attempts x | None \<Rightarrow> 0), dl_last_error = None\<rparr>"

abbreviation fresh_delivery :: delivery where
  "fresh_delivery \<equiv> pending_delivery None"

definition auth_issued :: "approval_record \<Rightarrow> time option" where
  "auth_issued r = Option.bind (ap_authorization r) au_issued_at"

definition needs_expiry :: "approval_env \<Rightarrow> approval_record \<Rightarrow> bool" where
  "needs_expiry env r \<longleftrightarrow>
     (is_pending_approval_status (ap_status r) \<or> ap_status r = Approved) \<and> ap_expires_at r \<le> env_now env"

definition expired_record :: "approval_env \<Rightarrow> approval_record \<Rightarrow> approval_record" where
  "expired_record env r = r\<lparr>
     ap_status := Expired,
     ap_decision := Some \<lparr>de_result = Res_expired, de_actor = ''SYSTEM'', de_at = env_now env,
        de_reason = ''approval expired before authorization was consumed''\<rparr>,
     ap_authorization := Some \<lparr>au_status = Auth_invalid, au_issued_at = auth_issued r,
        au_consumed_at = None, au_consumed_by = None\<rparr>,
     ap_delivery := Some (pending_delivery (ap_delivery r)),
     ap_token_hash := None, ap_updated_at := env_now env\<rparr>"

definition expire_if_needed :: "approval_env \<Rightarrow> approval_record \<Rightarrow> approval_record ap" where
  "expire_if_needed env r =
     (if needs_expiry env r then
        act_bind (write_record (expired_record env r) False) (\<lambda>_.
        act_bind (audit env ''approval.expired'' (Some (ap_id r)) (Some (ap_digest r))) (\<lambda>_.
        act_return (expired_record env r)))
      else act_return r)"

definition needs_recovery :: "approval_env \<Rightarrow> approval_record \<Rightarrow> bool" where
  "needs_recovery env r \<longleftrightarrow>
     ap_status r = Executing \<and>
     (case ex_pid (ap_execution r) of None \<Rightarrow> False
      | Some pid \<Rightarrow> pid \<noteq> env_pid env \<and> \<not> env_alive env pid)"

definition recovered_record :: "approval_env \<Rightarrow> approval_record \<Rightarrow> approval_record" where
  "recovered_record env r = r\<lparr>
     ap_status := Partial_failed,
     ap_execution := (ap_execution r)\<lparr>ex_status := Exec_partial_failed, ex_finished_at := Some (env_now env),
        ex_error := Some ''executor_process_interrupted; target outcome requires inspection''\<rparr>,
     ap_token_hash := None, ap_updated_at := env_now env\<rparr>"

definition recover_interrupted_if_needed :: "approval_env \<Rightarrow> approval_record \<Rightarrow> approval_record ap" where
  "recover_interrupted_if_needed env r =
     (if needs_recovery env r then
        act_bind (write_record (recovered_record env r) False) (\<lambda>_.
        act_bind (audit env ''operation.execution_interrupted'' (Some (ap_id r)) (Some (ap_digest r))) (\<lambda>_.
        act_return (recovered_record env r)))
      else act_return r)"

definition require_pending :: "approval_env \<Rightarrow> string \<Rightarrow> approval_record ap" where
  "require_pending env approval_id =
     act_bind (get_mutable approval_id) (\<lambda>r0.
     act_bind (expire_if_needed env r0) (\<lambda>r.
     if is_pending_approval_status (ap_status r) then act_return r
     else act_throw (Approval_not_pending (ap_status r))))"

text \<open>\<open>filter((row) => row !== null)\<close>\<close>

fun present :: "'a option list \<Rightarrow> 'a list" where
  "present [] = []"
| "present (None # xs) = present xs"
| "present (Some x # xs) = x # present xs"

definition record_names :: "approval_world \<Rightarrow> string list" where
  "record_names w = map fst (aw_records w)"

text \<open>\<open>list\<close>: reads all records, expires and recovers each, newest request first.\<close>

definition list_records ::
  "approval_env \<Rightarrow> approval_status option \<Rightarrow> int option \<Rightarrow> approval_record list ap" where
  "list_records env status limit w =
     act_bind (act_map read_record (record_names w)) (\<lambda>found.
     act_bind (act_map (expire_if_needed env) (present found)) (\<lambda>rows1.
     act_bind (act_map (recover_interrupted_if_needed env) rows1) (\<lambda>rows2.
     let rows = sort_key (\<lambda>r. - ap_requested_at r)
                  (filter (\<lambda>r. case status of None \<Rightarrow> True | Some s \<Rightarrow> ap_status r = s) rows2) in
     act_return (map clone_record (take (nat (max 1 (min (or_else limit 200) 1000))) rows))))) w"

definition get_record :: "approval_env \<Rightarrow> string \<Rightarrow> approval_record ap" where
  "get_record env approval_id =
     act_bind (get_mutable approval_id) (\<lambda>r.
     act_bind (expire_if_needed env r) (\<lambda>r1.
     act_bind (recover_interrupted_if_needed env r1) (\<lambda>r2.
     act_bind (audit env ''approval.viewed'' (Some (ap_id r2)) (Some (ap_digest r2))) (\<lambda>_.
     act_return (clone_record r2)))))"

section \<open>Requests\<close>

definition given :: "string option \<Rightarrow> string option" where
  "given v = (if truthy v then v else None)"

text \<open>The rules that the facts of the operation verify override the declared effects.\<close>

definition verified_rules :: "prepare_input \<Rightarrow> negative_rule list" where
  "verified_rules i = (case pi_facts i of Some f \<Rightarrow> matched_rules f | None \<Rightarrow> [])"

definition comma_join :: "string list \<Rightarrow> string \<Rightarrow> string" where
  "comma_join xs sep = (case xs of [] \<Rightarrow> [] | x # ys \<Rightarrow> x @ concat (map (\<lambda>y. sep @ y) ys))"

definition classify_prepare :: "prepare_input \<Rightarrow> classification" where
  "classify_prepare i =
     (if verified_rules i \<noteq> [] then
        let tags = js_uniq (map approval_kind_for_negative_rule (verified_rules i)) in
        Classified_approval (case tags of t # _ \<Rightarrow> t | [] \<Rightarrow> Governance_boundary_change) tags
          (''verified_negative_rules:'' @ comma_join (map rule_name (verified_rules i)) '','')
      else classify_capability_request (pi_request i))"

definition requires_approval :: "classification \<Rightarrow> bool" where
  "requires_approval c = (case c of Classified_allow _ \<Rightarrow> False | Classified_approval _ _ _ \<Rightarrow> True)"

definition missing_routing :: "prepare_input \<Rightarrow> string list" where
  "missing_routing i =
     (if js_trim (str_of (cr_agent_id (pi_request i))) = [] then [''agent_id''] else []) @
     (if js_trim (str_of (cr_task_id (pi_request i))) = [] then [''task_id''] else []) @
     (if js_trim (str_of (pi_thread_key i)) = [] then [''thread_key''] else [])"

definition trusted_confirmation :: "approval_env \<Rightarrow> capability_request \<Rightarrow> bool" where
  "trusted_confirmation env r \<longleftrightarrow>
     (let confirmation = js_trim (str_of (cr_confirmation_id r)) in
      cr_initiated_by r = By_user \<and> cr_authorization_source r = Source_trusted_ui \<and> confirmation \<noteq> []
      \<and> (case env_verify env of None \<Rightarrow> False
          | Some verify \<Rightarrow> verify confirmation (compute_operation_digest env r) r))"

definition new_record ::
  "approval_env \<Rightarrow> prepare_input \<Rightarrow> string \<Rightarrow> approval_kind \<Rightarrow> approval_kind list \<Rightarrow> string \<Rightarrow> approval_record" where
  "new_record env i fresh_id primary tags why =
     (let r = pi_request i;
          seconds = max 30 (min (or_else (pi_expires_in i) 900) 86400) in
      \<lparr>ap_id = sanitize_id fresh_id, ap_primary_kind = primary, ap_risk_tags = tags,
       ap_project_id = cr_project_id r, ap_project_root = env_root env, ap_requested_by = cr_actor r,
       ap_initiator = cr_initiated_by r,
       ap_agent_id = given (cr_agent_id r), ap_session_id = given (cr_session_id r), ap_task_id = given (cr_task_id r),
       ap_authorization_source = cr_authorization_source r, ap_confirmation_id = cr_confirmation_id r,
       ap_requested_at = env_now env, ap_expires_at = env_now env + seconds * 1000, ap_status = Pending_approval,
       ap_decision_mode = or_else (pi_decision_mode i) Mode_admin_manual,
       ap_rule_ids = (if verified_rules i \<noteq> [] then map rule_name (verified_rules i)
          else js_uniq (or_else (pi_rule_ids i) (filter (\<lambda>e. js_starts e ''NEG.'') (pi_effects i)))),
       ap_facts = pi_facts i, ap_fingerprint = given (pi_fingerprint i), ap_thread_key = given (pi_thread_key i),
       ap_missing_information = js_uniq (or_else (pi_missing_information i) []),
       ap_executor_status = Some (or_else (pi_executor_status i) Executor_ready),
       ap_suggested_executor = given (pi_suggested_executor i),
       ap_notice_delivered = False, ap_notice_at = None, ap_authorization = None,
       ap_delivery = Some fresh_delivery, ap_invalid_legacy = False, ap_legacy = None,
       ap_request = r, ap_digest = compute_operation_digest env r,
       ap_reason = (if js_trim (pi_reason i) \<noteq> [] then js_trim (pi_reason i) else why),
       ap_effects = filter (\<lambda>e. e \<noteq> []) (map js_trim (pi_effects i)),
       ap_non_effects = filter (\<lambda>e. e \<noteq> []) (map js_trim (pi_non_effects i)),
       ap_recovery = js_trim (pi_recovery i), ap_comment_required = (pi_comment_required i \<noteq> Some False),
       ap_expires_in = seconds, ap_decision = None,
       ap_execution = \<lparr>ex_status = Not_started, ex_started_at = None, ex_finished_at = None, ex_pid = None,
          ex_evidence = [], ex_error = None\<rparr>,
       ap_token_hash = None, ap_updated_at = env_now env\<rparr>)"

definition authorization_is :: "approval_record \<Rightarrow> auth_status \<Rightarrow> bool" where
  "authorization_is r s \<longleftrightarrow> map_option au_status (ap_authorization r) = Some s"

text \<open>\<open>prepareWithLease\<close>; the last part is the request that needs a record.\<close>

definition prepare_record ::
  "approval_env \<Rightarrow> prepare_input \<Rightarrow> string \<Rightarrow> approval_kind \<Rightarrow> approval_kind list \<Rightarrow> string \<Rightarrow> prepare_result ap" where
  "prepare_record env i fresh_id primary tags why =
     (let d = compute_operation_digest env (pi_request i); fresh = new_record env i fresh_id primary tags why in
      act_bind (list_records env None (Some 1000)) (\<lambda>rows.
      let create =
        act_bind (audit env ''operation.blocked_for_approval'' (Some (ap_id fresh)) (Some d)) (\<lambda>_.
        act_bind (write_record fresh True) (\<lambda>_.
        act_bind (audit env ''approval.created'' (Some (ap_id fresh)) (Some d)) (\<lambda>_.
        act_return (Prepare_require (clone_record fresh))))) in
      case List.find (\<lambda>row. ap_project_id row = cr_project_id (pi_request i) \<and> ap_digest row = d) rows of
        None \<Rightarrow> create
      | Some prior \<Rightarrow>
          if is_pending_approval_status (ap_status prior)
             \<or> (ap_status prior = Approved \<and> authorization_is prior Auth_available) then
            act_bind (audit env ''approval.request_deduplicated'' (Some (ap_id prior)) (Some d)) (\<lambda>_.
            act_return (Prepare_require (clone_record prior)))
          else if ap_status prior = Approved \<and> authorization_is prior Auth_consumed then
            act_throw Approval_already_consumed
          else if ap_status prior = Rejected then
            act_bind (audit env ''approval.rejected_replay_blocked'' (Some (ap_id prior)) (Some d)) (\<lambda>_.
            act_throw Approval_rejected_replay)
          else create))"

definition prepare_operation :: "approval_env \<Rightarrow> prepare_input \<Rightarrow> string \<Rightarrow> prepare_result ap" where
  "prepare_operation env i fresh_id =
     (let r = pi_request i; c = classify_prepare i; d = compute_operation_digest env r in
      if requires_approval c \<and> cr_initiated_by r = By_agent \<and> missing_routing i \<noteq> [] then
        act_bind (audit env ''operation.approval_routing_incomplete'' None (Some d)) (\<lambda>_.
        act_throw (Approval_routing_incomplete (missing_routing i)))
      else
        act_bind (audit env ''operation.requested'' None (Some d)) (\<lambda>_.
        if trusted_confirmation env r then
          act_bind (audit env ''operation.frontend_confirmation_accepted'' None (Some d)) (\<lambda>_.
          act_return (Prepare_allow d ''trusted_frontend_confirmation_matches''))
        else case c of
          Classified_allow why \<Rightarrow>
            act_bind (audit env ''operation.classified'' None (Some d)) (\<lambda>_.
            act_return (Prepare_allow d why))
        | Classified_approval primary tags why \<Rightarrow> prepare_record env i fresh_id primary tags why))"

text \<open>
  The request that the policy hands to \<open>prepare\<close> for an operation with negative matches
  (\<open>genericApprovalInput\<close>). Its Chinese explanation, and the texts of the scope, the snapshot and
  the fingerprint, which are JSON and SHA-256 of the facts, are parameters.
\<close>

record policy_input =
  pn_project_id :: string
  pn_agent_id :: string
  pn_session_id :: "string option"

record policy_texts =
  pt_reason :: "operation_facts \<Rightarrow> string"
  pt_scope :: "operation_facts \<Rightarrow> string"
  pt_snapshot :: "operation_facts \<Rightarrow> string"
  pt_fingerprint :: "operation_facts \<Rightarrow> string"

fun kind_text :: "operation_kind \<Rightarrow> string" where
  "kind_text Kind_read = ''read''"
| "kind_text Kind_create = ''create''"
| "kind_text Kind_write = ''write''"
| "kind_text Kind_append = ''append''"
| "kind_text Kind_delete = ''delete''"
| "kind_text Kind_move = ''move''"
| "kind_text Kind_copy = ''copy''"
| "kind_text Kind_execute = ''execute''"
| "kind_text Kind_network_read = ''network_read''"
| "kind_text Kind_network_write = ''network_write''"
| "kind_text Kind_process_control = ''process_control''"
| "kind_text Kind_remote_git = ''remote_git''"
| "kind_text Kind_publish = ''publish''"
| "kind_text Kind_governance_change = ''governance_change''"
| "kind_text Kind_unknown = ''unknown''"

fun class_text :: "lifecycle_class \<Rightarrow> string" where
  "class_text Class_task_scratch = ''task_scratch''"
| "class_text Class_generated = ''generated''"
| "class_text Class_product = ''product''"
| "class_text Class_governance = ''governance''"
| "class_text Class_shared = ''shared''"
| "class_text Class_protected = ''protected''"
| "class_text Class_external = ''external''"
| "class_text Class_unknown = ''unknown''"

definition generic_approval_input ::
  "policy_texts \<Rightarrow> policy_input \<Rightarrow> operation_facts \<Rightarrow> negative_rule list \<Rightarrow> prepare_input" where
  "generic_approval_input t i f rules =
     \<lparr>pi_request =
        \<lparr>cr_actor = pn_agent_id i, cr_role = of_role f, cr_project_id = pn_project_id i,
         cr_agent_id = Some (pn_agent_id i), cr_session_id = given (pn_session_id i),
         cr_task_id = given (Some (of_task_id f)),
         cr_capability = of_tool_id f, cr_operation = kind_text (of_kind f), cr_executor = ''agent.retry'',
         cr_resource_type = class_text (of_class f), cr_targets = of_targets f, cr_scope = pt_scope t f,
         cr_workspace = of_project_root f, cr_environment = ''local'', cr_initiated_by = By_agent,
         cr_authorization_source = Source_none, cr_confirmation_id = None,
         cr_effect = effects_from_facts f, cr_snapshot = pt_snapshot t f\<rparr>,
      pi_reason = pt_reason t f, pi_effects = map rule_name rules,
      pi_non_effects = [''current operation has not executed'', ''logical Session and Task remain recoverable''],
      pi_recovery = ''ADMIN decision is delivered to the original Agent; the Agent retries the exact call and Runtime consumes one matching authorization'',
      pi_expires_in = None, pi_comment_required = None, pi_rule_ids = Some (map rule_name rules),
      pi_facts = Some f, pi_fingerprint = Some (pt_fingerprint t f), pi_thread_key = Some (of_thread_key f),
      pi_missing_information = Some [], pi_executor_status = None, pi_suggested_executor = None,
      pi_decision_mode = None\<rparr>"

section \<open>Decisions\<close>

definition is_admin :: "string \<Rightarrow> bool" where
  "is_admin actor \<longleftrightarrow> js_upper (js_trim actor) = ''ADMIN''"

definition approved_record :: "approval_env \<Rightarrow> string \<Rightarrow> string \<Rightarrow> approval_record \<Rightarrow> approval_record" where
  "approved_record env remark token r = r\<lparr>
     ap_status := Approved,
     ap_decision := Some \<lparr>de_result = Res_approved, de_actor = ''ADMIN'', de_at = env_now env, de_reason = remark\<rparr>,
     ap_authorization := Some \<lparr>au_status = Auth_available, au_issued_at = Some (env_now env),
        au_consumed_at = None, au_consumed_by = None\<rparr>,
     ap_delivery := Some fresh_delivery,
     ap_token_hash := Some (env_hash env token), ap_updated_at := env_now env\<rparr>"

text \<open>A decision that changes the record: write it, log it, return it (without the token hash).\<close>

definition commit_record :: "approval_env \<Rightarrow> string \<Rightarrow> approval_record \<Rightarrow> approval_record ap" where
  "commit_record env event r =
     act_bind (write_record r False) (\<lambda>_.
     act_bind (audit env event (Some (ap_id r)) (Some (ap_digest r))) (\<lambda>_.
     act_return (clone_record r)))"

definition approve_operation ::
  "approval_env \<Rightarrow> string \<Rightarrow> string \<Rightarrow> string \<Rightarrow> string \<Rightarrow> (approval_record \<times> string) ap" where
  "approve_operation env approval_id actor reason token =
     with_lock approval_id (
       act_bind (require_pending env approval_id) (\<lambda>r.
       if ap_comment_required r \<and> js_trim reason = [] then act_throw Approval_reason_required
       else if \<not> is_admin actor then act_throw Approver_not_authorized
       else
         act_bind (commit_record env ''approval.approved'' (approved_record env (js_trim reason) token r)) (\<lambda>copy.
         act_return (copy, token))))"

definition reissue_execution_token ::
  "approval_env \<Rightarrow> string \<Rightarrow> string \<Rightarrow> string \<Rightarrow> (approval_record \<times> string) ap" where
  "reissue_execution_token env approval_id actor token =
     with_lock approval_id (
       act_bind (get_mutable approval_id) (\<lambda>r0.
       act_bind (expire_if_needed env r0) (\<lambda>r.
       if \<not> is_admin actor then act_throw Approver_not_authorized
       else if ap_status r \<noteq> Approved \<or> \<not> authorization_is r Auth_available then
         act_throw (Pre_approval_required (ap_status r))
       else if ap_initiator r \<noteq> By_user \<or> truthy (ap_agent_id r) \<or> truthy (ap_session_id r) \<or> truthy (ap_task_id r) then
         act_throw Resume_not_allowed
       else
         act_bind (commit_record env ''approval.execution_token_reissued''
            (r\<lparr>ap_token_hash := Some (env_hash env token), ap_updated_at := env_now env\<rparr>)) (\<lambda>copy.
         act_return (copy, token)))))"

definition terminal_record ::
  "approval_env \<Rightarrow> approval_status \<Rightarrow> decision_result \<Rightarrow> string \<Rightarrow> string \<Rightarrow> approval_record \<Rightarrow> approval_record" where
  "terminal_record env status result actor reason r = r\<lparr>
     ap_status := status,
     ap_decision := Some \<lparr>de_result = result, de_actor = actor, de_at = env_now env, de_reason = reason\<rparr>,
     ap_authorization := Some \<lparr>au_status = Auth_invalid, au_issued_at = None,
        au_consumed_at = None, au_consumed_by = None\<rparr>,
     ap_delivery := Some fresh_delivery,
     ap_token_hash := None, ap_updated_at := env_now env\<rparr>"

definition reject_operation :: "approval_env \<Rightarrow> string \<Rightarrow> string \<Rightarrow> string \<Rightarrow> approval_record ap" where
  "reject_operation env approval_id actor reason =
     with_lock approval_id (
       act_bind (require_pending env approval_id) (\<lambda>r.
       if \<not> is_admin actor then act_throw Approver_not_authorized
       else if js_trim reason = [] then act_throw Rejection_reason_required
       else commit_record env ''approval.rejected''
              (terminal_record env Rejected Res_rejected (js_trim actor) (js_trim reason) r)))"

definition cancel_operation :: "approval_env \<Rightarrow> string \<Rightarrow> string \<Rightarrow> string \<Rightarrow> approval_record ap" where
  "cancel_operation env approval_id actor reason =
     with_lock approval_id (
       act_bind (require_pending env approval_id) (\<lambda>r.
       if \<not> is_admin actor \<and> js_trim actor \<noteq> ap_requested_by r then act_throw Canceller_not_authorized
       else commit_record env ''approval.cancelled''
              (terminal_record env Cancelled Res_cancelled (js_trim actor) (js_trim reason) r)))"

section \<open>The single use\<close>

record authorization_context =
  ac_project_id :: string
  ac_fingerprint :: string
  ac_agent_id :: string
  ac_session_id :: string
  ac_task_id :: string
  ac_thread_key :: string
  ac_role :: string

definition binding_mismatches :: "approval_record \<Rightarrow> authorization_context \<Rightarrow> string list" where
  "binding_mismatches r c =
     (if ap_project_id r = ac_project_id c then [] else [''project_id'']) @
     (if str_of (ap_fingerprint r) = ac_fingerprint c then [] else [''operation_fingerprint'']) @
     (if str_of (coalesce (ap_agent_id r) (cr_agent_id (ap_request r))) = ac_agent_id c then [] else [''agent_id'']) @
     (if str_of (ap_task_id r) = ac_task_id c then [] else [''task_id'']) @
     (if str_of (ap_thread_key r) = ac_thread_key c then [] else [''thread_key'']) @
     (if js_upper (cr_role (ap_request r)) = js_upper (ac_role c) then [] else [''role'']) @
     (if truthy (ap_session_id r) \<and> ac_session_id c \<noteq> [] then [] else [''session_binding''])"

definition consumed_record :: "approval_env \<Rightarrow> authorization_context \<Rightarrow> approval_record \<Rightarrow> approval_record" where
  "consumed_record env c r = r\<lparr>
     ap_authorization := Some \<lparr>au_status = Auth_consumed, au_issued_at = auth_issued r,
        au_consumed_at = Some (env_now env),
        au_consumed_by = Some \<lparr>cb_agent_id = ac_agent_id c, cb_session_id = ac_session_id c,
           cb_task_id = ac_task_id c, cb_thread_key = ac_thread_key c, cb_role = ac_role c\<rparr>\<rparr>,
     ap_token_hash := None, ap_updated_at := env_now env\<rparr>"

definition consume_locked ::
  "approval_env \<Rightarrow> string \<Rightarrow> authorization_context \<Rightarrow> approval_record option ap" where
  "consume_locked env approval_id c =
     act_bind (get_mutable approval_id) (\<lambda>r0.
     act_bind (expire_if_needed env r0) (\<lambda>r.
     if ap_status r \<noteq> Approved then act_return None
     else if authorization_is r Auth_consumed then act_throw Approval_already_consumed
     else if \<not> authorization_is r Auth_available then act_return None
     else if binding_mismatches r c \<noteq> [] then act_return None
     else act_bind (commit_record env ''approval.authorization_consumed'' (consumed_record env c r)) (\<lambda>copy.
          act_return (Some copy))))"

definition consume_approved_authorization ::
  "approval_env \<Rightarrow> capability_request \<Rightarrow> authorization_context \<Rightarrow> approval_record option ap" where
  "consume_approved_authorization env request c =
     act_bind (list_records env None (Some 1000)) (\<lambda>rows.
     case List.find (\<lambda>row. ap_project_id row = ac_project_id c
            \<and> ap_digest row = compute_operation_digest env request
            \<and> ap_fingerprint row = Some (ac_fingerprint c) \<and> ap_status row = Approved) rows of
       None \<Rightarrow> act_return None
     | Some candidate \<Rightarrow> with_lock (ap_id candidate) (consume_locked env (ap_id candidate) c))"

definition executing_record :: "approval_env \<Rightarrow> approval_record \<Rightarrow> approval_record" where
  "executing_record env r = r\<lparr>
     ap_status := Executing,
     ap_execution := (ap_execution r)\<lparr>ex_status := Exec_running, ex_started_at := Some (env_now env),
        ex_pid := Some (env_pid env)\<rparr>,
     ap_authorization := Some \<lparr>au_status = Auth_consumed,
        au_issued_at = Some (or_else (coalesce (auth_issued r) (map_option de_at (ap_decision r))) (env_now env)),
        au_consumed_at = Some (env_now env),
        au_consumed_by =
          (if truthy (ap_agent_id r) \<and> truthy (ap_session_id r) \<and> truthy (ap_task_id r) \<and> truthy (ap_thread_key r)
           then Some \<lparr>cb_agent_id = str_of (ap_agent_id r), cb_session_id = str_of (ap_session_id r),
              cb_task_id = str_of (ap_task_id r), cb_thread_key = str_of (ap_thread_key r),
              cb_role = cr_role (ap_request r)\<rparr>
           else None)\<rparr>,
     ap_token_hash := None, ap_updated_at := env_now env\<rparr>"

text \<open>\<open>execute\<close> up to the call of the executor.\<close>

definition execute_begin ::
  "approval_env \<Rightarrow> string \<Rightarrow> string \<Rightarrow> capability_request \<Rightarrow> approval_record ap" where
  "execute_begin env approval_id token request =
     with_lock approval_id (
       act_bind (get_mutable approval_id) (\<lambda>r0.
       act_bind (expire_if_needed env r0) (\<lambda>r.
       if ap_status r \<noteq> Approved then
         act_throw (if ap_status r \<in> {Succeeded, Executing} then Approval_already_consumed
                    else Pre_approval_required (ap_status r))
       else if \<not> truthy (ap_token_hash r) \<or> Some (env_hash env token) \<noteq> ap_token_hash r then
         act_throw Approval_token_invalid
       else if compute_operation_digest env request \<noteq> ap_digest r then
         act_bind (commit_record env ''approval.stale''
           (r\<lparr>ap_status := Stale, ap_updated_at := env_now env, ap_token_hash := None\<rparr>)) (\<lambda>_.
         act_throw Approval_stale)
       else commit_record env ''operation.execution_started'' (executing_record env r))))"

section \<open>The end of an execution\<close>

fun status_name :: "approval_status \<Rightarrow> string" where
  "status_name Pending = ''pending''"
| "status_name Pending_information = ''pending_information''"
| "status_name Pending_executor = ''pending_executor''"
| "status_name Pending_approval = ''pending_approval''"
| "status_name Approved = ''approved''"
| "status_name Rejected = ''rejected''"
| "status_name Cancelled = ''cancelled''"
| "status_name Expired = ''expired''"
| "status_name Stale = ''stale''"
| "status_name Executing = ''executing''"
| "status_name Succeeded = ''succeeded''"
| "status_name Partial_failed = ''partial_failed''"
| "status_name Failed = ''failed''"
| "status_name Revoked = ''revoked''"
| "status_name Executed = ''executed''"
| "status_name Execution_failed = ''execution_failed''"

text \<open>The message of the errors that the end of an execution can meet.\<close>

definition settle_message :: "approval_error \<Rightarrow> string" where
  "settle_message e = (case e of
       Approval_state_conflict st \<Rightarrow> ''approval is '' @ status_name st
     | Approval_not_found x \<Rightarrow> x
     | Approval_store_corrupt x \<Rightarrow> ''cannot read '' @ x
     | Approval_busy x \<Rightarrow> ''approval '' @ x @ '' is being updated''
     | _ \<Rightarrow> [])"

datatype executor_outcome = Executor_returned bool "string list" | Executor_threw string
  \<comment> \<open>whether \<open>partial_failed\<close> was reported, and the evidence; or the message of the error\<close>

definition settled_record :: "approval_env \<Rightarrow> bool \<Rightarrow> string list \<Rightarrow> approval_record \<Rightarrow> approval_record" where
  "settled_record env partial_failure evidence r = r\<lparr>
     ap_status := (if partial_failure then Partial_failed else Succeeded),
     ap_execution := (ap_execution r)\<lparr>
        ex_status := (if partial_failure then Exec_partial_failed else Exec_succeeded),
        ex_finished_at := Some (env_now env), ex_evidence := evidence\<rparr>,
     ap_updated_at := env_now env\<rparr>"

definition execute_settle :: "approval_env \<Rightarrow> string \<Rightarrow> bool \<Rightarrow> string list \<Rightarrow> approval_record ap" where
  "execute_settle env approval_id partial_failure evidence =
     with_lock approval_id (
       act_bind (get_mutable approval_id) (\<lambda>r.
       if ap_status r \<noteq> Executing then act_throw (Approval_state_conflict (ap_status r))
       else
         act_bind (commit_record env ''operation.execution_finished''
           (settled_record env partial_failure evidence r)) (\<lambda>copy.
         act_bind (act_each (\<lambda>_. audit env ''operation.target_succeeded'' (Some (ap_id r)) None) evidence) (\<lambda>_.
         act_return copy))))"

definition failed_record :: "approval_env \<Rightarrow> string \<Rightarrow> approval_record \<Rightarrow> approval_record" where
  "failed_record env message r = r\<lparr>
     ap_status := Failed,
     ap_execution := (ap_execution r)\<lparr>ex_status := Exec_failed, ex_finished_at := Some (env_now env),
        ex_error := Some message\<rparr>,
     ap_updated_at := env_now env\<rparr>"

definition execute_fail :: "approval_env \<Rightarrow> string \<Rightarrow> string \<Rightarrow> approval_record ap" where
  "execute_fail env approval_id message =
     with_lock approval_id (
       act_bind (get_mutable approval_id) (\<lambda>r.
       act_bind (commit_record env ''operation.execution_finished'' (failed_record env message r)) (\<lambda>copy.
       act_bind (audit env ''operation.target_failed'' (Some (ap_id r)) None) (\<lambda>_.
       act_return copy))))"

text \<open>\<open>execute\<close> after the executor: an error of the bookkeeping is caught like one of the executor.\<close>

definition execute_finish :: "approval_env \<Rightarrow> string \<Rightarrow> executor_outcome \<Rightarrow> approval_record ap" where
  "execute_finish env approval_id outcome w =
     (case outcome of
        Executor_threw message \<Rightarrow> execute_fail env approval_id message w
      | Executor_returned partial_failure evidence \<Rightarrow>
          (case execute_settle env approval_id partial_failure evidence w of
             (Inr r, w') \<Rightarrow> (Inr r, w')
           | (Inl e, w') \<Rightarrow> execute_fail env approval_id (settle_message e) w'))"

section \<open>Notices and legacy records\<close>

record notice_context =
  nc_project_id :: string
  nc_task_id :: string
  nc_thread_key :: string
  nc_role :: string
  nc_fingerprint :: string

definition notice_mismatches :: "approval_record \<Rightarrow> notice_context \<Rightarrow> string list" where
  "notice_mismatches r c =
     (if ap_project_id r = nc_project_id c then [] else [''project_id'']) @
     (if str_of (ap_task_id r) = nc_task_id c then [] else [''task_id'']) @
     (if str_of (ap_thread_key r) = nc_thread_key c then [] else [''thread_key'']) @
     (if js_upper (cr_role (ap_request r)) = js_upper (nc_role c) then [] else [''role'']) @
     (if str_of (ap_fingerprint r) = nc_fingerprint c then [] else [''operation_fingerprint''])"

definition mark_agent_notice_delivered ::
  "approval_env \<Rightarrow> string \<Rightarrow> notice_context \<Rightarrow> approval_record ap" where
  "mark_agent_notice_delivered env approval_id c =
     with_lock approval_id (
       act_bind (require_pending env approval_id) (\<lambda>r.
       if notice_mismatches r c \<noteq> [] then act_throw (Approval_scope_mismatch (notice_mismatches r c))
       else commit_record env ''approval.agent_notice_delivered''
         (r\<lparr>ap_notice_delivered := True, ap_notice_at := Some (env_now env), ap_updated_at := env_now env\<rparr>)))"

definition delivery_attempts :: "approval_record \<Rightarrow> nat" where
  "delivery_attempts r = (case ap_delivery r of Some d \<Rightarrow> dl_attempts d | None \<Rightarrow> 0)"

definition mark_decision_delivered ::
  "approval_env \<Rightarrow> string \<Rightarrow> string \<Rightarrow> string \<Rightarrow> string \<Rightarrow> approval_record ap" where
  "mark_decision_delivered env approval_id event wake wake_session =
     with_lock approval_id (
       act_bind (get_mutable approval_id) (\<lambda>r.
       if ap_decision r = None then act_throw Approval_not_decided
       else if map_option dl_delivered (ap_delivery r) = Some True then act_return (clone_record r)
       else commit_record env ''approval.decision_delivered''
         (r\<lparr>ap_delivery := Some \<lparr>dl_delivered = True, dl_event_id = Some event, dl_delivered_at = Some (env_now env),
              dl_wake_id = Some wake, dl_wake_session_id = Some wake_session,
              dl_attempts = delivery_attempts r + 1, dl_last_error = None\<rparr>,
            ap_updated_at := env_now env\<rparr>)))"

definition mark_decision_delivery_failed :: "approval_env \<Rightarrow> string \<Rightarrow> string \<Rightarrow> approval_record ap" where
  "mark_decision_delivery_failed env approval_id error =
     with_lock approval_id (
       act_bind (get_mutable approval_id) (\<lambda>r.
       commit_record env ''approval.decision_delivery_failed''
         (r\<lparr>ap_delivery := Some ((pending_delivery (ap_delivery r))\<lparr>
              dl_attempts := delivery_attempts r + 1, dl_last_error := Some (js_trim error)\<rparr>),
            ap_updated_at := env_now env\<rparr>)))"

definition opaque_rule :: "approval_record \<Rightarrow> bool" where
  "opaque_rule r \<longleftrightarrow> ''NEG.OPAQUE.EFFECT'' \<in> set (ap_rule_ids r)"

definition executor_blocked :: "approval_record \<Rightarrow> bool" where
  "executor_blocked r \<longleftrightarrow> ap_status r = Approved \<and>
     (ap_executor_status r = Some Executor_missing \<or> ap_executor_status r = Some Executor_incompatible
      \<or> list_ex (js_starts (js_lower (cr_executor (ap_request r))))
          [''unresolved.'', ''missing.'', ''adapter_required''])"

definition legacy_reason :: "bool \<Rightarrow> string" where
  "legacy_reason opq =
     (if opq then ''legacy NEG.OPAQUE.EFFECT is not a valid negative rule''
      else ''legacy approved record depended on a missing controlled executor'')"

definition revoked_record :: "approval_env \<Rightarrow> bool \<Rightarrow> approval_record \<Rightarrow> approval_record" where
  "revoked_record env opq r = r\<lparr>
     ap_status := Revoked,
     ap_decision := Some \<lparr>de_result = Res_revoked, de_actor = ''SYSTEM'', de_at = env_now env,
        de_reason = legacy_reason opq\<rparr>,
     ap_authorization := Some \<lparr>au_status = Auth_invalid, au_issued_at = auth_issued r,
        au_consumed_at = None, au_consumed_by = None\<rparr>,
     ap_delivery := Some fresh_delivery, ap_invalid_legacy := opq,
     ap_legacy := Some \<lparr>le_original_status = ap_status r, le_migrated_at = env_now env, le_reason = legacy_reason opq\<rparr>,
     ap_token_hash := None, ap_updated_at := env_now env\<rparr>"

definition migrate_record :: "approval_env \<Rightarrow> string \<Rightarrow> approval_record option ap" where
  "migrate_record env name =
     act_bind (read_record name) (\<lambda>found.
     case found of
       None \<Rightarrow> act_return None
     | Some current \<Rightarrow>
         if ap_legacy current \<noteq> None \<or> (\<not> opaque_rule current \<and> \<not> executor_blocked current) then act_return None
         else with_lock name (
           act_bind (get_mutable name) (\<lambda>r.
           if ap_legacy r \<noteq> None then act_return (Some (clone_record r))
           else act_bind (commit_record env ''approval.legacy_record_revoked''
                  (revoked_record env (opaque_rule current) r)) (\<lambda>copy.
                act_return (Some copy)))))"

definition migrate_legacy_records :: "approval_env \<Rightarrow> approval_record list ap" where
  "migrate_legacy_records env w =
     act_bind (act_map (migrate_record env) (record_names w)) (\<lambda>results.
     act_return (present results)) w"

section \<open>Runs of the service\<close>

text \<open>
  The public methods as calls. A step yields the record it granted the use of an authorization on,
  if it did: \<open>consumeApprovedAuthorization\<close> that returns a record, or \<open>execute\<close> that reaches the
  executor.
\<close>

datatype approval_call =
  Call_prepare prepare_input string
| Call_list "approval_status option" "int option"
| Call_get string
| Call_migrate
| Call_notice string notice_context
| Call_approve string string string string
| Call_reissue string string string
| Call_reject string string string
| Call_cancel string string string
| Call_consume capability_request authorization_context
| Call_delivered string string string string
| Call_delivery_failed string string
| Call_execute string string capability_request
| Call_finish string executor_outcome

definition granted :: "approval_error + approval_record option \<Rightarrow> approval_record option" where
  "granted res = (case res of Inl _ \<Rightarrow> None | Inr r \<Rightarrow> r)"

definition no_grant :: "('e + 'a) \<times> approval_world \<Rightarrow> approval_record option \<times> approval_world" where
  "no_grant p = (None, snd p)"

fun approval_step ::
  "approval_env \<Rightarrow> approval_call \<Rightarrow> approval_world \<Rightarrow> approval_record option \<times> approval_world" where
  "approval_step env (Call_prepare i fresh_id) w = no_grant (prepare_operation env i fresh_id w)"
| "approval_step env (Call_list st limit) w = no_grant (list_records env st limit w)"
| "approval_step env (Call_get x) w = no_grant (get_record env x w)"
| "approval_step env Call_migrate w = no_grant (migrate_legacy_records env w)"
| "approval_step env (Call_notice x c) w = no_grant (mark_agent_notice_delivered env x c w)"
| "approval_step env (Call_approve x actor reason token) w = no_grant (approve_operation env x actor reason token w)"
| "approval_step env (Call_reissue x actor token) w = no_grant (reissue_execution_token env x actor token w)"
| "approval_step env (Call_reject x actor reason) w = no_grant (reject_operation env x actor reason w)"
| "approval_step env (Call_cancel x actor reason) w = no_grant (cancel_operation env x actor reason w)"
| "approval_step env (Call_consume q c) w = map_prod granted id (consume_approved_authorization env q c w)"
| "approval_step env (Call_delivered x event wake wake_session) w =
     no_grant (mark_decision_delivered env x event wake wake_session w)"
| "approval_step env (Call_delivery_failed x error) w = no_grant (mark_decision_delivery_failed env x error w)"
| "approval_step env (Call_execute x token q) w =
     map_prod (\<lambda>res. granted (map_sum id Some res)) id (execute_begin env x token q w)"
| "approval_step env (Call_finish x outcome) w = no_grant (execute_finish env x outcome w)"

fun run_approvals ::
  "(approval_env \<times> approval_call) list \<Rightarrow> approval_world \<Rightarrow> approval_record list \<times> approval_world" where
  "run_approvals [] w = ([], w)"
| "run_approvals ((env, c) # cs) w =
     (let (g, w1) = approval_step env c w; (gs, w2) = run_approvals cs w1 in
      ((case g of None \<Rightarrow> gs | Some r \<Rightarrow> r # gs), w2))"

definition empty_store :: "string list \<Rightarrow> approval_world" where
  "empty_store locks = \<lparr>aw_records = [], aw_locks = locks, aw_audit = []\<rparr>"

end
