(* ===== verification/Approval_Properties.thy ===== *)
theory Approval_Properties
  imports Operation_Approval
begin

text \<open>
  What the approval service promises over any sequence of its operations, each at its own time and
  in its own process: an authorization is used at most once, only after ADMIN's approval, for the
  approved request, and before it expires. The operations are specified by what they may do to a
  record (\<open>successor\<close>), through the specifications \<open>act_spec\<close> of the preorder \<open>advance\<close>.
\<close>

section \<open>The invariant of the store\<close>

definition record_key :: "approval_record \<Rightarrow> string" where
  "record_key r = sanitize_id (ap_id r)"

definition admin_approved :: "approval_record \<Rightarrow> bool" where
  "admin_approved r \<longleftrightarrow>
     (case ap_decision r of None \<Rightarrow> False | Some d \<Rightarrow> de_result d = Res_approved \<and> de_actor d = ''ADMIN'')"

definition record_ok :: "approval_record \<Rightarrow> bool" where
  "record_ok r \<longleftrightarrow> ap_status r \<noteq> Approved
     \<or> (admin_approved r
        \<and> (authorization_is r Auth_available \<or> (authorization_is r Auth_consumed \<and> ap_token_hash r = None)))"

definition spendable :: "approval_record \<Rightarrow> bool" where
  "spendable r \<longleftrightarrow> is_pending_approval_status (ap_status r)
     \<or> (ap_status r = Approved \<and> authorization_is r Auth_available)"

definition store_ok :: "approval_world \<Rightarrow> bool" where
  "store_ok w \<longleftrightarrow> distinct (record_names w) \<and> (\<forall>k \<in> set (record_names w). sanitize_id k = k)
     \<and> (\<forall>k r. map_of (aw_records w) k = Some (Stored r) \<longrightarrow> record_key r = k \<and> record_ok r)"

definition spent :: "approval_world \<Rightarrow> string \<Rightarrow> bool" where
  "spent w k \<longleftrightarrow> (case map_of (aw_records w) k of
       None \<Rightarrow> False | Some Corrupt_record \<Rightarrow> True | Some (Stored r) \<Rightarrow> \<not> spendable r)"

definition is_approved :: "approval_world \<Rightarrow> string \<Rightarrow> bool" where
  "is_approved w k \<longleftrightarrow> (case map_of (aw_records w) k of
       Some (Stored r) \<Rightarrow> ap_status r = Approved | _ \<Rightarrow> False)"

text \<open>
  What a step may do to the store: keep the invariant, leave spent records spent, and make a
  record approved only if its key is in the set \<open>A\<close>.
\<close>

definition advance :: "string set \<Rightarrow> approval_world \<Rightarrow> approval_world \<Rightarrow> bool" where
  "advance A w w' \<longleftrightarrow> (store_ok w \<longrightarrow> store_ok w' \<and> (\<forall>k. spent w k \<longrightarrow> spent w' k)
     \<and> (\<forall>k. is_approved w' k \<longrightarrow> is_approved w k \<or> k \<in> A))"

interpretation approvals: step_preorder "advance A" for A
  by unfold_locales (auto simp: advance_def)

definition holds :: "approval_record \<Rightarrow> approval_world \<Rightarrow> bool" where
  "holds r w \<longleftrightarrow> store_ok w \<and> map_of (aw_records w) (record_key r) = Some (Stored r)"

definition successor :: "string set \<Rightarrow> approval_record \<Rightarrow> approval_record \<Rightarrow> bool" where
  "successor A r r' \<longleftrightarrow> ap_id r' = ap_id r \<and> (record_ok r \<longrightarrow> record_ok r') \<and> (spendable r' \<longrightarrow> spendable r)
     \<and> (ap_status r' = Approved \<longrightarrow> ap_status r = Approved \<or> record_key r \<in> A)"

lemma holds_ok: "holds r w \<Longrightarrow> store_ok w \<and> record_ok r"
  by (auto simp: holds_def store_ok_def)

lemma successor_key: "successor A r r' \<Longrightarrow> record_key r' = record_key r"
  by (simp add: successor_def record_key_def)

lemma update_names:
  "k \<in> set (map fst m) \<Longrightarrow> map fst (AList.update k v m) = map fst m"
  by (induction m) auto

lemma holds_write:
  assumes "holds r w" and "successor A r r'"
  shows "holds r' (w\<lparr>aw_records := AList.update (record_key r') (Stored r') (aw_records w)\<rparr>)"
    and "advance A w (w\<lparr>aw_records := AList.update (record_key r') (Stored r') (aw_records w)\<rparr>)"
proof -
  let ?k = "record_key r'"
  let ?w = "w\<lparr>aw_records := AList.update ?k (Stored r') (aw_records w)\<rparr>"
  have at: "map_of (aw_records w) ?k = Some (Stored r)"
    using assms by (simp add: holds_def successor_key)
  then have "?k \<in> set (map fst (aw_records w))" by (metis map_of_SomeD list.set_map fst_conv image_eqI)
  then have names: "record_names ?w = record_names w"
    by (simp add: record_names_def update_names)
  have ok': "record_ok r'" using assms holds_ok by (auto simp: successor_def)
  have store: "store_ok ?w"
    using assms(1) names ok' by (auto simp: store_ok_def holds_def update_conv_if)
  then show "holds r' ?w" by (simp add: holds_def)
  have "spent w k \<Longrightarrow> spent ?w k" for k
    using at assms(2) by (cases "k = ?k") (auto simp: spent_def successor_def)
  moreover have "is_approved ?w k \<Longrightarrow> is_approved w k \<or> k \<in> A" for k
    using at assms(2) by (cases "k = ?k") (auto simp: is_approved_def successor_def record_key_def)
  ultimately show "advance A w ?w" using store by (simp add: advance_def)
qed

section \<open>Specifications of the store operations\<close>

lemma write_spec:
  assumes "successor A r r'"
  shows "act_spec (advance A) (holds r) (write_record r' False) (\<lambda>_. holds r')"
  unfolding act_spec_def write_record_def
  using holds_write [OF _ assms] by (simp add: record_key_def)

lemma audit_store:
  "store_ok (w\<lparr>aw_audit := a\<rparr>) = store_ok w" "spent (w\<lparr>aw_audit := a\<rparr>) k = spent w k"
  "holds r (w\<lparr>aw_audit := a\<rparr>) = holds r w" "is_approved (w\<lparr>aw_audit := a\<rparr>) k = is_approved w k"
  by (simp_all add: is_approved_def store_ok_def spent_def holds_def record_names_def)

lemma audit_spec:
  "act_spec (advance A) (holds r) (audit env e a d) (\<lambda>_. holds r)"
  "act_spec (advance A) store_ok (audit env e a d) (\<lambda>_. store_ok)"
  by (simp_all add: act_spec_def audit_def audit_store advance_def)

lemma get_spec:
  "act_spec (advance A) store_ok (get_mutable x) (\<lambda>r w. holds r w \<and> record_key r = sanitize_id x)"
  unfolding act_spec_def get_mutable_def read_record_def act_bind_def
  by (auto simp: advance_def holds_def act_throw_def act_return_def store_ok_def
      split: option.splits stored_record.splits)

lemma clone_key [simp]: "ap_id (clone_record r) = ap_id r" "ap_digest (clone_record r) = ap_digest r"
  "ap_status (clone_record r) = ap_status r" "ap_decision (clone_record r) = ap_decision r"
  "ap_project_id (clone_record r) = ap_project_id r" "ap_expires_at (clone_record r) = ap_expires_at r"
  "ap_authorization (clone_record r) = ap_authorization r" "ap_fingerprint (clone_record r) = ap_fingerprint r"
  by (simp_all add: clone_record_def)

lemma commit_spec:
  assumes "successor A r r'"
  shows "act_spec (advance A) (holds r) (commit_record env e r') (\<lambda>x w. holds r' w \<and> x = clone_record r')"
  unfolding commit_record_def
  by (rule approvals.spec_bind [OF write_spec [OF assms]], rule approvals.spec_bind [OF audit_spec(1)],
      rule approvals.spec_return) simp

lemma expired_successor: "successor A r (expired_record env r)"
  by (simp add: successor_def expired_record_def record_ok_def spendable_def is_pending_approval_status_def)

lemma recovered_successor: "successor A r (recovered_record env r)"
  by (simp add: successor_def recovered_record_def record_ok_def spendable_def is_pending_approval_status_def)

text \<open>What \<open>expire_if_needed\<close> and \<open>recover_interrupted_if_needed\<close> return.\<close>

definition settled_now :: "approval_env \<Rightarrow> approval_record \<Rightarrow> approval_record \<Rightarrow> bool" where
  "settled_now env r r' \<longleftrightarrow> record_key r' = record_key r \<and> ap_digest r' = ap_digest r
     \<and> (r' = r \<and> \<not> needs_expiry env r \<or> ap_status r' = Expired)"

lemma expire_spec:
  "act_spec (advance A) (holds r) (expire_if_needed env r) (\<lambda>r' w. holds r' w \<and> settled_now env r r')"
proof -
  have ex: "settled_now env r (expired_record env r)"
    by (simp add: settled_now_def record_key_def expired_record_def)
  have "act_spec (advance A) (holds r)
     (act_bind (write_record (expired_record env r) False) (\<lambda>_.
        act_bind (audit env ''approval.expired'' (Some (ap_id r)) (Some (ap_digest r))) (\<lambda>_.
        act_return (expired_record env r)))) (\<lambda>r' w. holds r' w \<and> settled_now env r r')"
    by (rule approvals.spec_bind [OF write_spec [OF expired_successor]],
        rule approvals.spec_bind [OF audit_spec(1)], rule approvals.spec_return) (simp add: ex)
  then show ?thesis
    by (auto simp: expire_if_needed_def settled_now_def intro!: approvals.spec_return)
qed

lemma recover_spec:
  "act_spec (advance A) (holds r) (recover_interrupted_if_needed env r)
     (\<lambda>r' w. holds r' w \<and> record_key r' = record_key r)"
proof -
  have "act_spec (advance A) (holds r)
     (act_bind (write_record (recovered_record env r) False) (\<lambda>_.
        act_bind (audit env ''operation.execution_interrupted'' (Some (ap_id r)) (Some (ap_digest r))) (\<lambda>_.
        act_return (recovered_record env r)))) (\<lambda>r' w. holds r' w \<and> record_key r' = record_key r)"
    by (rule approvals.spec_bind [OF write_spec [OF recovered_successor]],
        rule approvals.spec_bind [OF audit_spec(1)], rule approvals.spec_return)
       (simp add: successor_key [OF recovered_successor])
  then show ?thesis
    by (auto simp: recover_interrupted_if_needed_def intro!: approvals.spec_return)
qed

text \<open>An operation that opens the record under its lock.\<close>

lemma locked_spec: "act_spec R P m Q \<Longrightarrow> step_preorder R \<Longrightarrow> act_spec R P (with_lock x m) Q"
  by (auto simp: act_spec_def with_lock_def step_preorder_def)

lemma open_spec:
  assumes "\<And>r. act_spec (advance A) (\<lambda>w. holds r w \<and> record_key r = sanitize_id x) (f r) Q"
  shows "act_spec (advance A) store_ok (with_lock x (act_bind (get_mutable x) f)) Q"
  by (rule locked_spec [OF approvals.spec_bind [OF get_spec]]) (rule assms, unfold_locales)

lemma pending_spec:
  "act_spec (advance A) store_ok (require_pending env x)
     (\<lambda>r w. holds r w \<and> record_key r = sanitize_id x \<and> is_pending_approval_status (ap_status r)
        \<and> env_now env < ap_expires_at r)"
  unfolding require_pending_def
proof (rule approvals.spec_bind [OF get_spec], rule approvals.spec_bind)
  fix r
  show "act_spec (advance A) (\<lambda>w. holds r w \<and> record_key r = sanitize_id x) (expire_if_needed env r)
     (\<lambda>r' w. holds r' w \<and> record_key r = sanitize_id x \<and> settled_now env r r')"
    using expire_spec [of A r env] by (auto simp: act_spec_def)
next
  fix r r'
  show "act_spec (advance A) (\<lambda>w. holds r' w \<and> record_key r = sanitize_id x \<and> settled_now env r r')
     (if is_pending_approval_status (ap_status r') then act_return r' else act_throw (Approval_not_pending (ap_status r')))
     (\<lambda>r w. holds r w \<and> record_key r = sanitize_id x \<and> is_pending_approval_status (ap_status r)
        \<and> env_now env < ap_expires_at r)"
    by (auto intro!: approvals.spec_return approvals.spec_throw
        simp: settled_now_def needs_expiry_def is_pending_approval_status_def)
qed

section \<open>Reading the whole store\<close>

definition holds_all :: "approval_record list \<Rightarrow> approval_world \<Rightarrow> bool" where
  "holds_all rs w \<longleftrightarrow> store_ok w \<and> distinct (map record_key rs) \<and> (\<forall>r \<in> set rs. holds r w)"

text \<open>A step on one record keeps its key and leaves the other records alone.\<close>

definition local_step :: "string set \<Rightarrow> (approval_record \<Rightarrow> approval_record ap) \<Rightarrow> bool" where
  "local_step A f \<longleftrightarrow> (\<forall>r.
     act_spec (advance A) (holds r) (f r) (\<lambda>r' w. holds r' w \<and> record_key r' = record_key r)
     \<and> (\<forall>w k. k \<noteq> record_key r \<longrightarrow> map_of (aw_records (snd (f r w))) k = map_of (aw_records w) k))"

lemma local_expire: "local_step A (expire_if_needed env)"
  unfolding local_step_def
proof (intro allI conjI impI)
  fix r show "act_spec (advance A) (holds r) (expire_if_needed env r) (\<lambda>r' w. holds r' w \<and> record_key r' = record_key r)"
    by (rule act_spec_weaken [OF expire_spec]) (auto simp: settled_now_def)
next
  fix r w k assume "k \<noteq> record_key r"
  then show "map_of (aw_records (snd (expire_if_needed env r w))) k = map_of (aw_records w) k"
    by (simp add: expire_if_needed_def act_bind_def write_record_def audit_def act_return_def
        record_key_def expired_record_def)
qed

lemma local_recover: "local_step A (recover_interrupted_if_needed env)"
  unfolding local_step_def
proof (intro allI conjI impI)
  fix r w k assume "k \<noteq> record_key r"
  then show "map_of (aw_records (snd (recover_interrupted_if_needed env r w))) k = map_of (aw_records w) k"
    by (simp add: recover_interrupted_if_needed_def act_bind_def write_record_def audit_def act_return_def
        record_key_def recovered_record_def)
qed (rule recover_spec)

lemma local_step_all:
  assumes "local_step A f"
  shows "act_spec (advance A) (holds_all (ps @ r # rs)) (f r)
     (\<lambda>r' w. holds_all ((ps @ [r']) @ rs) w \<and> record_key r' = record_key r)"
  unfolding act_spec_def
proof (intro allI impI conjI)
  fix w assume all: "holds_all (ps @ r # rs) w"
  then have r: "holds r w" by (simp add: holds_all_def)
  have spec: "act_spec (advance A) (holds r) (f r) (\<lambda>r' w. holds r' w \<and> record_key r' = record_key r)"
    and frame: "k \<noteq> record_key r \<Longrightarrow> map_of (aw_records (snd (f r w))) k = map_of (aw_records w) k" for k
    using assms by (auto simp: local_step_def)
  show "advance A w (snd (f r w))" by (rule act_specD(1) [OF spec r])
  fix r' assume "fst (f r w) = Inr r'"
  then have r': "holds r' (snd (f r w)) \<and> record_key r' = record_key r"
    using act_specD(2) [OF spec r, of r' "snd (f r w)"] by (metis prod.collapse)
  moreover have "holds q (snd (f r w))" if "q \<in> set (ps @ rs)" for q
  proof -
    have "record_key q \<noteq> record_key r" using all that by (auto simp: holds_all_def) (metis image_eqI)+
    with all that frame r' show ?thesis by (auto simp: holds_def holds_all_def)
  qed
  ultimately show "holds_all ((ps @ [r']) @ rs) (snd (f r w))" "record_key r' = record_key r"
    using all by (auto simp: holds_all_def holds_def)
qed

lemma act_map_spec:
  assumes "local_step A f"
  shows "act_spec (advance A) (holds_all (ps @ rs)) (act_map f rs) (\<lambda>rs'. holds_all (ps @ rs'))"
proof (induction rs arbitrary: ps)
  case Nil
  show ?case by (auto intro: approvals.spec_return)
next
  case (Cons r rs)
  have "act_spec (advance A) (holds_all (ps @ r # rs)) (f r) (\<lambda>r'. holds_all ((ps @ [r']) @ rs))"
    by (rule act_spec_weaken [OF local_step_all [OF assms]]) auto
  moreover have "act_spec (advance A) (holds_all ((ps @ [r']) @ rs))
      (act_bind (act_map f rs) (\<lambda>ys. act_return (r' # ys))) (\<lambda>rs'. holds_all (ps @ rs'))" for r'
    by (rule approvals.spec_bind [OF Cons.IH [of "ps @ [r']"]], rule approvals.spec_return) simp
  ultimately show ?case unfolding act_map.simps by (rule approvals.spec_bind)
qed

lemma read_record_ok:
  assumes "store_ok w" and "read_record k w = (Inr found, w')" and "k \<in> set (record_names w)"
  shows "w' = w \<and> (\<forall>r. found = Some r \<longrightarrow> holds r w \<and> record_key r = k)"
  using assms by (auto simp: read_record_def store_ok_def holds_def split: option.splits stored_record.splits)

lemma read_record_same: "snd (read_record k w) = w"
  by (auto simp: read_record_def split: option.splits stored_record.splits)

lemma read_all_spec:
  assumes "store_ok w" and "set ks \<subseteq> set (record_names w)" and "distinct ks"
  shows "snd (act_map read_record ks w) = w
    \<and> (\<forall>found. fst (act_map read_record ks w) = Inr found \<longrightarrow>
        holds_all (present found) w \<and> record_key ` set (present found) \<subseteq> set ks)"
  using assms(2,3)
proof (induction ks)
  case Nil
  then show ?case using assms(1) by (simp add: act_return_def holds_all_def)
next
  case (Cons k ks)
  show ?case
  proof (cases "read_record k w")
    case (Pair x w1)
    then have w1: "w1 = w" using read_record_same [of k w] by simp
    show ?thesis
    proof (cases x)
      case (Inl e)
      with Pair w1 show ?thesis by (simp add: act_bind_def)
    next
      case (Inr found)
      with Pair have ok: "\<forall>r. found = Some r \<longrightarrow> holds r w \<and> record_key r = k"
        using read_record_ok [OF assms(1)] Cons.prems by auto
      have IH: "snd (act_map read_record ks w) = w
        \<and> (\<forall>found. fst (act_map read_record ks w) = Inr found \<longrightarrow>
            holds_all (present found) w \<and> record_key ` set (present found) \<subseteq> set ks)"
        by (rule Cons.IH) (use Cons.prems in auto)
      obtain y w2 where rest: "act_map read_record ks w = (y, w2)" by (meson surj_pair)
      with IH have "w2 = w" by simp
      with Pair Inr w1 rest IH ok Cons.prems show ?thesis
        by (cases y; cases found)
           (auto simp: act_bind_def act_return_def holds_all_def)
    qed
  qed
qed

lemma list_spec:
  "act_spec (advance A) store_ok (list_records env status limit)
     (\<lambda>rows w. store_ok w \<and> (\<forall>row \<in> set rows. \<exists>r. holds r w \<and> row = clone_record r))"
proof -
  have 1: "act_spec (advance A) (\<lambda>v. v = w \<and> store_ok v) (act_map read_record (record_names w))
      (\<lambda>found. holds_all (present found))" for w
    unfolding act_spec_def
  proof (intro allI impI)
    fix v assume v: "v = w \<and> store_ok v"
    then have "distinct (record_names w)" unfolding store_ok_def by blast
    then have "snd (act_map read_record (record_names w) w) = w
      \<and> (\<forall>found. fst (act_map read_record (record_names w) w) = Inr found \<longrightarrow>
          holds_all (present found) w \<and> record_key ` set (present found) \<subseteq> set (record_names w))"
      using v read_all_spec [of w "record_names w"] by blast
    then show "advance A v (snd (act_map read_record (record_names w) v))
      \<and> (\<forall>x. fst (act_map read_record (record_names w) v) = Inr x \<longrightarrow>
           holds_all (present x) (snd (act_map read_record (record_names w) v)))"
      using v approvals.step_refl [of _ w] by simp
  qed
  have 2: "act_spec (advance A) (holds_all rs) (act_map (expire_if_needed env) rs) holds_all" for rs
    using act_map_spec [OF local_expire, of _ "[]"] by simp
  have 3: "act_spec (advance A) (holds_all rs) (act_map (recover_interrupted_if_needed env) rs) holds_all" for rs
    using act_map_spec [OF local_recover, of _ "[]"] by simp
  have 4: "act_spec (advance A) (\<lambda>v. v = w \<and> store_ok v) (list_records env status limit)
     (\<lambda>rows w. store_ok w \<and> (\<forall>row \<in> set rows. \<exists>r. holds r w \<and> row = clone_record r))" for w
  proof -
    have "act_spec (advance A) (\<lambda>v. v = w \<and> store_ok v)
       (act_bind (act_map read_record (record_names w)) (\<lambda>found.
        act_bind (act_map (expire_if_needed env) (present found)) (\<lambda>rows1.
        act_bind (act_map (recover_interrupted_if_needed env) rows1) (\<lambda>rows2.
        let rows = sort_key (\<lambda>r. - ap_requested_at r)
                  (filter (\<lambda>r. case status of None \<Rightarrow> True | Some s \<Rightarrow> ap_status r = s) rows2) in
        act_return (map clone_record (take (nat (max 1 (min (or_else limit 200) 1000))) rows))))))
       (\<lambda>rows w. store_ok w \<and> (\<forall>row \<in> set rows. \<exists>r. holds r w \<and> row = clone_record r))"
      by (rule approvals.spec_bind [OF 1], rule approvals.spec_bind [OF 2], rule approvals.spec_bind [OF 3])
         (auto simp: holds_all_def Let_def intro!: approvals.spec_return dest!: in_set_takeD, blast)
    then show ?thesis by (auto simp: act_spec_def list_records_def)
  qed
  then show ?thesis by (auto simp: act_spec_def)
qed

section \<open>The operations\<close>

lemmas spec_simps = successor_def record_ok_def spendable_def is_pending_approval_status_def
  authorization_is_def admin_approved_def

lemma approved_successor:
  "is_pending_approval_status (ap_status r) \<Longrightarrow> record_key r \<in> A \<Longrightarrow> successor A r (approved_record env remark token r)"
  by (simp add: spec_simps approved_record_def)

lemma terminal_successor:
  "st \<in> {Rejected, Cancelled} \<Longrightarrow> successor A r (terminal_record env st res actor reason r)"
  by (auto simp: spec_simps terminal_record_def)

lemma consumed_successor: "authorization_is r Auth_available \<Longrightarrow> successor A r (consumed_record env c r)"
  by (auto simp: spec_simps consumed_record_def)

lemma executing_successor: "successor A r (executing_record env r)"
  by (simp add: spec_simps executing_record_def)

lemma settled_successor: "successor A r (settled_record env partial_failure evidence r)"
  by (simp add: spec_simps settled_record_def)

lemma failed_successor: "successor A r (failed_record env message r)"
  by (simp add: spec_simps failed_record_def)

lemma revoked_successor: "successor A r (revoked_record env opq r)"
  by (simp add: spec_simps revoked_record_def)

lemma stale_successor: "successor A r (r\<lparr>ap_status := Stale, ap_updated_at := t, ap_token_hash := None\<rparr>)"
  by (simp add: spec_simps)

lemma reissued_successor:
  "authorization_is r Auth_available \<Longrightarrow> successor A r (r\<lparr>ap_token_hash := h, ap_updated_at := t\<rparr>)"
  by (auto simp: spec_simps)

lemma notice_successor:
  "is_pending_approval_status (ap_status r) \<Longrightarrow>
   successor A r (r\<lparr>ap_notice_delivered := b, ap_notice_at := n, ap_updated_at := t\<rparr>)"
  by (auto simp: spec_simps)

lemma delivery_successor: "successor A r (r\<lparr>ap_delivery := d, ap_updated_at := t\<rparr>)"
  by (auto simp: spec_simps)

lemmas successors = approved_successor terminal_successor consumed_successor executing_successor
  settled_successor failed_successor revoked_successor stale_successor reissued_successor
  notice_successor delivery_successor

text \<open>The shape of every decision: open the record, bring it up to date, commit a successor.\<close>

abbreviation keeps_store :: "string set \<Rightarrow> 'a ap \<Rightarrow> bool" where
  "keeps_store A m \<equiv> act_spec (advance A) store_ok m (\<lambda>_. store_ok)"

lemma commit_keeps:
  assumes "\<And>w. P w \<Longrightarrow> holds r w" and "\<And>w. P w \<Longrightarrow> successor A r r'"
  shows "act_spec (advance A) P (commit_record env e r') (\<lambda>x w. store_ok w)"
proof (cases "\<exists>w. P w")
  case True
  then have "successor A r r'" using assms(2) by blast
  from commit_spec [OF this, of env e] show ?thesis
    by (rule act_spec_weaken) (auto simp: assms(1) dest: holds_ok)
qed (simp add: act_spec_def)

lemma audit_keeps: "(\<And>w. P w \<Longrightarrow> store_ok w) \<Longrightarrow> act_spec (advance A) P (audit env e a d) (\<lambda>_. store_ok)"
  by (rule act_spec_weaken [OF audit_spec(2)])

lemma pending_op:
  assumes "\<And>r. act_spec (advance A) (\<lambda>w. holds r w \<and> is_pending_approval_status (ap_status r)
      \<and> record_key r = sanitize_id x) (f r) (\<lambda>_. store_ok)"
  shows "keeps_store A (with_lock x (act_bind (require_pending env x) f))"
proof (rule locked_spec, rule approvals.spec_bind [OF pending_spec])
  fix r show "act_spec (advance A) (\<lambda>w. holds r w \<and> record_key r = sanitize_id x
      \<and> is_pending_approval_status (ap_status r) \<and> env_now env < ap_expires_at r) (f r) (\<lambda>_. store_ok)"
    by (rule act_spec_weaken [OF assms]) auto
qed unfold_locales

lemma opened_op:
  assumes "\<And>r. act_spec (advance A) (holds r) (f r) (\<lambda>_. store_ok)"
  shows "keeps_store A (with_lock x (act_bind (get_mutable x) f))"
  by (rule open_spec) (rule act_spec_weaken [OF assms], auto)

lemma current_op:
  assumes "\<And>r. act_spec (advance A) (holds r) (f r) (\<lambda>_. store_ok)"
  shows "act_spec (advance A) (holds r0) (act_bind (expire_if_needed env r0) f) (\<lambda>_. store_ok)"
  by (rule approvals.spec_bind [OF expire_spec]) (rule act_spec_weaken [OF assms], auto)

lemma return_keeps: "(\<And>w. P w \<Longrightarrow> store_ok w) \<Longrightarrow> act_spec (advance A) P (act_return x) (\<lambda>_. store_ok)"
  by (rule approvals.spec_return)

lemma seq_keeps: "act_spec (advance A) P m (\<lambda>_. store_ok) \<Longrightarrow> (\<And>x. keeps_store A (f x)) \<Longrightarrow>
    act_spec (advance A) P (act_bind m f) (\<lambda>_. store_ok)"
  by (rule approvals.spec_bind)

lemmas op_rules = approvals.spec_if approvals.spec_throw return_keeps seq_keeps

lemma approve_keeps:
  assumes "is_admin actor \<Longrightarrow> sanitize_id x \<in> A"
  shows "keeps_store A (approve_operation env x actor reason token)"
  unfolding approve_operation_def
  by (intro pending_op op_rules commit_keeps) (auto intro!: approved_successor simp: assms)

lemma reject_keeps: "keeps_store A (reject_operation env x actor reason)"
  unfolding reject_operation_def
  by (intro pending_op op_rules commit_keeps) (auto intro: terminal_successor)

lemma cancel_keeps: "keeps_store A (cancel_operation env x actor reason)"
  unfolding cancel_operation_def
  by (intro pending_op op_rules commit_keeps) (auto intro: terminal_successor)

lemma notice_keeps: "keeps_store A (mark_agent_notice_delivered env x c)"
  unfolding mark_agent_notice_delivered_def
  by (intro pending_op op_rules commit_keeps) (auto intro: notice_successor)

lemma delivered_keeps: "keeps_store A (mark_decision_delivered env x event wake wake_session)"
  unfolding mark_decision_delivered_def
  by (intro opened_op op_rules commit_keeps) (auto intro: delivery_successor dest: holds_ok)

lemma delivery_failed_keeps: "keeps_store A (mark_decision_delivery_failed env x error)"
  unfolding mark_decision_delivery_failed_def
  by (intro opened_op op_rules commit_keeps) (auto intro: delivery_successor)

lemma reissue_keeps: "keeps_store A (reissue_execution_token env x actor token)"
  unfolding reissue_execution_token_def
  by (intro opened_op current_op op_rules commit_keeps) (auto intro: reissued_successor)

lemma each_audit_keeps: "keeps_store A (act_each (\<lambda>_. audit env e a d) xs)"
  by (induction xs) (auto intro!: op_rules audit_keeps)

lemma settle_keeps: "keeps_store A (execute_settle env x partial_failure evidence)"
  unfolding execute_settle_def
  by (intro opened_op op_rules commit_keeps each_audit_keeps) (auto intro: settled_successor)

lemma fail_keeps: "keeps_store A (execute_fail env x message)"
  unfolding execute_fail_def
  by (intro opened_op op_rules commit_keeps audit_keeps) (auto intro: failed_successor)

lemma finish_keeps: "keeps_store A (execute_finish env x outcome)"
proof (cases outcome)
  case (Executor_threw message)
  have "execute_finish env x outcome = execute_fail env x message"
    by (rule ext) (simp add: execute_finish_def Executor_threw)
  then show ?thesis by (simp add: fail_keeps)
next
  case (Executor_returned b evidence)
  show ?thesis
    unfolding act_spec_def
  proof (intro allI impI)
    fix w assume w: "store_ok w"
    obtain y w1 where st: "execute_settle env x b evidence w = (y, w1)" by (meson surj_pair)
    have adv: "advance A w w1" using act_specD(1) [OF settle_keeps w, of A env x b evidence] st by simp
    with w have w1: "store_ok w1" by (simp add: advance_def)
    have 2: "advance A w1 (snd (execute_fail env x m w1))" "store_ok (snd (execute_fail env x m w1))" for m
      using act_specD(1) [OF fail_keeps w1, of A env x m] w1 by (auto simp: advance_def)
    show "advance A w (snd (execute_finish env x outcome w))
      \<and> (\<forall>z. fst (execute_finish env x outcome w) = Inr z \<longrightarrow> store_ok (snd (execute_finish env x outcome w)))"
      using adv w1 2 by (cases y) (auto simp: execute_finish_def Executor_returned st intro: approvals.step_trans)
  qed
qed

lemma read_spec: "act_spec (advance A) store_ok (read_record x) (\<lambda>_. store_ok)"
  by (auto simp: act_spec_def read_record_same approvals.step_refl)

lemma migrate_record_keeps: "keeps_store A (migrate_record env name)"
  unfolding migrate_record_def
proof (rule approvals.spec_bind [OF read_spec])
  fix found
  show "keeps_store A (case found of None \<Rightarrow> act_return None
     | Some current \<Rightarrow>
         if ap_legacy current \<noteq> None \<or> (\<not> opaque_rule current \<and> \<not> executor_blocked current) then act_return None
         else with_lock name (
           act_bind (get_mutable name) (\<lambda>r.
           if ap_legacy r \<noteq> None then act_return (Some (clone_record r))
           else act_bind (commit_record env ''approval.legacy_record_revoked''
                  (revoked_record env (opaque_rule current) r)) (\<lambda>copy.
                act_return (Some copy)))))"
    by (cases found) (auto intro!: opened_op op_rules commit_keeps revoked_successor dest: holds_ok)
qed

lemma map_keeps: "(\<And>x. keeps_store A (f x)) \<Longrightarrow> keeps_store A (act_map f xs)"
  by (induction xs) (auto intro!: op_rules)

lemma migrate_keeps: "keeps_store A (migrate_legacy_records env)"
proof -
  have "keeps_store A (act_bind (act_map (migrate_record env) ns) (\<lambda>rs. act_return (present rs)))" for ns
    by (intro op_rules map_keeps migrate_record_keeps)
  then show ?thesis by (auto simp: act_spec_def migrate_legacy_records_def)
qed

lemma list_keeps: "keeps_store A (list_records env status limit)"
  by (rule act_spec_weaken [OF list_spec]) auto

lemma get_keeps: "keeps_store A (get_record env x)"
  unfolding get_record_def
proof (rule approvals.spec_bind [OF get_spec], rule approvals.spec_bind)
  fix r
  show "act_spec (advance A) (\<lambda>w. holds r w \<and> record_key r = sanitize_id x) (expire_if_needed env r) holds"
    by (rule act_spec_weaken [OF expire_spec]) auto
next
  fix r r1
  show "act_spec (advance A) (holds r1) (act_bind (recover_interrupted_if_needed env r1) (\<lambda>r2.
     act_bind (audit env ''approval.viewed'' (Some (ap_id r2)) (Some (ap_digest r2))) (\<lambda>_.
     act_return (clone_record r2)))) (\<lambda>_. store_ok)"
    by (rule approvals.spec_bind [OF recover_spec]) (intro op_rules audit_keeps, auto dest: holds_ok)
qed

text \<open>A new record is written only under a name that is free.\<close>

lemma create_keeps:
  assumes "record_ok r" and "sanitize_id (ap_id r) = ap_id r" and "ap_status r \<noteq> Approved"
  shows "keeps_store A (write_record r True)"
  unfolding act_spec_def
proof (intro allI impI)
  fix w assume w: "store_ok w"
  show "advance A w (snd (write_record r True w))
      \<and> (\<forall>x. fst (write_record r True w) = Inr x \<longrightarrow> store_ok (snd (write_record r True w)))"
  proof (cases "map_of (aw_records w) (ap_id r)")
    case (Some s)
    then show ?thesis by (simp add: write_record_def assms(2) approvals.step_refl)
  next
    case None
    let ?w = "w\<lparr>aw_records := AList.update (ap_id r) (Stored r) (aw_records w)\<rparr>"
    have names: "record_names ?w = record_names w @ [ap_id r]"
      using None by (induction "aw_records w" arbitrary: w)
        (auto simp: record_names_def map_of_eq_None_iff update_keys)
    have "store_ok ?w"
      using w assms None names
      by (auto simp: store_ok_def update_conv_if record_key_def record_names_def map_of_eq_None_iff)
    moreover have "spent w k \<Longrightarrow> spent ?w k" for k
      using None by (cases "k = ap_id r") (auto simp: spent_def)
    moreover have "is_approved ?w k \<Longrightarrow> is_approved w k" for k
      using None assms(3) by (cases "k = ap_id r") (auto simp: is_approved_def)
    ultimately show ?thesis
      using None by (simp add: write_record_def assms(2) advance_def)
  qed
qed

lemma new_record_ok:
  "record_ok (new_record env i fresh_id primary tags why)"
  "sanitize_id (ap_id (new_record env i fresh_id primary tags why)) = ap_id (new_record env i fresh_id primary tags why)"
  "ap_status (new_record env i fresh_id primary tags why) \<noteq> Approved"
  by (simp_all add: new_record_def Let_def record_ok_def)

lemma prepare_record_keeps: "keeps_store A (prepare_record env i fresh_id primary tags why)"
  unfolding prepare_record_def Let_def
  by (rule approvals.spec_bind [OF list_keeps])
     (auto split: option.split intro!: op_rules audit_keeps create_keeps new_record_ok)

lemma prepare_keeps: "keeps_store A (prepare_operation env i fresh_id)"
  unfolding prepare_operation_def Let_def
  by (auto split: classification.split intro!: op_rules audit_keeps prepare_record_keeps)

section \<open>Grants\<close>

lemma open_success:
  "get_mutable x w = (Inr r, w1) \<Longrightarrow> store_ok w \<Longrightarrow> w1 = w \<and> holds r w \<and> record_key r = sanitize_id x"
  by (auto simp: get_mutable_def read_record_def act_bind_def act_throw_def act_return_def
      holds_def store_ok_def split: option.splits stored_record.splits)

lemma expire_success:
  "expire_if_needed env r w = (Inr r', w') \<Longrightarrow>
   (r' = r \<and> w' = w \<and> \<not> needs_expiry env r) \<or> ap_status r' = Expired"
  by (auto simp: expire_if_needed_def act_return_def act_bind_def write_record_def audit_def
      expired_record_def split: if_splits)

lemma commit_success:
  "commit_record env e r w = (Inr y, w') \<Longrightarrow>
   y = clone_record r \<and> map_of (aw_records w') (record_key r) = Some (Stored r)"
  by (auto simp: commit_record_def act_bind_def act_return_def audit_def write_record_def record_key_def)

definition usable :: "approval_env \<Rightarrow> approval_record \<Rightarrow> bool" where
  "usable env r \<longleftrightarrow> ap_status r = Approved \<and> admin_approved r \<and> authorization_is r Auth_available
     \<and> env_now env < ap_expires_at r"

lemma usable_spendable: "usable env r \<Longrightarrow> spendable r"
  by (simp add: usable_def spendable_def)

lemma current_usable:
  assumes "store_ok w" and "get_mutable x w = (Inr r0, w0)" and "expire_if_needed env r0 w0 = (Inr r, w1)"
    and "ap_status r = Approved" and "authorization_is r Auth_available \<or> ap_token_hash r \<noteq> None"
  shows "w1 = w \<and> holds r w \<and> record_key r = sanitize_id x \<and> usable env r"
proof -
  have 0: "w0 = w \<and> holds r0 w \<and> record_key r0 = sanitize_id x"
    using open_success [OF assms(2,1)] .
  have 1: "r = r0 \<and> w1 = w0 \<and> \<not> needs_expiry env r0"
    using expire_success [OF assms(3)] assms(4) by auto
  have "record_ok r" using 0 1 holds_ok by blast
  with assms(4,5) 0 1 show ?thesis
    by (auto simp: usable_def needs_expiry_def record_ok_def)
qed

lemma consume_locked_grant:
  assumes w: "store_ok w" and run: "with_lock x (consume_locked env x c) w = (Inr (Some y), w')"
  shows "\<exists>r. holds r w \<and> record_key r = sanitize_id x \<and> usable env r \<and> binding_mismatches r c = []
     \<and> y = clone_record (consumed_record env c r)
     \<and> map_of (aw_records w') (record_key r) = Some (Stored (consumed_record env c r))"
proof -
  have "consume_locked env x c w = (Inr (Some y), w')"
    using run by (auto simp: with_lock_def split: if_splits)
  then obtain r0 w0 r w1 where o: "get_mutable x w = (Inr r0, w0)" "expire_if_needed env r0 w0 = (Inr r, w1)"
    and rest: "(if ap_status r \<noteq> Approved then act_return None
       else if authorization_is r Auth_consumed then act_throw Approval_already_consumed
       else if \<not> authorization_is r Auth_available then act_return None
       else if binding_mismatches r c \<noteq> [] then act_return None
       else act_bind (commit_record env ''approval.authorization_consumed'' (consumed_record env c r)) (\<lambda>copy.
            act_return (Some copy))) w1 = (Inr (Some y), w')"
    unfolding consume_locked_def by (auto elim!: act_bindE)
  from rest have g: "ap_status r = Approved" "authorization_is r Auth_available" "binding_mismatches r c = []"
    by (auto simp: act_return_def act_throw_def split: if_splits)
  have c: "commit_record env ''approval.authorization_consumed'' (consumed_record env c r) w1 = (Inr y, w')"
    using rest g by (auto simp: authorization_is_def act_return_def elim!: act_bindE)
  have "record_key (consumed_record env c r) = record_key r"
    by (simp add: record_key_def consumed_record_def)
  with current_usable [OF w o g(1)] commit_success [OF c] g show ?thesis by auto
qed

lemma execute_grant:
  assumes w: "store_ok w" and run: "execute_begin env x token q w = (Inr y, w')"
  shows "\<exists>r. holds r w \<and> record_key r = sanitize_id x \<and> usable env r
     \<and> ap_token_hash r = Some (env_hash env token) \<and> ap_digest r = compute_operation_digest env q
     \<and> y = clone_record (executing_record env r)
     \<and> map_of (aw_records w') (record_key r) = Some (Stored (executing_record env r))"
proof -
  obtain r0 w0 r w1 where o: "get_mutable x w = (Inr r0, w0)" "expire_if_needed env r0 w0 = (Inr r, w1)"
    and rest: "(if ap_status r \<noteq> Approved then
         act_throw (if ap_status r \<in> {Succeeded, Executing} then Approval_already_consumed
                    else Pre_approval_required (ap_status r))
       else if \<not> truthy (ap_token_hash r) \<or> Some (env_hash env token) \<noteq> ap_token_hash r then
         act_throw Approval_token_invalid
       else if compute_operation_digest env q \<noteq> ap_digest r then
         act_bind (commit_record env ''approval.stale''
           (r\<lparr>ap_status := Stale, ap_updated_at := env_now env, ap_token_hash := None\<rparr>)) (\<lambda>_.
         act_throw Approval_stale)
       else commit_record env ''operation.execution_started'' (executing_record env r)) w1 = (Inr y, w')"
    using run unfolding execute_begin_def with_lock_def by (auto elim!: act_bindE split: if_splits)
  from rest have g: "ap_status r = Approved" "ap_token_hash r = Some (env_hash env token)"
      "ap_digest r = compute_operation_digest env q"
    and c: "commit_record env ''operation.execution_started'' (executing_record env r) w1 = (Inr y, w')"
    by (auto simp: act_throw_def elim!: act_bindE split: if_splits)
  have "record_key (executing_record env r) = record_key r"
    by (simp add: record_key_def executing_record_def)
  with current_usable [OF w o g(1)] commit_success [OF c] g show ?thesis by auto
qed

lemma consume_locked_keeps: "keeps_store A (with_lock x (consume_locked env x c))"
  unfolding consume_locked_def
  by (intro opened_op current_op op_rules commit_keeps) (auto intro: consumed_successor dest: holds_ok)

lemma consume_keeps: "keeps_store A (consume_approved_authorization env q c)"
  unfolding consume_approved_authorization_def
  by (rule approvals.spec_bind [OF list_keeps])
     (auto split: option.split intro: return_keeps consume_locked_keeps)

lemma execute_begin_keeps: "keeps_store A (execute_begin env x token q)"
  unfolding execute_begin_def
  by (intro opened_op current_op op_rules commit_keeps)
     (auto intro: stale_successor executing_successor)

lemma keeps_advance: "keeps_store A m \<Longrightarrow> store_ok w \<Longrightarrow> advance A w (snd (m w))"
  by (rule act_specD(1))

lemmas all_keeps = prepare_keeps list_keeps get_keeps migrate_keeps notice_keeps reissue_keeps
  reject_keeps cancel_keeps consume_keeps delivered_keeps delivery_failed_keeps execute_begin_keeps finish_keeps

text \<open>The only call that makes a record approved is \<open>approve\<close> by an ADMIN.\<close>

fun approves :: "approval_call \<Rightarrow> string set" where
  "approves (Call_approve x actor reason token) = (if is_admin actor then {sanitize_id x} else {})"
| "approves _ = {}"

lemma step_advance:
  assumes "store_ok w"
  shows "advance (approves c) w (snd (approval_step env c w))"
  using assms
  by (cases c) (simp_all add: no_grant_def snd_map_prod keeps_advance [OF _ assms] all_keeps approve_keeps)

lemma consume_grant:
  assumes w: "store_ok w" and run: "consume_approved_authorization env q c w = (Inr (Some y), w')"
  shows "\<exists>r w1. advance A w w1 \<and> holds r w1 \<and> usable env r \<and> ap_digest r = compute_operation_digest env q
     \<and> binding_mismatches r c = [] \<and> y = clone_record (consumed_record env c r)
     \<and> map_of (aw_records w') (record_key r) = Some (Stored (consumed_record env c r))"
proof -
  obtain rows w1 where l: "list_records env None (Some 1000) w = (Inr rows, w1)"
    and rest: "(case List.find (\<lambda>row. ap_project_id row = ac_project_id c
            \<and> ap_digest row = compute_operation_digest env q
            \<and> ap_fingerprint row = Some (ac_fingerprint c) \<and> ap_status row = Approved) rows of
       None \<Rightarrow> act_return None
     | Some candidate \<Rightarrow> with_lock (ap_id candidate) (consume_locked env (ap_id candidate) c)) w1 = (Inr (Some y), w')"
    using run unfolding consume_approved_authorization_def by (auto elim!: act_bindE)
  have post: "store_ok w1 \<and> (\<forall>row \<in> set rows. \<exists>r. holds r w1 \<and> row = clone_record r)"
    by (rule act_specD(2) [OF list_spec w l])
  have adv: "advance A w w1" using act_specD(1) [OF list_spec w, of A env None "Some 1000"] l by simp
  from rest obtain row where row: "row \<in> set rows" "ap_digest row = compute_operation_digest env q"
    and lk: "with_lock (ap_id row) (consume_locked env (ap_id row) c) w1 = (Inr (Some y), w')"
    by (auto simp: act_return_def split: option.splits dest!: find_SomeD)
  from consume_locked_grant [OF _ lk] post obtain r where r: "holds r w1" "record_key r = sanitize_id (ap_id row)"
    "usable env r" "binding_mismatches r c = []" "y = clone_record (consumed_record env c r)"
    "map_of (aw_records w') (record_key r) = Some (Stored (consumed_record env c r))"
    by blast
  from post row(1) obtain r' where r': "holds r' w1" "row = clone_record r'" by blast
  then have "record_key r' = record_key r" using r(2) by (simp add: record_key_def)
  with r'(1) r(1) have "r' = r" by (simp add: holds_def)
  with row(2) r'(2) have "ap_digest r = compute_operation_digest env q" by simp
  with adv r show ?thesis by blast
qed

text \<open>The request a call asks to run.\<close>

fun call_request :: "approval_call \<Rightarrow> capability_request option" where
  "call_request (Call_consume q c) = Some q"
| "call_request (Call_execute x token q) = Some q"
| "call_request _ = None"

lemma map_sum_Inr: "map_sum id Some x = Inr (Some y) \<Longrightarrow> (x = Inr y \<Longrightarrow> thesis) \<Longrightarrow> thesis"
  by (cases x) auto

lemma step_grant:
  assumes w: "store_ok w" and g: "approval_step env c w = (Some y, w')"
  shows "\<exists>r. usable env r \<and> record_key y = record_key r \<and> \<not> spent w (record_key r) \<and> spent w' (record_key r)
     \<and> is_approved w (record_key r)
     \<and> (\<exists>q. call_request c = Some q \<and> ap_digest y = compute_operation_digest env q)
     \<and> ap_expires_at y = ap_expires_at r \<and> ap_decision y = ap_decision r"
proof -
  have fresh: "\<not> spent w (record_key r)" if "advance {} w w1" "holds r w1" "usable env r" for r w1
    using that w usable_spendable by (auto simp: advance_def spent_def holds_def)
  have before: "is_approved w (record_key r)" if "advance {} w w1" "holds r w1" "usable env r" for r w1
    using that w by (auto simp: advance_def is_approved_def holds_def usable_def)
  consider q x where "c = Call_consume q x" "consume_approved_authorization env q x w = (Inr (Some y), w')"
    | x token q where "c = Call_execute x token q" "execute_begin env x token q w = (Inr y, w')"
    using g
    by (cases c) (auto simp: no_grant_def granted_def map_prod_def map_sum.simps
        split: sum.splits prod.splits option.splits elim!: map_sum_Inr)
  then show ?thesis
  proof cases
    case (1 q x)
    from consume_grant [OF w 1(2)] obtain r w1 where r: "advance {} w w1" "holds r w1" "usable env r"
      "ap_digest r = compute_operation_digest env q" "y = clone_record (consumed_record env x r)"
      "map_of (aw_records w') (record_key r) = Some (Stored (consumed_record env x r))"
      by blast
    have "\<not> spendable (consumed_record env x r)"
      using r(3) by (simp add: spec_simps consumed_record_def usable_def)
    with r fresh [OF r(1-3)] before [OF r(1-3)] 1(1) show ?thesis
      by (intro exI [of _ r]) (simp add: spent_def record_key_def, simp add: consumed_record_def)
  next
    case (2 x token q)
    from execute_grant [OF w 2(2)] obtain r where r: "holds r w" "usable env r"
      "ap_digest r = compute_operation_digest env q" "y = clone_record (executing_record env r)"
      "map_of (aw_records w') (record_key r) = Some (Stored (executing_record env r))"
      by blast
    have "\<not> spendable (executing_record env r)"
      by (simp add: spec_simps executing_record_def)
    with r fresh [OF approvals.step_refl r(1,2)] before [OF approvals.step_refl r(1,2)] 2(1) show ?thesis
      by (intro exI [of _ r]) (simp add: spent_def record_key_def, simp add: executing_record_def)
  qed
qed

lemma empty_store_ok: "store_ok (empty_store locks)"
  by (simp add: store_ok_def empty_store_def record_names_def)

lemma run_store_ok: "store_ok w \<Longrightarrow> store_ok (snd (run_approvals cs w))"
proof (induction cs arbitrary: w)
  case (Cons x cs)
  obtain env c where x: "x = (env, c)" by (meson surj_pair)
  have "store_ok (snd (approval_step env c w))"
    using step_advance [OF Cons.prems, of c env] Cons.prems by (simp add: advance_def)
  from Cons.IH [OF this] show ?case by (simp add: x split_beta Let_def)
qed simp

lemma run_approved:
  assumes "store_ok w" and "is_approved (snd (run_approvals cs w)) k"
  shows "is_approved w k \<or> (\<exists>(env, c) \<in> set cs. k \<in> approves c)"
  using assms
proof (induction cs arbitrary: w)
  case (Cons x cs)
  obtain env c where x: "x = (env, c)" by (meson surj_pair)
  let ?w = "snd (approval_step env c w)"
  have adv: "advance (approves c) w ?w" by (rule step_advance [OF Cons.prems(1)])
  then have ok: "store_ok ?w" and new: "is_approved ?w k \<Longrightarrow> is_approved w k \<or> k \<in> approves c"
    using Cons.prems(1) by (auto simp: advance_def)
  have "is_approved (snd (run_approvals cs ?w)) k"
    using Cons.prems(2) by (simp add: x split_beta Let_def)
  from Cons.IH [OF ok this] new show ?case by (auto simp: x)
qed simp

lemma run_grants_fresh:
  assumes "store_ok w"
  shows "count_list (map record_key (fst (run_approvals cs w))) k \<le> (if spent w k then 0 else 1)"
  using assms
proof (induction cs arbitrary: w)
  case (Cons x cs)
  obtain env c where x: "x = (env, c)" by (meson surj_pair)
  obtain g w1 where st: "approval_step env c w = (g, w1)" by (meson surj_pair)
  have adv: "advance (approves c) w w1" using step_advance [OF Cons.prems, of c env] st by simp
  then have ok: "store_ok w1" and mono: "spent w k \<Longrightarrow> spent w1 k"
    using Cons.prems by (auto simp: advance_def)
  have IH: "count_list (map record_key (fst (run_approvals cs w1))) k \<le> (if spent w1 k then 0 else 1)"
    by (rule Cons.IH [OF ok])
  show ?case
  proof (cases g)
    case None
    then have "fst (run_approvals (x # cs) w) = fst (run_approvals cs w1)"
      by (simp add: x st split: prod.split)
    with IH mono show ?thesis by (cases "spent w k"; cases "spent w1 k") auto
  next
    case (Some y)
    then have run: "fst (run_approvals (x # cs) w) = y # fst (run_approvals cs w1)"
      by (simp add: x st split: prod.split)
    from step_grant [OF Cons.prems] st Some
    have y: "\<not> spent w (record_key y) \<and> spent w1 (record_key y)" by metis
    show ?thesis
    proof (cases "record_key y = k")
      case True
      with y IH run show ?thesis by simp
    next
      case False
      with IH run mono show ?thesis by (cases "spent w k"; cases "spent w1 k") auto
    qed
  qed
qed simp

section \<open>Properties\<close>

text \<open>
  C4. An authorization is used at most once. Over any sequence of calls of the service, each at its
  own time and from its own process, starting from an empty store and whatever stale locks, at most
  one call is granted the use of the record with a given key: neither a second
  \<open>consumeApprovedAuthorization\<close>, nor an \<open>execute\<close> after it, nor a replayed token gets through.
\<close>

theorem authorization_used_once:
  "count_list (map record_key (fst (run_approvals calls (empty_store locks)))) k \<le> 1"
  using run_grants_fresh [OF empty_store_ok, of calls locks k] by (simp split: if_splits)

text \<open>
  C7. What a granted use rests on. When a call is granted the use of an authorization after any
  history of the service, ADMIN has called \<open>approve\<close> on that record earlier in the history, the
  record carries that decision and has not expired at this moment, and the digest that was approved
  is the digest of the request the call brings now.
\<close>

theorem grant_rests_on_approval:
  assumes "approval_step env c (snd (run_approvals calls (empty_store locks))) = (Some r, w')"
  shows "(\<exists>env0 x actor reason token. (env0, Call_approve x actor reason token) \<in> set calls
        \<and> sanitize_id x = record_key r \<and> is_admin actor)
    \<and> admin_approved r \<and> env_now env < ap_expires_at r
    \<and> (\<exists>q. call_request c = Some q \<and> ap_digest r = compute_operation_digest env q)"
proof -
  let ?w = "snd (run_approvals calls (empty_store locks))"
  have "store_ok ?w" by (rule run_store_ok [OF empty_store_ok])
  from step_grant [OF this assms] have now: "is_approved ?w (record_key r)"
    and rest: "admin_approved r \<and> env_now env < ap_expires_at r
      \<and> (\<exists>q. call_request c = Some q \<and> ap_digest r = compute_operation_digest env q)"
    by (auto simp: usable_def admin_approved_def)
  from run_approved [OF empty_store_ok now] obtain env0 c0
    where c0: "(env0, c0) \<in> set calls" "record_key r \<in> approves c0"
    by (auto simp: is_approved_def empty_store_def)
  then have "\<exists>x actor reason token. c0 = Call_approve x actor reason token \<and> sanitize_id x = record_key r \<and> is_admin actor"
    by (cases c0) (auto split: if_splits)
  with c0(1) rest show ?thesis by blast
qed

lemma prepare_allowed:
  "(\<exists>d why. fst (prepare_operation env i fresh_id w) = Inr (Prepare_allow d why))
   \<longleftrightarrow> \<not> (requires_approval (classify_prepare i) \<and> cr_initiated_by (pi_request i) = By_agent \<and> missing_routing i \<noteq> [])
       \<and> (trusted_confirmation env (pi_request i) \<or> \<not> requires_approval (classify_prepare i))"
proof -
  have no: "fst (prepare_record env i fresh_id p t y v) \<noteq> Inr (Prepare_allow d why)" for p t y v d why
    by (auto simp: prepare_record_def Let_def act_bind_def audit_def act_return_def act_throw_def
        split: prod.splits sum.splits option.splits if_splits)
  have audit: "act_bind (audit env e a d) f v = f () (snd (audit env e a d v))" for e a d v
    and f :: "unit \<Rightarrow> prepare_result ap"
    by (simp add: act_bind_def audit_def)
  show ?thesis
    by (simp add: prepare_operation_def Let_def audit no act_throw_def act_return_def
        requires_approval_def split: classification.split)
qed

text \<open>
  When \<open>prepare\<close> lets an operation run without a record: if its classification, in which the
  negative rules verified from the facts win over the declared effects, needs approval, exactly on a
  trusted UI confirmation that verifies for the digest of this very request; otherwise always.
  Incomplete routing can only block requests of agents, which have no such confirmation.
\<close>

theorem prepare_allows_iff:
  "(\<exists>d why. fst (prepare_operation env i fresh_id w) = Inr (Prepare_allow d why))
   \<longleftrightarrow> (if requires_approval (classify_prepare i) then trusted_confirmation env (pi_request i) else True)"
  using prepare_allowed [of env i fresh_id w] by (auto simp: trusted_confirmation_def Let_def)

text \<open>A concrete service: an agent's request, its preparation, and the clock at three moments.\<close>

definition sample_env :: "time \<Rightarrow> approval_env" where
  "sample_env t = \<lparr>env_root = ''/work/p'', env_now = t, env_pid = 7, env_alive = (\<lambda>_. True),
     env_hash = (\<lambda>s. CHR ''h'' # s), env_json = (\<lambda>r. cr_operation r @ concat (cr_targets r)), env_verify = None\<rparr>"

definition sample_request :: capability_request where
  "sample_request = \<lparr>cr_actor = ''DEV-01'', cr_role = ''DEV'', cr_project_id = ''p'',
     cr_agent_id = Some ''DEV-01'', cr_session_id = Some ''s1'', cr_task_id = Some ''T-1'',
     cr_capability = ''files'', cr_operation = ''delete'', cr_executor = ''agent_retry'',
     cr_resource_type = ''file'', cr_targets = [''a.ts''], cr_scope = [], cr_workspace = ''/work/p'',
     cr_environment = ''local'', cr_initiated_by = By_agent, cr_authorization_source = Source_none,
     cr_confirmation_id = None, cr_effect = no_effects\<lparr>ef_destructive := True\<rparr>, cr_snapshot = []\<rparr>"

definition sample_input :: prepare_input where
  "sample_input = \<lparr>pi_request = sample_request, pi_reason = ''cleanup'', pi_effects = [], pi_non_effects = [],
     pi_recovery = ''git'', pi_expires_in = None, pi_comment_required = None, pi_rule_ids = None,
     pi_facts = None, pi_fingerprint = Some ''fp'', pi_thread_key = Some ''th'', pi_missing_information = None,
     pi_executor_status = None, pi_suggested_executor = None, pi_decision_mode = None\<rparr>"

definition sample_context :: authorization_context where
  "sample_context = \<lparr>ac_project_id = ''p'', ac_fingerprint = ''fp'', ac_agent_id = ''DEV-01'',
     ac_session_id = ''s2'', ac_task_id = ''T-1'', ac_thread_key = ''th'', ac_role = ''dev''\<rparr>"

definition sample_calls :: "(approval_env \<times> approval_call) list" where
  "sample_calls = [(sample_env 0, Call_prepare sample_input ''A-1''),
     (sample_env 1000, Call_approve ''A-1'' ''admin'' ''ok'' ''secret'')]"

lemmas sample_defs = sample_env_def sample_request_def sample_input_def sample_context_def sample_calls_def

theorem grant_rests_on_approval_witness:
  "\<exists>r w'. approval_step (sample_env 2000) (Call_consume sample_request sample_context)
       (snd (run_approvals sample_calls (empty_store []))) = (Some r, w')
     \<and> admin_approved r \<and> env_now (sample_env 2000) < ap_expires_at r"
proof -
  have "\<exists>r w'. approval_step (sample_env 2000) (Call_consume sample_request sample_context)
       (snd (run_approvals sample_calls (empty_store []))) = (Some r, w')"
  proof -
    have "fst (approval_step (sample_env 2000) (Call_consume sample_request sample_context)
       (snd (run_approvals sample_calls (empty_store [])))) \<noteq> None"
      by code_simp
    then show ?thesis by (metis not_None_eq prod.collapse)
  qed
  then obtain r w' where "approval_step (sample_env 2000) (Call_consume sample_request sample_context)
       (snd (run_approvals sample_calls (empty_store []))) = (Some r, w')" by blast
  with grant_rests_on_approval [OF this] show ?thesis by blast
qed

text \<open>
  C17. A changed request cannot use an approval. When \<open>execute\<close> is called with the right token and
  an unexpired approval but a request with another digest, it fails with \<open>APPROVAL_STALE\<close>, the
  record becomes \<open>stale\<close> and loses its token, and no later call of any kind is granted its use.
\<close>

theorem changed_request_goes_stale:
  assumes w: "w = snd (run_approvals before (empty_store locks))"
    and stored: "map_of (aw_records w) (sanitize_id x) = Some (Stored r)"
    and approved: "ap_status r = Approved" "env_now env < ap_expires_at r"
    and token: "ap_token_hash r = Some (env_hash env token)" "env_hash env token \<noteq> []"
    and free: "sanitize_id x \<notin> set (aw_locks w)"
    and changed: "compute_operation_digest env q \<noteq> ap_digest r"
  shows "\<exists>w' r'. execute_begin env x token q w = (Inl Approval_stale, w')
    \<and> map_of (aw_records w') (sanitize_id x) = Some (Stored r') \<and> ap_status r' = Stale \<and> ap_token_hash r' = None
    \<and> sanitize_id x \<notin> set (map record_key (fst (run_approvals later w')))"
proof -
  let ?r = "r\<lparr>ap_status := Stale, ap_updated_at := env_now env, ap_token_hash := None\<rparr>"
  let ?w = "snd (execute_begin env x token q w)"
  have ok: "store_ok w" by (simp add: w run_store_ok [OF empty_store_ok])
  then have key: "sanitize_id (ap_id r) = sanitize_id x"
    using stored by (auto simp: store_ok_def record_key_def)
  have run: "execute_begin env x token q w = (Inl Approval_stale, ?w)"
    and at: "map_of (aw_records ?w) (sanitize_id x) = Some (Stored ?r)"
    using stored approved token free changed key
    by (simp_all add: execute_begin_def with_lock_def get_mutable_def read_record_def act_bind_def
        act_return_def act_throw_def expire_if_needed_def needs_expiry_def commit_record_def
        write_record_def audit_def is_pending_approval_status_def)
  have "store_ok ?w"
    using act_specD(1) [OF execute_begin_keeps ok, of "{}" env x token q] ok by (simp add: advance_def)
  moreover have "spent ?w (sanitize_id x)"
    by (simp add: spent_def at spendable_def is_pending_approval_status_def)
  ultimately have "count_list (map record_key (fst (run_approvals later ?w))) (sanitize_id x) = 0"
    using run_grants_fresh [of ?w later "sanitize_id x"] by simp
  then have "sanitize_id x \<notin> set (map record_key (fst (run_approvals later ?w)))"
    by (simp only: count_list_0_iff not_False_eq_True simp_thms)
  with run at show ?thesis by (intro exI [of _ ?w] exI [of _ ?r]) simp
qed

theorem changed_request_goes_stale_witness:
  "\<exists>w'. execute_begin (sample_env 2000) ''A-1'' ''secret'' (sample_request\<lparr>cr_targets := [''b.ts'']\<rparr>)
     (snd (run_approvals sample_calls (empty_store []))) = (Inl Approval_stale, w')"
proof -
  let ?w = "snd (run_approvals sample_calls (empty_store []))"
  have "\<exists>r. map_of (aw_records ?w) (sanitize_id ''A-1'') = Some (Stored r) \<and> ap_status r = Approved
    \<and> env_now (sample_env 2000) < ap_expires_at r \<and> ap_token_hash r = Some (env_hash (sample_env 2000) ''secret'')
    \<and> compute_operation_digest (sample_env 2000) (sample_request\<lparr>cr_targets := [''b.ts'']\<rparr>) \<noteq> ap_digest r"
  proof -
    have "(case map_of (aw_records ?w) (sanitize_id ''A-1'') of Some (Stored r) \<Rightarrow> ap_status r = Approved
        \<and> env_now (sample_env 2000) < ap_expires_at r \<and> ap_token_hash r = Some (env_hash (sample_env 2000) ''secret'')
        \<and> compute_operation_digest (sample_env 2000) (sample_request\<lparr>cr_targets := [''b.ts'']\<rparr>) \<noteq> ap_digest r
      | _ \<Rightarrow> False)"
      by code_simp
    then show ?thesis by (auto split: option.splits stored_record.splits)
  qed
  then obtain r where r: "map_of (aw_records ?w) (sanitize_id ''A-1'') = Some (Stored r)" "ap_status r = Approved"
    "env_now (sample_env 2000) < ap_expires_at r" "ap_token_hash r = Some (env_hash (sample_env 2000) ''secret'')"
    "compute_operation_digest (sample_env 2000) (sample_request\<lparr>cr_targets := [''b.ts'']\<rparr>) \<noteq> ap_digest r"
    by blast
  have free: "sanitize_id ''A-1'' \<notin> set (aw_locks ?w)" and hash: "env_hash (sample_env 2000) ''secret'' \<noteq> []"
    by code_simp+
  from changed_request_goes_stale [OF refl r(1-4) hash free r(5), of "[]"] show ?thesis by blast
qed

text \<open>
  Expiry erases a use. A record whose authorization was consumed keeps the status \<open>approved\<close>;
  once its expiry time has passed, reading it rewrites it as expired \<open>before authorization was
  consumed\<close>, with no trace of when and by whom the authorization was consumed.
\<close>

theorem expiry_erases_consumption:
  assumes "map_of (aw_records w) (sanitize_id x) = Some (Stored r)"
    and "ap_status r = Approved" and "authorization_is r Auth_consumed" and "ap_expires_at r \<le> env_now env"
    and "sanitize_id (ap_id r) = sanitize_id x"
  shows "\<exists>r' w'. get_record env x w = (Inr r', w') \<and> ap_status r' = Expired
    \<and> map_option de_reason (ap_decision r') = Some ''approval expired before authorization was consumed''
    \<and> authorization_is r' Auth_invalid
    \<and> Option.bind (ap_authorization r') au_consumed_at = None \<and> Option.bind (ap_authorization r') au_consumed_by = None
    \<and> map_of (aw_records w') (sanitize_id x) = Some (Stored r')"
  using assms
  by (simp add: get_record_def get_mutable_def read_record_def act_bind_def act_return_def expire_if_needed_def
      needs_expiry_def write_record_def audit_def recover_interrupted_if_needed_def needs_recovery_def
      expired_record_def clone_record_def authorization_is_def)

theorem expiry_erases_consumption_witness:
  "\<exists>r' w'. get_record (sample_env 2000000) ''A-1''
     (snd (run_approvals (sample_calls @ [(sample_env 2000, Call_consume sample_request sample_context)]) (empty_store [])))
     = (Inr r', w') \<and> ap_status r' = Expired"
proof -
  let ?w = "snd (run_approvals (sample_calls @ [(sample_env 2000, Call_consume sample_request sample_context)]) (empty_store []))"
  have "(case map_of (aw_records ?w) (sanitize_id ''A-1'') of Some (Stored r) \<Rightarrow> ap_status r = Approved
      \<and> authorization_is r Auth_consumed \<and> ap_expires_at r \<le> env_now (sample_env 2000000)
      \<and> sanitize_id (ap_id r) = sanitize_id ''A-1'' | _ \<Rightarrow> False)"
    by code_simp
  then obtain r where r: "map_of (aw_records ?w) (sanitize_id ''A-1'') = Some (Stored r)" "ap_status r = Approved"
    "authorization_is r Auth_consumed" "ap_expires_at r \<le> env_now (sample_env 2000000)"
    "sanitize_id (ap_id r) = sanitize_id ''A-1''"
    by (auto split: option.splits stored_record.splits)
  from expiry_erases_consumption [OF r] show ?thesis by blast
qed

text \<open>
  A negative match is never waved through. The request that the policy builds for an operation
  with negative matches is refused by \<open>prepare\<close> for incomplete routing, or leads to a record, an
  existing or a new one, or fails; it is not allowed, whatever the verifier of UI confirmations says.
\<close>

theorem negative_match_never_allowed:
  assumes "unified_policy f = Policy_require_approval rules"
  shows "fst (prepare_operation env (generic_approval_input texts input f rules) fresh_id w) \<noteq> Inr (Prepare_allow d why)"
proof -
  let ?i = "generic_approval_input texts input f rules"
  have "evaluate_negative_predicates f \<noteq> []"
    using assms by (auto simp: unified_policy_def Let_def split: if_splits)
  then have "verified_rules ?i \<noteq> []"
    by (simp add: verified_rules_def generic_approval_input_def matched_rules_def)
  then have "requires_approval (classify_prepare ?i)"
    by (simp add: classify_prepare_def requires_approval_def Let_def)
  moreover have "\<not> trusted_confirmation env (pi_request ?i)"
    by (simp add: trusted_confirmation_def generic_approval_input_def)
  ultimately have "\<not> (\<exists>d why. fst (prepare_operation env ?i fresh_id w) = Inr (Prepare_allow d why))"
    using prepare_allowed [of env ?i fresh_id w] by blast
  then show ?thesis by blast
qed

definition sample_push :: operation_facts where
  "sample_push = sample_facts\<lparr>of_tool_id := ''git_push'', of_kind := Kind_remote_git, of_external := True\<rparr>"

theorem negative_match_never_allowed_witness:
  "unified_policy sample_push = Policy_require_approval [Remote_git_write]
   \<and> fst (prepare_operation (sample_env 0)
        (generic_approval_input \<lparr>pt_reason = (\<lambda>_. []), pt_scope = (\<lambda>_. []), pt_snapshot = (\<lambda>_. []), pt_fingerprint = (\<lambda>_. [])\<rparr>
           \<lparr>pn_project_id = ''p'', pn_agent_id = ''DEV-01'', pn_session_id = None\<rparr> sample_push [Remote_git_write])
        ''A-1'' (empty_store [])) \<noteq> Inr (Prepare_allow [] [])"
proof -
  have p: "unified_policy sample_push = Policy_require_approval [Remote_git_write]"
    by code_simp
  from negative_match_never_allowed [OF p] p show ?thesis by blast
qed

end
