(* ===== verification/Dispatch_Store.thy ===== *)
theory Dispatch_Store
  imports Js_Prelude
begin

text \<open>
  The dispatch attempts of a task and the execution leases on it
  (\<^verbatim>\<open>scheduler/DispatchAttemptStore.ts\<close>). The state is the content of
  \<^verbatim>\<open>dispatch-state.json\<close>; every operation reads it, changes it and writes it back under a
  process-wide mutex, so an operation is one function on the state, with the clock and the random
  id as arguments. The store as a lock table is specified by the locale \<open>lock_table\<close>.
\<close>

section \<open>State (\<^verbatim>\<open>DispatchAttempt\<close>, \<^verbatim>\<open>ExecutionLease\<close>, \<^verbatim>\<open>TaskExecutionDecision\<close>)\<close>

datatype attempt_status =
  At_created | At_offered | At_claimed | At_running | At_reported | At_settled
| At_rejected | At_expired | At_stale | At_session_failed | At_superseded

datatype attempt_mode = Mode_initial | Mode_retry | Mode_repair_retry | Mode_restart_session
| Mode_reassign | Mode_agent_claim

record dispatch_attempt =
  at_id :: string
  at_task_id :: string
  at_task_path :: string
  at_content_hash :: "string option"
  at_thread_key :: "string option"
  at_parent_task_id :: "string option"
  at_target_role :: string
  at_target_agent_id :: "string option"
  at_source :: string
  at_mode :: attempt_mode
  at_status :: attempt_status
  at_created :: time
  at_updated :: time
  at_claimed_at :: "time option"
  at_running_at :: "time option"
  at_ended_at :: "time option"
  at_session_id :: "string option"
  at_lease_id :: "string option"
  at_reason :: "string option"
  at_idempotency_key :: "string option"

record execution_lease =
  el_id :: string
  el_task_id :: string
  el_attempt_id :: string
  el_agent_id :: string
  el_session_id :: string
  el_acquired :: time
  el_expires :: time
  el_released :: "time option"
  el_release_reason :: "string option"

datatype decision_value = Decision_allow | Decision_wait | Decision_reject | Decision_needs_pm

record execution_decision =
  ed_id :: string
  ed_operation_id :: string
  ed_task_id :: string
  ed_input_digest :: string
  ed_decision :: decision_value
  ed_reason :: string
  ed_source :: string
  ed_created :: time

record dispatch_state =
  ds_attempts :: "dispatch_attempt list"
  ds_leases :: "execution_lease list"
  ds_decisions :: "execution_decision list"

definition empty_dispatch_state :: dispatch_state where
  "empty_dispatch_state = \<lparr>ds_attempts = [], ds_leases = [], ds_decisions = []\<rparr>"

fun attempt_status_name :: "attempt_status \<Rightarrow> string" where
  "attempt_status_name At_created = ''created''"
| "attempt_status_name At_offered = ''offered''"
| "attempt_status_name At_claimed = ''claimed''"
| "attempt_status_name At_running = ''running''"
| "attempt_status_name At_reported = ''reported''"
| "attempt_status_name At_settled = ''settled''"
| "attempt_status_name At_rejected = ''rejected''"
| "attempt_status_name At_expired = ''expired''"
| "attempt_status_name At_stale = ''stale''"
| "attempt_status_name At_session_failed = ''session_failed''"
| "attempt_status_name At_superseded = ''superseded''"

definition terminal_attempt :: "attempt_status \<Rightarrow> bool" where
  "terminal_attempt s \<longleftrightarrow>
     s \<in> {At_settled, At_rejected, At_expired, At_stale, At_session_failed, At_superseded}"

definition dispatch_task_key :: "string \<Rightarrow> string" where
  "dispatch_task_key t = (let n = js_upper (js_trim (strip_md t)) in or_else (task_id_prefix n) n)"

definition unreleased :: "execution_lease \<Rightarrow> bool" where
  "unreleased l \<longleftrightarrow> el_released l = None"

definition lease_key :: "execution_lease \<Rightarrow> string" where
  "lease_key l = dispatch_task_key (el_task_id l)"

section \<open>Operations\<close>

definition get_task_state :: "time \<Rightarrow> string \<Rightarrow> dispatch_state \<Rightarrow> dispatch_attempt list \<times> execution_lease option" where
  "get_task_state now task_id s =
     (filter (\<lambda>a. dispatch_task_key (at_task_id a) = dispatch_task_key task_id) (ds_attempts s),
      List.find (\<lambda>l. lease_key l = dispatch_task_key task_id \<and> unreleased l \<and> now < el_expires l) (ds_leases s))"

record decision_input =
  din_operation_id :: string
  din_task_id :: string
  din_input_digest :: string
  din_decision :: decision_value
  din_reason :: string
  din_source :: string

datatype dispatch_error = State_decision_conflict execution_decision

definition record_decision ::
  "time \<Rightarrow> string \<Rightarrow> decision_input \<Rightarrow> dispatch_state \<Rightarrow> (dispatch_error + execution_decision) \<times> dispatch_state" where
  "record_decision now uuid i s =
     (case List.find (\<lambda>d. ed_operation_id d = din_operation_id i
             \<and> dispatch_task_key (ed_task_id d) = dispatch_task_key (din_task_id i)
             \<and> ed_input_digest d = din_input_digest i) (ds_decisions s) of
        Some d \<Rightarrow>
          if ed_decision d \<noteq> din_decision i \<or> ed_reason d \<noteq> din_reason i
          then (Inl (State_decision_conflict d), s) else (Inr d, s)
      | None \<Rightarrow>
          let d = \<lparr>ed_id = ''decision-'' @ uuid, ed_operation_id = din_operation_id i, ed_task_id = din_task_id i,
                   ed_input_digest = din_input_digest i, ed_decision = din_decision i, ed_reason = din_reason i,
                   ed_source = din_source i, ed_created = now\<rparr>;
              all = ds_decisions s @ [d] in
          (Inr d, s\<lparr>ds_decisions := drop (length all - 2000) all\<rparr>))"

record offer_input =
  oi_task_id :: string
  oi_task_path :: string
  oi_content_hash :: "string option"
  oi_thread_key :: "string option"
  oi_parent_task_id :: "string option"
  oi_target_role :: string
  oi_target_agent_id :: "string option"
  oi_source :: string
  oi_mode :: attempt_mode
  oi_idempotency_key :: "string option"

definition offer_attempt ::
  "time \<Rightarrow> string \<Rightarrow> offer_input \<Rightarrow> dispatch_state \<Rightarrow> (dispatch_attempt \<times> bool) \<times> dispatch_state" where
  "offer_attempt now uuid i s =
     (let existing = (if truthy (oi_idempotency_key i)
            then List.find (\<lambda>a. at_idempotency_key a = oi_idempotency_key i) (ds_attempts s) else None) in
      case existing of
        Some a \<Rightarrow> ((a, True), s)
      | None \<Rightarrow>
          let a = \<lparr>at_id = ''attempt-'' @ uuid, at_task_id = oi_task_id i, at_task_path = oi_task_path i,
                   at_content_hash = oi_content_hash i, at_thread_key = oi_thread_key i,
                   at_parent_task_id = oi_parent_task_id i, at_target_role = oi_target_role i,
                   at_target_agent_id = oi_target_agent_id i, at_source = oi_source i, at_mode = oi_mode i,
                   at_status = At_offered, at_created = now, at_updated = now, at_claimed_at = None,
                   at_running_at = None, at_ended_at = None, at_session_id = None, at_lease_id = None,
                   at_reason = None, at_idempotency_key = oi_idempotency_key i\<rparr> in
          ((a, False), s\<lparr>ds_attempts := ds_attempts s @ [a]\<rparr>))"

record claim_input =
  cl_task_id :: string
  cl_attempt_id :: string
  cl_agent_id :: string
  cl_session_id :: string
  cl_ttl :: "int option"

datatype claim_result =
  Claim_ok dispatch_attempt execution_lease bool
| Claim_conflict execution_lease
| Claim_attempt_not_found
| Claim_attempt_terminal

definition release_expired :: "time \<Rightarrow> execution_lease list \<Rightarrow> execution_lease list" where
  "release_expired now = map (\<lambda>l. if unreleased l \<and> el_expires l \<le> now
     then l\<lparr>el_released := Some now, el_release_reason := Some ''expired''\<rparr> else l)"

definition new_lease :: "time \<Rightarrow> string \<Rightarrow> claim_input \<Rightarrow> execution_lease" where
  "new_lease now uuid i =
     \<lparr>el_id = ''lease-'' @ uuid, el_task_id = cl_task_id i, el_attempt_id = cl_attempt_id i,
      el_agent_id = cl_agent_id i, el_session_id = cl_session_id i, el_acquired = now,
      el_expires = now + or_else (cl_ttl i) (30 * 60000), el_released = None, el_release_reason = None\<rparr>"

definition claimed_attempt :: "time \<Rightarrow> string \<Rightarrow> claim_input \<Rightarrow> dispatch_attempt \<Rightarrow> dispatch_attempt" where
  "claimed_attempt now lease_id i a =
     a\<lparr>at_status := At_claimed, at_target_agent_id := Some (cl_agent_id i), at_session_id := Some (cl_session_id i),
       at_lease_id := Some lease_id, at_claimed_at := Some now, at_updated := now\<rparr>"

definition claim_lease :: "time \<Rightarrow> string \<Rightarrow> claim_input \<Rightarrow> dispatch_state \<Rightarrow> claim_result \<times> dispatch_state" where
  "claim_lease now uuid i s =
     (case List.find (\<lambda>a. at_id a = cl_attempt_id i) (ds_attempts s) of
        None \<Rightarrow> (Claim_attempt_not_found, s)
      | Some a \<Rightarrow>
          if terminal_attempt (at_status a) then (Claim_attempt_terminal, s)
          else
            let s1 = s\<lparr>ds_leases := release_expired now (ds_leases s)\<rparr> in
            case List.find (\<lambda>l. lease_key l = dispatch_task_key (cl_task_id i) \<and> unreleased l) (ds_leases s1) of
              Some l \<Rightarrow>
                if el_attempt_id l = cl_attempt_id i \<and> el_agent_id l = cl_agent_id i
                   \<and> el_session_id l = cl_session_id i
                then (Claim_ok a l True, s1) else (Claim_conflict l, s1)
            | None \<Rightarrow>
                let l = new_lease now uuid i in
                (Claim_ok (claimed_attempt now (el_id l) i a) l False,
                 s1\<lparr>ds_leases := ds_leases s1 @ [l],
                    ds_attempts := update_first (\<lambda>a. at_id a = cl_attempt_id i)
                      (claimed_attempt now (el_id l) i) (ds_attempts s1)\<rparr>))"

definition held_by_attempt :: "string \<Rightarrow> execution_lease \<Rightarrow> bool" where
  "held_by_attempt attempt l \<longleftrightarrow> el_attempt_id l = attempt \<and> unreleased l"

definition mark_running :: "time \<Rightarrow> string \<Rightarrow> string \<Rightarrow> dispatch_state \<Rightarrow> dispatch_attempt option \<times> dispatch_state" where
  "mark_running now attempt session s =
     (let upd = (\<lambda>a. a\<lparr>at_status := At_running, at_session_id := Some session, at_running_at := Some now,
                       at_updated := now\<rparr>) in
      case List.find (\<lambda>a. at_id a = attempt) (ds_attempts s) of
        None \<Rightarrow> (None, s)
      | Some a \<Rightarrow>
          if terminal_attempt (at_status a) then (None, s)
          else (Some (upd a),
                s\<lparr>ds_attempts := update_first (\<lambda>a. at_id a = attempt) upd (ds_attempts s),
                  ds_leases := update_first (held_by_attempt attempt) (\<lambda>l. l\<lparr>el_session_id := session\<rparr>)
                    (ds_leases s)\<rparr>))"

definition finish_attempt ::
  "time \<Rightarrow> string \<Rightarrow> attempt_status \<Rightarrow> string option \<Rightarrow> dispatch_state \<Rightarrow> dispatch_state" where
  "finish_attempt now attempt status reason s =
     (case List.find (\<lambda>a. at_id a = attempt) (ds_attempts s) of
        None \<Rightarrow> s
      | Some _ \<Rightarrow>
          s\<lparr>ds_attempts := update_first (\<lambda>a. at_id a = attempt)
              (\<lambda>a. a\<lparr>at_status := status, at_updated := now, at_ended_at := Some now,
                     at_reason := (if truthy reason then reason else at_reason a)\<rparr>) (ds_attempts s),
            ds_leases := update_first (held_by_attempt attempt)
              (\<lambda>l. l\<lparr>el_released := Some now,
                     el_release_reason := Some (or_else reason (attempt_status_name status))\<rparr>)
              (ds_leases s)\<rparr>)"

section \<open>The store as a lock table\<close>

text \<open>
  The abstract view: at most one lease per task key, and a claim drops what has expired and then
  takes the key if it is free.
\<close>

definition lock_expire :: "('l \<Rightarrow> time) \<Rightarrow> time \<Rightarrow> (string \<Rightarrow> 'l option) \<Rightarrow> string \<Rightarrow> 'l option" where
  "lock_expire expiry now t k = (case t k of None \<Rightarrow> None | Some l \<Rightarrow> if expiry l \<le> now then None else Some l)"

definition lock_claim ::
  "('l \<Rightarrow> time) \<Rightarrow> time \<Rightarrow> string \<Rightarrow> 'l \<Rightarrow> (string \<Rightarrow> 'l option) \<Rightarrow> string \<Rightarrow> 'l option" where
  "lock_claim expiry now k l t =
     (let t' = lock_expire expiry now t in if t' k = None then t'(k := Some l) else t')"

locale lock_table =
  fixes ok :: "'s \<Rightarrow> bool"
    and table :: "'s \<Rightarrow> string \<Rightarrow> 'l option"
    and expiry :: "'l \<Rightarrow> time"
    and key :: "'c \<Rightarrow> string"
    and fresh :: "time \<Rightarrow> 'c \<Rightarrow> 'l"
    and claim :: "time \<Rightarrow> 'c \<Rightarrow> 's \<Rightarrow> 's"
  assumes claim_ok: "ok s \<Longrightarrow> ok (claim now c s)"
    and claim_table: "ok s \<Longrightarrow>
      table (claim now c s) = table s \<or>
      table (claim now c s) = lock_claim expiry now (key c) (fresh now c) (table s)"
begin

lemma claim_keeps_holder:
  assumes "ok s" and "table s k = Some l" and "now < expiry l"
  shows "table (claim now c s) k = Some l"
  using claim_table [OF assms(1), of now c] assms(2,3)
  by (auto simp: lock_claim_def lock_expire_def Let_def)

text \<open>However many claims are made before the lease expires, the holder stays.\<close>

lemma claims_keep_holder:
  assumes "ok s" and "table s k = Some l" and "\<forall>x \<in> set cs. fst x < expiry l"
  shows "table (fold (\<lambda>(now, c). claim now c) cs s) k = Some l"
  using assms
proof (induction cs arbitrary: s)
  case (Cons x cs)
  obtain now c where x: "x = (now, c)" by (meson surj_pair)
  have "table (claim now c s) k = Some l"
    by (rule claim_keeps_holder [OF Cons.prems(1,2)]) (use Cons.prems(3) x in simp)
  with Cons.IH [OF claim_ok [OF Cons.prems(1)]] Cons.prems(3) show ?case by (simp add: x)
qed simp

end

definition dispatch_ok :: "dispatch_state \<Rightarrow> bool" where
  "dispatch_ok s \<longleftrightarrow> distinct (map lease_key (filter unreleased (ds_leases s)))"

definition lease_table :: "dispatch_state \<Rightarrow> string \<Rightarrow> execution_lease option" where
  "lease_table s k = List.find (\<lambda>l. lease_key l = k \<and> unreleased l) (ds_leases s)"

lemma find_key:
  assumes "distinct (map f ls)"
  shows "List.find (\<lambda>l. f l = k) ls = Some l \<longleftrightarrow> l \<in> set ls \<and> f l = k"
  using assms
proof (induction ls)
  case (Cons x ls)
  then have "f x \<notin> f ` set ls" by simp
  with Cons show ?case by (cases "f x = k") (auto intro: rev_image_eqI)
qed simp

lemma find_filter: "List.find (\<lambda>l. P l \<and> Q l) ls = List.find P (filter Q ls)"
  by (induction ls) auto

lemma lease_table_iff:
  "dispatch_ok s \<Longrightarrow> lease_table s k = Some l \<longleftrightarrow> l \<in> set (ds_leases s) \<and> unreleased l \<and> lease_key l = k"
  unfolding dispatch_ok_def lease_table_def find_filter by (subst find_key) auto

lemma release_expired_unreleased:
  "filter unreleased (release_expired now ls) = filter (\<lambda>l. now < el_expires l) (filter unreleased ls)"
  by (induction ls) (auto simp: release_expired_def unreleased_def)

lemma lease_table_filter: "lease_table s k = List.find (\<lambda>l. lease_key l = k) (filter unreleased (ds_leases s))"
  by (simp add: lease_table_def find_filter)

lemma find_key_filter:
  assumes "distinct (map f ls)"
  shows "List.find (\<lambda>l. f l = k) (filter Q ls)
    = (case List.find (\<lambda>l. f l = k) ls of None \<Rightarrow> None | Some l \<Rightarrow> if Q l then Some l else None)"
  using assms
proof (induction ls)
  case (Cons l ls)
  have "f l = k \<Longrightarrow> List.find (\<lambda>l. f l = k) (filter Q ls) = None"
    using Cons.prems by (auto simp: find_None_iff intro: rev_image_eqI)
  with Cons show ?case by auto
qed simp

lemma release_expired_table:
  assumes "dispatch_ok s"
  shows "lease_table (s\<lparr>ds_leases := release_expired now (ds_leases s)\<rparr>) = lock_expire el_expires now (lease_table s)"
proof
  fix k
  show "lease_table (s\<lparr>ds_leases := release_expired now (ds_leases s)\<rparr>) k = lock_expire el_expires now (lease_table s) k"
    using assms unfolding dispatch_ok_def
    by (simp add: lease_table_filter release_expired_unreleased find_key_filter lock_expire_def not_less
        split: option.split del: filter_filter)
qed

lemma release_expired_ok:
  "dispatch_ok s \<Longrightarrow> dispatch_ok (s\<lparr>ds_leases := release_expired now (ds_leases s)\<rparr>)"
  by (simp add: dispatch_ok_def release_expired_unreleased distinct_map_filter del: filter_filter)

definition claim_admitted :: "claim_input \<Rightarrow> dispatch_state \<Rightarrow> bool" where
  "claim_admitted i s \<longleftrightarrow>
     (case List.find (\<lambda>a. at_id a = cl_attempt_id i) (ds_attempts s) of
        None \<Rightarrow> False | Some a \<Rightarrow> \<not> terminal_attempt (at_status a))"

abbreviation claim_key :: "claim_input \<Rightarrow> string" where
  "claim_key i \<equiv> dispatch_task_key (cl_task_id i)"

lemma new_lease_simps [simp]:
  "unreleased (new_lease now uuid i)" "lease_key (new_lease now uuid i) = claim_key i"
  by (simp_all add: new_lease_def unreleased_def lease_key_def)

lemma table_append:
  "lease_table (s\<lparr>ds_leases := ls @ [l], ds_attempts := as\<rparr>) k =
     (case lease_table (s\<lparr>ds_leases := ls\<rparr>) k of Some l' \<Rightarrow> Some l'
      | None \<Rightarrow> if lease_key l = k \<and> unreleased l then Some l else None)"
  by (induction ls) (auto simp: lease_table_def)

text \<open>A claim that is not admitted changes nothing; an admitted one is the abstract claim.\<close>

lemma claim_refines:
  assumes ok: "dispatch_ok s" and adm: "claim_admitted i s"
  shows "lease_table (snd (claim_lease now uuid i s)) =
      lock_claim el_expires now (claim_key i) (new_lease now uuid i) (lease_table s)
    \<and> dispatch_ok (snd (claim_lease now uuid i s))"
proof -
  let ?s = "s\<lparr>ds_leases := release_expired now (ds_leases s)\<rparr>"
  obtain a where a: "List.find (\<lambda>a. at_id a = cl_attempt_id i) (ds_attempts s) = Some a" "\<not> terminal_attempt (at_status a)"
    using adm by (auto simp: claim_admitted_def split: option.splits)
  have t: "lease_table ?s = lock_expire el_expires now (lease_table s)" by (rule release_expired_table [OF ok])
  have ok': "dispatch_ok ?s" by (rule release_expired_ok [OF ok])
  show ?thesis
  proof (cases "lease_table ?s (claim_key i)")
    case (Some l)
    then have f: "List.find (\<lambda>l. lease_key l = claim_key i \<and> unreleased l) (release_expired now (ds_leases s)) = Some l"
      by (simp add: lease_table_def)
    with a have "snd (claim_lease now uuid i s) = ?s" by (simp add: claim_lease_def Let_def)
    with t ok' Some show ?thesis by (simp add: lock_claim_def)
  next
    case None
    then have f: "List.find (\<lambda>l. lease_key l = claim_key i \<and> unreleased l) (release_expired now (ds_leases s)) = None"
      by (simp add: lease_table_def)
    let ?l = "new_lease now uuid i"
    let ?as = "update_first (\<lambda>a. at_id a = cl_attempt_id i) (claimed_attempt now (el_id ?l) i) (ds_attempts s)"
    have run: "snd (claim_lease now uuid i s) =
        s\<lparr>ds_leases := release_expired now (ds_leases s) @ [?l], ds_attempts := ?as\<rparr>"
      using a f by (simp add: claim_lease_def Let_def)
    have "lease_table (snd (claim_lease now uuid i s)) = (lease_table ?s)(claim_key i := Some ?l)"
      using None by (intro ext) (auto simp: run table_append split: option.splits)
    moreover have "claim_key i \<notin> lease_key ` set (filter unreleased (release_expired now (ds_leases s)))"
      using f by (auto simp: find_None_iff)
    with ok' have "dispatch_ok (snd (claim_lease now uuid i s))"
      by (simp add: run dispatch_ok_def)
    ultimately show ?thesis using None t by (simp add: lock_claim_def)
  qed
qed

lemma claim_not_admitted: "\<not> claim_admitted i s \<Longrightarrow> snd (claim_lease now uuid i s) = s"
  by (auto simp: claim_admitted_def claim_lease_def split: option.splits)

interpretation dispatch_locks: lock_table dispatch_ok lease_table el_expires
  "\<lambda>(uuid, i). claim_key i" "\<lambda>now (uuid, i). new_lease now uuid i"
  "\<lambda>now (uuid, i) s. snd (claim_lease now uuid i s)"
proof
  fix s now and c :: "string \<times> claim_input"
  obtain uuid i where c: "c = (uuid, i)" by (meson surj_pair)
  assume ok: "dispatch_ok s"
  show "dispatch_ok ((case c of (uuid, i) \<Rightarrow> \<lambda>s. snd (claim_lease now uuid i s)) s)"
    using claim_refines [OF ok] claim_not_admitted [of i s now uuid] ok
    by (cases "claim_admitted i s") (simp_all add: c)
  show "lease_table ((case c of (uuid, i) \<Rightarrow> \<lambda>s. snd (claim_lease now uuid i s)) s) = lease_table s
    \<or> lease_table ((case c of (uuid, i) \<Rightarrow> \<lambda>s. snd (claim_lease now uuid i s)) s) =
       lock_claim el_expires now (case c of (uuid, i) \<Rightarrow> claim_key i)
        (case c of (uuid, i) \<Rightarrow> new_lease now uuid i) (lease_table s)"
    using claim_refines [OF ok] claim_not_admitted [of i s now uuid]
    by (cases "claim_admitted i s") (simp_all add: c)
qed

section \<open>Runs\<close>

datatype dispatch_call =
  Call_decision string decision_input
| Call_offer string offer_input
| Call_claim string claim_input
| Call_running string string
| Call_finished string attempt_status "string option"

fun dispatch_step :: "time \<times> dispatch_call \<Rightarrow> dispatch_state \<Rightarrow> dispatch_state" where
  "dispatch_step (now, Call_decision uuid i) s = snd (record_decision now uuid i s)"
| "dispatch_step (now, Call_offer uuid i) s = snd (offer_attempt now uuid i s)"
| "dispatch_step (now, Call_claim uuid i) s = snd (claim_lease now uuid i s)"
| "dispatch_step (now, Call_running attempt session) s = snd (mark_running now attempt session s)"
| "dispatch_step (now, Call_finished attempt status reason) s = finish_attempt now attempt status reason s"

definition run_dispatch :: "(time \<times> dispatch_call) list \<Rightarrow> dispatch_state" where
  "run_dispatch cs = fold dispatch_step cs empty_dispatch_state"

lemma update_first_keys:
  assumes "\<And>l. lease_key (f l) = lease_key l" and "\<And>l. unreleased (f l) \<Longrightarrow> unreleased l"
    and "distinct (map lease_key (filter unreleased ls))"
  shows "distinct (map lease_key (filter unreleased (update_first P f ls)))
    \<and> lease_key ` set (filter unreleased (update_first P f ls)) \<subseteq> lease_key ` set (filter unreleased ls)"
  using assms(3)
proof (induction ls)
  case (Cons l ls)
  show ?case
  proof (cases "P l")
    case True
    with Cons.prems assms(1,2) [of l] show ?thesis by (cases "unreleased (f l)") auto
  next
    case False
    with Cons show ?thesis by (cases "unreleased l") auto
  qed
qed simp

lemma update_first_ok:
  assumes "dispatch_ok s" and "\<And>l. lease_key (f l) = lease_key l" and "\<And>l. unreleased (f l) \<Longrightarrow> unreleased l"
  shows "dispatch_ok (s\<lparr>ds_attempts := as, ds_leases := update_first P f (ds_leases s)\<rparr>)"
  using update_first_keys [of f "ds_leases s" P] assms by (simp add: dispatch_ok_def)

lemma dispatch_step_ok:
  assumes "dispatch_ok s"
  shows "dispatch_ok (dispatch_step c s)"
proof (cases "(c, s)" rule: dispatch_step.cases)
  case (1 now uuid i t)
  then show ?thesis using assms
    by (auto simp: record_decision_def Let_def dispatch_ok_def split: option.split)
next
  case (2 now uuid i t)
  then show ?thesis using assms
    by (auto simp: offer_attempt_def Let_def dispatch_ok_def split: option.split)
next
  case (3 now uuid i t)
  then show ?thesis using dispatch_locks.claim_ok [OF assms, of now "(uuid, i)"] by simp
next
  case (4 now attempt session t)
  then show ?thesis using assms
    by (auto simp: mark_running_def Let_def lease_key_def unreleased_def intro!: update_first_ok split: option.split)
next
  case (5 now attempt status reason t)
  then show ?thesis using assms
    by (auto simp: finish_attempt_def lease_key_def unreleased_def intro!: update_first_ok split: option.split)
qed

lemma run_dispatch_ok: "dispatch_ok (run_dispatch cs)"
proof -
  have "dispatch_ok s \<Longrightarrow> dispatch_ok (fold dispatch_step cs s)" for s
    by (induction cs arbitrary: s) (auto intro: dispatch_step_ok)
  then show ?thesis by (simp add: run_dispatch_def dispatch_ok_def empty_dispatch_state_def)
qed

lemma filter_eq_distinct: "distinct xs \<Longrightarrow> length (filter (\<lambda>x. x = k) xs) \<le> 1"
proof (induction xs)
  case (Cons x xs)
  then show ?case by (cases "x = k") (auto simp: filter_empty_conv)
qed simp

section \<open>Properties\<close>

text \<open>
  C20. One lease per task: after any sequence of decisions, offers, claims, starts and ends, at any
  times, at most one unreleased execution lease exists for a task key.
\<close>

theorem one_lease_per_task:
  "length (filter (\<lambda>l. unreleased l \<and> lease_key l = k) (ds_leases (run_dispatch cs))) \<le> 1"
proof -
  have "filter (\<lambda>l. unreleased l \<and> lease_key l = k) ls = filter (\<lambda>l. lease_key l = k) (filter unreleased ls)" for ls
    by (simp add: conj_commute)
  moreover have "length (filter (\<lambda>l. lease_key l = k) ls) = length (filter (\<lambda>x. x = k) (map lease_key ls))" for ls
    by (simp add: filter_map comp_def)
  ultimately show ?thesis
    using filter_eq_distinct [of "map lease_key (filter unreleased (ds_leases (run_dispatch cs)))" k] run_dispatch_ok [of cs]
    by (simp only: dispatch_ok_def)
qed

text \<open>
  C21. A claim is the claim of a lock table. In any state the store can reach, the claim of an attempt
  that exists and is not terminal acts on the leases as \<open>lock_claim\<close> on the table of current leases:
  what has expired is dropped, a free key is taken by the new lease, which lasts for the time to live
  the claim asked for (30 minutes by default), a held key stays held, and the caller is told which.
\<close>

theorem claim_refines_lock_table:
  assumes "s = run_dispatch cs" and "claim_admitted i s"
  shows "lease_table (snd (claim_lease now uuid i s)) =
      lock_claim el_expires now (claim_key i) (new_lease now uuid i) (lease_table s)
    \<and> (case lock_expire el_expires now (lease_table s) (claim_key i) of
         None \<Rightarrow> \<exists>a. fst (claim_lease now uuid i s) = Claim_ok a (new_lease now uuid i) False
                   \<and> at_status a = At_claimed \<and> at_id a = cl_attempt_id i
       | Some l \<Rightarrow> if el_attempt_id l = cl_attempt_id i \<and> el_agent_id l = cl_agent_id i \<and> el_session_id l = cl_session_id i
                   then \<exists>a. fst (claim_lease now uuid i s) = Claim_ok a l True
                   else fst (claim_lease now uuid i s) = Claim_conflict l)"
proof -
  let ?s = "s\<lparr>ds_leases := release_expired now (ds_leases s)\<rparr>"
  have ok: "dispatch_ok s" by (simp add: assms(1) run_dispatch_ok)
  obtain a where a: "List.find (\<lambda>a. at_id a = cl_attempt_id i) (ds_attempts s) = Some a" "\<not> terminal_attempt (at_status a)"
    using assms(2) by (auto simp: claim_admitted_def split: option.splits)
  have id: "at_id a = cl_attempt_id i" using find_SomeD [OF a(1)] by simp
  have "lock_expire el_expires now (lease_table s) (claim_key i) =
      List.find (\<lambda>l. lease_key l = claim_key i \<and> unreleased l) (release_expired now (ds_leases s))"
    unfolding release_expired_table [OF ok, symmetric] by (simp add: lease_table_def)
  then show ?thesis
    using claim_refines [OF ok assms(2), of now uuid] a id
    by (simp add: claim_lease_def Let_def claimed_attempt_def split: option.split)
qed

text \<open>An attempt is offered and claimed, and a second agent comes for the same task.\<close>

definition sample_offer :: offer_input where
  "sample_offer = \<lparr>oi_task_id = ''TASK-20260101-001-PM-to-DEV'', oi_task_path = ''t'', oi_content_hash = None,
     oi_thread_key = None, oi_parent_task_id = None, oi_target_role = ''DEV'', oi_target_agent_id = None,
     oi_source = ''inbox'', oi_mode = Mode_initial, oi_idempotency_key = None\<rparr>"

definition sample_claim :: "string \<Rightarrow> string \<Rightarrow> claim_input" where
  "sample_claim attempt agent = \<lparr>cl_task_id = ''TASK-20260101-001.md'', cl_attempt_id = attempt, cl_agent_id = agent,
     cl_session_id = ''s'', cl_ttl = Some 1000\<rparr>"

definition sample_dispatch :: "(time \<times> dispatch_call) list" where
  "sample_dispatch = [(0, Call_offer ''1'' sample_offer), (0, Call_offer ''2'' sample_offer),
     (10, Call_claim ''L'' (sample_claim ''attempt-1'' ''DEV-01''))]"

theorem claim_refines_lock_table_witness:
  "lease_table (snd (claim_lease 500 ''M'' (sample_claim ''attempt-2'' ''DEV-02'') (run_dispatch sample_dispatch))) =
     lock_claim el_expires 500 (claim_key (sample_claim ''attempt-2'' ''DEV-02''))
       (new_lease 500 ''M'' (sample_claim ''attempt-2'' ''DEV-02'')) (lease_table (run_dispatch sample_dispatch))"
proof -
  have "claim_admitted (sample_claim ''attempt-2'' ''DEV-02'') (run_dispatch sample_dispatch)" by code_simp
  from claim_refines_lock_table [OF refl this] show ?thesis by blast
qed

text \<open>
  A lease is not lost to other claims: while a task's lease has not expired, however many claims
  are made, by whomever and for whatever attempts, the lease stays the one of that task.
\<close>

theorem held_lease_survives_claims:
  assumes "lease_table (run_dispatch cs) k = Some l" and "\<forall>(now, uuid, i) \<in> set claims. now < el_expires l"
  shows "lease_table (fold (\<lambda>(now, uuid, i) s. snd (claim_lease now uuid i s)) claims (run_dispatch cs)) k = Some l"
proof -
  have "(\<lambda>(now, uuid, i) s. snd (claim_lease now uuid i s))
      = (\<lambda>(now, c). (\<lambda>now (uuid, i) s. snd (claim_lease now uuid i s)) now c)"
    by (auto simp: fun_eq_iff)
  then show ?thesis
    using dispatch_locks.claims_keep_holder [OF run_dispatch_ok assms(1), of claims] assms(2)
    by (auto simp: split_beta)
qed

theorem held_lease_survives_claims_witness:
  "map_option el_agent_id (lease_table (fold (\<lambda>(now, uuid, i) s. snd (claim_lease now uuid i s))
     [(500, ''M'', sample_claim ''attempt-2'' ''DEV-02'')] (run_dispatch sample_dispatch)) ''TASK-20260101-001'') = Some ''DEV-01''"
proof -
  let ?l = "new_lease 10 ''L'' (sample_claim ''attempt-1'' ''DEV-01'')"
  have l: "lease_table (run_dispatch sample_dispatch) ''TASK-20260101-001'' = Some ?l" by code_simp
  have "\<forall>(now, uuid, i) \<in> set [(500, ''M'', sample_claim ''attempt-2'' ''DEV-02'')]. now < el_expires ?l"
    by (simp add: new_lease_def sample_claim_def)
  from held_lease_survives_claims [OF l this] show ?thesis by (simp add: new_lease_def sample_claim_def)
qed

text \<open>
  An expired lease never blocks a task for good: whatever happened before, once the lease that is
  on the task has run out, the next claim of a live attempt gets a lease of its own.
\<close>

theorem expired_lease_is_reclaimed:
  assumes "claim_admitted i (run_dispatch cs)"
    and "\<forall>l. lease_table (run_dispatch cs) (claim_key i) = Some l \<longrightarrow> el_expires l \<le> now"
  shows "lease_table (snd (claim_lease now uuid i (run_dispatch cs))) (claim_key i) = Some (new_lease now uuid i)"
proof -
  have "lock_expire el_expires now (lease_table (run_dispatch cs)) (claim_key i) = None"
    using assms(2) by (auto simp: lock_expire_def split: option.split)
  with claim_refines [OF run_dispatch_ok assms(1), of now uuid] show ?thesis
    by (simp add: lock_claim_def Let_def)
qed

theorem expired_lease_is_reclaimed_witness:
  "map_option el_agent_id (lease_table (snd (claim_lease 2000 ''M'' (sample_claim ''attempt-2'' ''DEV-02'')
     (run_dispatch sample_dispatch))) ''TASK-20260101-001'') = Some ''DEV-02''"
proof -
  let ?i = "sample_claim ''attempt-2'' ''DEV-02''"
  have a: "claim_admitted ?i (run_dispatch sample_dispatch)"
    and e: "(case lease_table (run_dispatch sample_dispatch) (claim_key ?i) of None \<Rightarrow> True | Some l \<Rightarrow> el_expires l \<le> 2000)"
    and k: "claim_key ?i = ''TASK-20260101-001''"
    by code_simp+
  from e have "\<forall>l. lease_table (run_dispatch sample_dispatch) (claim_key ?i) = Some l \<longrightarrow> el_expires l \<le> 2000"
    by (auto split: option.splits)
  from expired_lease_is_reclaimed [OF a this, of "''M''"] show ?thesis
    by (simp add: k) (simp add: new_lease_def sample_claim_def)
qed

lemma find_update_first:
  "(\<And>a. P (f a) = P a) \<Longrightarrow> List.find P (update_first P f as) = map_option f (List.find P as)"
  by (induction as) auto

text \<open>
  The end of an attempt has no guard: a settled attempt that is finished again with the status
  \<open>reported\<close> is not terminal any more, and can be claimed.
\<close>

lemma finish_reopens_terminal:
  assumes "List.find (\<lambda>a. at_id a = x) (ds_attempts s) = Some a" and "at_status a = At_settled"
  shows "\<not> claim_admitted i s \<or> cl_attempt_id i \<noteq> x"
    and "cl_attempt_id i = x \<Longrightarrow> claim_admitted i (finish_attempt now x At_reported reason s)"
proof -
  show "\<not> claim_admitted i s \<or> cl_attempt_id i \<noteq> x"
    using assms by (auto simp: claim_admitted_def terminal_attempt_def)
  show "cl_attempt_id i = x \<Longrightarrow> claim_admitted i (finish_attempt now x At_reported reason s)"
    using assms by (simp add: claim_admitted_def finish_attempt_def find_update_first terminal_attempt_def)
qed

end
