(* ===== verification/Session_Lease.thy ===== *)
theory Session_Lease
  imports Js_Prelude
begin

text \<open>
  The lease of a session on the work of one agent for one root task
  (\<^verbatim>\<open>session/SessionLeaseStore.ts\<close>). Sessions of several processes work on the same lease file, so
  an event is one file system operation of one session, and a run is any interleaving of them. The
  theory looks at one lease file; a session is named by its id. A file that was opened for writing
  and then unlinked by another session is written where no path leads any more, so the file carries
  the identity of its creation.
\<close>

section \<open>State\<close>

record lease_record =
  sl_owner :: string
  sl_acquired :: time
  sl_heartbeat :: time
  sl_expires :: time
  sl_ttl :: int

datatype file_id = Opened_by string nat | Renamed_by string

datatype session_pc =
  S_idle
| S_trying nat                \<comment> \<open>at the head of the loop of \<open>acquire\<close>, with the attempts made\<close>
| S_opened nat time           \<comment> \<open>the exclusive create succeeded\<close>
| S_exists nat time           \<comment> \<open>it failed with \<open>EEXIST\<close>\<close>
| S_stale nat                 \<comment> \<open>the file was gone or expired when read; about to unlink\<close>
| S_last                      \<comment> \<open>after three attempts\<close>
| S_held                      \<comment> \<open>\<open>acquire\<close> has returned; the session is in \<open>owners\<close>\<close>
| S_conflict lease_record     \<comment> \<open>\<open>SessionLeaseConflictError\<close>\<close>
| S_failed                    \<comment> \<open>any other error\<close>
| S_beating lease_record      \<comment> \<open>in \<open>heartbeat\<close>, with the record it read\<close>
| S_releasing                 \<comment> \<open>in \<open>release\<close>, after its read\<close>

record session_world =
  sw_file :: "(file_id \<times> lease_record option) option"
  sw_pc :: "string \<Rightarrow> session_pc"

datatype session_event =
  Acquire_start string
| Acquire_open string time
| Acquire_write string
| Acquire_read string
| Acquire_unlink string
| Acquire_last string
| Beat_read string
| Beat_rename string time
| Release_read string
| Release_unlink string

definition lease_ttl :: "int option \<Rightarrow> int" where
  "lease_ttl configured = max 5000 (or_else configured 60000)"

definition fresh_lease :: "int \<Rightarrow> string \<Rightarrow> time \<Rightarrow> lease_record" where
  "fresh_lease ttl p now =
     \<lparr>sl_owner = p, sl_acquired = now, sl_heartbeat = now, sl_expires = now + ttl, sl_ttl = ttl\<rparr>"

definition beaten_lease :: "time \<Rightarrow> lease_record \<Rightarrow> lease_record" where
  "beaten_lease now r = r\<lparr>sl_heartbeat := now, sl_expires := now + sl_ttl r\<rparr>"

definition goto :: "string \<Rightarrow> session_pc \<Rightarrow> session_world \<Rightarrow> session_world" where
  "goto p pc s = s\<lparr>sw_pc := (sw_pc s)(p := pc)\<rparr>"

definition stored_lease :: "session_world \<Rightarrow> lease_record option" where
  "stored_lease s = Option.bind (sw_file s) snd"

definition may_start :: "session_pc \<Rightarrow> bool" where
  "may_start pc \<longleftrightarrow> (case pc of S_idle \<Rightarrow> True | S_failed \<Rightarrow> True | S_conflict r \<Rightarrow> True | _ \<Rightarrow> False)"

section \<open>Steps\<close>

text \<open>\<open>acquire\<close>: at most three rounds of exclusive create, read and unlink.\<close>

fun acquire_step :: "int \<Rightarrow> session_event \<Rightarrow> session_world \<Rightarrow> session_world option" where
  "acquire_step ttl (Acquire_start p) s =
     (if may_start (sw_pc s p) then Some (goto p (S_trying 0) s) else None)"
| "acquire_step ttl (Acquire_open p now) s =
     (case sw_pc s p of
        S_trying n \<Rightarrow>
          (if n = 3 then None
           else if sw_file s = None
           then Some (goto p (S_opened n now) (s\<lparr>sw_file := Some (Opened_by p n, None)\<rparr>))
           else Some (goto p (S_exists n now) s))
      | _ \<Rightarrow> None)"
| "acquire_step ttl (Acquire_write p) s =
     (case sw_pc s p of
        S_opened n now \<Rightarrow>
          Some (goto p S_held
            (if map_option fst (sw_file s) = Some (Opened_by p n)
             then s\<lparr>sw_file := Some (Opened_by p n, Some (fresh_lease ttl p now))\<rparr> else s))
      | _ \<Rightarrow> None)"
| "acquire_step ttl (Acquire_read p) s =
     (case sw_pc s p of
        S_exists n now \<Rightarrow>
          (case sw_file s of
             None \<Rightarrow> Some (goto p (S_stale n) s)
           | Some (_, None) \<Rightarrow> Some (goto p S_failed s)
           | Some (_, Some r) \<Rightarrow>
               if now < sl_expires r then Some (goto p (S_conflict r) s) else Some (goto p (S_stale n) s))
      | _ \<Rightarrow> None)"
| "acquire_step ttl (Acquire_unlink p) s =
     (case sw_pc s p of
        S_stale n \<Rightarrow> Some (goto p (if n + 1 < 3 then S_trying (n + 1) else S_last) (s\<lparr>sw_file := None\<rparr>))
      | _ \<Rightarrow> None)"
| "acquire_step ttl (Acquire_last p) s =
     (case sw_pc s p of
        S_last \<Rightarrow>
          (case stored_lease s of
             Some r \<Rightarrow> Some (goto p (S_conflict r) s)
           | None \<Rightarrow> Some (goto p S_failed s))
      | _ \<Rightarrow> None)"
| "acquire_step ttl _ s = None"

text \<open>\<open>heartbeat\<close> and \<open>release\<close>: the file is read, and then replaced or unlinked.\<close>

definition owns_file :: "string \<Rightarrow> session_world \<Rightarrow> bool" where
  "owns_file p s \<longleftrightarrow> map_option sl_owner (stored_lease s) = Some p"

fun keep_step :: "session_event \<Rightarrow> session_world \<Rightarrow> session_world option" where
  "keep_step (Beat_read p) s =
     (if sw_pc s p = S_held \<and> owns_file p s
      then map_option (\<lambda>r. goto p (S_beating r) s) (stored_lease s) else None)"
| "keep_step (Beat_rename p now) s =
     (case sw_pc s p of
        S_beating r \<Rightarrow> Some (goto p S_held (s\<lparr>sw_file := Some (Renamed_by p, Some (beaten_lease now r))\<rparr>))
      | _ \<Rightarrow> None)"
| "keep_step (Release_read p) s =
     (if sw_pc s p = S_held \<and> owns_file p s then Some (goto p S_releasing s) else None)"
| "keep_step (Release_unlink p) s =
     (if sw_pc s p = S_releasing then Some (goto p S_idle (s\<lparr>sw_file := None\<rparr>)) else None)"
| "keep_step _ s = None"

definition session_step :: "int \<Rightarrow> session_event \<Rightarrow> session_world \<Rightarrow> session_world option" where
  "session_step ttl e s = (case acquire_step ttl e s of Some s' \<Rightarrow> Some s' | None \<Rightarrow> keep_step e s)"

fun run_sessions :: "int \<Rightarrow> session_event list \<Rightarrow> session_world \<Rightarrow> session_world option" where
  "run_sessions ttl [] s = Some s"
| "run_sessions ttl (e # es) s = (case session_step ttl e s of None \<Rightarrow> None | Some s' \<Rightarrow> run_sessions ttl es s')"

definition idle_sessions :: "(file_id \<times> lease_record option) option \<Rightarrow> session_world" where
  "idle_sessions f = \<lparr>sw_file = f, sw_pc = (\<lambda>_. S_idle)\<rparr>"

section \<open>How long an acquisition takes\<close>

text \<open>The steps an acquisition may still make.\<close>

fun acquire_left :: "session_pc \<Rightarrow> nat" where
  "acquire_left (S_trying n) = 3 * (3 - n) + 1"
| "acquire_left (S_opened n now) = 1"
| "acquire_left (S_exists n now) = 3 * (3 - n)"
| "acquire_left (S_stale n) = 3 * (3 - n) - 1"
| "acquire_left S_last = 1"
| "acquire_left _ = 0"

fun acquiring :: "session_pc \<Rightarrow> bool" where
  "acquiring (S_trying n) \<longleftrightarrow> True"
| "acquiring (S_opened n now) \<longleftrightarrow> True"
| "acquiring (S_exists n now) \<longleftrightarrow> True"
| "acquiring (S_stale n) \<longleftrightarrow> True"
| "acquiring S_last \<longleftrightarrow> True"
| "acquiring _ \<longleftrightarrow> False"

lemma acquiring_iff: "acquiring pc \<longleftrightarrow> (\<exists>n now. pc \<in> {S_trying n, S_opened n now, S_exists n now, S_stale n, S_last})"
  by (cases pc) auto

declare acquiring.simps [simp del]

fun event_session :: "session_event \<Rightarrow> string" where
  "event_session (Acquire_start p) = p"
| "event_session (Acquire_open p now) = p"
| "event_session (Acquire_write p) = p"
| "event_session (Acquire_read p) = p"
| "event_session (Acquire_unlink p) = p"
| "event_session (Acquire_last p) = p"
| "event_session (Beat_read p) = p"
| "event_session (Beat_rename p now) = p"
| "event_session (Release_read p) = p"
| "event_session (Release_unlink p) = p"

definition pc_ok :: "session_pc \<Rightarrow> bool" where
  "pc_ok pc \<longleftrightarrow> (\<forall>n. pc = S_trying n \<longrightarrow> n < 3) \<and> (\<forall>n t. pc = S_opened n t \<longrightarrow> n < 3)
     \<and> (\<forall>n t. pc = S_exists n t \<longrightarrow> n < 3) \<and> (\<forall>n. pc = S_stale n \<longrightarrow> n < 3)"

lemmas step_defs = session_step_def goto_def may_start_def

lemma session_step_frame:
  "session_step ttl e s = Some s' \<Longrightarrow> p \<noteq> event_session e \<Longrightarrow> sw_pc s' p = sw_pc s p"
  by (cases e) (auto simp: step_defs split: session_pc.splits option.splits prod.splits if_splits)

lemma session_step_pc_ok:
  assumes "pc_ok (sw_pc s p)" and "session_step ttl e s = Some s'"
  shows "pc_ok (sw_pc s' p)"
proof (cases "p = event_session e")
  case False
  with session_step_frame [OF assms(2)] assms(1) show ?thesis by simp
next
  case True
  with assms show ?thesis
    by (cases e) (auto simp: step_defs pc_ok_def split: session_pc.splits option.splits prod.splits if_splits)
qed

text \<open>A step of the session itself brings it nearer to the end; without a new start it stays ended.\<close>

lemma own_step_decreases:
  assumes "pc_ok (sw_pc s p)" and "session_step ttl e s = Some s'" and "event_session e = p"
    and "acquiring (sw_pc s p)" and "acquiring (sw_pc s' p)"
  shows "acquire_left (sw_pc s' p) < acquire_left (sw_pc s p)"
  using assms
  by (cases e)
     (auto simp: step_defs pc_ok_def acquiring_iff split: session_pc.splits option.splits prod.splits if_splits)

lemma ended_stays_ended:
  assumes "session_step ttl e s = Some s'" and "e \<noteq> Acquire_start p" and "\<not> acquiring (sw_pc s p)"
  shows "\<not> acquiring (sw_pc s' p)"
proof (cases "p = event_session e")
  case False
  with session_step_frame [OF assms(1)] assms(3) show ?thesis by simp
next
  case True
  with assms show ?thesis
    by (cases e) (auto simp: step_defs acquiring_iff split: session_pc.splits option.splits prod.splits if_splits)
qed

lemma ended_run:
  "run_sessions ttl es s = Some s' \<Longrightarrow> Acquire_start p \<notin> set es \<Longrightarrow> acquiring (sw_pc s' p) \<Longrightarrow> acquiring (sw_pc s p)"
  by (induction es arbitrary: s) (auto split: option.splits, metis ended_stays_ended)

lemma own_steps_bounded:
  assumes "run_sessions ttl es s = Some s'" and "Acquire_start p \<notin> set es" and "acquiring (sw_pc s' p)"
    and "pc_ok (sw_pc s p)"
  shows "length (filter (\<lambda>e. event_session e = p) es) + acquire_left (sw_pc s' p) \<le> acquire_left (sw_pc s p)"
  using assms
proof (induction es arbitrary: s)
  case (Cons e es)
  then obtain s1 where s1: "session_step ttl e s = Some s1" "run_sessions ttl es s1 = Some s'"
    by (auto split: option.splits)
  have ok: "pc_ok (sw_pc s1 p)" by (rule session_step_pc_ok [OF Cons.prems(4) s1(1)])
  have IH: "length (filter (\<lambda>e. event_session e = p) es) + acquire_left (sw_pc s' p) \<le> acquire_left (sw_pc s1 p)"
    by (rule Cons.IH [OF s1(2) _ Cons.prems(3) ok]) (use Cons.prems(2) in simp)
  show ?case
  proof (cases "event_session e = p")
    case True
    have "acquiring (sw_pc s1 p)" "acquiring (sw_pc s p)"
      using ended_run [OF s1(2) _ Cons.prems(3)] ended_run [OF Cons.prems(1) Cons.prems(2,3)] Cons.prems(2) by simp_all
    from own_step_decreases [OF Cons.prems(4) s1(1) True this(2,1)] IH True show ?thesis by simp
  next
    case False
    with session_step_frame [OF s1(1), of p] IH show ?thesis by simp
  qed
qed simp

lemma acquire_enabled:
  assumes "acquiring (sw_pc s p)" and "pc_ok (sw_pc s p)"
  shows "\<exists>e s'. event_session e = p \<and> session_step ttl e s = Some s'"
proof (cases "sw_pc s p")
  case (S_trying n)
  then have "session_step ttl (Acquire_open p 0) s \<noteq> None"
    using assms(2) by (simp add: step_defs pc_ok_def)
  then show ?thesis by (metis event_session.simps(2) not_None_eq)
next
  case (S_opened n t)
  then have "session_step ttl (Acquire_write p) s \<noteq> None" by (simp add: step_defs)
  then show ?thesis by (metis event_session.simps(3) not_None_eq)
next
  case (S_exists n t)
  then have "session_step ttl (Acquire_read p) s \<noteq> None"
    by (auto simp: step_defs split: option.split prod.split)
  then show ?thesis by (metis event_session.simps(4) not_None_eq)
next
  case (S_stale n)
  then have "session_step ttl (Acquire_unlink p) s \<noteq> None" by (simp add: step_defs)
  then show ?thesis by (metis event_session.simps(5) not_None_eq)
next
  case S_last
  then have "session_step ttl (Acquire_last p) s \<noteq> None" by (simp add: step_defs split: option.split)
  then show ?thesis by (metis event_session.simps(6) not_None_eq)
qed (use assms(1) in \<open>auto simp: acquiring_iff\<close>)

section \<open>Properties\<close>

text \<open>
  C39. An acquisition is wait-free: whatever the other sessions do in between, a session that has
  started to acquire always has a next step and is through with a lease, a conflict or an error after
  at most ten of its own steps.
\<close>

theorem acquire_wait_free:
  assumes "sw_pc s p = S_trying 0" and "run_sessions ttl es s = Some s'" and "Acquire_start p \<notin> set es"
    and "acquiring (sw_pc s' p)"
  shows "length (filter (\<lambda>e. event_session e = p) es) < 10
    \<and> (\<exists>e s''. event_session e = p \<and> session_step ttl e s' = Some s'')"
proof -
  have ok: "pc_ok (sw_pc s p)" by (simp add: assms(1) pc_ok_def)
  have run_ok: "run_sessions ttl es s = Some s' \<Longrightarrow> pc_ok (sw_pc s p) \<Longrightarrow> pc_ok (sw_pc s' p)" for es s
    by (induction es arbitrary: s) (auto split: option.splits dest: session_step_pc_ok)
  have ok': "pc_ok (sw_pc s' p)" using run_ok [OF assms(2) ok] .
  have "0 < acquire_left (sw_pc s' p)"
    using assms(4) ok' by (auto simp: acquiring_iff pc_ok_def)
  with own_steps_bounded [OF assms(2,3,4) ok] assms(1) acquire_enabled [OF assms(4) ok'] show ?thesis by auto
qed

text \<open>Two sessions meet on a lease that a dead one left to expire at time 50.\<close>

definition dead_lease :: "(file_id \<times> lease_record option) option" where
  "dead_lease = Some (Renamed_by ''Z'', Some (fresh_lease 50 ''Z'' 0))"

theorem acquire_wait_free_witness:
  "\<exists>s s'. sw_pc s ''A'' = S_trying 0 \<and> run_sessions 5000 [Acquire_open ''A'' 100, Acquire_read ''A''] s = Some s'
     \<and> (\<exists>e s''. event_session e = ''A'' \<and> session_step 5000 e s' = Some s'')"
proof -
  let ?s = "goto ''A'' (S_trying 0) (idle_sessions dead_lease)"
  let ?es = "[Acquire_open ''A'' 100, Acquire_read ''A'']"
  let ?s' = "goto ''A'' (S_stale 0) (idle_sessions dead_lease)"
  have r: "run_sessions 5000 ?es ?s = Some ?s'" and t: "sw_pc ?s ''A'' = S_trying 0"
    by (simp_all add: step_defs idle_sessions_def dead_lease_def fresh_lease_def)
  have a: "acquiring (sw_pc ?s' ''A'')" by (simp add: goto_def acquiring_iff)
  from acquire_wait_free [OF t r _ a] r t show ?thesis by auto
qed

definition beginning :: "time \<Rightarrow> session_pc \<Rightarrow> bool" where
  "beginning expires pc \<longleftrightarrow>
     (case pc of S_idle \<Rightarrow> True | S_trying n \<Rightarrow> True | S_exists n now \<Rightarrow> now < expires
      | S_held \<Rightarrow> True | S_conflict r \<Rightarrow> True | S_failed \<Rightarrow> True | _ \<Rightarrow> False)"

fun acquires_before :: "time \<Rightarrow> session_event \<Rightarrow> bool" where
  "acquires_before t (Acquire_start p) = True"
| "acquires_before t (Acquire_open p now) = (now < t)"
| "acquires_before t (Acquire_write p) = True"
| "acquires_before t (Acquire_read p) = True"
| "acquires_before t (Acquire_unlink p) = True"
| "acquires_before t (Acquire_last p) = True"
| "acquires_before t _ = False"

lemma live_lease_step:
  assumes "sw_file s = Some (f, Some r)" and "\<forall>p. beginning (sl_expires r) (sw_pc s p)"
    and "acquires_before (sl_expires r) e" and "session_step ttl e s = Some s'"
  shows "sw_file s' = Some (f, Some r) \<and> (\<forall>p. beginning (sl_expires r) (sw_pc s' p))
    \<and> (\<forall>p. sw_pc s' p = S_held \<longrightarrow> sw_pc s p = S_held)"
proof -
  have "beginning (sl_expires r) (sw_pc s (event_session e))" using assms(2) by blast
  then show ?thesis
    using assms
    by (cases e) (auto simp: step_defs beginning_def split: session_pc.splits option.splits prod.splits if_splits)
qed



text \<open>
  The takeover of an expired lease is not exclusive. Two sessions that both read the expired
  lease go on to unlink by name: the second one removes the fresh lease the first has just been
  given and takes the file too. A state in which two sessions have been granted the same lease is
  reachable.
\<close>

theorem expired_takeover_race:
  "\<exists>es s. run_sessions 5000 es (idle_sessions dead_lease) = Some s \<and> sw_pc s ''A'' = S_held \<and> sw_pc s ''B'' = S_held
     \<and> owns_file ''A'' s \<and> \<not> owns_file ''B'' s"
proof -
  let ?es = "[Acquire_start ''A'', Acquire_start ''B'', Acquire_open ''A'' 100, Acquire_read ''A'',
     Acquire_open ''B'' 100, Acquire_read ''B'', Acquire_unlink ''B'', Acquire_open ''B'' 101, Acquire_write ''B'',
     Acquire_unlink ''A'', Acquire_open ''A'' 102, Acquire_write ''A'']"
  have "case run_sessions 5000 ?es (idle_sessions dead_lease) of None \<Rightarrow> False
    | Some s \<Rightarrow> sw_pc s ''A'' = S_held \<and> sw_pc s ''B'' = S_held \<and> owns_file ''A'' s \<and> \<not> owns_file ''B'' s"
    by (simp add: step_defs idle_sessions_def dead_lease_def fresh_lease_def owns_file_def stored_lease_def)
  from option_caseD [OF this] show ?thesis by blast
qed

end
