(* ===== verification/Retry_Control.thy ===== *)
theory Retry_Control
  imports Js_Prelude
begin

text \<open>
  How failures of the SDK are answered: which errors are transient
  (\<^verbatim>\<open>_internal/transient-sdk-error.ts\<close>), the bounded retry of a call, the global cooldown
  (\<^verbatim>\<open>_internal/SdkCooldownRegistry.ts\<close>), the normalized failure
  (\<^verbatim>\<open>_internal/dispatch-failure.ts\<close>) and the registry that schedules the automatic
  retries of a task and asks ADMIN when they are used up
  (\<^verbatim>\<open>_internal/DispatchRetryRegistry.ts\<close>). Clocks, durations and the random number are
  arguments. An error is an \<open>Error\<close> with its optional code, raw message and cause.
\<close>

section \<open>Errors\<close>

datatype js_error = Js_error (er_name: string) (er_message: string) (er_code: "string option")
  (er_raw: "string option") (er_cause: "js_error option")

fun error_search_text :: "js_error \<Rightarrow> string" where
  "error_search_text (Js_error name message code raw cause) =
     name @ '' '' @ message
     @ (case code of None \<Rightarrow> [] | Some c \<Rightarrow> '' '' @ c)
     @ (case raw of None \<Rightarrow> [] | Some r \<Rightarrow> '' '' @ r)
     @ (case cause of None \<Rightarrow> [] | Some e \<Rightarrow> '' '' @ error_search_text e)"

definition transient_patterns :: "string list" where
  "transient_patterns = [''nghttp2_enhance_your_calm'', ''stream closed'', ''aborted'', ''rate limited'',
     ''rate limit'', ''too many requests'', ''timeout'', ''timed out'', ''econnrefused'', ''etimedout'',
     ''econnreset'', ''socket hang up'', ''socket disconnected'', ''network error'', ''fetch failed'',
     ''tls connection'', ''enhance_your_calm'']"

definition is_transient_sdk_error :: "js_error \<Rightarrow> bool" where
  "is_transient_sdk_error e \<longleftrightarrow> list_ex (js_includes (js_lower (error_search_text e))) transient_patterns"

definition is_enhance_your_calm_error :: "js_error \<Rightarrow> bool" where
  "is_enhance_your_calm_error e \<longleftrightarrow>
     (let t = js_lower (error_search_text e) in
      js_includes t ''nghttp2_enhance_your_calm'' \<or> js_includes t ''enhance_your_calm'')"

datatype failure_category =
  Cat_delivery_failed | Cat_transient_network | Cat_rate_limited | Cat_sdk_busy | Cat_model_unavailable
| Cat_auth_failed | Cat_tool_timeout | Cat_tool_error | Cat_unknown_sdk_error

datatype dispatch_provider = Prov_cursor | Prov_google | Prov_claude | Prov_api | Prov_codex | Prov_unknown

definition category_from_message :: "string \<Rightarrow> failure_category" where
  "category_from_message message =
     (let has = (\<lambda>p. js_includes (js_lower message) p) in
      if has ''429'' \<or> has ''rate limit'' then Cat_rate_limited
      else if has ''503'' \<or> has ''timeout'' \<or> has ''econnreset'' then Cat_transient_network
      else if has ''auth'' \<or> has ''401'' \<or> has ''403'' then Cat_auth_failed
      else if has ''model'' then Cat_model_unavailable
      else Cat_delivery_failed)"

record failure_meta =
  fo_provider :: "dispatch_provider option"
  fo_adapter :: "string option"
  fo_category :: "failure_category option"
  fo_retryable :: "bool option"
  fo_raw_code :: "string option"

record normalized_failure =
  nf_provider :: dispatch_provider
  nf_adapter :: string
  nf_category :: failure_category
  nf_retryable :: bool
  nf_message :: string
  nf_raw_code :: "string option"

definition normalize_dispatch_failure :: "js_error \<Rightarrow> failure_meta \<Rightarrow> normalized_failure" where
  "normalize_dispatch_failure e o1 =
     (let message = (if er_message e \<noteq> [] then er_message e else er_name e) in
      \<lparr>nf_provider = or_else (fo_provider o1) Prov_unknown, nf_adapter = or_else (fo_adapter o1) ''unknown'',
       nf_category = or_else (fo_category o1) (category_from_message message),
       nf_retryable = or_else (fo_retryable o1) (is_transient_sdk_error e),
       nf_message = message, nf_raw_code = fo_raw_code o1\<rparr>)"

section \<open>The cooldown\<close>

record sdk_cooldown =
  co_until :: time
  co_reason :: string

definition no_cooldown :: sdk_cooldown where
  "no_cooldown = \<lparr>co_until = 0, co_reason = []\<rparr>"

definition cooldown_active :: "time \<Rightarrow> sdk_cooldown \<Rightarrow> bool" where
  "cooldown_active now c \<longleftrightarrow> now < co_until c"

definition default_cooldown_ms :: int where
  "default_cooldown_ms = 5 * 60 * 1000"

definition enter_cooldown :: "time \<Rightarrow> int \<Rightarrow> string \<Rightarrow> int option \<Rightarrow> sdk_cooldown \<Rightarrow> sdk_cooldown" where
  "enter_cooldown now configured reason duration c =
     (let until = now + or_else duration configured in
      if co_until c < until then \<lparr>co_until = until, co_reason = reason\<rparr> else c)"

definition record_from_error :: "time \<Rightarrow> int \<Rightarrow> js_error \<Rightarrow> sdk_cooldown \<Rightarrow> bool \<times> sdk_cooldown" where
  "record_from_error now configured e c =
     (if \<not> is_enhance_your_calm_error e then (False, c)
      else (True, enter_cooldown now configured ''NGHTTP2_ENHANCE_YOUR_CALM'' None c))"

definition clear_cooldown :: "sdk_cooldown \<Rightarrow> sdk_cooldown" where
  "clear_cooldown c = no_cooldown"

text \<open>\<open>remainingMs(now)\<close>: the argument is compared with the registry's own clock only for activity.\<close>

definition remaining_ms :: "time \<Rightarrow> time \<Rightarrow> sdk_cooldown \<Rightarrow> int" where
  "remaining_ms own_now now c = (if \<not> cooldown_active own_now c then 0 else max 0 (co_until c - now))"

section \<open>The bounded retry of a call\<close>

datatype 'a retry_outcome =
  Retry_value 'a nat
| Retry_delayed js_error nat
| Retry_thrown js_error

definition transient_backoff :: "int list" where
  "transient_backoff = [2000, 5000, 15000]"

text \<open>
  \<open>withTransientSdkRetry\<close>: the call is a function of the attempt; \<open>clock\<close> gives the time at which
  an attempt fails. The result carries the delays that were waited and the cooldown afterwards.
\<close>

fun transient_retry ::
  "(nat \<Rightarrow> time) \<Rightarrow> (nat \<Rightarrow> js_error + 'a) \<Rightarrow> nat \<Rightarrow> int list \<Rightarrow> sdk_cooldown
     \<Rightarrow> 'a retry_outcome \<times> int list \<times> sdk_cooldown" where
  "transient_retry clock call n backoff c =
     (case call n of
        Inr v \<Rightarrow> (Retry_value v (n + 1), [], c)
      | Inl e \<Rightarrow>
          if \<not> is_transient_sdk_error e then (Retry_thrown e, [], c)
          else
            let c1 = snd (record_from_error (clock n) default_cooldown_ms e c) in
            case backoff of
              [] \<Rightarrow> (Retry_delayed e (n + 1), [], c1)
            | d # ds \<Rightarrow>
                case transient_retry clock call (n + 1) ds c1 of (r, waits, c2) \<Rightarrow> (r, d # waits, c2))"

section \<open>The retry registry\<close>

datatype admin_decision = Admin_retry | Admin_force_archive
datatype retry_policy = Policy_none | Policy_manual | Policy_auto
datatype recovery_state = Waiting_approval | Needs_replan | Waiting_admin_decision

record retry_record =
  rr_filepath :: "string option"
  rr_task_id :: "string option"
  rr_provider :: dispatch_provider
  rr_adapter :: string
  rr_failures :: nat
  rr_round :: nat
  rr_last_error :: string
  rr_category :: failure_category
  rr_retryable :: bool
  rr_next_retry :: "time option"
  rr_decision_required :: bool
  rr_admin_decision :: "admin_decision option"
  rr_force_archived :: bool
  rr_first_failed :: time
  rr_last_failed :: time
  rr_raw_code :: "string option"
  rr_raw_message :: "string option"
  rr_fingerprint :: "string option"
  rr_policy :: "retry_policy option"
  rr_next_action :: "string option"
  rr_recovery :: "recovery_state option"
  rr_report_required :: "bool option"

record failure_input = failure_meta +
  fi_filepath :: "string option"
  fi_task_id :: "string option"
  fi_fingerprint :: "string option"
  fi_policy :: "retry_policy option"
  fi_next_action :: "string option"
  fi_recovery :: "recovery_state option"
  fi_report_required :: "bool option"

record retry_config =
  rc_ranges :: "(int \<times> int) list"
  rc_max_auto :: nat

definition default_retry_config :: retry_config where
  "default_retry_config = \<lparr>rc_ranges = [(5000, 15000), (15000, 30000), (30000, 50000)], rc_max_auto = 3\<rparr>"

text \<open>\<open>defaultRandomInt\<close>, with \<open>Math.random()\<close> the fraction \<open>k / 2 ^ 53\<close>.\<close>

definition default_random_int :: "nat \<Rightarrow> int \<Rightarrow> int \<Rightarrow> int" where
  "default_random_int k a b = min a b + (int k * (max a b - min a b + 1)) div 2 ^ 53"

definition delay_for_attempt :: "nat \<Rightarrow> (int \<times> int) list \<Rightarrow> nat \<Rightarrow> int" where
  "delay_for_attempt k ranges failures =
     (let range = ranges ! min (failures - 1) (length ranges - 1) in
      default_random_int k (fst range) (snd range))"

type_synonym retry_map = "(string, retry_record) js_map"

definition record_failure ::
  "retry_config \<Rightarrow> time \<Rightarrow> nat \<Rightarrow> string \<Rightarrow> js_error \<Rightarrow> failure_input \<Rightarrow> retry_map \<Rightarrow> retry_record \<times> retry_map" where
  "record_failure cfg now k key e meta m =
     (let norm = normalize_dispatch_failure e (failure_meta.truncate meta);
          prev = map_of m key;
          failures = (case prev of None \<Rightarrow> 0 | Some p \<Rightarrow> rr_failures p) + 1;
          auto = nf_retryable norm \<and> failures \<le> rc_max_auto cfg;
          r = \<lparr>rr_filepath = coalesce (fi_filepath meta) (Option.bind prev rr_filepath),
               rr_task_id = coalesce (fi_task_id meta) (Option.bind prev rr_task_id),
               rr_provider = nf_provider norm, rr_adapter = nf_adapter norm, rr_failures = failures,
               rr_round = (case prev of None \<Rightarrow> 0 | Some p \<Rightarrow> rr_round p),
               rr_last_error = nf_message norm, rr_category = nf_category norm, rr_retryable = nf_retryable norm,
               rr_next_retry = (if auto then Some (now + delay_for_attempt k (rc_ranges cfg) failures) else None),
               rr_decision_required = (\<not> auto),
               rr_admin_decision = Option.bind prev rr_admin_decision,
               rr_force_archived = (case prev of None \<Rightarrow> False | Some p \<Rightarrow> rr_force_archived p),
               rr_first_failed = (case prev of None \<Rightarrow> now | Some p \<Rightarrow> rr_first_failed p),
               rr_last_failed = now, rr_raw_code = nf_raw_code norm, rr_raw_message = Some (nf_message norm),
               rr_fingerprint = coalesce (fi_fingerprint meta) (Option.bind prev rr_fingerprint),
               rr_policy = coalesce (fi_policy meta) (coalesce (Option.bind prev rr_policy)
                  (Some (if nf_retryable norm then Policy_auto else Policy_manual))),
               rr_next_action = coalesce (fi_next_action meta) (Option.bind prev rr_next_action),
               rr_recovery = coalesce (fi_recovery meta) (Option.bind prev rr_recovery),
               rr_report_required = coalesce (fi_report_required meta) (Option.bind prev rr_report_required)\<rparr>
      in (r, AList.update key r m))"

definition record_transient_failure ::
  "retry_config \<Rightarrow> time \<Rightarrow> nat \<Rightarrow> string \<Rightarrow> js_error \<Rightarrow> failure_input \<Rightarrow> retry_map \<Rightarrow> retry_record \<times> retry_map" where
  "record_transient_failure cfg now k key e meta = record_failure cfg now k key e (meta\<lparr>fo_retryable := Some True\<rparr>)"

definition admin_retry :: "time \<Rightarrow> string \<Rightarrow> retry_map \<Rightarrow> retry_record option \<times> retry_map" where
  "admin_retry now key m =
     (case map_of m key of
        None \<Rightarrow> (None, m)
      | Some p \<Rightarrow>
          let r = p\<lparr>rr_failures := 0, rr_round := rr_round p + 1, rr_next_retry := Some now,
                    rr_decision_required := False, rr_force_archived := False,
                    rr_admin_decision := Some Admin_retry\<rparr>
          in (Some r, AList.update key r m))"

definition admin_force_archive :: "string \<Rightarrow> retry_map \<Rightarrow> retry_record option \<times> retry_map" where
  "admin_force_archive key m =
     (case map_of m key of
        None \<Rightarrow> (None, m)
      | Some p \<Rightarrow>
          let r = p\<lparr>rr_next_retry := None, rr_decision_required := False, rr_force_archived := True,
                    rr_admin_decision := Some Admin_force_archive\<rparr>
          in (Some r, AList.update key r m))"

definition clear_retry :: "string \<Rightarrow> retry_map \<Rightarrow> retry_map" where
  "clear_retry key m = AList.delete key m"

definition should_defer_restore :: "time \<Rightarrow> sdk_cooldown \<Rightarrow> string \<Rightarrow> retry_map \<Rightarrow> bool" where
  "should_defer_restore now c key m =
     (case map_of m key of
        None \<Rightarrow> cooldown_active now c
      | Some r \<Rightarrow>
          if rr_force_archived r then True
          else if rr_decision_required r then True
          else if (case rr_next_retry r of None \<Rightarrow> False | Some t \<Rightarrow> now < t) then True
          else cooldown_active now c)"

section \<open>Runs of the registry\<close>

datatype retry_call =
  Call_failure nat string js_error failure_input
| Call_transient_failure nat string js_error failure_input
| Call_admin_retry string
| Call_admin_force_archive string
| Call_clear string

fun retry_step ::
  "retry_config \<Rightarrow> time \<times> retry_call \<Rightarrow> retry_map \<Rightarrow> retry_record option \<times> retry_map" where
  "retry_step cfg (now, Call_failure k key e meta) m = map_prod Some id (record_failure cfg now k key e meta m)"
| "retry_step cfg (now, Call_transient_failure k key e meta) m =
     map_prod Some id (record_transient_failure cfg now k key e meta m)"
| "retry_step cfg (now, Call_admin_retry key) m = admin_retry now key m"
| "retry_step cfg (now, Call_admin_force_archive key) m = admin_force_archive key m"
| "retry_step cfg (now, Call_clear key) m = (None, clear_retry key m)"

definition run_retry :: "retry_config \<Rightarrow> (time \<times> retry_call) list \<Rightarrow> retry_map \<Rightarrow> retry_map" where
  "run_retry cfg cs m = fold (\<lambda>c. snd \<circ> retry_step cfg c) cs m"

text \<open>The failures of \<open>key\<close>, the calls that give it a new budget, and the automatic retries a run schedules.\<close>

fun failure_of :: "string \<Rightarrow> retry_call \<Rightarrow> bool" where
  "failure_of key (Call_failure k key' e meta) \<longleftrightarrow> key' = key"
| "failure_of key (Call_transient_failure k key' e meta) \<longleftrightarrow> key' = key"
| "failure_of key c \<longleftrightarrow> False"

fun resets :: "string \<Rightarrow> retry_call \<Rightarrow> bool" where
  "resets key (Call_admin_retry key') \<longleftrightarrow> key' = key"
| "resets key (Call_clear key') \<longleftrightarrow> key' = key"
| "resets key c \<longleftrightarrow> False"

fun call_key :: "retry_call \<Rightarrow> string" where
  "call_key (Call_failure k key e meta) = key"
| "call_key (Call_transient_failure k key e meta) = key"
| "call_key (Call_admin_retry key) = key"
| "call_key (Call_admin_force_archive key) = key"
| "call_key (Call_clear key) = key"

definition schedules :: "retry_record option \<Rightarrow> bool" where
  "schedules r \<longleftrightarrow> (case r of None \<Rightarrow> False | Some x \<Rightarrow> rr_next_retry x \<noteq> None)"

fun scheduled_retries :: "retry_config \<Rightarrow> string \<Rightarrow> (time \<times> retry_call) list \<Rightarrow> retry_map \<Rightarrow> nat" where
  "scheduled_retries cfg key [] m = 0"
| "scheduled_retries cfg key (c # cs) m =
     of_bool (failure_of key (snd c) \<and> schedules (fst (retry_step cfg c m)))
     + scheduled_retries cfg key cs (snd (retry_step cfg c m))"

definition failures_of :: "string \<Rightarrow> retry_map \<Rightarrow> nat" where
  "failures_of key m = (case map_of m key of None \<Rightarrow> 0 | Some r \<Rightarrow> rr_failures r)"

lemma record_failure_lookup:
  "map_of (snd (record_failure cfg now k key e meta m)) key' =
     (if key' = key then Some (fst (record_failure cfg now k key e meta m)) else map_of m key')"
  by (simp add: record_failure_def Let_def update_conv')

lemma record_failure_record:
  "rr_failures (fst (record_failure cfg now k key e meta m)) = failures_of key m + 1"
  "rr_next_retry (fst (record_failure cfg now k key e meta m)) = Some t
     \<Longrightarrow> Suc (failures_of key m) \<le> rc_max_auto cfg"
  "rr_next_retry (fst (record_failure cfg now k key e meta m)) = Some t
     \<Longrightarrow> t = now + delay_for_attempt k (rc_ranges cfg) (failures_of key m + 1)"
  "rr_decision_required (fst (record_failure cfg now k key e meta m))
     \<longleftrightarrow> rr_next_retry (fst (record_failure cfg now k key e meta m)) = None"
  by (auto simp: record_failure_def failures_of_def Let_def split: option.splits if_splits)

lemma failures_of_record_failure:
  "failures_of key' (snd (record_failure cfg now k key e meta m)) =
     (if key' = key then Suc (failures_of key m) else failures_of key' m)"
  by (simp add: failures_of_def[of _ "snd _"] record_failure_lookup record_failure_record(1))
     (simp add: failures_of_def)

lemma retry_step_other: "call_key (snd c) \<noteq> key \<Longrightarrow> map_of (snd (retry_step cfg c m)) key = map_of m key"
  by (cases "(cfg, c, m)" rule: retry_step.cases)
     (auto simp: record_transient_failure_def record_failure_lookup admin_retry_def admin_force_archive_def
        clear_retry_def update_conv' delete_conv' Let_def split: option.splits)

lemma retry_step_failures:
  "failures_of key (snd (retry_step cfg c m)) =
     (if failure_of key (snd c) then failures_of key m + 1
      else if resets key (snd c) then 0 else failures_of key m)"
proof (cases "call_key (snd c) = key")
  case True
  then show ?thesis
    by (cases "(cfg, c, m)" rule: retry_step.cases)
       (auto simp: failures_of_def record_transient_failure_def record_failure_lookup
          record_failure_record(1) admin_retry_def admin_force_archive_def clear_retry_def update_conv' delete_conv'
          Let_def split: option.splits)
next
  case False
  then have "\<not> failure_of key (snd c)" "\<not> resets key (snd c)" by (cases "snd c"; simp)+
  then show ?thesis using retry_step_other[OF False] by (simp add: failures_of_def)
qed

lemma retry_step_schedules:
  "failure_of key (snd c) \<Longrightarrow> schedules (fst (retry_step cfg c m)) \<Longrightarrow> failures_of key m + 1 \<le> rc_max_auto cfg"
  by (cases "(cfg, c, m)" rule: retry_step.cases)
     (auto simp: schedules_def record_transient_failure_def dest: record_failure_record(2))

lemma scheduled_retries_bound:
  "scheduled_retries cfg key cs m
     \<le> rc_max_auto cfg * length (filter (resets key \<circ> snd) cs) + (rc_max_auto cfg - failures_of key m)"
proof (induction cs arbitrary: m)
  case Nil
  show ?case by simp
next
  case (Cons c cs)
  have excl: "failure_of key (snd c) \<Longrightarrow> \<not> resets key (snd c)" by (cases "snd c"; simp)
  note ih = Cons.IH[of "snd (retry_step cfg c m)", unfolded retry_step_failures]
  show ?case
    using ih excl retry_step_schedules[of key c cfg m]
    by (cases "failure_of key (snd c)"; cases "resets key (snd c)") (auto simp: algebra_simps split: if_splits)
qed

lemma failures_of_empty [simp]: "failures_of key [] = 0"
  by (simp add: failures_of_def)

lemma run_retry_simps [simp]:
  "run_retry cfg [] m = m"
  "run_retry cfg (c # cs) m = run_retry cfg cs (snd (retry_step cfg c m))"
  by (simp_all add: run_retry_def)

text \<open>C22. However failures, decisions of ADMIN and deletions are interleaved, for any tasks, the registry
  schedules at most \<open>maxAutoRetries\<close> automatic retries of a task, and that many again after each
  retry ADMIN asks for and each deletion of its record. The dispatcher deletes the record of a task whenever a session
  for it starts, so the bound is on the retries between two session starts, not on those of the whole life
  of the task.\<close>

theorem auto_retry_budget:
  "scheduled_retries cfg key cs [] \<le> rc_max_auto cfg * (1 + length (filter (resets key \<circ> snd) cs))"
  using scheduled_retries_bound[of cfg key cs "[]"] by simp

text \<open>The resets of this bound are used up in practice: a task whose sessions start and then fail is retried without end,
  since each start deletes the record and each failure, which is recorded as retryable, is again the first.\<close>

lemma transient_failure_schedules:
  "map_of m key = None \<Longrightarrow> 0 < rc_max_auto cfg \<Longrightarrow>
   rr_next_retry (fst (record_transient_failure cfg now k key e meta m)) \<noteq> None"
  by (simp add: record_transient_failure_def record_failure_def normalize_dispatch_failure_def failure_meta.truncate_def Let_def)

lemma starts_renew_budget:
  assumes "map_of m key = None" and "0 < rc_max_auto cfg"
  shows "scheduled_retries cfg key (concat (replicate n [(t, Call_transient_failure k key e meta), (t', Call_clear key)])) m = n"
  using assms(1)
proof (induction n arbitrary: m)
  case (Suc n)
  then show ?case
    using transient_failure_schedules [OF Suc.prems assms(2), of t k e meta]
    by (simp add: schedules_def clear_retry_def delete_conv' split: option.split)
qed simp

lemma delay_bounds:
  assumes "k < 2 ^ 53" "a \<le> b"
  shows "a \<le> default_random_int k a b" "default_random_int k a b \<le> b"
proof -
  have "int k < 2 ^ 53" using assms(1) by (metis of_nat_less_iff of_nat_numeral of_nat_power)
  then have "int k * (b - a + 1) < 2 ^ 53 * (b - a + 1)" using assms(2) by (intro mult_strict_right_mono) simp_all
  then have "int k * (b - a + 1) div 2 ^ 53 < b - a + 1" by (simp add: div_less_iff_less_mult mult.commute)
  then show "default_random_int k a b \<le> b" using assms by (simp add: default_random_int_def)
  show "a \<le> default_random_int k a b"
    using assms by (simp add: default_random_int_def pos_imp_zdiv_nonneg_iff)
qed

text \<open>With the delays the runtime is configured with, an automatic retry is scheduled between 5 and 50
  seconds after the failure, only for a retryable failure and only within the three retries; each
  further failure waits at least as long as the longest wait of the failure before it.\<close>

theorem retry_window:
  assumes "k < 2 ^ 53"
    and "rr_next_retry (fst (record_failure default_retry_config now k key e meta m)) = Some t"
  shows "failures_of key m < 3
    \<and> now + [5000, 15000, 30000] ! failures_of key m \<le> t
    \<and> t \<le> now + [15000, 30000, 50000] ! failures_of key m
    \<and> rr_retryable (fst (record_failure default_retry_config now k key e meta m))"
proof -
  let ?r = "fst (record_failure default_retry_config now k key e meta m)"
  have n: "failures_of key m < 3"
    using record_failure_record(2)[OF assms(2)] by (simp add: default_retry_config_def)
  have t: "t = now + delay_for_attempt k (rc_ranges default_retry_config) (failures_of key m + 1)"
    by (rule record_failure_record(3)[OF assms(2)])
  have r: "rr_retryable ?r" using assms(2) by (auto simp: record_failure_def Let_def split: if_splits)
  have "failures_of key m = 0 \<or> failures_of key m = 1 \<or> failures_of key m = 2" using n by linarith
  then show ?thesis
    using n t r delay_bounds[OF assms(1), of 5000 15000] delay_bounds[OF assms(1), of 15000 30000]
      delay_bounds[OF assms(1), of 30000 50000]
    by (auto simp: delay_for_attempt_def default_retry_config_def min_def)
qed

definition sample_error :: js_error where
  "sample_error = Js_error ''Error'' ''socket hang up'' None None None"

definition sample_failure_input :: failure_input where
  "sample_failure_input =
     \<lparr>fo_provider = None, fo_adapter = None, fo_category = None, fo_retryable = Some True, fo_raw_code = None,
      fi_filepath = None, fi_task_id = None, fi_fingerprint = None, fi_policy = None, fi_next_action = None,
      fi_recovery = None, fi_report_required = None\<rparr>"

theorem retry_window_witness:
  "failures_of ''T'' [] < 3 \<and> (100::int) + 5000 \<le> 5100 \<and> (5100::int) \<le> 100 + 15000"
  using retry_window[of 0 100 "''T''" sample_error sample_failure_input "[]" 5100]
  by (simp add: record_failure_def normalize_dispatch_failure_def failure_meta.defs sample_failure_input_def
      default_retry_config_def delay_for_attempt_def default_random_int_def)

section \<open>Exhausted budgets\<close>

lemma spent_step:
  assumes "rc_max_auto cfg < failures_of key m"
    and "\<exists>r. map_of m key = Some r \<and> (rr_decision_required r \<or> rr_force_archived r)"
    and "\<not> resets key (snd c)"
  shows "rc_max_auto cfg < failures_of key (snd (retry_step cfg c m))
    \<and> (\<exists>r. map_of (snd (retry_step cfg c m)) key = Some r \<and> (rr_decision_required r \<or> rr_force_archived r))"
proof (cases "call_key (snd c) = key")
  case False
  then show ?thesis using retry_step_other[OF False] assms by (simp add: failures_of_def)
next
  case True
  have "rr_decision_required (fst (record_failure cfg now k key e meta m))" for now k e meta
    using record_failure_record(2,4)[where cfg = cfg and now = now and k = k and key = key and e = e and meta = meta and m = m]
      assms(1) by (cases "rr_next_retry (fst (record_failure cfg now k key e meta m))") auto
  then have "\<exists>r. map_of (snd (retry_step cfg c m)) key = Some r \<and> (rr_decision_required r \<or> rr_force_archived r)"
    using True assms(2,3)
    by (cases "(cfg, c, m)" rule: retry_step.cases)
       (auto simp: record_transient_failure_def record_failure_lookup admin_force_archive_def update_conv' Let_def)
  then show ?thesis using retry_step_failures[of key cfg c m] assms by auto
qed

lemma spent_run:
  "\<lbrakk>rc_max_auto cfg < failures_of key m;
    \<exists>r. map_of m key = Some r \<and> (rr_decision_required r \<or> rr_force_archived r);
    \<not> list_ex (resets key \<circ> snd) cs\<rbrakk>
   \<Longrightarrow> \<exists>r. map_of (run_retry cfg cs m) key = Some r \<and> (rr_decision_required r \<or> rr_force_archived r)"
proof (induction cs arbitrary: m)
  case Nil
  then show ?case by simp
next
  case (Cons c cs)
  show ?case using Cons.IH spent_step[OF Cons.prems(1,2), of c] Cons.prems(3) by simp
qed

text \<open>Once a task has failed more often than its automatic retries allow, the registry defers it at every
  time and under any cooldown, through any further calls, until ADMIN asks for a retry or its record is
  deleted.\<close>

theorem spent_budget_waits_for_admin:
  assumes "failures_of key m = rc_max_auto cfg" and "\<not> list_ex (resets key \<circ> snd) cs"
  shows "should_defer_restore t c key (run_retry cfg cs (snd (record_failure cfg now k key e meta m)))"
proof -
  let ?r = "fst (record_failure cfg now k key e meta m)"
  have f: "failures_of key (snd (record_failure cfg now k key e meta m)) = rc_max_auto cfg + 1"
    by (simp add: failures_of_record_failure assms(1))
  have "rr_decision_required ?r"
    using record_failure_record(2,4)[where cfg = cfg and now = now and k = k and key = key and e = e and meta = meta and m = m]
      assms(1) by (cases "rr_next_retry ?r") auto
  then show ?thesis
    using spent_run[of cfg key "snd (record_failure cfg now k key e meta m)" cs] f assms(2)
    by (auto simp: record_failure_lookup should_defer_restore_def)
qed

lemma default_max_auto: "rc_max_auto default_retry_config = 3"
  by (simp add: default_retry_config_def)

definition sample_retry_calls :: "(time \<times> retry_call) list" where
  "sample_retry_calls =
     [(10, Call_failure 0 ''T'' sample_error sample_failure_input), (20, Call_failure 7 ''T'' sample_error sample_failure_input),
      (30, Call_failure 9 ''T'' sample_error sample_failure_input)]"

lemma sample_retry_spent: "failures_of ''T'' (run_retry default_retry_config sample_retry_calls []) = 3"
  by (simp add: sample_retry_calls_def failures_of_record_failure)

theorem spent_budget_waits_for_admin_witness:
  "should_defer_restore 1000000 no_cooldown ''T''
     (run_retry default_retry_config [(50, Call_failure 3 ''T'' sample_error sample_failure_input)]
       (snd (record_failure default_retry_config 40 5 ''T'' sample_error sample_failure_input
               (run_retry default_retry_config sample_retry_calls []))))"
  using spent_budget_waits_for_admin[of "''T''" "run_retry default_retry_config sample_retry_calls []"
      default_retry_config "[(50, Call_failure 3 ''T'' sample_error sample_failure_input)]" 1000000 no_cooldown
      40 5 sample_error sample_failure_input]
  by (simp add: sample_retry_spent default_max_auto)

section \<open>The bounded retry returns\<close>

text \<open>The specification: the first attempt that succeeds or fails for good decides, if it comes within the
  waits; otherwise the last error is reported as delayed.\<close>

definition deciding :: "(nat \<Rightarrow> js_error + 'a) \<Rightarrow> nat \<Rightarrow> bool" where
  "deciding call n \<longleftrightarrow> (case call n of Inr v \<Rightarrow> True | Inl e \<Rightarrow> \<not> is_transient_sdk_error e)"

definition retry_spec :: "(nat \<Rightarrow> js_error + 'a) \<Rightarrow> nat \<Rightarrow> nat \<Rightarrow> 'a retry_outcome \<times> nat" where
  "retry_spec call first waits =
     (case List.find (deciding call) [first ..< first + waits + 1] of
        Some n \<Rightarrow> (case call n of Inr v \<Rightarrow> (Retry_value v (n + 1), n - first) | Inl e \<Rightarrow> (Retry_thrown e, n - first))
      | None \<Rightarrow> (case call (first + waits) of
                   Inl e \<Rightarrow> (Retry_delayed e (first + waits + 1), waits)
                 | Inr v \<Rightarrow> (Retry_value v (first + waits + 1), waits)))"

declare transient_retry.simps [simp del]

lemma transient_retry_spec:
  "\<exists>c'. transient_retry clock call n backoff c =
     (fst (retry_spec call n (length backoff)), take (snd (retry_spec call n (length backoff))) backoff, c')"
proof (induction backoff arbitrary: n c)
  case Nil
  show ?case by (subst transient_retry.simps) (auto simp: retry_spec_def deciding_def split: sum.splits)
next
  case (Cons d ds)
  show ?case
  proof (cases "deciding call n")
    case True
    then show ?thesis
      by (subst transient_retry.simps)
         (auto simp: retry_spec_def deciding_def upt_rec[of n] Let_def simp del: upt.simps split: sum.splits)
  next
    case False
    then obtain e where e: "call n = Inl e" "is_transient_sdk_error e"
      by (auto simp: deciding_def split: sum.splits)
    let ?c1 = "snd (record_from_error (clock n) default_cooldown_ms e c)"
    obtain c' where c': "transient_retry clock call (n + 1) ds ?c1 =
       (fst (retry_spec call (n + 1) (length ds)), take (snd (retry_spec call (n + 1) (length ds))) ds, c')"
      using Cons.IH by blast
    have up: "[n..<n + length (d # ds) + 1] = n # [n + 1..<n + 1 + length ds + 1]" by (simp add: upt_rec)
    have ge: "List.find (deciding call) [n + 1..<n + 1 + length ds + 1] = Some x \<Longrightarrow> n + 1 \<le> x" for x
      using find_SomeD[of "deciding call" "[n + 1..<n + 1 + length ds + 1]" x] by (auto simp del: upt.simps)
    have "fst (retry_spec call n (length (d # ds))) = fst (retry_spec call (n + 1) (length ds))"
      and "snd (retry_spec call n (length (d # ds))) = Suc (snd (retry_spec call (n + 1) (length ds)))"
      using False ge unfolding retry_spec_def up
      by (auto simp del: upt.simps simp: Suc_diff_le split: option.splits sum.splits)
    then show ?thesis
      by (subst transient_retry.simps) (simp add: e c'[simplified] Let_def)
  qed
qed

text \<open>The retry of an SDK call always returns: it makes at most one attempt more than there are waits, its
  outcome is that of the first attempt that succeeds or fails for good, or the last error as delayed, and
  it has waited exactly the first waits up to that attempt.\<close>

theorem transient_retry_exact:
  "(case transient_retry clock call 0 backoff c of (r, waits, c') \<Rightarrow>
      (r, length waits) = retry_spec call 0 (length backoff)
      \<and> waits = take (length waits) backoff)
   \<and> (case fst (transient_retry clock call 0 backoff c) of
        Retry_value v k \<Rightarrow> k \<le> length backoff + 1 \<and> call (k - 1) = Inr v
      | Retry_delayed e k \<Rightarrow> k = length backoff + 1 \<and> is_transient_sdk_error e
      | Retry_thrown e \<Rightarrow> \<not> is_transient_sdk_error e)"
proof -
  obtain c' where c': "transient_retry clock call 0 backoff c =
     (fst (retry_spec call 0 (length backoff)), take (snd (retry_spec call 0 (length backoff))) backoff, c')"
    using transient_retry_spec by blast
  have le: "List.find (deciding call) [0..<length backoff + 1] = Some x \<Longrightarrow> x \<le> length backoff" for x
    using find_SomeD[of "deciding call" "[0..<length backoff + 1]" x] by (auto simp del: upt.simps)
  have dec: "List.find (deciding call) xs = Some x \<Longrightarrow> call x = Inl e \<Longrightarrow> \<not> is_transient_sdk_error e" for xs x e
    using find_SomeD[of "deciding call" xs x] by (auto simp: deciding_def)
  have none: "List.find (deciding call) [0..<length backoff + 1] = None \<Longrightarrow> \<not> deciding call (length backoff)"
    by (simp add: find_None_iff del: upt.simps)
  have len: "snd (retry_spec call 0 (length backoff)) \<le> length backoff"
    using le by (auto simp: retry_spec_def simp del: upt.simps split: option.splits sum.splits)
  show ?thesis
    using c' len le dec none
    by (auto simp: retry_spec_def deciding_def min_absorb2 simp del: upt.simps split: option.splits sum.splits)
qed

end
