(* ===== verification/Task_Parser.thy ===== *)
theory Task_Parser
  imports Lifecycle_Store
begin

text \<open>
  The tolerant reading of task and report files by the scheduler (\<^verbatim>\<open>scheduler/TaskParser.ts\<close>): the
  frontmatter as a dictionary of YAML values, the typed fields taken from it, and the hard boundary
  a task must pass before it is dispatched. The YAML library is the parameter \<open>parse_yaml\<close>: \<open>None\<close> is
  a thrown parse error, and otherwise its value.
\<close>

section \<open>Values\<close>

datatype fm_value =
  V_null
| V_string string
| V_scalar string             \<comment> \<open>a number or a boolean, with its \<open>String(v)\<close>\<close>
| V_list "fm_value list"
| V_object "(string \<times> fm_value) list"

type_synonym frontmatter = "(string, fm_value) js_map"

fun js_join :: "string \<Rightarrow> string list \<Rightarrow> string" where
  "js_join sep [] = []"
| "js_join sep [s] = s"
| "js_join sep (s # t # ss) = s @ sep @ js_join sep (t # ss)"

text \<open>\<open>String(v ?? "")\<close>\<close>

fun fm_text :: "fm_value \<Rightarrow> string" where
  "fm_text V_null = []"
| "fm_text (V_string s) = s"
| "fm_text (V_scalar s) = s"
| "fm_text (V_list vs) = js_join '','' (map fm_text vs)"
| "fm_text (V_object m) = ''[object Object]''"

definition fm_get :: "frontmatter \<Rightarrow> string \<Rightarrow> fm_value" where
  "fm_get fm k = (case map_of fm k of None \<Rightarrow> V_null | Some v \<Rightarrow> v)"

definition pick_string_field :: "frontmatter \<Rightarrow> string \<Rightarrow> string option" where
  "pick_string_field fm k = (case map_of fm k of Some (V_string s) \<Rightarrow> Some s | _ \<Rightarrow> None)"

definition pick_one_of :: "string list \<Rightarrow> frontmatter \<Rightarrow> string \<Rightarrow> string option" where
  "pick_one_of vs fm k =
     (case pick_string_field fm k of None \<Rightarrow> None | Some s \<Rightarrow> if s \<in> set vs then Some s else None)"

section \<open>Lists of task ids\<close>

definition alnum :: "char \<Rightarrow> bool" where
  "alnum c \<longleftrightarrow> (let n = of_char c :: nat in 48 \<le> n \<and> n \<le> 57 \<or> 65 \<le> n \<and> n \<le> 90 \<or> 97 \<le> n \<and> n \<le> 122)"

text \<open>\<open>/TASK-\d{8}-\d{3,}(?:-[A-Za-z0-9]+)*/gi\<close>: the length of the groups after the number, a match at the
  start of a string, and all matches.\<close>

function id_groups :: "string \<Rightarrow> nat" where
  "id_groups s =
     (let w = takeWhile alnum (drop 1 s) in
      if take 1 s = ''-'' \<and> w \<noteq> [] then 1 + length w + id_groups (drop (1 + length w) s) else 0)"
  by pat_completeness auto
termination
proof (relation "measure length")
  fix s w :: string
  assume "take 1 s = ''-'' \<and> w \<noteq> []"
  then show "(drop (1 + length w) s, s) \<in> measure length" by (cases s) auto
qed simp

declare id_groups.simps [simp del]

definition task_ref_at :: "string \<Rightarrow> string option" where
  "task_ref_at s =
     (case task_id_prefix s of
        None \<Rightarrow> None
      | Some p \<Rightarrow> Some (take (length p + id_groups (drop (length p) s)) s))"

function match_task_refs :: "string \<Rightarrow> string list" where
  "match_task_refs s =
     (if s = [] then []
      else case task_ref_at s of
             Some r \<Rightarrow> r # match_task_refs (drop (max 1 (length r)) s)
           | None \<Rightarrow> match_task_refs (tl s))"
  by pat_completeness auto
termination
  by (relation "measure length") auto

declare match_task_refs.simps [simp del]

fun js_split :: "char \<Rightarrow> string \<Rightarrow> string list" where
  "js_split c [] = [[]]"
| "js_split c (x # xs) =
     (if x = c then [] # js_split c xs
      else case js_split c xs of p # ps \<Rightarrow> (x # p) # ps | [] \<Rightarrow> [[x]])"

definition is_quote :: "char \<Rightarrow> bool" where
  "is_quote c \<longleftrightarrow> c = CHR 0x27 \<or> c = CHR 0x22"

text \<open>\<open>s.replace(/^['"]|['"]$/g, "")\<close>\<close>

definition strip_quotes :: "string \<Rightarrow> string" where
  "strip_quotes s =
     (let t = (if s \<noteq> [] \<and> is_quote (hd s) then tl s else s) in
      if t \<noteq> [] \<and> is_quote (last t) then butlast t else t)"

definition non_empty :: "'a list list \<Rightarrow> 'a list list" where
  "non_empty xs = filter (\<lambda>x. x \<noteq> []) xs"

definition some_if_any :: "'a list \<Rightarrow> 'a list option" where
  "some_if_any xs = (if xs = [] then None else Some xs)"

definition absent_list_text :: "string \<Rightarrow> bool" where
  "absent_list_text s \<longleftrightarrow> s = [] \<or> s = ''[]'' \<or> js_lower s = ''null''"

fun fm_string :: "fm_value \<Rightarrow> string option" where
  "fm_string (V_string s) = Some s"
| "fm_string _ = None"

definition pick_string_list :: "frontmatter \<Rightarrow> string \<Rightarrow> string list option" where
  "pick_string_list fm k =
     (case map_of fm k of
        Some (V_string v) \<Rightarrow>
          (let item = js_trim v; ids = match_task_refs item in
           if absent_list_text item then None
           else if ids \<noteq> [] then Some (js_uniq ids)
           else if 2 \<le> length item \<and> hd item = CHR ''['' \<and> last item = CHR '']''
                  \<and> newline \<notin> set item \<and> carriage \<notin> set item
           then some_if_any (non_empty (map (strip_quotes \<circ> js_trim) (js_split (CHR '','') (butlast (tl item)))))
           else Some [item])
      | Some (V_list vs) \<Rightarrow> some_if_any (non_empty (map js_trim (List.map_filter fm_string vs)))
      | _ \<Rightarrow> None)"

section \<open>Parsed files\<close>

record parsed_task =
  pt_filename :: string
  pt_frontmatter :: frontmatter
  pt_body :: string
  pt_task_id :: "string option"
  pt_sender :: "string option"
  pt_recipient :: "string option"
  pt_priority :: "string option"
  pt_thread_key :: "string option"
  pt_layer :: "string option"
  pt_state :: "string option"
  pt_dispatch_state :: "string option"
  pt_depends_on :: "string list option"
  pt_blocked_by :: "string list option"

definition bare_task :: "string \<Rightarrow> string \<Rightarrow> parsed_task" where
  "bare_task filename source =
     \<lparr>pt_filename = filename, pt_frontmatter = [], pt_body = source, pt_task_id = None, pt_sender = None,
      pt_recipient = None, pt_priority = None, pt_thread_key = None, pt_layer = None, pt_state = None,
      pt_dispatch_state = None, pt_depends_on = None, pt_blocked_by = None\<rparr>"

definition task_of_frontmatter :: "string \<Rightarrow> frontmatter \<Rightarrow> string \<Rightarrow> parsed_task" where
  "task_of_frontmatter filename fm body =
     \<lparr>pt_filename = filename, pt_frontmatter = fm, pt_body = body,
      pt_task_id = pick_string_field fm ''task_id'', pt_sender = pick_string_field fm ''sender'',
      pt_recipient = pick_string_field fm ''recipient'',
      pt_priority = pick_one_of [''P0'', ''P1'', ''P2'', ''P3''] fm ''priority'',
      pt_thread_key = pick_string_field fm ''thread_key'',
      pt_layer = pick_one_of [''worker'', ''governance'', ''admin''] fm ''layer'',
      pt_state = pick_string_field fm ''state'', pt_dispatch_state = pick_string_field fm ''dispatch_state'',
      pt_depends_on = pick_string_list fm ''depends_on'', pt_blocked_by = pick_string_list fm ''blocked_by''\<rparr>"

text \<open>\<open>parseYamlOnDisk\<close> on the text of the file; \<open>None\<close> is the \<open>TaskParseError\<close>.\<close>

definition parse_task :: "(string \<Rightarrow> fm_value option) \<Rightarrow> string \<Rightarrow> string \<Rightarrow> parsed_task option" where
  "parse_task parse_yaml filename source =
     (let start = (if js_starts source (''---'' @ [newline]) then 4
                   else if js_starts source (''---'' @ [carriage, newline]) then 5 else 0) in
      if start = 0 then Some (bare_task filename source)
      else case find_closing_delimiter [] (drop start source) of
             None \<Rightarrow> Some (bare_task filename source)
           | Some (yaml, body) \<Rightarrow>
               (case parse_yaml yaml of
                  None \<Rightarrow> None
                | Some (V_object fm) \<Rightarrow> Some (task_of_frontmatter filename fm body)
                | Some _ \<Rightarrow> Some (task_of_frontmatter filename [] body)))"

section \<open>The dispatch boundary\<close>

datatype durable_error =
  Missing_yaml_frontmatter | Invalid_protocol | Missing_field string | Empty_markdown_body
| Sender_filename_mismatch | Recipient_filename_mismatch

definition string_field :: "parsed_task \<Rightarrow> string \<Rightarrow> string" where
  "string_field t k = js_trim (str_of (pick_string_field (pt_frontmatter t) k))"

definition validate_durable_task ::
  "parsed_task \<Rightarrow> string list \<Rightarrow> string option \<Rightarrow> string option \<Rightarrow> durable_error list" where
  "validate_durable_task t required expected_sender expected_recipient =
     (let snd1 = js_trim (str_of expected_sender); rcp1 = js_trim (str_of expected_recipient) in
      js_uniq
        ((if pt_frontmatter t = [] then [Missing_yaml_frontmatter] else [])
         @ (if js_lower (string_field t ''protocol'') \<noteq> ''fcop'' then [Invalid_protocol] else [])
         @ map Missing_field (filter (\<lambda>k. string_field t k = []) ([''sender'', ''recipient''] @ required))
         @ (if js_trim (pt_body t) = [] then [Empty_markdown_body] else [])
         @ (if snd1 \<noteq> [] \<and> string_field t ''sender'' \<noteq> snd1 then [Sender_filename_mismatch] else [])
         @ (if rcp1 \<noteq> [] \<and> string_field t ''recipient'' \<noteq> rcp1 then [Recipient_filename_mismatch] else [])))"

lemma validate_durable_task_Nil:
  "validate_durable_task t required es er = [] \<longleftrightarrow>
     pt_frontmatter t \<noteq> [] \<and> js_lower (string_field t ''protocol'') = ''fcop''
     \<and> (\<forall>k \<in> {''sender'', ''recipient''} \<union> set required. string_field t k \<noteq> [])
     \<and> js_trim (pt_body t) \<noteq> []
     \<and> (js_trim (str_of es) = [] \<or> string_field t ''sender'' = js_trim (str_of es))
     \<and> (js_trim (str_of er) = [] \<or> string_field t ''recipient'' = js_trim (str_of er))"
  unfolding validate_durable_task_def Let_def js_uniq_Nil_iff append_is_Nil_conv map_is_Nil_conv filter_empty_conv
  by auto

lemma task_of_frontmatter_select [simp]:
  "pt_filename (task_of_frontmatter f fm b) = f"
  "pt_frontmatter (task_of_frontmatter f fm b) = fm"
  "pt_body (task_of_frontmatter f fm b) = b"
  "pt_task_id (task_of_frontmatter f fm b) = pick_string_field fm ''task_id''"
  "pt_sender (task_of_frontmatter f fm b) = pick_string_field fm ''sender''"
  "pt_recipient (task_of_frontmatter f fm b) = pick_string_field fm ''recipient''"
  "pt_state (task_of_frontmatter f fm b) = pick_string_field fm ''state''"
  "pt_dispatch_state (task_of_frontmatter f fm b) = pick_string_field fm ''dispatch_state''"
  "pt_depends_on (task_of_frontmatter f fm b) = pick_string_list fm ''depends_on''"
  "pt_blocked_by (task_of_frontmatter f fm b) = pick_string_list fm ''blocked_by''"
  by (simp_all add: task_of_frontmatter_def)

end
