(* ===== verification/Dependency_Gate.thy ===== *)
theory Dependency_Gate
  imports Task_Parser
begin

text \<open>
  The dependency gate of the dispatcher (\<^verbatim>\<open>scheduler/TaskDependencyGate.ts\<close>), which reads the report and
  task files themselves, and the runner that releases the tasks that waited for it
  (\<^verbatim>\<open>scheduler/DependencyReleaseRunner.ts\<close>). A directory is the list of its entries with the parsed
  content, \<open>None\<close> where parsing throws; an unreadable directory is \<open>None\<close>.
\<close>

type_synonym parsed_dir = "(string \<times> parsed_task option) list option"

record project_files =
  pf_reports :: parsed_dir
  pf_stages :: "parsed_dir list"      \<comment> \<open>inbox, active, review, done, archive and \<open>fcop/tasks\<close>\<close>

section \<open>Task ids and references\<close>

definition gate_task_id :: "string \<Rightarrow> string" where
  "gate_task_id v = strip_md (js_trim v)"

definition task_id_key :: "string \<Rightarrow> string" where
  "task_id_key v = js_upper (gate_task_id v)"

text \<open>\<open>/^TASK-/i\<close> and \<open>/-PM-to-(DEV|QA|OPS|EVAL)(?:\.md)?$/i\<close>\<close>

definition is_dispatch_dependency_task_ref :: "string \<Rightarrow> bool" where
  "is_dispatch_dependency_task_ref v \<longleftrightarrow>
     (let norm = js_lower (gate_task_id v) in
      js_starts norm ''task-''
      \<and> list_ex (\<lambda>r. js_ends norm (''-pm-to-'' @ r) \<or> js_ends norm (''-pm-to-'' @ r @ ''.md''))
          [''dev'', ''qa'', ''ops'', ''eval''])"

definition list_field :: "frontmatter \<Rightarrow> string \<Rightarrow> string list" where
  "list_field fm k =
     (case map_of fm k of
        Some (V_string v) \<Rightarrow>
          (let raw = js_trim v in if absent_list_text raw then [] else js_uniq (match_task_refs raw))
      | Some (V_list vs) \<Rightarrow> non_empty (map (\<lambda>v. case fm_string v of Some s \<Rightarrow> js_trim s | None \<Rightarrow> []) vs)
      | _ \<Rightarrow> [])"

definition reference_task_ids :: "parsed_task \<Rightarrow> string list" where
  "reference_task_ids t = map gate_task_id (list_field (pt_frontmatter t) ''references'')"

definition parent_task_id :: "parsed_task \<Rightarrow> string option" where
  "parent_task_id t =
     (case pick_string_field (pt_frontmatter t) ''parent'' of
        Some p \<Rightarrow> if js_trim p \<noteq> [] then Some (gate_task_id p)
                  else (case reference_task_ids t of [] \<Rightarrow> None | r # _ \<Rightarrow> Some r)
      | None \<Rightarrow> (case reference_task_ids t of [] \<Rightarrow> None | r # _ \<Rightarrow> Some r))"

definition role_text :: "string option \<Rightarrow> string" where
  "role_text r = js_upper (js_trim (str_of r))"

definition differs_from_parent :: "parsed_task \<Rightarrow> string \<Rightarrow> bool" where
  "differs_from_parent t ident \<longleftrightarrow>
     \<not> truthy (parent_task_id t) \<or> task_id_key ident \<noteq> task_id_key (str_of (parent_task_id t))"

definition task_has_implicit_dev_dependency_reference :: "parsed_task \<Rightarrow> bool" where
  "task_has_implicit_dev_dependency_reference t \<longleftrightarrow>
     role_text (pt_recipient t) \<in> {''QA'', ''OPS''} \<and> list_ex (differs_from_parent t) (reference_task_ids t)"

definition own_id :: "parsed_task \<Rightarrow> string" where
  "own_id t = or_else (pt_task_id t) (pt_filename t)"

definition collect_dependency_task_ids :: "parsed_task \<Rightarrow> string list" where
  "collect_dependency_task_ids t =
     js_uniq (non_empty (map gate_task_id
       (or_else (pt_depends_on t) [] @ or_else (pt_blocked_by t) []
        @ filter (\<lambda>r. task_id_key r \<noteq> task_id_key (own_id t) \<and> is_dispatch_dependency_task_ref r)
            (reference_task_ids t))))"

definition state_text :: "string option \<Rightarrow> string" where
  "state_text s = js_lower (js_trim (str_of s))"

definition blocking_states :: "string list" where
  "blocking_states = [''staged'']"

definition pending_dependency :: string where
  "pending_dependency = ''pending_dependency''"

definition task_has_explicit_dependency_control :: "parsed_task \<Rightarrow> bool" where
  "task_has_explicit_dependency_control t \<longleftrightarrow>
     state_text (pt_state t) \<in> set blocking_states \<or> state_text (pt_dispatch_state t) \<in> set blocking_states
     \<or> state_text (pt_state t) = pending_dependency \<or> state_text (pt_dispatch_state t) = pending_dependency
     \<or> collect_dependency_task_ids t \<noteq> []"

section \<open>What the project's files say\<close>

text \<open>\<open>/^REPORT-.*\.md$/i\<close> on a file name\<close>

definition is_report_name :: "string \<Rightarrow> bool" where
  "is_report_name n \<longleftrightarrow>
     js_starts (js_lower n) ''report-'' \<and> js_ends (js_lower n) ''.md'' \<and> 10 \<le> length n
     \<and> newline \<notin> set n \<and> carriage \<notin> set n"

definition done_key_of :: "string \<times> parsed_task option \<Rightarrow> string option" where
  "done_key_of e =
     (case snd e of
        None \<Rightarrow> None
      | Some r \<Rightarrow>
          if \<not> is_report_name (fst e) then None
          else case (pick_string_field (pt_frontmatter r) ''task_id'', pick_string_field (pt_frontmatter r) ''status'') of
                 (Some task_id, Some status) \<Rightarrow>
                   if js_lower (js_trim status) = ''done'' then Some (task_id_key task_id) else None
               | _ \<Rightarrow> None)"

definition load_done_dependency_ids :: "project_files \<Rightarrow> string set" where
  "load_done_dependency_ids p =
     (case pf_reports p of None \<Rightarrow> {} | Some es \<Rightarrow> set (List.map_filter done_key_of es))"

definition names_task :: "string \<Rightarrow> string \<times> parsed_task option \<Rightarrow> bool" where
  "names_task ident e \<longleftrightarrow>
     (let stem = task_id_key (gate_task_id (fst e)); key = task_id_key (gate_task_id ident) in
      stem = key \<or> js_starts stem (key @ ''-''))"

fun find_task_by_reference :: "parsed_dir list \<Rightarrow> string \<Rightarrow> parsed_task option" where
  "find_task_by_reference [] ident = None"
| "find_task_by_reference (None # ds) ident = find_task_by_reference ds ident"
| "find_task_by_reference (Some es # ds) ident =
     (case List.find (names_task ident) es of
        Some (_, Some t) \<Rightarrow> Some t
      | _ \<Rightarrow> find_task_by_reference ds ident)"

definition implicit_dependency :: "parsed_task \<Rightarrow> project_files \<Rightarrow> string \<Rightarrow> string option" where
  "implicit_dependency t p reference =
     (if \<not> differs_from_parent t reference then None
      else case find_task_by_reference (pf_stages p) reference of
             None \<Rightarrow> None
           | Some c \<Rightarrow>
               if role_text (pt_sender c) \<noteq> ''PM'' then None
               else if role_text (pt_recipient c) \<noteq> ''DEV'' then None
               else if truthy (parent_task_id t) \<and> truthy (parent_task_id c)
                       \<and> task_id_key (str_of (parent_task_id c)) \<noteq> task_id_key (str_of (parent_task_id t)) then None
               else Some (gate_task_id (own_id c)))"

definition resolve_implicit_dev_dependencies :: "parsed_task \<Rightarrow> project_files option \<Rightarrow> string list" where
  "resolve_implicit_dev_dependencies t project =
     (case project of
        None \<Rightarrow> []
      | Some p \<Rightarrow>
          if \<not> task_has_implicit_dev_dependency_reference t then []
          else js_uniq (List.map_filter (implicit_dependency t p) (reference_task_ids t)))"

section \<open>The gate\<close>

datatype dependency_verdict =
  Dep_allowed "string list"
| Dep_state string
| Dep_dispatch_state string
| Dep_without_dependencies
| Dep_waiting "string list"

definition gate_dependencies :: "parsed_task \<Rightarrow> project_files option \<Rightarrow> string list" where
  "gate_dependencies t project =
     js_uniq (collect_dependency_task_ids t @ resolve_implicit_dev_dependencies t project)"

definition done_ids :: "project_files option \<Rightarrow> string set" where
  "done_ids project = (case project of None \<Rightarrow> {} | Some p \<Rightarrow> load_done_dependency_ids p)"

definition evaluate_task_dependency_gate :: "parsed_task \<Rightarrow> project_files option \<Rightarrow> dependency_verdict" where
  "evaluate_task_dependency_gate t project =
     (let state = state_text (pt_state t); dispatch_state = state_text (pt_dispatch_state t);
          dependencies = gate_dependencies t project in
      if state \<in> set blocking_states then Dep_state state
      else if dispatch_state \<in> set blocking_states then Dep_dispatch_state dispatch_state
      else if dependencies = [] then
        (if state = pending_dependency \<or> dispatch_state = pending_dependency
         then Dep_without_dependencies else Dep_allowed [])
      else
        let pending = filter (\<lambda>d. task_id_key d \<notin> done_ids project) dependencies in
        if pending \<noteq> [] then Dep_waiting pending else Dep_allowed dependencies)"

definition dep_allowed :: "dependency_verdict \<Rightarrow> bool" where
  "dep_allowed v \<longleftrightarrow> (case v of Dep_allowed ds \<Rightarrow> True | _ \<Rightarrow> False)"

section \<open>The release runner\<close>

definition is_dependency_release_candidate :: "parsed_task \<Rightarrow> bool" where
  "is_dependency_release_candidate t \<longleftrightarrow>
     (let release = js_lower (js_trim (fm_text (fm_get (pt_frontmatter t) ''dependency_release_state'')));
          state = state_text (pt_state t); dispatch_state = state_text (pt_dispatch_state t);
          rearmed = (state = pending_dependency \<or> dispatch_state = pending_dependency) in
      if collect_dependency_task_ids t = [] \<and> \<not> task_has_implicit_dev_dependency_reference t then False
      else if release = ''released'' \<and> \<not> rearmed then False
      else if state = ''dispatched'' \<or> state = ''running'' then False
      else if dispatch_state = ''dispatched'' \<or> dispatch_state = ''running'' then False
      else if rearmed then True
      else state = ''inbox'' \<or> state = ''pending'' \<or> state = [])"

text \<open>
  \<open>/^key:/m\<close> and \<open>replace(/^key:.*$/m, line)\<close>: the first line that starts with the key, up to the next
  line terminator; the flag says that the text is at the start of a line.
\<close>

definition line_end :: "char \<Rightarrow> bool" where
  "line_end c \<longleftrightarrow> c = newline \<or> c = carriage"

fun replace_line :: "bool \<Rightarrow> string \<Rightarrow> string \<Rightarrow> string \<Rightarrow> string option" where
  "replace_line at_start key line s =
     (if at_start \<and> js_starts s key then Some (line @ dropWhile (\<lambda>c. \<not> line_end c) s)
      else case s of
             [] \<Rightarrow> None
           | c # cs \<Rightarrow> map_option (Cons c) (replace_line (line_end c) key line cs))"

declare replace_line.simps [simp del]

definition set_line :: "string \<Rightarrow> string \<Rightarrow> string \<Rightarrow> string" where
  "set_line key v body =
     (case replace_line True (key @ '':'') (key @ '': '' @ v) body of
        Some b \<Rightarrow> b
      | None \<Rightarrow> body @ [newline] @ key @ '': '' @ v)"

text \<open>\<open>/^(---\r?\n)([\s\S]*?)(\r?\n---)/\<close>: the opening, the shortest body and the rest from the closing on.\<close>

fun split_close :: "string \<Rightarrow> (string \<times> string) option" where
  "split_close s =
     (if js_starts s ([newline] @ ''---'') \<or> js_starts s ([carriage, newline] @ ''---'') then Some ([], s)
      else case s of [] \<Rightarrow> None | c # cs \<Rightarrow> map_option (map_prod (Cons c) id) (split_close cs))"

declare split_close.simps [simp del]

definition release_fields :: "string \<Rightarrow> string" where
  "release_fields yaml =
     set_line ''dependency_release_state'' ''released''
       (set_line ''dispatch_state'' ''ready'' (set_line ''state'' ''inbox'' yaml))"

text \<open>
  \<open>String.prototype.replace\<close> reads \<open>$\<close> patterns in its replacement string; \<open>m\<close> is the match, \<open>post\<close> the text
  after it (nothing precedes it), \<open>gs\<close> the groups.
\<close>

definition digit_val :: "char \<Rightarrow> nat" where
  "digit_val c = of_char c - 48"

definition capture :: "string list \<Rightarrow> nat \<Rightarrow> string option" where
  "capture gs i = (if 1 \<le> i \<and> i \<le> length gs then Some (gs ! (i - 1)) else None)"

text \<open>The text a reference of at most two digits stands for, and how many characters of the pattern it takes.\<close>

definition digit_ref :: "string list \<Rightarrow> string \<Rightarrow> string \<times> nat" where
  "digit_ref gs s =
     (let ds = take 2 (takeWhile js_digit s); i2 = digit_val (ds ! 0) * 10 + digit_val (ds ! 1);
          two = (length ds = 2 \<and> i2 \<le> length gs) in
      if two then (or_else (capture gs i2) (CHR ''$'' # ds), 2)
      else (or_else (capture gs (digit_val (ds ! 0))) (CHR ''$'' # take 1 ds), 1))"

fun expand_replacement :: "string \<Rightarrow> string \<Rightarrow> string list \<Rightarrow> string \<Rightarrow> string" where
  "expand_replacement m post gs [] = []"
| "expand_replacement m post gs [c] = [c]"
| "expand_replacement m post gs (c # d # s) =
     (if c \<noteq> CHR ''$'' then c # expand_replacement m post gs (d # s)
      else if d = CHR ''$'' then d # expand_replacement m post gs s
      else if d = CHR ''&'' then m @ expand_replacement m post gs s
      else if d = CHR 0x60 then expand_replacement m post gs s
      else if d = CHR 0x27 then post @ expand_replacement m post gs s
      else if js_digit d then
        (case digit_ref gs (d # s) of (t, n) \<Rightarrow>
           if n = 2 then t @ expand_replacement m post gs (tl s) else t @ expand_replacement m post gs s)
      else c # expand_replacement m post gs (d # s))"

lemma expand_without_dollar: "CHR ''$'' \<notin> set s \<Longrightarrow> expand_replacement m post gs s = s"
  by (induction m post gs s rule: expand_replacement.induct) auto

definition close_length :: "string \<Rightarrow> nat" where
  "close_length rest = (if js_starts rest [carriage] then 5 else 4)"

definition patch_task_dependency_release :: "string \<Rightarrow> string" where
  "patch_task_dependency_release raw =
     (let start = (if js_starts raw (''---'' @ [newline]) then 4
                   else if js_starts raw (''---'' @ [carriage, newline]) then 5 else 0) in
      if start = 0 then raw
      else case split_close (drop start raw) of
             None \<Rightarrow> raw
           | Some (yaml, rest) \<Rightarrow>
               let opening = take start raw; close = take (close_length rest) rest; post = drop (close_length rest) rest in
               expand_replacement (opening @ yaml @ close) post [opening, yaml, close]
                 (opening @ release_fields yaml @ close) @ post)"

section \<open>The scan\<close>

definition is_task_name :: "string \<Rightarrow> bool" where
  "is_task_name n \<longleftrightarrow>
     js_starts (js_lower n) ''task-'' \<and> js_ends (js_lower n) ''.md'' \<and> 8 \<le> length n
     \<and> newline \<notin> set n \<and> carriage \<notin> set n"

text \<open>\<open>collectTaskFiles\<close>: a directory is its path and its plain files, \<open>None\<close> when it cannot be read.\<close>

fun collect_task_files :: "string list \<Rightarrow> (string \<times> string list option) list \<Rightarrow> string list" where
  "collect_task_files seen [] = []"
| "collect_task_files seen ((dir, None) # ds) = collect_task_files seen ds"
| "collect_task_files seen ((dir, Some []) # ds) = collect_task_files seen ds"
| "collect_task_files seen ((dir, Some (n # ns)) # ds) =
     (let path = dir @ ''/'' @ n in
      if \<not> is_task_name n \<or> js_lower path \<in> set seen then collect_task_files seen ((dir, Some ns) # ds)
      else path # collect_task_files (js_lower path # seen) ((dir, Some ns) # ds))"

record released_task =
  rl_task_id :: string
  rl_filename :: string
  rl_filepath :: string
  rl_recipient :: string
  rl_dependencies :: "string list"

text \<open>
  One file of the loop of \<open>releasePendingDependencyTasks\<close>. The files are the texts by path, \<open>parse\<close> the
  parser, \<open>view\<close> what the gate sees of the project when it reads it.
\<close>

definition release_one ::
  "(string \<Rightarrow> string \<Rightarrow> parsed_task option) \<Rightarrow> ((string, string) js_map \<Rightarrow> project_files) \<Rightarrow> string
     \<Rightarrow> (string, string) js_map \<Rightarrow> released_task option \<times> (string, string) js_map" where
  "release_one parse view path files =
     (case Option.bind (map_of files path) (parse path) of
        None \<Rightarrow> (None, files)
      | Some t \<Rightarrow>
          if \<not> is_dependency_release_candidate t then (None, files)
          else case evaluate_task_dependency_gate t (Some (view files)) of
                 Dep_allowed ds \<Rightarrow>
                   if \<not> truthy (pt_recipient t) then (None, files)
                   else (Some \<lparr>rl_task_id = or_else (pt_task_id t) (strip_md (pt_filename t)),
                               rl_filename = pt_filename t, rl_filepath = path,
                               rl_recipient = str_of (pt_recipient t), rl_dependencies = ds\<rparr>,
                         AList.update path (patch_task_dependency_release (str_of (map_of files path))) files)
               | _ \<Rightarrow> (None, files))"

fun release_scan ::
  "(string \<Rightarrow> string \<Rightarrow> parsed_task option) \<Rightarrow> ((string, string) js_map \<Rightarrow> project_files) \<Rightarrow> string list
     \<Rightarrow> (string, string) js_map \<Rightarrow> released_task list \<times> (string, string) js_map" where
  "release_scan parse view [] files = ([], files)"
| "release_scan parse view (path # paths) files =
     (case release_one parse view path files of (r, files1) \<Rightarrow>
        case release_scan parse view paths files1 of (rs, files2) \<Rightarrow>
          ((case r of None \<Rightarrow> rs | Some x \<Rightarrow> x # rs), files2))"

definition release_pending_dependency_tasks ::
  "(string \<Rightarrow> string \<Rightarrow> parsed_task option) \<Rightarrow> ((string, string) js_map \<Rightarrow> project_files)
     \<Rightarrow> (string \<times> string list option) list \<Rightarrow> (string, string) js_map \<Rightarrow> released_task list \<times> (string, string) js_map" where
  "release_pending_dependency_tasks parse view dirs files =
     release_scan parse view (collect_task_files [] dirs) files"

section \<open>When the gate opens\<close>

definition reports_done :: "string \<Rightarrow> string \<times> parsed_task option \<Rightarrow> bool" where
  "reports_done d e \<longleftrightarrow>
     is_report_name (fst e)
     \<and> (case snd e of
          None \<Rightarrow> False
        | Some r \<Rightarrow>
            map_option task_id_key (pick_string_field (pt_frontmatter r) ''task_id'') = Some (task_id_key d)
            \<and> map_option (\<lambda>s. js_lower (js_trim s)) (pick_string_field (pt_frontmatter r) ''status'') = Some ''done'')"

definition report_entries :: "project_files option \<Rightarrow> (string \<times> parsed_task option) list" where
  "report_entries project = or_else (Option.bind project pf_reports) []"

lemma done_key_of_iff: "done_key_of e = Some (task_id_key d) \<longleftrightarrow> reports_done d e"
  by (auto simp: done_key_of_def reports_done_def split: option.splits)

lemma map_filter_mem: "y \<in> set (List.map_filter f xs) \<longleftrightarrow> (\<exists>x \<in> set xs. f x = Some y)"
  by (induction xs) (auto simp: List.map_filter_simps split: option.splits)

lemma done_ids_iff: "task_id_key d \<in> done_ids project \<longleftrightarrow> list_ex (reports_done d) (report_entries project)"
  by (auto simp: done_ids_def load_done_dependency_ids_def report_entries_def map_filter_mem list_ex_iff
      done_key_of_iff split: option.splits)

text \<open>C37. The dependency gate lets a task through exactly when neither of its states is staged, every task it
  depends on (explicitly, by a reference to a task of a worker, or as the implicit development task of a test
  or operations task) has a report file of its own with the status done, and a task that says it waits for
  a dependency has one.\<close>

theorem dependency_gate_iff:
  "dep_allowed (evaluate_task_dependency_gate t project) \<longleftrightarrow>
     state_text (pt_state t) \<noteq> ''staged'' \<and> state_text (pt_dispatch_state t) \<noteq> ''staged''
     \<and> list_all (\<lambda>d. list_ex (reports_done d) (report_entries project)) (gate_dependencies t project)
     \<and> \<not> (gate_dependencies t project = []
          \<and> (state_text (pt_state t) = ''pending_dependency'' \<or> state_text (pt_dispatch_state t) = ''pending_dependency''))"
  unfolding evaluate_task_dependency_gate_def Let_def dep_allowed_def blocking_states_def pending_dependency_def
    list_all_iff done_ids_iff[symmetric]
  by (auto simp: filter_empty_conv)

section \<open>What a release writes\<close>

text \<open>The first line that starts with the given text.\<close>

fun line_of :: "bool \<Rightarrow> string \<Rightarrow> string \<Rightarrow> string option" where
  "line_of at_start key s =
     (if at_start \<and> js_starts s key then Some (takeWhile (\<lambda>c. \<not> line_end c) s)
      else case s of [] \<Rightarrow> None | c # cs \<Rightarrow> line_of (line_end c) key cs)"

declare line_of.simps [simp del]

definition one_line :: "string \<Rightarrow> bool" where
  "one_line s \<longleftrightarrow> list_all (\<lambda>c. \<not> line_end c) s"

lemma js_starts_same: "js_starts s p \<longleftrightarrow> (\<exists>r. s = p @ r)"
  by (metis append_eq_conv_conj append_take_drop_id js_starts_def)

lemma js_starts_append: "js_starts k p \<Longrightarrow> js_starts (k @ s) p"
  by (auto simp: js_starts_same)

lemma one_line_cut:
  "one_line l \<Longrightarrow> takeWhile (\<lambda>c. \<not> line_end c) (l @ dropWhile (\<lambda>c. \<not> line_end c) s) = l"
  unfolding one_line_def by (induction l) (use hd_dropWhile[of "\<lambda>c. \<not> line_end c" s] in \<open>auto simp: takeWhile_eq_Nil_iff\<close>)

lemma line_of_rest: "line_of False key (l @ s) = line_of False key s" if "one_line l"
  using that unfolding one_line_def by (induction l) (simp_all add: line_of.simps[of _ _ "_ # _"])

lemma replace_line_None: "replace_line a key l s = None \<longleftrightarrow> line_of a key s = None"
proof (induction s arbitrary: a)
  case Nil
  show ?case by (subst replace_line.simps, subst line_of.simps) simp
next
  case (Cons c cs)
  show ?case by (subst replace_line.simps, subst line_of.simps) (simp add: Cons.IH)
qed

lemma replace_line_Cons:
  "\<not> (a \<and> js_starts s key) \<Longrightarrow> replace_line a key l s = Some b \<longleftrightarrow>
     (\<exists>c cs b'. s = c # cs \<and> b = c # b' \<and> replace_line (line_end c) key l cs = Some b')"
  by (subst replace_line.simps) (auto split: list.splits)

lemma replace_line_first_line:
  "replace_line False key l s = Some b \<Longrightarrow> takeWhile (\<lambda>c. \<not> line_end c) b = takeWhile (\<lambda>c. \<not> line_end c) s"
proof (induction s arbitrary: b)
  case Nil
  then show ?case by (simp add: replace_line_Cons)
next
  case (Cons c cs)
  then obtain b' where b': "b = c # b'" "replace_line (line_end c) key l cs = Some b'"
    by (auto simp: replace_line_Cons)
  show ?case using Cons.IH[of b'] b' by (cases "line_end c") auto
qed

lemma js_starts_line: "one_line k \<Longrightarrow> js_starts s k \<longleftrightarrow> js_starts (takeWhile (\<lambda>c. \<not> line_end c) s) k"
proof (induction k arbitrary: s)
  case Nil
  show ?case by (simp add: js_starts_def)
next
  case (Cons c k)
  then show ?case by (cases s) (auto simp: js_starts_same one_line_def)
qed

lemma replace_line_kept:
  assumes "replace_line a key l s = Some b" "\<not> (a \<and> js_starts s key)" "one_line k"
  shows "js_starts b k \<longleftrightarrow> js_starts s k"
proof -
  obtain c cs b' where s: "s = c # cs" "b = c # b'" "replace_line (line_end c) key l cs = Some b'"
    using assms(1) unfolding replace_line_Cons[OF assms(2)] by blast
  have "takeWhile (\<lambda>c. \<not> line_end c) b = takeWhile (\<lambda>c. \<not> line_end c) s"
    using s replace_line_first_line[of key l cs b'] by (cases "line_end c") auto
  then show ?thesis using js_starts_line[OF assms(3)] by metis
qed

lemma line_of_Cons:
  "line_of a key (c # s) =
     (if a \<and> js_starts (c # s) key then Some (takeWhile (\<lambda>c. \<not> line_end c) (c # s)) else line_of (line_end c) key s)"
  by (subst line_of.simps) auto

lemma line_of_skip: "\<not> (a \<and> js_starts (c # s) key) \<Longrightarrow> line_of a key (c # s) = line_of (line_end c) key s"
  by (auto simp: line_of_Cons)

lemma replace_line_own:
  "\<lbrakk>replace_line a key l s = Some b; js_starts l key; one_line l; one_line key\<rbrakk> \<Longrightarrow> line_of a key b = Some l"
proof (induction s arbitrary: a b)
  case Nil
  then have "a \<and> js_starts [] key" "b = l" by (simp_all add: replace_line.simps split: if_splits)
  then show ?case
    using Nil.prems(2,3) one_line_cut[of l "[]"] by (simp add: line_of.simps)
next
  case (Cons c cs)
  show ?case
  proof (cases "a \<and> js_starts (c # cs) key")
    case True
    then have b: "b = l @ dropWhile (\<lambda>c. \<not> line_end c) (c # cs)"
      using Cons.prems(1) by (simp add: replace_line.simps)
    show ?thesis
      using True Cons.prems(2) unfolding b
      by (subst line_of.simps) (simp add: js_starts_append one_line_cut[OF Cons.prems(3)] del: dropWhile.simps)
  next
    case False
    then obtain b' where b: "b = c # b'" "replace_line (line_end c) key l cs = Some b'"
      using Cons.prems(1) by (auto simp: replace_line_Cons)
    have "\<not> (a \<and> js_starts (c # b') key)"
      using replace_line_kept[OF Cons.prems(1) False Cons.prems(4)] False b by blast
    then show ?thesis using Cons.IH[OF b(2) Cons.prems(2-4)] by (simp add: b(1) line_of_skip)
  qed
qed

lemma line_of_cut: "line_of False k (dropWhile (\<lambda>c. \<not> line_end c) s) = line_of False k s"
  by (induction s) (simp_all add: line_of.simps[of _ _ "_ # _"])

lemma replace_line_other:
  "\<lbrakk>replace_line a key l s = Some b; one_line l; js_starts l key; one_line k;
    \<not> js_starts l k; \<not> js_starts key k; \<not> js_starts k key; k \<noteq> []\<rbrakk> \<Longrightarrow> line_of a k b = line_of a k s"
proof (induction s arbitrary: a b)
  case Nil
  then show ?case by (subst (asm) replace_line.simps) (auto simp: js_starts_same split: if_splits)
next
  case (Cons c cs)
  show ?case
  proof (cases "a \<and> js_starts (c # cs) key")
    case True
    then have b: "b = l @ dropWhile (\<lambda>c. \<not> line_end c) (c # cs)"
      using Cons.prems(1) by (simp add: replace_line.simps)
    have nk: "\<not> js_starts s k" if "js_starts s key" for s
      using that Cons.prems(6,7) by (auto simp: js_starts_same append_eq_append_conv2)
    obtain x xs where l: "l = x # xs" using Cons.prems(3,7) by (cases l) (auto simp: js_starts_same)
    have "\<not> line_end x" "one_line xs" using Cons.prems(2) l by (simp_all add: one_line_def)
    have kb: "\<not> js_starts b k" using Cons.prems(3) nk js_starts_append unfolding b by blast
    have "line_of a k b = line_of False k (xs @ dropWhile (\<lambda>c. \<not> line_end c) (c # cs))"
      using kb \<open>\<not> line_end x\<close> unfolding b l by (simp add: line_of_skip del: dropWhile.simps)
    also have "\<dots> = line_of False k (dropWhile (\<lambda>c. \<not> line_end c) (c # cs))"
      by (rule line_of_rest[OF \<open>one_line xs\<close>])
    also have "\<dots> = line_of False k (c # cs)" by (rule line_of_cut)
    also have "\<dots> = line_of a k (c # cs)" using nk[of "c # cs"] True by (simp add: line_of_skip)
    finally show ?thesis .
  next
    case False
    then obtain b' where b: "b = c # b'" "replace_line (line_end c) key l cs = Some b'"
      using Cons.prems(1) by (auto simp: replace_line_Cons)
    have "js_starts (c # b') k \<longleftrightarrow> js_starts (c # cs) k"
      using replace_line_kept[OF Cons.prems(1) False Cons.prems(4)] b by blast
    moreover have "takeWhile (\<lambda>c. \<not> line_end c) (c # b') = takeWhile (\<lambda>c. \<not> line_end c) (c # cs)"
      using replace_line_first_line[of key l cs b'] b(2) by (cases "line_end c") auto
    ultimately show ?thesis
      using Cons.IH[OF b(2) Cons.prems(2-)] unfolding b(1) line_of_Cons by presburger
  qed
qed

lemma line_of_append:
  assumes "one_line k"
  shows "line_of a k (s @ newline # t) = (case line_of a k s of Some x \<Rightarrow> Some x | None \<Rightarrow> line_of True k t)"
proof (induction s arbitrary: a)
  case Nil
  have "js_starts (newline # t) k \<longleftrightarrow> k = []"
    using assms by (cases k) (auto simp: js_starts_same one_line_def line_end_def)
  then show ?case
    by (cases "a \<and> k = []") (auto simp: line_of_Cons line_of.simps[of _ _ "[]"] js_starts_same line_end_def)
next
  case (Cons c s)
  have tw: "takeWhile (\<lambda>c. \<not> line_end c) (c # s @ newline # t) = takeWhile (\<lambda>c. \<not> line_end c) (c # s)"
    by (induction s arbitrary: c) (auto simp: line_end_def)
  then have "js_starts (c # s @ newline # t) k \<longleftrightarrow> js_starts (c # s) k"
    using js_starts_line[OF assms] by metis
  then show ?case using tw by (simp add: line_of_Cons Cons.IH del: takeWhile.simps)
qed

lemma line_of_one_line: "one_line l \<Longrightarrow> line_of True k l = (if js_starts l k then Some l else None)"
proof (cases "js_starts l k")
  case True
  assume "one_line l"
  then have "takeWhile (\<lambda>c. \<not> line_end c) l = l" by (simp add: one_line_def takeWhile_eq_all_conv list_all_iff)
  then show ?thesis using True by (subst line_of.simps) simp
next
  case False
  assume l: "one_line l"
  have "line_of False k l = None" using line_of_rest[OF l, of k "[]"] by (simp add: line_of.simps)
  then show ?thesis using False l by (cases l) (simp_all add: line_of.simps[of _ _ "[]"] line_of_Cons one_line_def)
qed

text \<open>Two keys no line can start with both of.\<close>

definition apart :: "string \<Rightarrow> string \<Rightarrow> bool" where
  "apart k k' \<longleftrightarrow> \<not> js_starts k k' \<and> \<not> js_starts k' k"

lemma set_line_own:
  assumes "one_line key" "one_line v"
  shows "line_of True (key @ '':'') (set_line key v body) = Some (key @ '': '' @ v)"
proof -
  have k: "one_line (key @ '':'')" "one_line (key @ '': '' @ v)" "js_starts (key @ '': '' @ v) (key @ '':'')"
    using assms by (auto simp: one_line_def line_end_def js_starts_same)
  show ?thesis
    using replace_line_own[OF _ k(3,2,1), of True body]
    by (auto simp: set_line_def replace_line_None line_of_append[OF k(1), simplified] line_of_one_line[OF k(2), simplified]
        k(3)[simplified] split: option.splits)
qed

lemma set_line_other:
  assumes "one_line key" "one_line v" "one_line k" "apart (key @ '':'') k" "k \<noteq> []"
  shows "line_of True k (set_line key v body) = line_of True k body"
proof -
  have l: "one_line (key @ '': '' @ v)" "js_starts (key @ '': '' @ v) (key @ '':'')"
    using assms(1,2) by (auto simp: one_line_def line_end_def js_starts_same)
  have n: "\<not> js_starts (key @ '': '' @ v) k"
  proof
    assume "js_starts (key @ '': '' @ v) k"
    then obtain r where "(key @ '':'') @ '' '' @ v = k @ r" by (auto simp: js_starts_same)
    then show False using assms(4) unfolding apart_def js_starts_same append_eq_append_conv2 by metis
  qed
  show ?thesis
    using replace_line_other[OF _ l assms(3) n, of True body] assms(4,5)
    by (auto simp: set_line_def apart_def line_of_append[OF assms(3), simplified] line_of_one_line[OF l(1), simplified]
        n[simplified] split: option.splits)
qed

lemma release_keys:
  "one_line ''state''" "one_line ''dispatch_state''" "one_line ''dependency_release_state''"
  "one_line ''inbox''" "one_line ''ready''" "one_line ''released''"
  "one_line ''state:''" "one_line ''dispatch_state:''" "one_line ''dependency_release_state:''"
  "apart ''dispatch_state:'' ''state:''" "apart ''dependency_release_state:'' ''state:''"
  "apart ''dependency_release_state:'' ''dispatch_state:''"
  by (simp_all add: one_line_def line_end_def apart_def js_starts_def)

lemma release_fields_lines:
  "line_of True ''state:'' (release_fields yaml) = Some ''state: inbox''"
  "line_of True ''dispatch_state:'' (release_fields yaml) = Some ''dispatch_state: ready''"
  "line_of True ''dependency_release_state:'' (release_fields yaml) = Some ''dependency_release_state: released''"
  using set_line_own[OF release_keys(1,4)] set_line_own[OF release_keys(2,5)] set_line_own[OF release_keys(3,6)]
    set_line_other[OF release_keys(2,5,7)] set_line_other[OF release_keys(3,6,7)] set_line_other[OF release_keys(3,6,8)]
  by (simp_all add: release_fields_def release_keys)

lemma release_fields_other:
  assumes "one_line k" "k \<noteq> []" "apart ''state:'' k" "apart ''dispatch_state:'' k" "apart ''dependency_release_state:'' k"
  shows "line_of True k (release_fields yaml) = line_of True k yaml"
  using set_line_other[OF release_keys(1,4) assms(1) _ assms(2)] set_line_other[OF release_keys(2,5) assms(1) _ assms(2)]
    set_line_other[OF release_keys(3,6) assms(1) _ assms(2)] assms(3-5)
  by (simp add: release_fields_def)

lemma close_length_close:
  "close \<in> {[newline] @ ''---'', [carriage, newline] @ ''---''} \<Longrightarrow> close_length (close @ post) = length close"
  by (auto simp: close_length_def js_starts_def)

lemma patch_shape:
  assumes "opening \<in> {''---'' @ [newline], ''---'' @ [carriage, newline]}"
    and "close \<in> {[newline] @ ''---'', [carriage, newline] @ ''---''}"
    and "split_close (yaml @ close @ post) = Some (yaml, close @ post)"
  shows "patch_task_dependency_release (opening @ yaml @ close @ post) =
     expand_replacement (opening @ yaml @ close) post [opening, yaml, close] (opening @ release_fields yaml @ close) @ post"
proof -
  have "close_length (close @ post) = length close" by (rule close_length_close[OF assms(2)])
  then show ?thesis
    using assms(1,3) by (auto simp: patch_task_dependency_release_def js_starts_def Let_def)
qed

lemma replace_line_set: "replace_line a key l s = Some b \<Longrightarrow> set b \<subseteq> set s \<union> set l"
proof (induction s arbitrary: a b)
  case Nil
  then show ?case by (auto simp: replace_line.simps split: if_splits)
next
  case (Cons c cs)
  show ?case
  proof (cases "a \<and> js_starts (c # cs) key")
    case True
    then have "b = l @ dropWhile (\<lambda>c. \<not> line_end c) (c # cs)" using Cons.prems by (simp add: replace_line.simps)
    then show ?thesis using set_dropWhileD[of _ "\<lambda>c. \<not> line_end c" "c # cs"] by (auto simp del: dropWhile.simps)
  next
    case False
    with Cons show ?thesis by (fastforce simp: replace_line_Cons[OF False])
  qed
qed

lemma set_set_line: "set (set_line key v body) \<subseteq> set body \<union> set key \<union> set v \<union> {CHR '':'', CHR '' '', newline}"
  by (auto simp: set_line_def dest!: replace_line_set split: option.splits)

lemma release_fields_no_dollar: "CHR ''$'' \<notin> set yaml \<Longrightarrow> CHR ''$'' \<notin> set (release_fields yaml)"
  using set_set_line[of "''state''" "''inbox''" yaml]
    set_set_line[of "''dispatch_state''" "''ready''" "set_line ''state'' ''inbox'' yaml"]
    set_set_line[of "''dependency_release_state''" "''released''" "set_line ''dispatch_state'' ''ready'' (set_line ''state'' ''inbox'' yaml)"]
  by (auto simp: release_fields_def)

text \<open>Releasing a task rewrites its file text so that the first lines of the keys \<open>state\<close>,
  \<open>dispatch_state\<close> and \<open>dependency_release_state\<close> say inbox, ready and released; the first line of every
  other key, the delimiters and the body stay as they were, when the frontmatter has no dollar sign.\<close>

theorem release_patch_fields:
  assumes "opening \<in> {''---'' @ [newline], ''---'' @ [carriage, newline]}"
    and "close \<in> {[newline] @ ''---'', [carriage, newline] @ ''---''}"
    and "split_close (yaml @ close @ post) = Some (yaml, close @ post)" and "CHR ''$'' \<notin> set yaml"
    and "one_line k" and "k \<noteq> []" and "apart ''state:'' k" and "apart ''dispatch_state:'' k"
    and "apart ''dependency_release_state:'' k"
  shows "\<exists>yaml'. patch_task_dependency_release (opening @ yaml @ close @ post) = opening @ yaml' @ close @ post
     \<and> line_of True ''state:'' yaml' = Some ''state: inbox''
     \<and> line_of True ''dispatch_state:'' yaml' = Some ''dispatch_state: ready''
     \<and> line_of True ''dependency_release_state:'' yaml' = Some ''dependency_release_state: released''
     \<and> line_of True k yaml' = line_of True k yaml"
proof -
  have "CHR ''$'' \<notin> set (opening @ release_fields yaml @ close)"
    using assms(1,2) release_fields_no_dollar[OF assms(4)] by auto
  then show ?thesis
    using patch_shape[OF assms(1-3)] release_fields_lines release_fields_other[OF assms(5-9)]
    by (simp add: expand_without_dollar)
qed

definition sample_yaml :: string where
  "sample_yaml = ''state: pending_dependency'' @ [newline] @ ''recipient: QA''"

theorem release_patch_fields_witness:
  "\<exists>yaml'. patch_task_dependency_release
       (''---'' @ [newline] @ sample_yaml @ [newline] @ ''---'' @ [newline] @ ''Run the tests.'')
       = ''---'' @ [newline] @ yaml' @ [newline] @ ''---'' @ [newline] @ ''Run the tests.''
     \<and> line_of True ''state:'' yaml' = Some ''state: inbox''
     \<and> line_of True ''recipient:'' yaml' = line_of True ''recipient:'' sample_yaml"
proof -
  have 1: "split_close (sample_yaml @ ([newline] @ ''---'') @ [newline] @ ''Run the tests.'')
      = Some (sample_yaml, ([newline] @ ''---'') @ [newline] @ ''Run the tests.'')" by code_simp
  have 2: "CHR ''$'' \<notin> set sample_yaml" "one_line ''recipient:''" "apart ''state:'' ''recipient:''"
    "apart ''dispatch_state:'' ''recipient:''" "apart ''dependency_release_state:'' ''recipient:''"
    by code_simp+
  show ?thesis
    using release_patch_fields[OF _ _ 1 2(1,2) _ 2(3,4,5), of "''---'' @ [newline]"] by auto
qed

text \<open>The \<open>$\<close> patterns of the replacement string are read in the frontmatter too: a release loses one of two dollar
  signs of a subject line.\<close>

lemma release_loses_dollar:
  "patch_task_dependency_release (''---'' @ [newline] @ ''subject: a$$b'' @ [newline] @ ''---'') =
     ''---'' @ [newline] @ ''subject: a$b'' @ [newline] @ ''state: inbox'' @ [newline] @ ''dispatch_state: ready''
     @ [newline] @ ''dependency_release_state: released'' @ [newline] @ ''---''"
  by code_simp

section \<open>What a scan releases\<close>

text \<open>A release changes no report and neither the ids, the routes nor the parents of tasks, which is all the gate
  reads of the project: the scan sees one and the same project.\<close>

definition releasable ::
  "(string \<Rightarrow> string \<Rightarrow> parsed_task option) \<Rightarrow> project_files \<Rightarrow> string \<Rightarrow> string \<Rightarrow> bool" where
  "releasable parse p path raw \<longleftrightarrow>
     (case parse path raw of
        None \<Rightarrow> False
      | Some t \<Rightarrow> is_dependency_release_candidate t \<and> dep_allowed (evaluate_task_dependency_gate t (Some p))
                  \<and> truthy (pt_recipient t))"

definition holds_releasable ::
  "(string \<Rightarrow> string \<Rightarrow> parsed_task option) \<Rightarrow> project_files \<Rightarrow> (string, string) js_map \<Rightarrow> string \<Rightarrow> bool" where
  "holds_releasable parse p files path \<longleftrightarrow>
     (case map_of files path of None \<Rightarrow> False | Some raw \<Rightarrow> releasable parse p path raw)"

lemma release_one_released:
  "holds_releasable parse p files path \<Longrightarrow>
     \<exists>r. release_one parse (\<lambda>_. p) path files =
           (Some r, AList.update path (patch_task_dependency_release (str_of (map_of files path))) files)
         \<and> rl_filepath r = path"
  by (auto simp: release_one_def holds_releasable_def releasable_def dep_allowed_def
      split: option.splits dependency_verdict.splits)

lemma release_one_kept:
  "\<not> holds_releasable parse p files path \<Longrightarrow> release_one parse (\<lambda>_. p) path files = (None, files)"
  by (auto simp: release_one_def holds_releasable_def releasable_def dep_allowed_def
      split: option.splits dependency_verdict.splits)

lemma release_one_cases:
  obtains (released) r where "release_one parse (\<lambda>_. p) path files =
        (Some r, AList.update path (patch_task_dependency_release (str_of (map_of files path))) files)"
      "rl_filepath r = path" "holds_releasable parse p files path"
    | (kept) "release_one parse (\<lambda>_. p) path files = (None, files)" "\<not> holds_releasable parse p files path"
  using release_one_released[of parse p files path] release_one_kept[of parse p files path] by blast

lemma release_scan_exact:
  "distinct paths \<Longrightarrow> release_scan parse (\<lambda>_. p) paths files = (rs, files') \<Longrightarrow>
     (path \<in> rl_filepath ` set rs \<longleftrightarrow> path \<in> set paths \<and> holds_releasable parse p files path)
     \<and> map_of files' path =
         (if path \<in> rl_filepath ` set rs then map_option patch_task_dependency_release (map_of files path)
          else map_of files path)"
proof (induction paths arbitrary: files rs)
  case (Cons q qs)
  obtain rs1 where rec: "release_scan parse (\<lambda>_. p) qs (snd (release_one parse (\<lambda>_. p) q files)) = (rs1, files')"
    "rs = (case fst (release_one parse (\<lambda>_. p) q files) of None \<Rightarrow> rs1 | Some x \<Rightarrow> x # rs1)"
    using Cons.prems(2) by (auto split: prod.splits)
  show ?case
  proof (cases rule: release_one_cases[of parse p q files])
    case (released r)
    have "map_of (snd (release_one parse (\<lambda>_. p) q files)) q = Some (patch_task_dependency_release (str_of (map_of files q)))"
      "q \<noteq> path \<Longrightarrow> map_of (snd (release_one parse (\<lambda>_. p) q files)) path = map_of files path"
      using released(1) by simp_all
    then show ?thesis
      using Cons.IH[OF _ rec(1)] Cons.prems(1) rec(2) released
      by (cases "q = path") (auto simp: holds_releasable_def split: option.splits)
  next
    case kept
    then show ?thesis using Cons.IH[of files rs1] Cons.prems(1) rec by auto
  qed
qed simp

lemma collect_task_files_fresh:
  "distinct (map js_lower (collect_task_files seen dirs)) \<and> js_lower ` set (collect_task_files seen dirs) \<inter> set seen = {}"
  by (induction seen dirs rule: collect_task_files.induct) (auto simp: Let_def)

text \<open>One scan releases exactly the task files of the scanned directories that are waiting for dependencies,
  name a recipient and pass the gate; it rewrites those with the release patch and no other file.\<close>

theorem release_scan_releases:
  "case release_pending_dependency_tasks parse (\<lambda>_. p) dirs files of (rs, files') \<Rightarrow>
     (path \<in> rl_filepath ` set rs \<longleftrightarrow> path \<in> set (collect_task_files [] dirs) \<and> holds_releasable parse p files path)
     \<and> map_of files' path =
         (if path \<in> rl_filepath ` set rs then map_option patch_task_dependency_release (map_of files path)
          else map_of files path)"
proof -
  have "distinct (collect_task_files [] dirs)"
    using collect_task_files_fresh[of "[]" dirs] distinct_map by blast
  then show ?thesis
    unfolding release_pending_dependency_tasks_def
    using release_scan_exact[of "collect_task_files [] dirs" parse p files] by (auto split: prod.splits)
qed

end
