(* ===== verification/Dispatch_Gate.thy ===== *)
theory Dispatch_Gate
  imports Task_Parser
begin

text \<open>
  Which inbox tasks are dispatched on arrival, which wait for an explicit dispatch, and when a
  dispatch is eligible (\<^verbatim>\<open>pm/taskDispatchGate.ts\<close>). The gate sees the tasks and reports of a thread as
  plain rows; a flag that is tested with \<open>=== true\<close> is a \<open>bool\<close>.
\<close>

section \<open>Rows\<close>

record gate_task =
  gt_protocol :: "string option"
  gt_task_id :: string
  gt_filename :: string
  gt_recipient :: string
  gt_sender :: "string option"
  gt_thread_key :: "string option"
  gt_bucket :: string
  gt_fm_state :: "string option"
  gt_display :: "string option"
  gt_terminated :: bool
  gt_residue :: bool
  gt_parent :: "string option"
  gt_parent_task_id :: "string option"
  gt_rework_of :: "string option"
  gt_depends_on :: "string list option"

record gate_report =
  gp_task_id :: string
  gp_reporter :: string
  gp_status :: string

record hold_input =
  hi_sender :: "string option"
  hi_recipient :: "string option"
  hi_filename :: "string option"
  hi_protocol :: "string option"
  hi_fm_sender :: "string option"
  hi_parent :: "string option"
  hi_parent_task_id :: "string option"
  hi_rework_of :: "string option"

datatype hold_reason = Untrusted_source | Missing_provenance | Manual_import | Child_subtask

section \<open>Roles and routes\<close>

definition normalize_dispatch_role :: "string \<Rightarrow> string" where
  "normalize_dispatch_role role = takeWhile (\<lambda>c. c \<noteq> CHR ''-'') (js_upper (js_trim role))"

definition trusted_pairs :: "(string \<times> string) list" where
  "trusted_pairs = [(''ADMIN'', ''PM''), (''PM'', ''DEV''), (''PM'', ''QA''), (''PM'', ''OPS'')]"

definition is_trusted_internal_dispatch :: "string \<Rightarrow> string \<Rightarrow> bool" where
  "is_trusted_internal_dispatch sender recipient \<longleftrightarrow>
     (normalize_dispatch_role sender, normalize_dispatch_role recipient) \<in> set trusted_pairs"

text \<open>\<open>/-to-([A-Za-z0-9]+)(?:-|\.)/i\<close> anywhere, \<open>/^TASK-\d{8}-\d{3,}-([A-Za-z0-9]+)-to-/i\<close> at the start.\<close>

fun extract_recipient_from_filename :: "string \<Rightarrow> string" where
  "extract_recipient_from_filename [] = []"
| "extract_recipient_from_filename (c # s) =
     (let w = takeWhile alnum (drop 4 (c # s)) in
      if js_lower (take 4 (c # s)) = ''-to-'' \<and> w \<noteq> []
         \<and> take 1 (drop (4 + length w) (c # s)) \<in> {''-'', ''.''}
      then js_upper w else extract_recipient_from_filename s)"

definition extract_sender_from_filename :: "string \<Rightarrow> string" where
  "extract_sender_from_filename s =
     (case task_id_prefix s of
        None \<Rightarrow> []
      | Some p \<Rightarrow>
          let r = drop (length p) s; w = takeWhile alnum (drop 1 r) in
          if take 1 r = ''-'' \<and> w \<noteq> [] \<and> js_lower (take 4 (drop (1 + length w) r)) = ''-to-''
          then js_upper w else [])"

definition read_explicit_parent_id :: "hold_input \<Rightarrow> string" where
  "read_explicit_parent_id i = js_trim (str_of (coalesce (hi_parent i) (hi_parent_task_id i)))"

definition hold_sender :: "hold_input \<Rightarrow> string" where
  "hold_sender i = normalize_dispatch_role
     (or_else (coalesce (hi_sender i) (hi_fm_sender i)) (extract_sender_from_filename (str_of (hi_filename i))))"

definition hold_recipient :: "hold_input \<Rightarrow> string" where
  "hold_recipient i = normalize_dispatch_role
     (or_else (hi_recipient i) (extract_recipient_from_filename (str_of (hi_filename i))))"

definition is_admin_pm_child_subtask_hold :: "hold_input \<Rightarrow> bool" where
  "is_admin_pm_child_subtask_hold i =
     (if js_trim (str_of (hi_rework_of i)) \<noteq> [] then False
      else if read_explicit_parent_id i = [] then False
      else hold_sender i = ''ADMIN'' \<and> hold_recipient i = ''PM'')"

definition resolve_explicit_dispatch_hold_reason :: "hold_input \<Rightarrow> hold_reason option" where
  "resolve_explicit_dispatch_hold_reason i =
     (let fn_sender = normalize_dispatch_role (extract_sender_from_filename (str_of (hi_filename i)));
          fm_sender = normalize_dispatch_role (str_of (hi_fm_sender i));
          proto = js_lower (js_trim (str_of (hi_protocol i))) in
      if hold_recipient i = [] then Some Untrusted_source
      else if fm_sender \<noteq> [] \<and> fn_sender \<noteq> [] \<and> fm_sender \<noteq> fn_sender then Some Missing_provenance
      else if is_admin_pm_child_subtask_hold i then Some Child_subtask
      else if is_trusted_internal_dispatch (hold_sender i) (hold_recipient i) then None
      else if proto = [] then Some Manual_import
      else if proto \<notin> {''fcop'', ''agent_bridge''} then Some Manual_import
      else Some Untrusted_source)"

definition requires_explicit_dispatch :: "hold_input \<Rightarrow> bool" where
  "requires_explicit_dispatch i \<longleftrightarrow> resolve_explicit_dispatch_hold_reason i \<noteq> None"

section \<open>Dependencies\<close>

definition is_done_report_status :: "string \<Rightarrow> bool" where
  "is_done_report_status status \<longleftrightarrow>
     js_lower (js_trim status) \<in> {''done'', ''pass'', ''passed'', ''completed''}"

definition normalize_dependency_task_id :: "string \<Rightarrow> string" where
  "normalize_dependency_task_id v =
     (let raw = strip_md (js_trim v) in js_upper (or_else (task_id_prefix raw) raw))"

definition has_valid_done_report_for_task :: "gate_task \<Rightarrow> gate_report list \<Rightarrow> bool" where
  "has_valid_done_report_for_task t reports =
     (let task_id = normalize_dependency_task_id (gt_task_id t) in
      if task_id = [] then False
      else list_ex (\<lambda>r. normalize_dependency_task_id (gp_task_id r) = task_id
                       \<and> normalize_dispatch_role (gp_reporter r) = normalize_dispatch_role (gt_recipient t)
                       \<and> is_done_report_status (gp_status r)) reports)"

definition explicit_dependency_ids :: "gate_task \<Rightarrow> string list" where
  "explicit_dependency_ids t =
     js_uniq (non_empty (map normalize_dependency_task_id (or_else (gt_depends_on t) [])))"

definition dependency_settled :: "gate_task list \<Rightarrow> gate_report list \<Rightarrow> string \<Rightarrow> bool" where
  "dependency_settled tasks reports k =
     (case List.find (\<lambda>t. normalize_dependency_task_id (gt_task_id t) = k) tasks of
        None \<Rightarrow> False
      | Some t \<Rightarrow> has_valid_done_report_for_task t reports)"

datatype settlement_mode = Mode_explicit | Mode_not_required

text \<open>The result carries the id that is waited for, \<open>None\<close> when settled.\<close>

definition evaluate_upstream_worker_settlement ::
  "gate_task list \<Rightarrow> gate_report list \<Rightarrow> gate_task \<Rightarrow> string option \<times> settlement_mode" where
  "evaluate_upstream_worker_settlement tasks reports target =
     (let ids = explicit_dependency_ids target in
      if ids \<noteq> [] then (List.find (\<lambda>k. \<not> dependency_settled tasks reports k) ids, Mode_explicit)
      else (None, Mode_not_required))"

section \<open>Eligibility\<close>

datatype gate_reason =
  Gate_allowed | Gate_waiting_dependency string | Gate_lifecycle_split string
| Gate_already_active | Gate_already_done

definition is_closed_parent_residue_dispatch_task :: "gate_task \<Rightarrow> bool" where
  "is_closed_parent_residue_dispatch_task t \<longleftrightarrow>
     gt_terminated t \<or> gt_residue t \<or> js_lower (js_trim (str_of (gt_display t))) = ''closed_parent_residue''"

definition evaluate_dispatch_eligibility ::
  "gate_task \<Rightarrow> gate_task list \<Rightarrow> gate_report list \<Rightarrow> gate_reason" where
  "evaluate_dispatch_eligibility target tasks reports =
     (let bucket = js_lower (gt_bucket target); fm = js_lower (or_else (gt_fm_state target) ''inbox'') in
      if is_closed_parent_residue_dispatch_task target then Gate_already_done
      else if bucket = ''done'' \<or> bucket = ''archive'' then Gate_already_done
      else if bucket = ''active'' \<or> bucket = ''review'' then Gate_already_active
      else if fm = ''dispatched'' \<or> fm = ''running'' then
        (if bucket = ''inbox'' then Gate_lifecycle_split fm else Gate_already_active)
      else case fst (evaluate_upstream_worker_settlement tasks reports target) of
             Some k \<Rightarrow> Gate_waiting_dependency k
           | None \<Rightarrow> Gate_allowed)"

datatype wake_verdict = Wake_runnable | Wake_not_dispatched | Wake_already_done

definition hold_input_of_task :: "gate_task \<Rightarrow> hold_input" where
  "hold_input_of_task t =
     \<lparr>hi_sender = gt_sender t, hi_recipient = Some (gt_recipient t), hi_filename = Some (gt_filename t),
      hi_protocol = None, hi_fm_sender = None, hi_parent = gt_parent t, hi_parent_task_id = gt_parent_task_id t,
      hi_rework_of = gt_rework_of t\<rparr>"

definition is_task_runnable_for_wake :: "gate_task \<Rightarrow> wake_verdict" where
  "is_task_runnable_for_wake t =
     (let bucket = js_lower (gt_bucket t) in
      if is_closed_parent_residue_dispatch_task t then Wake_already_done
      else if bucket = ''done'' \<or> bucket = ''archive'' then Wake_already_done
      else if bucket = ''inbox'' then
        (if \<not> requires_explicit_dispatch (hold_input_of_task t) then Wake_runnable else Wake_not_dispatched)
      else Wake_runnable)"

section \<open>Properties\<close>

lemma find_None_all: "List.find P xs = None \<longleftrightarrow> (\<forall>x \<in> set xs. \<not> P x)"
  by (auto simp: find_None_iff)

lemma set_non_empty [simp]: "set (non_empty xs) = set xs - {[]}"
  by (auto simp: non_empty_def)

lemma set_explicit_dependency_ids:
  "set (explicit_dependency_ids t) = normalize_dependency_task_id ` set (or_else (gt_depends_on t) []) - {[]}"
  by (simp add: explicit_dependency_ids_def)

lemma upstream_settled_iff:
  "fst (evaluate_upstream_worker_settlement tasks reports t) = None \<longleftrightarrow>
     (\<forall>d \<in> set (or_else (gt_depends_on t) []). normalize_dependency_task_id d \<noteq> []
        \<longrightarrow> dependency_settled tasks reports (normalize_dependency_task_id d))"
proof -
  have "fst (evaluate_upstream_worker_settlement tasks reports t) = None \<longleftrightarrow>
     (\<forall>k \<in> set (explicit_dependency_ids t). dependency_settled tasks reports k)"
    by (simp add: evaluate_upstream_worker_settlement_def find_None_all Let_def)
  then show ?thesis by (auto simp: set_explicit_dependency_ids)
qed

lemma dependency_settledD:
  assumes "dependency_settled tasks reports k"
  obtains t r where "t \<in> set tasks" "normalize_dependency_task_id (gt_task_id t) = k"
    "r \<in> set reports" "normalize_dependency_task_id (gp_task_id r) = k"
    "normalize_dispatch_role (gp_reporter r) = normalize_dispatch_role (gt_recipient t)"
    "is_done_report_status (gp_status r)"
  using assms
  by (auto simp: dependency_settled_def has_valid_done_report_for_task_def Let_def list_ex_iff
      dest!: find_SomeD split: option.splits if_splits)

text \<open>A dispatch is eligible exactly when the task is not residue of a closed parent, its file is in no
  bucket behind the inbox, its frontmatter does not say that it was dispatched or runs, and the first task
  of the thread with the id of each of its dependencies has a done report of its own recipient.\<close>

theorem dispatch_eligible_iff:
  "evaluate_dispatch_eligibility target tasks reports = Gate_allowed \<longleftrightarrow>
     \<not> gt_terminated target \<and> \<not> gt_residue target
     \<and> js_lower (js_trim (str_of (gt_display target))) \<noteq> ''closed_parent_residue''
     \<and> js_lower (gt_bucket target) \<notin> {''done'', ''archive'', ''active'', ''review''}
     \<and> js_lower (or_else (gt_fm_state target) ''inbox'') \<notin> {''dispatched'', ''running''}
     \<and> list_all (\<lambda>d. normalize_dependency_task_id d = []
           \<or> dependency_settled tasks reports (normalize_dependency_task_id d)) (or_else (gt_depends_on target) [])"
proof -
  have "fst (evaluate_upstream_worker_settlement tasks reports target) = None \<longleftrightarrow>
     list_all (\<lambda>d. normalize_dependency_task_id d = []
           \<or> dependency_settled tasks reports (normalize_dependency_task_id d)) (or_else (gt_depends_on target) [])"
    unfolding upstream_settled_iff list_all_iff by blast
  then show ?thesis
    by (auto simp: evaluate_dispatch_eligibility_def is_closed_parent_residue_dispatch_task_def Let_def
        split: option.splits)
qed

lemma done_report_mono:
  "has_valid_done_report_for_task t reports \<Longrightarrow> set reports \<subseteq> set reports' \<Longrightarrow> has_valid_done_report_for_task t reports'"
  by (auto simp: has_valid_done_report_for_task_def Let_def list_ex_iff split: if_splits)

lemma dependency_settled_mono:
  "dependency_settled tasks reports k \<Longrightarrow> set reports \<subseteq> set reports' \<Longrightarrow> dependency_settled tasks reports' k"
  by (auto simp: dependency_settled_def intro: done_report_mono split: option.splits)

text \<open>Every dependency of an eligible task is a task of the thread with a done report written by its own
  recipient, and reports that arrive later never make an eligible task wait.\<close>

theorem eligible_rests_on_reports:
  assumes "evaluate_dispatch_eligibility target tasks reports = Gate_allowed"
    and "d \<in> set (or_else (gt_depends_on target) [])" and "normalize_dependency_task_id d \<noteq> []"
    and "set reports \<subseteq> set later"
  shows "(\<exists>t \<in> set tasks. \<exists>r \<in> set reports.
            normalize_dependency_task_id (gt_task_id t) = normalize_dependency_task_id d
            \<and> normalize_dependency_task_id (gp_task_id r) = normalize_dependency_task_id d
            \<and> normalize_dispatch_role (gp_reporter r) = normalize_dispatch_role (gt_recipient t)
            \<and> is_done_report_status (gp_status r))
    \<and> evaluate_dispatch_eligibility target tasks later = Gate_allowed"
proof
  have s: "dependency_settled tasks reports (normalize_dependency_task_id d')"
    if "d' \<in> set (or_else (gt_depends_on target) [])" "normalize_dependency_task_id d' \<noteq> []" for d'
    using assms(1) that unfolding evaluate_dispatch_eligibility_def Let_def
    by (auto simp: upstream_settled_iff split: if_splits option.splits)
  show "\<exists>t \<in> set tasks. \<exists>r \<in> set reports.
            normalize_dependency_task_id (gt_task_id t) = normalize_dependency_task_id d
            \<and> normalize_dependency_task_id (gp_task_id r) = normalize_dependency_task_id d
            \<and> normalize_dispatch_role (gp_reporter r) = normalize_dispatch_role (gt_recipient t)
            \<and> is_done_report_status (gp_status r)"
    using dependency_settledD[OF s[OF assms(2,3)]] by metis
  have "fst (evaluate_upstream_worker_settlement tasks later target) = None"
    using s dependency_settled_mono[OF _ assms(4)] by (auto simp: upstream_settled_iff)
  then show "evaluate_dispatch_eligibility target tasks later = Gate_allowed"
    using assms(1) by (auto simp: evaluate_dispatch_eligibility_def Let_def split: if_splits option.splits)
qed

definition sample_gate_task :: "string \<Rightarrow> string \<Rightarrow> string list \<Rightarrow> gate_task" where
  "sample_gate_task task_id recipient deps =
     \<lparr>gt_protocol = Some ''fcop'', gt_task_id = task_id, gt_filename = task_id @ ''.md'', gt_recipient = recipient,
      gt_sender = Some ''PM'', gt_thread_key = None, gt_bucket = ''inbox'', gt_fm_state = None, gt_display = None,
      gt_terminated = False, gt_residue = False, gt_parent = None, gt_parent_task_id = None, gt_rework_of = None,
      gt_depends_on = Some deps\<rparr>"

theorem eligible_rests_on_reports_witness:
  "evaluate_dispatch_eligibility (sample_gate_task ''TASK-20260101-002'' ''QA'' [''TASK-20260101-001.md''])
     [sample_gate_task ''TASK-20260101-001-PM-to-DEV'' ''DEV'' []]
     ([\<lparr>gp_task_id = ''TASK-20260101-001'', gp_reporter = ''DEV-01'', gp_status = ''Done''\<rparr>] @ [])
   = Gate_allowed"
proof -
  have 1: "evaluate_dispatch_eligibility (sample_gate_task ''TASK-20260101-002'' ''QA'' [''TASK-20260101-001.md''])
     [sample_gate_task ''TASK-20260101-001-PM-to-DEV'' ''DEV'' []]
     [\<lparr>gp_task_id = ''TASK-20260101-001'', gp_reporter = ''DEV-01'', gp_status = ''Done''\<rparr>] = Gate_allowed"
    by code_simp
  have 2: "normalize_dependency_task_id ''TASK-20260101-001.md'' \<noteq> []" by code_simp
  show ?thesis
    using eligible_rests_on_reports[OF 1 _ 2, of "[\<lparr>gp_task_id = ''TASK-20260101-001'', gp_reporter = ''DEV-01'', gp_status = ''Done''\<rparr>] @ []"]
    by (simp add: sample_gate_task_def)
qed

end
