(* ===== verification/Execution_Gate.thy ===== *)
theory Execution_Gate
  imports Dispatch_Gate
begin

text \<open>
  The context in which a dispatch is judged (\<^verbatim>\<open>pm/taskDispatchContext.ts\<close>), the derived execution state
  of a task (\<^verbatim>\<open>pm/executionState.ts\<close>) and the hard gate for the tester (\<^verbatim>\<open>pm/qaDispatchGate.ts\<close>). The
  fields that the loaders cut out of a file or a ledger line are the columns of a row; the file system
  is the parameter \<open>xc_disk\<close>, and paths are those of POSIX.
\<close>

section \<open>Rows and context\<close>

text \<open>What a task file or a ledger line says about its execution.\<close>

record task_meta =
  tm_artifact :: "string option"
  tm_superseded_by :: "string option"
  tm_cancelled :: bool
  tm_cancel_reason :: "string option"

definition no_meta :: task_meta where
  "no_meta = \<lparr>tm_artifact = None, tm_superseded_by = None, tm_cancelled = False, tm_cancel_reason = None\<rparr>"

record exec_context =
  xc_tasks :: "gate_task list"
  xc_reports :: "gate_report list"
  xc_meta :: "(string, task_meta) js_map"
  xc_root :: string
  xc_artifact_exists :: "(string \<Rightarrow> bool) option"
  xc_disk :: "string \<Rightarrow> bool"

text \<open>
  A file below a lifecycle directory: the reference the first reading gives, and what the second one
  gives, \<open>None\<close> when the file has gone.
\<close>

record file_meta =
  fl_task_id :: "string option"
  fl_artifact :: "string option"
  fl_archive_mode :: "string option"
  fl_task_type :: "string option"
  fl_supersedes :: "string list"

record ledger_meta =
  lg_task_id :: string
  lg_archive_mode :: "string option"
  lg_task_type :: "string option"
  lg_actions :: "string list"
  lg_supersedes :: "string list"

section \<open>Loading the context (\<^verbatim>\<open>taskDispatchContext.ts\<close>)\<close>

text \<open>\<open>s.split("-to-")[0]\<close>\<close>

fun before_to :: "string \<Rightarrow> string" where
  "before_to [] = []"
| "before_to (c # s) = (if js_starts (c # s) ''-to-'' then [] else c # before_to s)"

definition context_task_id :: "string \<Rightarrow> string" where
  "context_task_id v = (let raw = js_trim v in if raw = [] then [] else before_to (strip_md raw))"

definition merge_tasks :: "gate_task list \<Rightarrow> gate_task list \<Rightarrow> gate_task list" where
  "merge_tasks ledger files =
     map snd (fold (\<lambda>t m. AList.update (gt_filename t) t m) (ledger @ files) [])"

definition report_ref_key :: "gate_report \<Rightarrow> string" where
  "report_ref_key r = gp_task_id r @ ''|'' @ gp_reporter r @ ''|'' @ js_lower (gp_status r)"

fun add_new_reports :: "string set \<Rightarrow> gate_report list \<Rightarrow> gate_report list" where
  "add_new_reports seen [] = []"
| "add_new_reports seen (r # rs) =
     (if report_ref_key r \<in> seen then add_new_reports seen rs
      else r # add_new_reports (insert (report_ref_key r) seen) rs)"

definition merge_reports :: "gate_report list \<Rightarrow> gate_report list \<Rightarrow> gate_report list" where
  "merge_reports ledger disk = ledger @ add_new_reports (set (map report_ref_key ledger)) disk"

definition filter_thread_tasks :: "gate_task list \<Rightarrow> string option \<Rightarrow> gate_task list" where
  "filter_thread_tasks tasks thread =
     (let key = js_trim (str_of thread) in
      if key = [] then tasks else filter (\<lambda>t. js_trim (str_of (gt_thread_key t)) = key) tasks)"

definition cancelled_in_file :: "gate_task \<Rightarrow> file_meta \<Rightarrow> bool" where
  "cancelled_in_file t f \<longleftrightarrow>
     js_lower (str_of (gt_display t)) = ''cancelled''
     \<or> js_lower (str_of (fl_archive_mode f)) = ''force'' \<or> js_lower (str_of (fl_task_type f)) = ''force_archive''"

definition cancelled_in_ledger :: "ledger_meta \<Rightarrow> bool" where
  "cancelled_in_ledger l \<longleftrightarrow>
     js_lower (str_of (lg_archive_mode l)) = ''force'' \<or> js_lower (str_of (lg_task_type l)) = ''force_archive''
     \<or> list_ex (\<lambda>a. js_lower a \<in> {''force_archive_task'', ''force_archive''}) (lg_actions l)"

type_synonym meta_state = "(string, task_meta) js_map \<times> (string, string) js_map"

definition get_meta :: "(string, task_meta) js_map \<Rightarrow> string \<Rightarrow> task_meta" where
  "get_meta m k = or_else (map_of m k) no_meta"

text \<open>The map \<open>supersededBy\<close>: the first task that names a target keeps it.\<close>

definition add_supersedes :: "string \<Rightarrow> string list \<Rightarrow> (string, string) js_map \<Rightarrow> (string, string) js_map" where
  "add_supersedes by_id targets sps =
     fold (\<lambda>t m. if map_of m (context_task_id t) = None then AList.update (context_task_id t) by_id m else m)
       targets sps"

definition add_file_meta :: "gate_task list \<Rightarrow> string \<times> file_meta option \<Rightarrow> meta_state \<Rightarrow> meta_state" where
  "add_file_meta tasks = (\<lambda>(name, file) (m, sps).
     case List.find (\<lambda>t. gt_filename t = name) tasks of
       None \<Rightarrow> (m, sps)
     | Some t \<Rightarrow>
         (case file of
            None \<Rightarrow> (let k = context_task_id (gt_task_id t) in (AList.update k (get_meta m k) m, sps))
          | Some f \<Rightarrow>
              let k = context_task_id (or_else (fl_task_id f) (gt_task_id t)) in
              (AList.update k ((get_meta m k)\<lparr>tm_artifact := fl_artifact f, tm_cancelled := cancelled_in_file t f\<rparr>) m,
               add_supersedes k (map context_task_id (fl_supersedes f)) sps)))"

definition add_ledger_meta :: "ledger_meta \<Rightarrow> meta_state \<Rightarrow> meta_state" where
  "add_ledger_meta l = (\<lambda>(m, sps).
     let k = context_task_id (lg_task_id l); p = get_meta m k in
     (AList.update k (p\<lparr>tm_cancelled := (tm_cancelled p \<or> cancelled_in_ledger l),
                        tm_cancel_reason := coalesce (tm_cancel_reason p)
                          (if cancelled_in_ledger l then Some ''ADMIN cancelled / force archive'' else None)\<rparr>) m,
      add_supersedes k (map context_task_id (lg_supersedes l)) sps))"

definition mark_superseded :: "string \<times> string \<Rightarrow> (string, task_meta) js_map \<Rightarrow> (string, task_meta) js_map" where
  "mark_superseded = (\<lambda>(target, by_id) m. AList.update target ((get_meta m target)\<lparr>tm_superseded_by := Some by_id\<rparr>) m)"

definition load_task_meta ::
  "gate_task list \<Rightarrow> (string \<times> file_meta option) list \<Rightarrow> ledger_meta list \<Rightarrow> (string, task_meta) js_map" where
  "load_task_meta tasks files ledger =
     (case fold add_ledger_meta ledger (fold (add_file_meta tasks) files ([], [])) of
        (m, sps) \<Rightarrow> fold mark_superseded sps m)"

section \<open>Paths\<close>

definition slash :: char where "slash = CHR 0x2F"

definition unbackslash :: "string \<Rightarrow> string" where
  "unbackslash = map (\<lambda>c. if c = CHR 0x5C then slash else c)"

definition is_absolute :: "string \<Rightarrow> bool" where
  "is_absolute p \<longleftrightarrow> take 1 p = [slash]"

definition push_segment :: "string \<Rightarrow> string list \<Rightarrow> string list" where
  "push_segment s acc = (if s = [] \<or> s = ''.'' then acc else if s = ''..'' then butlast acc else acc @ [s])"

definition path_segments :: "string \<Rightarrow> string list" where
  "path_segments p = fold push_segment (js_split slash p) []"

definition path_of :: "string list \<Rightarrow> string" where
  "path_of ss = slash # js_join [slash] ss"

text \<open>\<open>resolve(root, p)\<close> below an absolute root, \<open>basename(resolve(root))\<close> and \<open>relative(root, p)\<close>.\<close>

definition resolve_path :: "string \<Rightarrow> string \<Rightarrow> string" where
  "resolve_path root p = path_of (path_segments (if is_absolute p then p else root @ [slash] @ p))"

definition base_name :: "string \<Rightarrow> string" where
  "base_name root = (let ss = path_segments root in if ss = [] then [] else last ss)"

fun relative_segments :: "string list \<Rightarrow> string list \<Rightarrow> string list" where
  "relative_segments (a # as) (b # bs) =
     (if a = b then relative_segments as bs else map (\<lambda>_. ''..'') (a # as) @ b # bs)"
| "relative_segments as bs = map (\<lambda>_. ''..'') as @ bs"

definition relative_path :: "string \<Rightarrow> string \<Rightarrow> string" where
  "relative_path root p = js_join [slash] (relative_segments (path_segments root) (path_segments p))"

text \<open>\<open>s.indexOf(p)\<close>\<close>

fun js_index_of :: "string \<Rightarrow> string \<Rightarrow> nat option" where
  "js_index_of [] p = (if p = [] then Some 0 else None)"
| "js_index_of (c # s) p = (if js_starts (c # s) p then Some 0 else map_option Suc (js_index_of s p))"

definition rel_candidates :: "string \<Rightarrow> string \<Rightarrow> string list" where
  "rel_candidates name normalized =
     (let low = js_lower normalized; prefix = ''workspace/'' @ name @ [slash];
          segment = [slash] @ prefix in
      [normalized]
      @ (if js_starts low (js_lower prefix) then [drop (length prefix) normalized] else [])
      @ (case js_index_of low (js_lower segment) of
           None \<Rightarrow> [] | Some i \<Rightarrow> [drop (i + length segment) normalized])
      @ (if js_starts low (js_lower name @ [slash]) then [drop (length name + 1) normalized] else []))"

definition on_disk :: "(string \<Rightarrow> bool) \<Rightarrow> string \<Rightarrow> bool" where
  "on_disk disk p \<longleftrightarrow>
     disk p \<or> (\<not> js_ends (unbackslash p) ''/index.html'' \<and> disk (resolve_path p ''index.html''))"

definition artifact_path_exists :: "exec_context \<Rightarrow> string option \<Rightarrow> bool" where
  "artifact_path_exists ctx rel =
     (let p = js_trim (str_of rel); root = xc_root ctx in
      if p = [] then False
      else
        let normalized = rev (dropWhile (\<lambda>c. c = slash) (rev (unbackslash p)));
            cands = rel_candidates (unbackslash (base_name root)) normalized;
            known = (\<lambda>q. case xc_artifact_exists ctx of None \<Rightarrow> False | Some f \<Rightarrow> f q) in
        list_ex known cands
        \<or> list_ex (on_disk (xc_disk ctx))
            ((if is_absolute p then [resolve_path root p] else []) @ map (resolve_path root) cands)
        \<or> (is_absolute p \<and>
            (let r = unbackslash (relative_path root p) in
             r \<noteq> [] \<and> \<not> js_starts r ''../'' \<and> r \<noteq> ''..'' \<and> known r)))"

section \<open>Execution state (\<^verbatim>\<open>executionState.ts\<close>)\<close>

datatype execution_state = Exec_runnable | Exec_completed | Exec_blocked | Exec_waiting_dependency | Exec_superseded

definition is_task_completed :: "gate_task \<Rightarrow> bool" where
  "is_task_completed t \<longleftrightarrow>
     js_lower (js_trim (gt_bucket t)) \<in> {''done'', ''archive''}
     \<or> js_lower (js_trim (str_of (gt_fm_state t))) \<in> {''done'', ''archive''}
     \<or> js_lower (js_trim (str_of (gt_display t))) \<in> {''done'', ''archived''}"

definition normalize_task_id_prefix :: "string \<Rightarrow> string" where
  "normalize_task_id_prefix v =
     (let raw = js_trim v; token = strip_md raw in
      if raw = [] then [] else case task_id_prefix token of None \<Rightarrow> token | Some p \<Rightarrow> js_upper p)"

definition find_meta :: "exec_context \<Rightarrow> string \<Rightarrow> task_meta option" where
  "find_meta ctx v = coalesce (map_of (xc_meta ctx) (normalize_task_id_prefix v)) (map_of (xc_meta ctx) v)"

definition is_task_cancelled :: "gate_task \<Rightarrow> task_meta option \<Rightarrow> bool" where
  "is_task_cancelled t meta =
     (if (case meta of None \<Rightarrow> False | Some m \<Rightarrow> tm_cancelled m) then True
      else js_lower (js_trim (str_of (gt_display t))) = ''cancelled'')"

definition is_task_superseded :: "gate_task \<Rightarrow> exec_context \<Rightarrow> bool" where
  "is_task_superseded t ctx = truthy (Option.bind (find_meta ctx (gt_task_id t)) tm_superseded_by)"

definition artifact_of :: "exec_context \<Rightarrow> gate_task \<Rightarrow> string option" where
  "artifact_of ctx t =
     coalesce (Option.bind (map_of (xc_meta ctx) (normalize_task_id_prefix (gt_task_id t))) tm_artifact)
              (Option.bind (map_of (xc_meta ctx) (gt_task_id t)) tm_artifact)"

definition resolve_artifact_path :: "gate_task list \<Rightarrow> exec_context \<Rightarrow> string option" where
  "resolve_artifact_path tasks ctx =
     (let by_role = List.map_filter
            (\<lambda>role. List.find (\<lambda>t. normalize_dispatch_role (gt_recipient t) = role) tasks) [''QA'', ''DEV'', ''OPS''] in
      case List.find truthy (map (artifact_of ctx) (by_role @ tasks)) of None \<Rightarrow> None | Some a \<Rightarrow> a)"

definition dependencies_settled :: "gate_task \<Rightarrow> gate_task list \<Rightarrow> gate_report list \<Rightarrow> bool" where
  "dependencies_settled t tasks reports \<longleftrightarrow> fst (evaluate_upstream_worker_settlement tasks reports t) = None"

definition artifact_missing :: "gate_task list \<Rightarrow> exec_context \<Rightarrow> bool" where
  "artifact_missing tasks ctx \<longleftrightarrow>
     truthy (resolve_artifact_path tasks ctx) \<and> \<not> artifact_path_exists ctx (resolve_artifact_path tasks ctx)"

definition resolve_execution_state :: "gate_task \<Rightarrow> exec_context \<Rightarrow> gate_task list \<Rightarrow> execution_state" where
  "resolve_execution_state t ctx tasks =
     (if is_task_superseded t ctx then Exec_superseded
      else if is_task_completed t then Exec_completed
      else if is_task_cancelled t (find_meta ctx (gt_task_id t)) then Exec_blocked
      else if \<not> dependencies_settled t tasks (xc_reports ctx) then Exec_waiting_dependency
      else if normalize_dispatch_role (gt_recipient t) \<in> {''QA'', ''OPS''} \<and> artifact_missing tasks ctx
      then Exec_blocked
      else Exec_runnable)"

section \<open>The gate for the tester (\<^verbatim>\<open>qaDispatchGate.ts\<close>)\<close>

datatype qa_block =
  Qa_not_qa_task | Qa_already_done | Qa_report_pending string | Qa_artifact_missing string
| Qa_cancelled "string option" | Qa_superseded "string option"

definition can_dispatch_qa :: "gate_task \<Rightarrow> exec_context \<Rightarrow> gate_task list \<Rightarrow> qa_block option" where
  "can_dispatch_qa t ctx tasks =
     (let meta = find_meta ctx (gt_task_id t); state = resolve_execution_state t ctx tasks in
      if normalize_dispatch_role (gt_recipient t) \<noteq> ''QA'' then Some Qa_not_qa_task
      else if is_task_superseded t ctx then Some (Qa_superseded (Option.bind meta tm_superseded_by))
      else if state = Exec_completed \<or> is_task_completed t then Some Qa_already_done
      else if is_task_cancelled t meta then Some (Qa_cancelled (Option.bind meta tm_cancel_reason))
      else case fst (evaluate_upstream_worker_settlement tasks (xc_reports ctx) t) of
             Some k \<Rightarrow> Some (Qa_report_pending k)
           | None \<Rightarrow>
               if artifact_missing tasks ctx
               then Some (Qa_artifact_missing (str_of (resolve_artifact_path tasks ctx))) else None)"

definition qa_skip_reason :: "qa_block \<Rightarrow> string" where
  "qa_skip_reason r =
     (case r of
        Qa_report_pending k \<Rightarrow> ''waiting_dependency''
      | Qa_cancelled c \<Rightarrow> ''cancelled''
      | Qa_superseded s \<Rightarrow> ''superseded''
      | _ \<Rightarrow> ''execution_blocked'')"

section \<open>The two judgements agree\<close>

text \<open>The gate lets a tester's task through exactly when the derived execution state is runnable.\<close>

theorem qa_gate_agrees:
  "can_dispatch_qa t ctx tasks = None \<longleftrightarrow>
     normalize_dispatch_role (gt_recipient t) = ''QA'' \<and> resolve_execution_state t ctx tasks = Exec_runnable"
  by (auto simp: can_dispatch_qa_def resolve_execution_state_def dependencies_settled_def Let_def split: option.splits)

section \<open>A superseded task is blocked\<close>

text \<open>The tasks that claim to supersede a target, whatever row they come from.\<close>

definition sps_ok :: "(string, string) js_map \<Rightarrow> bool" where
  "sps_ok sps \<longleftrightarrow> distinct (map fst sps) \<and> (\<forall>x \<in> snd ` set sps. x \<noteq> [])"

lemma add_supersedes_Cons:
  "add_supersedes k (x # ts) sps = add_supersedes k ts
     (if map_of sps (context_task_id x) = None then AList.update (context_task_id x) k sps else sps)"
  by (simp add: add_supersedes_def)

lemma add_supersedes_keeps: "map_of sps t \<noteq> None \<Longrightarrow> map_of (add_supersedes k ts sps) t \<noteq> None"
proof (induction ts arbitrary: sps)
  case Nil
  then show ?case by (simp add: add_supersedes_def)
next
  case (Cons x ts)
  then show ?case unfolding add_supersedes_Cons by (simp add: update_conv_if)
qed

lemma add_supersedes_adds:
  "x \<in> set ts \<Longrightarrow> map_of (add_supersedes k ts sps) (context_task_id x) \<noteq> None"
proof (induction ts arbitrary: sps)
  case (Cons y ts)
  show ?case
  proof (cases "x = y")
    case True
    then show ?thesis unfolding add_supersedes_Cons by (intro add_supersedes_keeps) auto
  next
    case False
    with Cons show ?thesis unfolding add_supersedes_Cons by simp
  qed
qed simp

lemma sps_ok_update: "sps_ok sps \<Longrightarrow> k \<noteq> [] \<Longrightarrow> sps_ok (AList.update t k sps)"
  by (auto simp: sps_ok_def set_update)

lemma add_supersedes_ok: "sps_ok sps \<Longrightarrow> k \<noteq> [] \<Longrightarrow> sps_ok (add_supersedes k ts sps)"
proof (induction ts arbitrary: sps)
  case (Cons x ts)
  then show ?case unfolding add_supersedes_Cons by (simp add: sps_ok_update)
qed (simp add: add_supersedes_def)

lemma mark_superseded_other: "k \<noteq> t \<Longrightarrow> get_meta (mark_superseded (t, b) m) k = get_meta m k"
  by (simp add: mark_superseded_def get_meta_def)

lemma marks_superseded:
  assumes "distinct (map fst sps)" and "map_of sps k = Some b"
  shows "\<exists>x. map_of (fold mark_superseded sps m) k = Some x \<and> tm_superseded_by x = Some b"
  using assms
proof (induction sps arbitrary: m)
  case (Cons tb sps)
  obtain t c where tb: "tb = (t, c)" by (meson surj_pair)
  show ?case
  proof (cases "t = k")
    case True
    have "map_of (fold mark_superseded sps m') k = map_of m' k" if "k \<notin> fst ` set sps" for m'
      using that by (induction sps arbitrary: m') (auto simp: mark_superseded_def split: prod.splits)
    moreover have "k \<notin> fst ` set sps" and "c = b" using Cons.prems True tb by auto
    ultimately show ?thesis using True tb by (simp add: mark_superseded_def)
  next
    case False
    with Cons tb show ?thesis by simp
  qed
qed simp

definition rows_named :: "gate_task list \<Rightarrow> (string \<times> file_meta option) list \<Rightarrow> ledger_meta list \<Rightarrow> bool" where
  "rows_named tasks files ledger \<longleftrightarrow>
     list_all (\<lambda>t. context_task_id (gt_task_id t) \<noteq> []) tasks
     \<and> list_all (\<lambda>(n, f). case f of None \<Rightarrow> True | Some f \<Rightarrow>
          (case fl_task_id f of None \<Rightarrow> True | Some i \<Rightarrow> context_task_id i \<noteq> [])) files
     \<and> list_all (\<lambda>l. context_task_id (lg_task_id l) \<noteq> []) ledger"

text \<open>The targets that a file of a known task, or a line of the ledger, names.\<close>

definition superseded_ids ::
  "gate_task list \<Rightarrow> (string \<times> file_meta option) list \<Rightarrow> ledger_meta list \<Rightarrow> string list" where
  "superseded_ids tasks files ledger =
     concat (map (\<lambda>(n, f). case f of None \<Rightarrow> [] | Some f \<Rightarrow>
        if n \<in> gt_filename ` set tasks then fl_supersedes f else []) files)
     @ concat (map lg_supersedes ledger)"

lemma known_file: "n \<in> gt_filename ` set tasks \<Longrightarrow> \<exists>t. List.find (\<lambda>t. gt_filename t = n) tasks = Some t \<and> t \<in> set tasks"
  by (cases "List.find (\<lambda>t. gt_filename t = n) tasks") (auto dest: find_NoneD find_SomeD)

lemma add_file_meta_keeps:
  "map_of (snd ms) t \<noteq> None \<Longrightarrow> map_of (snd (add_file_meta tasks nf ms)) t \<noteq> None"
  using add_supersedes_keeps
  by (cases nf; cases ms) (auto simp: add_file_meta_def Let_def split: option.splits)

lemma add_file_meta_adds:
  assumes "n \<in> gt_filename ` set tasks" and "x \<in> set (fl_supersedes f)"
  shows "map_of (snd (add_file_meta tasks (n, Some f) ms)) (context_task_id (context_task_id x)) \<noteq> None"
proof -
  obtain t where "List.find (\<lambda>t. gt_filename t = n) tasks = Some t" using known_file[OF assms(1)] by blast
  moreover have "context_task_id x \<in> set (map context_task_id (fl_supersedes f))" using assms(2) by simp
  ultimately show ?thesis
    using add_supersedes_adds by (cases ms) (simp add: add_file_meta_def Let_def)
qed

lemma add_file_meta_ok:
  assumes "sps_ok (snd ms)" and "rows_named tasks [nf] []"
  shows "sps_ok (snd (add_file_meta tasks nf ms))"
  using assms
  by (cases nf; cases ms)
     (auto simp: add_file_meta_def Let_def rows_named_def list_all_iff split: option.splits
        intro!: add_supersedes_ok dest: find_SomeD)

lemma fold_file_meta:
  assumes "rows_named tasks files []" and "sps_ok (snd ms)"
  shows "sps_ok (snd (fold (add_file_meta tasks) files ms))
    \<and> (map_of (snd ms) k \<noteq> None \<longrightarrow> map_of (snd (fold (add_file_meta tasks) files ms)) k \<noteq> None)
    \<and> (\<forall>x \<in> set (superseded_ids tasks files []).
         map_of (snd (fold (add_file_meta tasks) files ms)) (context_task_id (context_task_id x)) \<noteq> None)"
  using assms
proof (induction files arbitrary: ms k)
  case (Cons nf files)
  let ?ms = "add_file_meta tasks nf ms"
  have ok: "sps_ok (snd ?ms)"
    using Cons.prems by (intro add_file_meta_ok) (auto simp: rows_named_def)
  have named: "rows_named tasks files []" using Cons.prems(1) by (simp add: rows_named_def)
  note ih = Cons.IH[OF named ok]
  have head: "map_of (snd (fold (add_file_meta tasks) files ?ms)) (context_task_id (context_task_id x)) \<noteq> None"
    if x: "x \<in> set (superseded_ids tasks [nf] [])" for x
  proof -
    obtain n f where "nf = (n, Some f)" "n \<in> gt_filename ` set tasks" "x \<in> set (fl_supersedes f)"
      using x by (cases nf; cases "snd nf") (auto simp: superseded_ids_def split: if_splits)
    then show ?thesis using add_file_meta_adds[of n tasks x f ms] ih by blast
  qed
  have split: "set (superseded_ids tasks (nf # files) [])
      = set (superseded_ids tasks [nf] []) \<union> set (superseded_ids tasks files [])"
    by (auto simp: superseded_ids_def)
  show ?case
    using ih head add_file_meta_keeps[of ms k tasks nf] split by auto
qed (simp add: superseded_ids_def)

lemma fold_ledger_meta:
  assumes "rows_named [] [] ledger" and "sps_ok (snd ms)"
  shows "sps_ok (snd (fold add_ledger_meta ledger ms))
    \<and> (map_of (snd ms) k \<noteq> None \<longrightarrow> map_of (snd (fold add_ledger_meta ledger ms)) k \<noteq> None)
    \<and> (\<forall>x \<in> set (superseded_ids [] [] ledger).
         map_of (snd (fold add_ledger_meta ledger ms)) (context_task_id (context_task_id x)) \<noteq> None)"
  using assms
proof (induction ledger arbitrary: ms k)
  case (Cons l ledger)
  let ?ms = "add_ledger_meta l ms"
  have snd1: "snd ?ms = add_supersedes (context_task_id (lg_task_id l)) (map context_task_id (lg_supersedes l)) (snd ms)"
    by (cases ms) (simp add: add_ledger_meta_def Let_def)
  have ok: "sps_ok (snd ?ms)"
    using Cons.prems unfolding snd1 by (intro add_supersedes_ok) (auto simp: rows_named_def)
  have named: "rows_named [] [] ledger" using Cons.prems(1) by (simp add: rows_named_def)
  note ih = Cons.IH[OF named ok]
  have keep: "map_of (snd ms) k \<noteq> None \<longrightarrow> map_of (snd ?ms) k \<noteq> None"
    using add_supersedes_keeps by (simp add: snd1)
  have head: "map_of (snd ?ms) (context_task_id (context_task_id x)) \<noteq> None" if "x \<in> set (lg_supersedes l)" for x
    unfolding snd1 using that by (intro add_supersedes_adds) simp
  have split: "set (superseded_ids [] [] (l # ledger)) = set (lg_supersedes l) \<union> set (superseded_ids [] [] ledger)"
    by (auto simp: superseded_ids_def)
  show ?case
    using ih head keep split by auto
qed (simp add: superseded_ids_def)

lemma superseded_in_meta:
  assumes "rows_named tasks files ledger" and "x \<in> set (superseded_ids tasks files ledger)"
  shows "\<exists>m b. map_of (load_task_meta tasks files ledger) (context_task_id (context_task_id x)) = Some m
           \<and> tm_superseded_by m = Some b \<and> b \<noteq> []"
proof -
  let ?k = "context_task_id (context_task_id x)"
  define ms where "ms = fold (add_file_meta tasks) files ([], [])"
  define mf where "mf = fold add_ledger_meta ledger ms"
  have f: "sps_ok (snd ms)" "x \<in> set (superseded_ids tasks files []) \<Longrightarrow> map_of (snd ms) ?k \<noteq> None"
    using fold_file_meta[of tasks files "([], [])"] assms(1) unfolding ms_def
    by (auto simp: rows_named_def sps_ok_def)
  have l: "sps_ok (snd mf)" "map_of (snd ms) ?k \<noteq> None \<Longrightarrow> map_of (snd mf) ?k \<noteq> None"
    "x \<in> set (superseded_ids [] [] ledger) \<Longrightarrow> map_of (snd mf) ?k \<noteq> None"
    using fold_ledger_meta[OF _ f(1), of ledger ?k] assms(1) unfolding mf_def by (auto simp: rows_named_def)
  have "x \<in> set (superseded_ids tasks files []) \<or> x \<in> set (superseded_ids [] [] ledger)"
    using assms(2) by (auto simp: superseded_ids_def)
  then obtain b where b: "map_of (snd mf) ?k = Some b" using f(2) l(2,3) by auto
  then have "b \<noteq> []" using l(1) map_of_SomeD[OF b] by (force simp: sps_ok_def)
  moreover have "load_task_meta tasks files ledger = fold mark_superseded (snd mf) (fst mf)"
    by (simp add: load_task_meta_def mf_def ms_def split: prod.split)
  ultimately show ?thesis
    using marks_superseded[of "snd mf" ?k b "fst mf"] b l(1) by (auto simp: sps_ok_def)
qed

text \<open>A task of the tester whose short id a task file or the ledger names as superseded is not dispatched.\<close>

theorem superseded_task_blocked:
  assumes "rows_named tasks files ledger"
    and "xc_meta ctx = load_task_meta tasks files ledger"
    and "x \<in> set (superseded_ids tasks files ledger)"
    and "context_task_id (context_task_id x) = normalize_task_id_prefix (gt_task_id t)"
    and "normalize_dispatch_role (gt_recipient t) = ''QA''"
  shows "\<exists>b. b \<noteq> [] \<and> can_dispatch_qa t ctx scope = Some (Qa_superseded (Some b))"
proof -
  obtain m b where m: "map_of (xc_meta ctx) (normalize_task_id_prefix (gt_task_id t)) = Some m"
    "tm_superseded_by m = Some b" "b \<noteq> []"
    using superseded_in_meta[OF assms(1,3)] assms(2,4) by metis
  then have "find_meta ctx (gt_task_id t) = Some m" by (simp add: find_meta_def)
  with m assms(5) show ?thesis by (simp add: can_dispatch_qa_def is_task_superseded_def Let_def)
qed

definition sample_ledger_meta :: "string \<Rightarrow> string list \<Rightarrow> ledger_meta" where
  "sample_ledger_meta task_id sups =
     \<lparr>lg_task_id = task_id, lg_archive_mode = None, lg_task_type = None, lg_actions = [], lg_supersedes = sups\<rparr>"

definition sample_exec_context :: "ledger_meta list \<Rightarrow> exec_context" where
  "sample_exec_context ledger =
     \<lparr>xc_tasks = [], xc_reports = [], xc_meta = load_task_meta [] [] ledger, xc_root = ''/srv/game'',
      xc_artifact_exists = None, xc_disk = (\<lambda>p. p = ''/srv/game/src/index.html'')\<rparr>"

theorem superseded_task_blocked_witness:
  "\<exists>b. b \<noteq> [] \<and> can_dispatch_qa (sample_gate_task ''TASK-20260101-002-PM-to-QA'' ''QA'' [])
     (sample_exec_context [sample_ledger_meta ''TASK-20260101-003'' [''TASK-20260101-002'']]) []
     = Some (Qa_superseded (Some b))"
proof (rule superseded_task_blocked)
  show "rows_named [] [] [sample_ledger_meta ''TASK-20260101-003'' [''TASK-20260101-002'']]" by code_simp
  show "xc_meta (sample_exec_context [sample_ledger_meta ''TASK-20260101-003'' [''TASK-20260101-002'']])
    = load_task_meta [] [] [sample_ledger_meta ''TASK-20260101-003'' [''TASK-20260101-002'']]"
    by (simp add: sample_exec_context_def)
  show "''TASK-20260101-002'' \<in> set (superseded_ids [] [] [sample_ledger_meta ''TASK-20260101-003'' [''TASK-20260101-002'']])"
    by (simp add: superseded_ids_def sample_ledger_meta_def)
  show "context_task_id (context_task_id ''TASK-20260101-002'')
    = normalize_task_id_prefix (gt_task_id (sample_gate_task ''TASK-20260101-002-PM-to-QA'' ''QA'' []))"
    by code_simp
  show "normalize_dispatch_role (gt_recipient (sample_gate_task ''TASK-20260101-002-PM-to-QA'' ''QA'' [])) = ''QA''"
    by code_simp
qed

text \<open>The condition on the id is needed: the loader cuts an id at \<^verbatim>\<open>-to-\<close> and the gate after its number, so a
  task named by its full id is filed under a key the gate never asks for, and is dispatched though superseded.\<close>

lemma superseded_by_full_id_dispatched:
  "can_dispatch_qa (sample_gate_task ''TASK-20260101-002-PM-to-QA'' ''QA'' [])
     (sample_exec_context [sample_ledger_meta ''TASK-20260101-003'' [''TASK-20260101-002-PM-to-QA'']]) [] = None"
  by code_simp

text \<open>The gate does not look at the bucket of the task, as the gate of the other roles does.\<close>

lemma qa_gate_ignores_bucket:
  "can_dispatch_qa ((sample_gate_task ''TASK-20260101-002'' ''QA'' [])\<lparr>gt_bucket := ''active''\<rparr>) (sample_exec_context []) [] = None
   \<and> evaluate_dispatch_eligibility ((sample_gate_task ''TASK-20260101-002'' ''QA'' [])\<lparr>gt_bucket := ''active''\<rparr>) [] []
     = Gate_already_active"
  by code_simp

text \<open>An artifact named below \<^verbatim>\<open>workspace/\<close> of the project is found at the root of the project as well.\<close>

lemma workspace_artifact_found:
  "artifact_path_exists (sample_exec_context []) (Some ''workspace/game/src/'')"
  by code_simp

end
