(* ===== verification/Task_Dispatch.thy ===== *)
theory Task_Dispatch
  imports Lifecycle_Machine Retry_Control Dispatch_Store Dependency_Gate Execution_Gate
begin

text \<open>
  The dispatch of one task (\<^verbatim>\<open>scheduler/TaskDispatcher.ts\<close>): the control plane with its gates, and the
  claim of the task, from the agent's queue over the retry registry, the attempt store and the move of
  the file to the start of the session (\<^verbatim>\<open>scheduler/LifecycleGovernor.ts\<close> makes the moves). It composes
  the theories of those parts on one world.

  The dispatcher has its project root, attempt store and governor, as the runtime builds it. The
  environment holds what it observes: the clock, fresh ids, the reading of a task file by the parser, the
  verdicts of the admission gate and of the product gate (any function of the task: the theorems hold
  whatever those two gates answer), what the gates read from the project, the registered agents, the
  sessions with the verdict on their liveness, and what starting a session answers. An early
  \<open>return\<close> or an escaping exception is the left side of an action. The text of the prompt, log lines and
  panel events are left out, and so are the timeouts of the governor; the in-process set of paths being
  claimed is always empty between calls.
\<close>

section \<open>Environment and world\<close>

record agent_rec =
  ag_id :: string
  ag_role :: "string option"
  ag_sdk :: "string option"

text \<open>A session of \<open>listActive()\<close>, with the verdict of \<open>assessSessionLiveness\<close>.\<close>

record live_session =
  ls_id :: string
  ls_agent :: string
  ls_task :: "string option"
  ls_started :: "time option"
  ls_live :: bool

datatype start_failure =
  Start_busy js_error string                 \<comment> \<open>\<open>InvalidAgentStatusError\<close> and the status\<close>
| Start_delayed js_error "js_error option"   \<comment> \<open>\<open>TransientSdkDelayedError\<close> and its cause\<close>
| Start_cooldown js_error                    \<comment> \<open>\<open>SdkCooldownActiveError\<close>\<close>
| Start_failed js_error

datatype governor_error =
  Decision_rejected decision_value string
| Move_failed lifecycle_error

record dispatch_env =
  dv_now :: time
  dv_operation_uuid :: string
  dv_decision_uuid :: string
  dv_attempt_uuid :: string
  dv_lease_uuid :: string
  dv_random :: nat
  dv_parse :: "string \<Rightarrow> task_fm \<Rightarrow> string \<Rightarrow> parsed_task option"
  dv_file_digest :: "task_fm \<Rightarrow> string \<Rightarrow> string"
  dv_spec_digest :: "parsed_task \<Rightarrow> string"
  dv_content_hash :: "parsed_task \<Rightarrow> string"
  dv_admission :: "parsed_task \<Rightarrow> bool \<Rightarrow> string list option"  \<comment> \<open>the blocking findings of a rejection\<close>
  dv_product_gate :: "parsed_task \<Rightarrow> string option"           \<comment> \<open>the reason of a refusal\<close>
  dv_project :: project_files
  dv_context :: exec_context
  dv_agents :: "string \<Rightarrow> agent_rec list"
  dv_sessions :: "live_session list"
  dv_start :: "string \<Rightarrow> string \<Rightarrow> start_failure + string"
  dv_open_edition :: bool
  dv_retry :: retry_config
  dv_min_retry_delay :: int                              \<comment> \<open>\<open>minScheduleRetryDelayMs\<close>\<close>
  dv_message :: "governor_error \<Rightarrow> string"

record control_opts =
  cpo_mode :: "attempt_mode option"
  cpo_key :: "string option"
  cpo_bypass :: bool
  cpo_agent :: "string option"

record history_entry =
  he_from :: string
  he_to :: string
  he_note :: string

record dispatcher_world =
  dw_lc :: lc_world
  dw_store :: dispatch_state
  dw_retries :: retry_map
  dw_cooldown :: sdk_cooldown
  dw_invalid :: "(string, string \<times> durable_error list) js_map"   \<comment> \<open>\<open>_invalidTaskSignatures\<close>\<close>
  dw_started :: "(string \<times> string \<times> string) list"            \<comment> \<open>sessions started: agent, task, session\<close>
  dw_cancelled :: "string list"
  dw_running :: "(string, string) js_map"                   \<comment> \<open>\<open>_runningByAgent\<close>\<close>
  dw_pending :: "(string, task_path \<times> string) js_map"      \<comment> \<open>\<open>_pendingSettlements\<close>\<close>
  dw_downstream :: "string list"                           \<comment> \<open>\<open>PmQueueGuard.onPmDispatchToWorker\<close>\<close>
  dw_history :: "(string \<times> history_entry) list"         \<comment> \<open>bullets, by file name\<close>
  dw_timers :: "(string \<times> time) list"                       \<comment> \<open>retries to come: key and time\<close>

datatype dispatch_outcome =
  Out_dispatched string string string            \<comment> \<open>session, attempt, lease\<close>
| Out_parse_failed
| Out_no_task_id
| Out_observer_bypass string
| Out_skipped string
| Out_spec_rejected "string list"
| Out_dependency_pending dependency_verdict
| Out_agent_not_found string
| Out_already_dispatched "string option"
| Out_rejected_busy string string
| Out_force_archived string
| Out_waiting_admin string nat string
| Out_retry_waiting string time nat string
| Out_lease_conflict string claim_result
| Out_decision_conflict dispatch_error         \<comment> \<open>the exception of \<open>recordDecision\<close>\<close>
| Out_threw governor_error

type_synonym 'a disp = "(dispatcher_world, dispatch_outcome, 'a) act"

definition act_get :: "('w \<Rightarrow> 'a) \<Rightarrow> ('w, 'e, 'a) act" where
  "act_get f w = (Inr (f w), w)"

definition act_update :: "('w \<Rightarrow> 'w) \<Rightarrow> ('w, 'e, unit) act" where
  "act_update f w = (Inr (), f w)"

section \<open>Names\<close>

definition canonical_dispatch_id :: "string \<Rightarrow> string option \<Rightarrow> string" where
  "canonical_dispatch_id filename task_id =
     (let from_fm = js_trim (strip_md (str_of task_id)); base = strip_md filename;
          canon = (\<lambda>s. case task_id_prefix s of None \<Rightarrow> s | Some p \<Rightarrow> js_upper p) in
      if from_fm \<noteq> [] then canon from_fm else canon base)"

definition is_observer_role :: "string \<Rightarrow> bool" where
  "is_observer_role role \<longleftrightarrow> js_upper role \<in> {''EVAL'', ''SYSTEM'', ''AUTO-AUDIT''}"

definition path_text :: "task_path \<Rightarrow> string" where
  "path_text p = lifecycle_rel_path (fst p) (snd p)"

definition queue_path_key :: "string \<Rightarrow> string" where
  "queue_path_key p = js_lower (unbackslash p)"

text \<open>\<open>/^state:\s*(\S+)/m\<close>\<close>

definition file_state :: "task_fm \<Rightarrow> string option" where
  "file_state fm =
     (let t = takeWhile (\<lambda>c. \<not> js_space c) (dropWhile js_space (str_of (fm_state fm))) in
      if t = [] then None else Some t)"

definition is_claimable_state :: "string option \<Rightarrow> bool" where
  "is_claimable_state s \<longleftrightarrow> js_lower (or_else s ''inbox'') \<in> {''inbox'', ''active''}"

definition is_pm_to_worker_dispatch :: "string option \<Rightarrow> string \<Rightarrow> string \<Rightarrow> bool" where
  "is_pm_to_worker_dispatch sender recipient filename \<longleftrightarrow>
     js_upper (js_trim (str_of sender)) = ''PM'' \<and> js_upper (js_trim recipient) \<in> {''DEV'', ''OPS'', ''QA''}
     \<or> list_ex (\<lambda>r. js_ends (js_lower filename) (''-pm-to-'' @ r @ ''.md'')) [''dev'', ''ops'', ''qa'']"

section \<open>The governor (\<^verbatim>\<open>LifecycleGovernor.ts\<close>)\<close>

definition parse_path :: "dispatch_env \<Rightarrow> task_files \<Rightarrow> task_path \<Rightarrow> parsed_task option" where
  "parse_path env fs p =
     (case map_of fs p of Some (Task_file fm body) \<Rightarrow> dv_parse env (snd p) fm body | _ \<Rightarrow> None)"

definition has_valid_frontmatter :: "dispatch_env \<Rightarrow> task_files \<Rightarrow> task_path \<Rightarrow> bool" where
  "has_valid_frontmatter env fs p \<longleftrightarrow>
     (case parse_path env fs p of None \<Rightarrow> False
      | Some t \<Rightarrow> string_field t ''protocol'' \<in> {''fcop'', ''agent_bridge''})"

definition resolve_for_mutation :: "dispatch_env \<Rightarrow> task_files \<Rightarrow> task_path \<Rightarrow> task_path" where
  "resolve_for_mutation env fs p =
     (if has_valid_frontmatter env fs p then p
      else case List.find (\<lambda>st. has_valid_frontmatter env fs (st, snd p)) [Active, Review, Done, Inbox, Archive] of
             None \<Rightarrow> p | Some st \<Rightarrow> (st, snd p))"

definition state_at :: "task_files \<Rightarrow> task_path \<Rightarrow> string option" where
  "state_at fs p = (case map_of fs p of Some (Task_file fm body) \<Rightarrow> file_state fm | _ \<Rightarrow> None)"

definition kernel_move :: "time \<Rightarrow> kernel_call \<Rightarrow> (lc_world, governor_error, unit) act" where
  "kernel_move now call w =
     (case run_kernel now call w of (Inl e, w') \<Rightarrow> (Inl (Move_failed e), w') | (Inr r, w') \<Rightarrow> (Inr (), w'))"

definition kernel_move_quiet :: "time \<Rightarrow> kernel_call \<Rightarrow> (lc_world, governor_error, unit) act" where
  "kernel_move_quiet now call w = (Inr (), snd (kernel_move now call w))"

record dispatch_claim =
  dc_attempt :: "string option"
  dc_lease :: "string option"
  dc_agent :: "string option"
  dc_decision :: "execution_decision option"

definition move_inbox_to_active :: "dispatch_env \<Rightarrow> dispatch_claim \<Rightarrow> task_path \<Rightarrow> (lc_world, governor_error, unit) act" where
  "move_inbox_to_active env c p =
     act_bind (act_get (\<lambda>w. resolve_for_mutation env (w_files w) p)) (\<lambda>r.
     act_when (fst r = Inbox)
       (kernel_move (dv_now env) (K_dispatch r (dc_attempt c) (dc_lease c) (dc_agent c))))"

definition await_dispatch_inbox_to_active ::
  "dispatch_env \<Rightarrow> dispatch_claim \<Rightarrow> task_path \<Rightarrow> (lc_world, governor_error, task_path) act" where
  "await_dispatch_inbox_to_active env c p =
     (case dc_decision c of
        Some d \<Rightarrow>
          if ed_decision d \<noteq> Decision_allow then act_throw (Decision_rejected (ed_decision d) (ed_reason d))
          else act_bind (move_inbox_to_active env c p) (\<lambda>_. act_get (\<lambda>w. resolve_for_mutation env (w_files w) p))
      | None \<Rightarrow> act_bind (move_inbox_to_active env c p) (\<lambda>_. act_get (\<lambda>w. resolve_for_mutation env (w_files w) p)))"

definition restore_to_inbox :: "dispatch_env \<Rightarrow> task_path \<Rightarrow> string \<Rightarrow> (lc_world, governor_error, unit) act" where
  "restore_to_inbox env p reason =
     act_bind (act_get (\<lambda>w. let r = resolve_for_mutation env (w_files w) p in (r, state_at (w_files w) r))) (\<lambda>(r, state).
     if fst r = Inbox then
       act_when (state \<in> {Some ''dispatched'', Some ''active'', Some ''running''})
         (kernel_move_quiet (dv_now env) (K_repair r (Some reason)))
     else if fst r = Active then kernel_move (dv_now env) (K_restore r (Some reason))
     else act_when (state \<in> {Some ''dispatched'', Some ''active''})
       (kernel_move_quiet (dv_now env) (K_repair r (Some reason))))"

definition repair_inbox_split :: "dispatch_env \<Rightarrow> task_path \<Rightarrow> string \<Rightarrow> (lc_world, governor_error, task_path) act" where
  "repair_inbox_split env p reason =
     act_bind (act_get (\<lambda>w. resolve_for_mutation env (w_files w) p)) (\<lambda>r.
     act_bind (act_when (fst r = Inbox) (kernel_move (dv_now env) (K_repair r (Some reason)))) (\<lambda>_.
     act_get (\<lambda>w. resolve_for_mutation env (w_files w) p)))"

section \<open>Actions of the dispatcher\<close>

definition on_lc :: "(lc_world, governor_error, 'a) act \<Rightarrow> (governor_error + 'a) disp" where
  "on_lc m w = (case m (dw_lc w) of (r, l) \<Rightarrow> (Inr r, w\<lparr>dw_lc := l\<rparr>))"

definition on_store :: "(dispatch_state \<Rightarrow> 'a \<times> dispatch_state) \<Rightarrow> 'a disp" where
  "on_store f w = (case f (dw_store w) of (r, s) \<Rightarrow> (Inr r, w\<lparr>dw_store := s\<rparr>))"

definition on_queue :: "(agent_task_queue option \<Rightarrow> agent_task_queue option) \<Rightarrow> unit disp" where
  "on_queue f = act_update (\<lambda>w. w\<lparr>dw_lc := (dw_lc w)\<lparr>w_queue := f (w_queue (dw_lc w))\<rparr>\<rparr>)"

definition same_busy_entry :: "history_entry \<Rightarrow> history_entry \<Rightarrow> bool" where
  "same_busy_entry old e \<longleftrightarrow>
     he_from old = he_from e \<and> he_to old = he_to e \<and> js_includes (he_note old) (he_note e)"

text \<open>\<open>_appendHistory\<close>: best effort, and one bullet for a task that is found busy again and again.\<close>

definition append_history :: "dispatch_env \<Rightarrow> task_path \<Rightarrow> history_entry \<Rightarrow> unit disp" where
  "append_history env p e = act_update (\<lambda>w.
     let fs = w_files (dw_lc w); r = resolve_for_mutation env fs p;
         mine = filter (\<lambda>x. fst x = snd r) (dw_history w) in
     if he_to e = ''rejected_busy'' \<and> mine \<noteq> [] \<and> same_busy_entry (snd (last mine)) e then w
     else if map_of fs r = None then w
     else w\<lparr>dw_history := dw_history w @ [(snd r, e)]\<rparr>)"

definition finish_as :: "dispatch_env \<Rightarrow> string \<Rightarrow> attempt_status \<Rightarrow> string option \<Rightarrow> unit disp" where
  "finish_as env attempt status reason =
     on_store (\<lambda>s. ((), finish_attempt (dv_now env) attempt status reason s))"

section \<open>The agent's queue\<close>

definition resolve_agent :: "dispatch_env \<Rightarrow> string \<Rightarrow> string option \<Rightarrow> agent_rec option" where
  "resolve_agent env recipient preferred =
     (if truthy preferred then List.find (\<lambda>a. ag_id a = str_of preferred) (dv_agents env recipient)
      else case dv_agents env recipient of [] \<Rightarrow> None | a # _ \<Rightarrow> Some a)"

text \<open>\<open>_isLiveQueuedTaskFile\<close>: the path is a file of the inbox whose state is \<^verbatim>\<open>inbox\<close>.\<close>

definition live_queued_file :: "task_files \<Rightarrow> string \<Rightarrow> bool" where
  "live_queued_file fs path \<longleftrightarrow>
     list_ex (\<lambda>(p, f). fst p = Inbox \<and> path_text p = path \<and> state_at fs p = Some ''inbox'') fs"

definition live_task_id :: "live_session \<Rightarrow> string" where
  "live_task_id s = norm_queue_task_id (str_of (ls_task s))"

definition keeps_queued :: "task_files \<Rightarrow> string list \<Rightarrow> bool \<Rightarrow> string \<Rightarrow> string \<Rightarrow> queue_item \<Rightarrow> bool" where
  "keeps_queued fs live_keys busy task path i =
     (let key = (if truthy (qi_filepath i) then Some (queue_path_key (str_of (qi_filepath i))) else None) in
      if (case key of None \<Rightarrow> False | Some k \<Rightarrow> k \<notin> set live_keys) then False
      else if \<not> busy then key \<noteq> Some (queue_path_key path) \<and> norm_queue_task_id (qi_task_id i) \<noteq> norm_queue_task_id task
      else True)"

definition reconcile_slot ::
  "time \<Rightarrow> task_files \<Rightarrow> live_session option \<Rightarrow> string \<Rightarrow> string \<Rightarrow> queue_slot \<Rightarrow> queue_slot" where
  "reconcile_slot now fs live task path slot =
     (let paths = filter (\<lambda>p. p \<noteq> [] \<and> live_queued_file fs p) (List.map_filter qi_filepath (slot_queue slot)) in
      slot\<lparr>slot_running := map_option (\<lambda>s. \<lparr>re_task_id = live_task_id s, re_session_id = ls_id s,
              re_started_at = or_else (ls_started s) now\<rparr>) live,
           slot_queue := filter (keeps_queued fs (map queue_path_key paths) (live \<noteq> None) task path) (slot_queue slot)\<rparr>)"

definition reconcile_queue ::
  "dispatch_env \<Rightarrow> string \<Rightarrow> live_session option \<Rightarrow> string \<Rightarrow> task_path \<Rightarrow> unit disp" where
  "reconcile_queue env agent live task p = act_update (\<lambda>w.
     let mutate = (\<lambda>q. q\<lparr>aq_agents := AList.update agent
           (reconcile_slot (dv_now env) (w_files (dw_lc w)) live task (path_text p)
              (or_else (map_of (aq_agents q) agent) \<lparr>slot_running = None, slot_queue = []\<rparr>)) (aq_agents q)\<rparr>) in
     w\<lparr>dw_lc := (dw_lc w)\<lparr>w_queue :=
       fst (update_agent_task_queue_if_changed (dv_now env) mutate (w_queue (dw_lc w)))\<rparr>\<rparr>)"

definition queued_entry :: "string \<Rightarrow> string \<Rightarrow> task_path \<Rightarrow> string \<Rightarrow> queue_entry_input" where
  "queued_entry task agent p recipient =
     \<lparr>in_task_id = task, in_agent_id = agent, in_queued_at = None, in_reason = ''agent_busy_live_session'',
      in_filepath = Some (path_text p), in_role = None, in_filename = Some (snd p), in_recipient = Some recipient,
      in_resume_dispatch = False\<rparr>"

definition agent_gate :: "dispatch_env \<Rightarrow> agent_rec \<Rightarrow> string \<Rightarrow> string \<Rightarrow> task_path \<Rightarrow> unit disp" where
  "agent_gate env a recipient task p =
     (let agent = ag_id a; mine = filter (\<lambda>s. ls_agent s = agent) (dv_sessions env);
          live = List.find ls_live mine in
      if dv_open_edition env \<and> js_starts (str_of (ag_sdk a)) ''sdk-fake-'' then act_throw (Out_agent_not_found recipient)
      else
        act_bind (act_update (\<lambda>w. w\<lparr>dw_cancelled := dw_cancelled w @ map ls_id (filter (\<lambda>s. \<not> ls_live s) mine)\<rparr>)) (\<lambda>_.
        act_bind (reconcile_queue env agent live task p) (\<lambda>_.
        act_bind (act_get (\<lambda>w. is_task_queued_in_state (load_agent_task_queue (dv_now env) (w_queue (dw_lc w))) task)) (\<lambda>queued.
        case live of
          None \<Rightarrow> act_when queued (act_throw (Out_already_dispatched None))
        | Some s \<Rightarrow>
            if live_task_id s = norm_queue_task_id task then act_throw (Out_already_dispatched (Some (ls_id s)))
            else if queued then act_throw (Out_already_dispatched None)
            else act_bind (on_queue (with_agent_task_queue (dv_now env)
                   (enqueue_agent_task_in_state (dv_now env) (queued_entry task agent p recipient) False))) (\<lambda>_.
                 act_throw (Out_rejected_busy recipient ''running''))))))"

definition queue_gate :: "dispatch_env \<Rightarrow> control_opts \<Rightarrow> string \<Rightarrow> string \<Rightarrow> task_path \<Rightarrow> unit disp" where
  "queue_gate env opts recipient task p =
     act_bind (act_get (\<lambda>w. is_task_paused_in_state (load_agent_task_queue (dv_now env) (w_queue (dw_lc w))) task)) (\<lambda>paused.
     if paused then act_throw (Out_skipped ''task_not_dispatched'')
     else case resolve_agent env recipient (cpo_agent opts) of
            None \<Rightarrow> act_return ()
          | Some a \<Rightarrow> agent_gate env a recipient task p)"

section \<open>Claim\<close>

definition claim_gate :: "task_path \<Rightarrow> unit disp" where
  "claim_gate p =
     act_bind (act_get (\<lambda>w. map_of (w_files (dw_lc w)) p)) (\<lambda>f.
     case f of
       Some (Task_file fm body) \<Rightarrow>
         act_when (\<not> is_claimable_state (file_state fm)) (act_throw (Out_already_dispatched None))
     | _ \<Rightarrow> act_throw (Out_already_dispatched None))"

definition retry_key :: "agent_rec \<Rightarrow> string \<Rightarrow> string" where
  "retry_key a task = ag_id a @ '':'' @ task"

definition retry_gate :: "string \<Rightarrow> unit disp" where
  "retry_gate key =
     act_bind (act_get (\<lambda>w. map_of (dw_retries w) key)) (\<lambda>r.
     case r of
       None \<Rightarrow> act_return ()
     | Some x \<Rightarrow>
         if rr_force_archived x then act_throw (Out_force_archived key)
         else act_when (rr_decision_required x)
                (act_throw (Out_waiting_admin (rr_last_error x) (rr_failures x) key)))"

definition parent_text :: "parsed_task \<Rightarrow> string" where
  "parent_text t =
     (let v = fm_get (pt_frontmatter t) ''parent'' in
      js_trim (fm_text (if v = V_null then fm_get (pt_frontmatter t) ''parent_task_id'' else v)))"

definition keep_text :: "string \<Rightarrow> string option" where
  "keep_text s = (if s = [] then None else Some s)"

definition offer_of :: "dispatch_env \<Rightarrow> control_opts \<Rightarrow> agent_rec \<Rightarrow> string \<Rightarrow> task_path \<Rightarrow> parsed_task \<Rightarrow> string \<Rightarrow> offer_input" where
  "offer_of env opts a recipient p t task =
     \<lparr>oi_task_id = task, oi_task_path = path_text p, oi_content_hash = Some (dv_content_hash env t),
      oi_thread_key = keep_text (str_of (pt_thread_key t)), oi_parent_task_id = keep_text (parent_text t),
      oi_target_role = recipient, oi_target_agent_id = Some (ag_id a),
      oi_source = (if truthy (cpo_key opts) then ''control_plane'' else ''watcher''),
      oi_mode = or_else (cpo_mode opts) Mode_initial,
      oi_idempotency_key = (if truthy (cpo_key opts) then cpo_key opts else None)\<rparr>"

definition spent_attempt :: "attempt_status \<Rightarrow> bool" where
  "spent_attempt s \<longleftrightarrow>
     s \<in> {At_reported, At_settled, At_rejected, At_expired, At_stale, At_session_failed, At_superseded}"

definition claim_of :: "dispatch_attempt \<Rightarrow> agent_rec \<Rightarrow> string \<Rightarrow> claim_input" where
  "claim_of att a task =
     \<lparr>cl_task_id = task, cl_attempt_id = at_id att, cl_agent_id = ag_id a,
      cl_session_id = ''pending:'' @ at_id att, cl_ttl = None\<rparr>"

definition offer_and_claim ::
  "dispatch_env \<Rightarrow> control_opts \<Rightarrow> agent_rec \<Rightarrow> string \<Rightarrow> task_path \<Rightarrow> parsed_task \<Rightarrow> string
     \<Rightarrow> (string \<times> execution_lease) disp" where
  "offer_and_claim env opts a recipient p t task =
     act_bind (on_store (offer_attempt (dv_now env) (dv_attempt_uuid env) (offer_of env opts a recipient p t task))) (\<lambda>(att, idempotent).
     act_bind (act_get (\<lambda>w. snd (get_task_state (dv_now env) task (dw_store w)))) (\<lambda>active.
     if idempotent \<and> (active \<noteq> None \<or> spent_attempt (at_status att))
     then act_throw (Out_already_dispatched (map_option el_session_id active))
     else
       act_bind (on_store (claim_lease (dv_now env) (dv_lease_uuid env) (claim_of att a task))) (\<lambda>r.
       case r of
         Claim_ok claimed l again \<Rightarrow> act_return (at_id att, l)
       | _ \<Rightarrow> act_throw (Out_lease_conflict (at_id att) r))))"

section \<open>Start of the session\<close>

definition no_failure_input :: failure_input where
  "no_failure_input =
     \<lparr>fo_provider = None, fo_adapter = None, fo_category = None, fo_retryable = None, fo_raw_code = None,
      fi_filepath = None, fi_task_id = None, fi_fingerprint = None, fi_policy = None, fi_next_action = None,
      fi_recovery = None, fi_report_required = None\<rparr>"

definition retry_outcome_of :: "dispatch_env \<Rightarrow> string \<Rightarrow> retry_record \<Rightarrow> dispatch_outcome" where
  "retry_outcome_of env key r =
     (if rr_decision_required r then Out_waiting_admin (rr_last_error r) (rr_failures r) key
      else Out_retry_waiting (rr_last_error r) (or_else (rr_next_retry r) (dv_now env)) (rr_failures r) key)"

definition transient_outcome :: "dispatch_env \<Rightarrow> string \<Rightarrow> js_error \<Rightarrow> failure_input \<Rightarrow> dispatch_outcome disp" where
  "transient_outcome env key e meta w =
     (case record_transient_failure (dv_retry env) (dv_now env) (dv_random env) key e meta (dw_retries w) of
        (r, m) \<Rightarrow> (Inr (retry_outcome_of env key r), w\<lparr>dw_retries := m\<rparr>))"

definition retryable_outcome :: "dispatch_env \<Rightarrow> string \<Rightarrow> js_error \<Rightarrow> failure_input \<Rightarrow> dispatch_outcome disp" where
  "retryable_outcome env key e meta w =
     (case record_failure (dv_retry env) (dv_now env) (dv_random env) key e (meta\<lparr>fo_retryable := Some True\<rparr>) (dw_retries w) of
        (r, m) \<Rightarrow> (Inr (retry_outcome_of env key r), w\<lparr>dw_retries := m\<rparr>))"

fun failure_message :: "start_failure \<Rightarrow> string" where
  "failure_message (Start_busy e status) = er_message e"
| "failure_message (Start_delayed e cause) = er_message e"
| "failure_message (Start_cooldown e) = er_message e"
| "failure_message (Start_failed e) = er_message e"

fun failed_start :: "dispatch_env \<Rightarrow> string \<Rightarrow> string \<Rightarrow> failure_input \<Rightarrow> start_failure \<Rightarrow> dispatch_outcome disp" where
  "failed_start env recipient key meta (Start_busy e status) = act_return (Out_rejected_busy recipient status)"
| "failed_start env recipient key meta (Start_delayed e cause) = transient_outcome env key (or_else cause e) meta"
| "failed_start env recipient key meta (Start_cooldown e) = transient_outcome env key e meta"
| "failed_start env recipient key meta (Start_failed e) =
     (if is_transient_sdk_error e then transient_outcome env key e meta else retryable_outcome env key e meta)"

text \<open>What the dispatcher records once a session runs.\<close>

definition session_started ::
  "dispatch_env \<Rightarrow> agent_rec \<Rightarrow> string \<Rightarrow> task_path \<Rightarrow> parsed_task \<Rightarrow> string \<Rightarrow> string \<Rightarrow> string \<Rightarrow> unit disp" where
  "session_started env a recipient ep t task attempt sid =
     act_bind (act_update (\<lambda>w. w\<lparr>dw_started := dw_started w @ [(ag_id a, task, sid)],
                                 dw_retries := clear_retry (retry_key a task) (dw_retries w)\<rparr>)) (\<lambda>_.
     act_bind (on_queue (with_agent_task_queue (dv_now env) (set_agent_running (ag_id a)
                \<lparr>re_task_id = task, re_session_id = sid, re_started_at = dv_now env\<rparr>))) (\<lambda>_.
     act_bind (on_store (mark_running (dv_now env) attempt sid)) (\<lambda>_.
     act_bind (append_history env ep \<lparr>he_from = ''inbox'', he_to = ''dispatched'', he_note = ''session_id='' @ sid\<rparr>) (\<lambda>_.
     act_bind (append_history env ep \<lparr>he_from = ''dispatched'', he_to = ''running'', he_note = ''session_id='' @ sid\<rparr>) (\<lambda>_.
     act_update (\<lambda>w. w\<lparr>dw_running := AList.update (ag_id a) sid (dw_running w),
                        dw_pending := AList.update sid (ep, recipient) (dw_pending w),
                        dw_downstream := (if is_pm_to_worker_dispatch (pt_sender t) recipient (snd ep)
                             \<and> js_upper (js_trim (str_of (pt_sender t))) = ''PM''
                             \<and> js_upper (js_trim recipient) \<in> {''DEV'', ''OPS'', ''QA''}
                           then dw_downstream w @ [js_upper (js_trim recipient)] else dw_downstream w)\<rparr>))))))"

definition start_session ::
  "dispatch_env \<Rightarrow> execution_decision option \<Rightarrow> agent_rec \<Rightarrow> string \<Rightarrow> task_path \<Rightarrow> parsed_task \<Rightarrow> string
     \<Rightarrow> string \<times> execution_lease \<Rightarrow> dispatch_outcome disp" where
  "start_session env decision a recipient p t task = (\<lambda>(attempt, l).
     let claim = \<lparr>dc_attempt = Some attempt, dc_lease = Some (el_id l), dc_agent = Some (ag_id a), dc_decision = decision\<rparr> in
     act_bind (on_lc (await_dispatch_inbox_to_active env claim p)) (\<lambda>moved.
     case moved of
       Inl e \<Rightarrow>
         act_bind (finish_as env attempt At_rejected (Some (dv_message env e))) (\<lambda>_.
         act_throw (Out_skipped ''lifecycle_error''))
     | Inr ep \<Rightarrow>
         (case dv_start env (ag_id a) task of
            Inl failure \<Rightarrow>
              act_bind (finish_as env attempt At_session_failed (Some (failure_message failure))) (\<lambda>_.
              act_bind (on_lc (restore_to_inbox env ep ''session_start_failed'')) (\<lambda>_.
              failed_start env recipient (retry_key a task)
                (no_failure_input\<lparr>fi_filepath := Some (path_text p), fi_task_id := Some task\<rparr>) failure))
          | Inr sid \<Rightarrow>
              act_bind (session_started env a recipient ep t task attempt sid) (\<lambda>_.
              act_return (Out_dispatched sid attempt (el_id l))))))"

section \<open>The dispatch of a task (\<^verbatim>\<open>_dispatch\<close>)\<close>

definition dispatch_claimed ::
  "dispatch_env \<Rightarrow> control_opts \<Rightarrow> execution_decision option \<Rightarrow> string \<Rightarrow> task_path \<Rightarrow> parsed_task \<Rightarrow> string
     \<Rightarrow> dispatch_outcome disp" where
  "dispatch_claimed env opts decision recipient p t task =
     act_bind (queue_gate env opts recipient task p) (\<lambda>_.
     act_bind (claim_gate p) (\<lambda>_.
     case resolve_agent env recipient (cpo_agent opts) of
       None \<Rightarrow> act_throw (Out_agent_not_found recipient)
     | Some a \<Rightarrow>
         act_bind (retry_gate (retry_key a task)) (\<lambda>_.
         act_bind (offer_and_claim env opts a recipient p t task)
           (start_session env decision a recipient p t task))))"

definition dispatch_task ::
  "dispatch_env \<Rightarrow> control_opts \<Rightarrow> execution_decision option \<Rightarrow> task_path \<Rightarrow> string \<Rightarrow> dispatch_outcome disp" where
  "dispatch_task env opts decision p filename_recipient =
     (if is_observer_role filename_recipient then act_throw (Out_observer_bypass filename_recipient)
      else act_bind (act_get (\<lambda>w. parse_path env (w_files (dw_lc w)) p)) (\<lambda>parsed.
        case parsed of
          None \<Rightarrow> act_throw Out_parse_failed
        | Some t \<Rightarrow>
            let recipient = or_else (pt_recipient t) filename_recipient;
                task = canonical_dispatch_id (snd p) (pt_task_id t) in
            if is_observer_role recipient then act_throw (Out_observer_bypass recipient)
            else if task = [] then act_throw Out_no_task_id
            else dispatch_claimed env opts decision recipient p t task))"

section \<open>The control plane (\<^verbatim>\<open>dispatchTaskFromControlPlane\<close>)\<close>

fun mode_text :: "attempt_mode \<Rightarrow> string" where
  "mode_text Mode_initial = ''initial''"
| "mode_text Mode_retry = ''retry''"
| "mode_text Mode_repair_retry = ''repair_retry''"
| "mode_text Mode_restart_session = ''restart_session''"
| "mode_text Mode_reassign = ''reassign''"
| "mode_text Mode_agent_claim = ''agent_claim''"

fun durable_error_text :: "durable_error \<Rightarrow> string" where
  "durable_error_text Missing_yaml_frontmatter = ''missing_yaml_frontmatter''"
| "durable_error_text Invalid_protocol = ''invalid_protocol''"
| "durable_error_text (Missing_field k) = ''missing_'' @ k"
| "durable_error_text Empty_markdown_body = ''empty_markdown_body''"
| "durable_error_text Sender_filename_mismatch = ''sender_filename_mismatch''"
| "durable_error_text Recipient_filename_mismatch = ''recipient_filename_mismatch''"

definition decision_input_of ::
  "dispatch_env \<Rightarrow> string \<Rightarrow> control_opts \<Rightarrow> task_path \<Rightarrow> parsed_task \<Rightarrow> decision_value \<Rightarrow> string \<Rightarrow> decision_input" where
  "decision_input_of env source opts p t v reason =
     \<lparr>din_operation_id = or_else (cpo_key opts)
        (''dispatch:'' @ mode_text (or_else (cpo_mode opts) Mode_initial) @ '':'' @ dv_operation_uuid env),
      din_task_id = canonical_dispatch_id (snd p) (pt_task_id t), din_input_digest = dv_spec_digest env t,
      din_decision = v, din_reason = reason, din_source = source\<rparr>"

definition decide ::
  "dispatch_env \<Rightarrow> string \<Rightarrow> control_opts \<Rightarrow> task_path \<Rightarrow> parsed_task \<Rightarrow> decision_value \<Rightarrow> string \<Rightarrow> execution_decision disp" where
  "decide env source opts p t v reason =
     act_bind (on_store (record_decision (dv_now env) (dv_decision_uuid env) (decision_input_of env source opts p t v reason))) (\<lambda>r.
     case r of Inl e \<Rightarrow> act_throw (Out_decision_conflict e) | Inr d \<Rightarrow> act_return d)"

definition refuse ::
  "dispatch_env \<Rightarrow> string \<Rightarrow> control_opts \<Rightarrow> task_path \<Rightarrow> parsed_task \<Rightarrow> decision_value \<Rightarrow> string \<Rightarrow> dispatch_outcome \<Rightarrow> 'a disp" where
  "refuse env source opts p t v reason out =
     act_bind (decide env source opts p t v reason) (\<lambda>_. act_throw out)"

text \<open>An invalid file is reported once per content; the mark is taken back when the decision cannot be recorded.\<close>

definition file_digest :: "dispatch_env \<Rightarrow> task_files \<Rightarrow> task_path \<Rightarrow> parsed_task \<Rightarrow> string" where
  "file_digest env fs p t =
     (case map_of fs p of Some (Task_file fm body) \<Rightarrow> dv_file_digest env fm body | _ \<Rightarrow> dv_spec_digest env t)"

definition durable_gate :: "dispatch_env \<Rightarrow> string \<Rightarrow> control_opts \<Rightarrow> task_path \<Rightarrow> parsed_task \<Rightarrow> string \<Rightarrow> unit disp" where
  "durable_gate env source opts p t recipient =
     (let errors = validate_durable_task t [] (Some (extract_sender_from_filename (snd p))) (Some recipient);
          reason = ''invalid_task_file:'' @ js_join '', '' (map durable_error_text errors); key = path_text p in
      if errors = [] then act_update (\<lambda>w. w\<lparr>dw_invalid := AList.delete key (dw_invalid w)\<rparr>)
      else (\<lambda>w.
        let mark = (file_digest env (w_files (dw_lc w)) p t, errors) in
        if map_of (dw_invalid w) key = Some mark then (Inl (Out_skipped ''invalid_task_file''), w)
        else
          case decide env source opts p t Decision_reject reason (w\<lparr>dw_invalid := AList.update key mark (dw_invalid w)\<rparr>) of
            (Inl e, w') \<Rightarrow> (Inl e, w'\<lparr>dw_invalid := AList.delete key (dw_invalid w')\<rparr>)
          | (Inr d, w') \<Rightarrow> (Inl (Out_skipped ''invalid_task_file''), w')))"

definition admission_gate :: "dispatch_env \<Rightarrow> string \<Rightarrow> control_opts \<Rightarrow> task_path \<Rightarrow> parsed_task \<Rightarrow> unit disp" where
  "admission_gate env source opts p t =
     (case dv_admission env t (or_else (cpo_mode opts) Mode_initial \<noteq> Mode_initial) of
        None \<Rightarrow> act_return ()
      | Some findings \<Rightarrow>
          refuse env source opts p t Decision_reject (''task_spec:'' @ js_join '','' findings) (Out_spec_rejected findings))"

definition product_gate :: "dispatch_env \<Rightarrow> string \<Rightarrow> control_opts \<Rightarrow> task_path \<Rightarrow> parsed_task \<Rightarrow> unit disp" where
  "product_gate env source opts p t =
     (case dv_product_gate env t of
        None \<Rightarrow> act_return ()
      | Some reason \<Rightarrow> refuse env source opts p t Decision_wait reason (Out_skipped reason))"

definition dependency_gate :: "dispatch_env \<Rightarrow> string \<Rightarrow> control_opts \<Rightarrow> task_path \<Rightarrow> parsed_task \<Rightarrow> unit disp" where
  "dependency_gate env source opts p t =
     (let v = evaluate_task_dependency_gate t (Some (dv_project env)) in
      if dep_allowed v then act_return ()
      else refuse env source opts p t Decision_wait ''dependency_pending'' (Out_dependency_pending v))"

text \<open>The row of the task that the gates of its role judge.\<close>

definition gate_target :: "exec_context \<Rightarrow> task_path \<Rightarrow> parsed_task \<Rightarrow> string \<Rightarrow> gate_task" where
  "gate_target ctx p t recipient =
     (let existing = List.find (\<lambda>x. gt_filename x = snd p) (xc_tasks ctx) in
      \<lparr>gt_protocol = None,
       gt_task_id = (case existing of Some x \<Rightarrow> gt_task_id x | None \<Rightarrow> strip_md (snd p)),
       gt_filename = snd p,
       gt_recipient = (case existing of Some x \<Rightarrow> gt_recipient x
                       | None \<Rightarrow> if truthy (pt_recipient t) then str_of (pt_recipient t) else recipient),
       gt_sender = Option.bind existing gt_sender,
       gt_thread_key = coalesce (Option.bind existing gt_thread_key) (pt_thread_key t),
       gt_bucket = (case existing of Some x \<Rightarrow> gt_bucket x | None \<Rightarrow> ''inbox''),
       gt_fm_state = coalesce (Option.bind existing gt_fm_state) (Some ''inbox''),
       gt_display = Option.bind existing gt_display,
       gt_terminated = False, gt_residue = False, gt_parent = None, gt_parent_task_id = None, gt_rework_of = None,
       gt_depends_on = coalesce (Option.bind existing gt_depends_on) (Some (collect_dependency_task_ids t))\<rparr>)"

definition gate_skip_reason :: "gate_reason \<Rightarrow> string" where
  "gate_skip_reason g =
     (case g of
        Gate_waiting_dependency k \<Rightarrow> ''waiting_dependency''
      | Gate_lifecycle_split s \<Rightarrow> ''lifecycle_split''
      | Gate_already_active \<Rightarrow> ''already_active''
      | Gate_already_done \<Rightarrow> ''already_done''
      | Gate_allowed \<Rightarrow> ''task_not_dispatched'')"

fun is_waiting :: "gate_reason \<Rightarrow> bool" where
  "is_waiting (Gate_waiting_dependency k) \<longleftrightarrow> True"
| "is_waiting g \<longleftrightarrow> False"

fun is_split :: "gate_reason \<Rightarrow> bool" where
  "is_split (Gate_lifecycle_split s) \<longleftrightarrow> True"
| "is_split g \<longleftrightarrow> False"

text \<open>The gate of the role answers the path to go on with: a split of the inbox is repaired first.\<close>

definition role_gate :: "dispatch_env \<Rightarrow> string \<Rightarrow> control_opts \<Rightarrow> task_path \<Rightarrow> parsed_task \<Rightarrow> string \<Rightarrow> task_path disp" where
  "role_gate env source opts p t recipient =
     (let ctx = dv_context env; target = gate_target ctx p t recipient;
          thread = filter_thread_tasks (xc_tasks ctx) (gt_thread_key target) in
      if normalize_dispatch_role (gt_recipient target) = ''QA'' then
        (case can_dispatch_qa target ctx thread of
           None \<Rightarrow> act_return p
         | Some b \<Rightarrow> refuse env source opts p t Decision_wait (qa_skip_reason b) (Out_skipped (qa_skip_reason b)))
      else
        let g = evaluate_dispatch_eligibility target thread (xc_reports ctx) in
        if is_split g then
          act_bind (on_lc (repair_inbox_split env p (''control_plane_repair:'' @ source))) (\<lambda>r.
          case r of Inl e \<Rightarrow> act_throw (Out_threw e) | Inr p' \<Rightarrow> act_return p')
        else if g = Gate_allowed \<or> (is_waiting g \<and> collect_dependency_task_ids t \<noteq> []) then act_return p
        else refuse env source opts p t Decision_wait (gate_skip_reason g) (Out_skipped (gate_skip_reason g)))"

definition business_gates :: "dispatch_env \<Rightarrow> string \<Rightarrow> control_opts \<Rightarrow> task_path \<Rightarrow> parsed_task \<Rightarrow> string \<Rightarrow> task_path disp" where
  "business_gates env source opts p t recipient =
     (if cpo_bypass opts then act_return p
      else
        act_bind (product_gate env source opts p t) (\<lambda>_.
        act_bind (dependency_gate env source opts p t) (\<lambda>_.
        role_gate env source opts p t recipient)))"

text \<open>\<open>_scheduleDispatchRetry\<close>: the timer fires when the retry is due, and not before the minimal delay.\<close>

definition schedule_retry :: "dispatch_env \<Rightarrow> string \<Rightarrow> time \<Rightarrow> dispatcher_world \<Rightarrow> dispatcher_world" where
  "schedule_retry env key next w =
     w\<lparr>dw_timers := dw_timers w
         @ [(key, dv_now env + max (max 0 (next - dv_now env)) (dv_min_retry_delay env))]\<rparr>"

text \<open>The notes carry what varies: the reason, the role, the key; numbers and result paths are left out.\<close>

definition apply_outcome :: "dispatch_env \<Rightarrow> task_path \<Rightarrow> dispatch_outcome \<Rightarrow> dispatcher_world \<Rightarrow> dispatcher_world" where
  "apply_outcome env p out w =
     (let hist = (\<lambda>from to note. snd (append_history env p \<lparr>he_from = from, he_to = to, he_note = note\<rparr> w)) in
      case out of
        Out_parse_failed \<Rightarrow> hist ''inbox'' ''parse_failed'' []
      | Out_no_task_id \<Rightarrow> hist ''inbox'' ''parse_failed'' []
      | Out_observer_bypass r \<Rightarrow> hist ''inbox'' ''observer_bypass'' (''recipient='' @ r)
      | Out_skipped reason \<Rightarrow> hist ''inbox'' ''dispatch_skipped'' reason
      | Out_agent_not_found r \<Rightarrow> hist ''inbox'' ''agent_not_found'' (''recipient='' @ r)
      | Out_rejected_busy r status \<Rightarrow>
          hist ''inbox'' ''rejected_busy'' (''recipient='' @ r @ '', agent_status='' @ status)
      | Out_force_archived key \<Rightarrow> hist ''dispatched'' ''admin_force_archive'' (''retry_key='' @ key)
      | Out_waiting_admin reason n key \<Rightarrow> hist ''inbox'' ''waiting_admin_decision'' reason
      | Out_retry_waiting reason next n key \<Rightarrow>
          schedule_retry env key next (hist ''inbox'' ''retry_waiting'' reason)
      | Out_lease_conflict attempt r \<Rightarrow> hist ''inbox'' ''lease_conflict'' (''attempt_id='' @ attempt)
      | _ \<Rightarrow> w)"

definition run_exit :: "dispatch_outcome disp \<Rightarrow> dispatcher_world \<Rightarrow> dispatch_outcome \<times> dispatcher_world" where
  "run_exit m w = (case m w of (Inl out, w') \<Rightarrow> (out, w') | (Inr out, w') \<Rightarrow> (out, w'))"

definition gated_dispatch :: "dispatch_env \<Rightarrow> string \<Rightarrow> control_opts \<Rightarrow> task_path \<Rightarrow> string \<Rightarrow> dispatch_outcome disp" where
  "gated_dispatch env source opts p recipient =
     act_bind (act_get (\<lambda>w. parse_path env (w_files (dw_lc w)) p)) (\<lambda>parsed.
     case parsed of
       None \<Rightarrow> act_throw (Out_skipped ''invalid_task_file'')
     | Some t \<Rightarrow>
         act_bind (durable_gate env source opts p t recipient) (\<lambda>_.
         act_bind (admission_gate env source opts p t) (\<lambda>_.
         act_bind (business_gates env source opts p t recipient) (\<lambda>q.
         act_bind (decide env source opts p t Decision_allow ''all_dispatch_gates_passed'') (\<lambda>d.
         (\<lambda>w. case run_exit (dispatch_task env opts (Some d) q recipient) w of
                (out, w') \<Rightarrow> (Inr out, apply_outcome env q out w')))))))"

definition dispatch_from_control_plane ::
  "dispatch_env \<Rightarrow> string \<Rightarrow> control_opts \<Rightarrow> task_path \<Rightarrow> string option \<Rightarrow> dispatcher_world \<Rightarrow> dispatch_outcome \<times> dispatcher_world" where
  "dispatch_from_control_plane env source opts p filename_recipient =
     (let recipient = or_else filename_recipient (extract_recipient_from_filename (snd p)) in
      run_exit (if is_observer_role recipient then act_throw (Out_observer_bypass recipient)
                else gated_dispatch env source opts p recipient))"

end
