(* ===== verification/Dispatch_Properties.thy ===== *)
theory Dispatch_Properties
  imports Task_Dispatch
begin

text \<open>
  What the dispatcher guarantees: a session starts only behind every gate, with a recorded permission,
  under a lease of its own and for an agent without a live session; a lease that someone holds keeps
  the task from being started again; a dispatch that starts nothing leaves no lease behind.
\<close>

section \<open>Views of the world\<close>

abbreviation keeps_view :: "('w \<Rightarrow> 'v) \<Rightarrow> ('w, 'e, 'a) act \<Rightarrow> bool" where
  "keeps_view g m \<equiv> act_keeps (\<lambda>w w'. g w' = g w) m"

lemma keeps_get [keeps_intros]: "keeps_view g (act_get f)"
  by (simp add: act_keeps_def act_get_def)

lemma keeps_update: "(\<And>w. g (f w) = g w) \<Longrightarrow> keeps_view g (act_update f)"
  by (simp add: act_keeps_def act_update_def)

lemma keeps_on_lc: "(\<And>w l. g (w\<lparr>dw_lc := l\<rparr>) = g w) \<Longrightarrow> keeps_view g (on_lc m)"
  by (simp add: act_keeps_def on_lc_def split: prod.splits)

lemma keeps_on_store: "(\<And>w s. g (w\<lparr>dw_store := s\<rparr>) = g w) \<Longrightarrow> keeps_view g (on_store m)"
  by (simp add: act_keeps_def on_store_def split: prod.splits)

lemma keeps_option [keeps_intros]:
  "(x = None \<Longrightarrow> act_keeps R f) \<Longrightarrow> (\<And>y. x = Some y \<Longrightarrow> act_keeps R (h y)) \<Longrightarrow>
   act_keeps R (case x of None \<Rightarrow> f | Some y \<Rightarrow> h y)"
  by (cases x) simp_all

lemma keeps_sum [keeps_intros]:
  "(\<And>e. x = Inl e \<Longrightarrow> act_keeps R (f e)) \<Longrightarrow> (\<And>y. x = Inr y \<Longrightarrow> act_keeps R (h y)) \<Longrightarrow>
   act_keeps R (case x of Inl e \<Rightarrow> f e | Inr y \<Rightarrow> h y)"
  by (cases x) simp_all

text \<open>A view that depends on neither the files, nor the attempts, nor the bookkeeping of the dispatcher.\<close>

definition apart_from_gates :: "(dispatcher_world \<Rightarrow> 'v) \<Rightarrow> bool" where
  "apart_from_gates g \<longleftrightarrow>
     (\<forall>w x. g (w\<lparr>dw_lc := x\<rparr>) = g w) \<and> (\<forall>w x. g (w\<lparr>dw_invalid := x\<rparr>) = g w)
     \<and> (\<forall>w x. g (w\<lparr>dw_cancelled := x\<rparr>) = g w) \<and> (\<forall>w x. g (w\<lparr>dw_history := x\<rparr>) = g w)
     \<and> (\<forall>w x. g (w\<lparr>dw_retries := x\<rparr>) = g w) \<and> (\<forall>w x. g (w\<lparr>dw_timers := x\<rparr>) = g w)"

lemma apart_simps:
  assumes "apart_from_gates g"
  shows "g (w\<lparr>dw_lc := x1\<rparr>) = g w" "g (w\<lparr>dw_invalid := x2\<rparr>) = g w" "g (w\<lparr>dw_cancelled := x3\<rparr>) = g w"
    "g (w\<lparr>dw_history := x4\<rparr>) = g w" "g (w\<lparr>dw_retries := x5\<rparr>) = g w" "g (w\<lparr>dw_timers := x6\<rparr>) = g w"
  using assms unfolding apart_from_gates_def by blast+

lemma apart_views [simp]:
  "apart_from_gates dw_started" "apart_from_gates dw_store"
  "apart_from_gates (\<lambda>w. ds_decisions (dw_store w))" "apart_from_gates (\<lambda>w. ds_leases (dw_store w))"
  by (simp_all add: apart_from_gates_def)

lemmas disp_keeps = keeps_update keeps_on_lc keeps_on_store keeps_intros

lemma keeps_queue_gate:
  assumes g: "apart_from_gates g"
  shows "keeps_view g (queue_gate env opts recipient task p)"
  unfolding queue_gate_def agent_gate_def Let_def reconcile_queue_def on_queue_def
  by (intro disp_keeps) (simp_all add: apart_simps[OF g])

lemma keeps_claim_gate: "keeps_view g (claim_gate p)"
  unfolding claim_gate_def
  by (intro keeps_intros) (simp_all add: act_keeps_def act_throw_def act_when_def act_return_def split: option.split task_file.split)

lemma keeps_retry_gate: "keeps_view g (retry_gate key)"
  unfolding retry_gate_def by (intro keeps_intros)

lemma keeps_append_history:
  assumes g: "apart_from_gates g"
  shows "keeps_view g (append_history env p e)"
  unfolding append_history_def by (rule keeps_update) (simp add: apart_simps[OF g] Let_def)

lemma keeps_apply_outcome:
  assumes g: "apart_from_gates g"
  shows "g (apply_outcome env p out w) = g w"
proof -
  have "g (snd (append_history env p e w)) = g w" for e
    using keeps_append_history[OF g] by (simp add: act_keeps_def)
  then show ?thesis
    by (cases out) (simp_all add: apply_outcome_def schedule_retry_def Let_def apart_simps[OF g])
qed

lemma keeps_failed_start:
  assumes g: "apart_from_gates g"
  shows "keeps_view g (failed_start env recipient key meta f)"
  by (cases f) (auto simp: act_keeps_def transient_outcome_def retryable_outcome_def act_return_def apart_simps[OF g]
      split: prod.split)

lemma keeps_decide:
  "(\<And>w s. g (w\<lparr>dw_store := s\<rparr>) = g w) \<Longrightarrow> keeps_view g (decide env source opts p t v reason)"
  unfolding decide_def by (intro keeps_on_store keeps_intros) simp

lemma keeps_refuse:
  "keeps_view g (decide env source opts p t v reason) \<Longrightarrow> keeps_view g (refuse env source opts p t v reason out)"
  unfolding refuse_def by (intro keeps_intros)

section \<open>What the gates let through\<close>

definition durable_errors :: "task_path \<Rightarrow> parsed_task \<Rightarrow> string \<Rightarrow> durable_error list" where
  "durable_errors p t recipient =
     validate_durable_task t [] (Some (extract_sender_from_filename (snd p))) (Some recipient)"

definition role_allows :: "dispatch_env \<Rightarrow> task_path \<Rightarrow> parsed_task \<Rightarrow> string \<Rightarrow> bool" where
  "role_allows env p t recipient =
     (let ctx = dv_context env; target = gate_target ctx p t recipient;
          thread = filter_thread_tasks (xc_tasks ctx) (gt_thread_key target);
          g = evaluate_dispatch_eligibility target thread (xc_reports ctx) in
      if normalize_dispatch_role (gt_recipient target) = ''QA'' then can_dispatch_qa target ctx thread = None
      else g = Gate_allowed \<or> is_split g \<or> (is_waiting g \<and> collect_dependency_task_ids t \<noteq> []))"

lemma refuse_throws [simp]: "refuse env source opts p t v reason out w \<noteq> (Inr x, w')"
  by (auto simp: refuse_def act_bind_Inr_iff act_throw_def)

lemma decide_Inr:
  assumes "decide env source opts p t v reason w = (Inr d, w')"
  shows "record_decision (dv_now env) (dv_decision_uuid env) (decision_input_of env source opts p t v reason) (dw_store w)
           = (Inr d, dw_store w')"
    and "w' = w\<lparr>dw_store := dw_store w'\<rparr>"
  using assms
  by (auto simp: decide_def act_bind_Inr_iff on_store_def act_throw_def act_return_def split: prod.splits sum.splits)

lemma durable_gate_Inr:
  assumes "durable_gate env source opts p t recipient w = (Inr u, w')"
  shows "durable_errors p t recipient = []"
    and "w' = w\<lparr>dw_invalid := AList.delete (path_text p) (dw_invalid w)\<rparr>"
  using assms
  by (auto simp: durable_gate_def durable_errors_def act_update_def Let_def split: if_splits prod.splits sum.splits)

lemma admission_gate_Inr:
  "admission_gate env source opts p t w = (Inr u, w') \<longleftrightarrow>
     dv_admission env t (or_else (cpo_mode opts) Mode_initial \<noteq> Mode_initial) = None \<and> w' = w"
  by (auto simp: admission_gate_def act_return_def split: option.splits)

lemma product_gate_Inr:
  "product_gate env source opts p t w = (Inr u, w') \<longleftrightarrow> dv_product_gate env t = None \<and> w' = w"
  by (auto simp: product_gate_def act_return_def split: option.splits)

lemma dependency_gate_Inr:
  "dependency_gate env source opts p t w = (Inr u, w') \<longleftrightarrow>
     dep_allowed (evaluate_task_dependency_gate t (Some (dv_project env))) \<and> w' = w"
  by (auto simp: dependency_gate_def act_return_def Let_def)

lemma on_lc_store: "on_lc m w = (r, w') \<Longrightarrow> dw_store w' = dw_store w"
  by (auto simp: on_lc_def split: prod.splits)

lemma case_throw_return:
  "(case x of Inl e \<Rightarrow> act_throw (f e) | Inr y \<Rightarrow> act_return y) w = (Inr q, w') \<longleftrightarrow> x = Inr q \<and> w' = w"
  by (auto simp: act_throw_def act_return_def split: sum.splits)

lemma role_gate_Inr:
  assumes "role_gate env source opts p t recipient w = (Inr q, w')"
  shows "role_allows env p t recipient" and "dw_store w' = dw_store w"
  using assms
  by (auto simp: role_gate_def role_allows_def Let_def case_throw_return act_bind_Inr_iff
      act_return_def [of p] split: if_splits option.splits dest: on_lc_store)

lemma business_gates_Inr:
  assumes "business_gates env source opts p t recipient w = (Inr q, w')"
  shows "cpo_bypass opts \<or>
      (dv_product_gate env t = None \<and> dep_allowed (evaluate_task_dependency_gate t (Some (dv_project env)))
       \<and> role_allows env p t recipient)"
    and "dw_store w' = dw_store w" and "cpo_bypass opts \<longrightarrow> q = p"
  using assms
  by (auto simp: business_gates_def act_return_def act_bind_Inr_iff product_gate_Inr dependency_gate_Inr
      split: if_splits dest: role_gate_Inr)

lemma keeps_gates:
  assumes g: "apart_from_gates g"
    and d: "\<And>v reason. keeps_view g (decide env source opts p t v reason)"
  shows "keeps_view g (durable_gate env source opts p t recipient)"
    and "keeps_view g (admission_gate env source opts p t)"
    and "keeps_view g (business_gates env source opts p t recipient)"
proof -
  show "keeps_view g (durable_gate env source opts p t recipient)"
  proof (rule act_keepsI)
    fix w
    let ?reason = "''invalid_task_file:'' @ js_join '', '' (map durable_error_text (durable_errors p t recipient))"
    have "g (snd (decide env source opts p t Decision_reject ?reason w1)) = g w1" for w1
      using d by (simp add: act_keeps_def)
    then show "g (snd (durable_gate env source opts p t recipient w)) = g w"
      by (auto simp: durable_gate_def durable_errors_def act_update_def Let_def apart_simps[OF g]
          split: prod.splits sum.splits) (metis apart_simps(2)[OF g] snd_conv)+
  qed
  show "keeps_view g (admission_gate env source opts p t)"
    unfolding admission_gate_def by (intro keeps_intros keeps_refuse d)
  show "keeps_view g (business_gates env source opts p t recipient)"
    unfolding business_gates_def product_gate_def dependency_gate_def role_gate_def Let_def
    by (intro keeps_on_lc keeps_intros keeps_refuse d) (simp add: apart_simps[OF g])
qed

section \<open>The claim\<close>

lemma offer_attempt_keeps:
  "ds_leases (snd (offer_attempt now uuid i s)) = ds_leases s"
  "ds_decisions (snd (offer_attempt now uuid i s)) = ds_decisions s"
  by (auto simp: offer_attempt_def Let_def split: option.split)

lemma claim_lease_decisions: "ds_decisions (snd (claim_lease now uuid i s)) = ds_decisions s"
  by (auto simp: claim_lease_def Let_def split: option.split)

lemma mark_running_decisions: "ds_decisions (snd (mark_running now a sid s)) = ds_decisions s"
  by (auto simp: mark_running_def Let_def split: option.split)

lemma finish_attempt_decisions: "ds_decisions (finish_attempt now a st r s) = ds_decisions s"
  by (auto simp: finish_attempt_def split: option.split)

lemma keeps_decisions_dispatch:
  "keeps_view (\<lambda>w. ds_decisions (dw_store w)) (dispatch_task env opts decision p recipient)"
proof -
  let ?g = "\<lambda>w. ds_decisions (dw_store w)"
  have st: "keeps_view ?g (on_store f)" if "\<And>s. ds_decisions (snd (f s)) = ds_decisions s" for f :: "_ \<Rightarrow> 'x \<times> _"
    using that by (auto simp: act_keeps_def on_store_def split: prod.splits) (metis snd_conv)
  have fin: "keeps_view ?g (finish_as env a s r)" for a s r
    unfolding finish_as_def by (rule st) (simp add: finish_attempt_decisions)
  have claim: "keeps_view ?g (offer_and_claim env opts a r p t task)" for a r t task
    unfolding offer_and_claim_def
    by (intro st keeps_intros) (auto simp: offer_attempt_keeps claim_lease_decisions
        intro: view.keeps_basic split: claim_result.split)
  have started: "keeps_view ?g (session_started env a r ep t task attempt sid)" for a r ep t task attempt sid
    unfolding session_started_def on_queue_def
    by (intro disp_keeps st keeps_append_history) (simp_all add: mark_running_decisions)
  have start: "keeps_view ?g (start_session env decision a r p t task x)" for a r t task x
    unfolding start_session_def Let_def
    by (intro keeps_on_lc keeps_intros fin started keeps_failed_start) simp_all
  show ?thesis
    unfolding dispatch_task_def dispatch_claimed_def Let_def
    by (intro keeps_intros keeps_queue_gate keeps_claim_gate keeps_retry_gate claim start) simp_all
qed

lemma record_decision_Inr:
  assumes "record_decision now uuid i s = (Inr d, s')"
  shows "d \<in> set (ds_decisions s')" and "ed_decision d = din_decision i" and "ed_reason d = din_reason i"
    and "ed_operation_id d = din_operation_id i" and "ed_input_digest d = din_input_digest i"
    and "dispatch_task_key (ed_task_id d) = dispatch_task_key (din_task_id i)"
    and "ds_leases s' = ds_leases s" and "ds_attempts s' = ds_attempts s"
proof -
  have last: "x \<in> set (drop (length (xs @ [x]) - 2000) (xs @ [x]))" for x :: execution_decision and xs
    by simp
  show "d \<in> set (ds_decisions s')"
    using assms last [of d "ds_decisions s"]
    by (auto simp: record_decision_def Let_def split: option.splits if_splits dest: find_SomeD)
qed (use assms in \<open>auto simp: record_decision_def Let_def split: option.splits if_splits dest: find_SomeD\<close>)

lemma claim_ok_lease:
  assumes ok: "dispatch_ok s" and run: "claim_lease now uuid i s = (Claim_ok a l again, s')"
    and ttl: "0 < or_else (cl_ttl i) (30 * 60000)"
  shows "lease_table s' (claim_key i) = Some l" and "dispatch_ok s'"
    and "el_attempt_id l = cl_attempt_id i" and "el_agent_id l = cl_agent_id i" and "now < el_expires l"
    and "lease_table s (claim_key i) = Some l0 \<Longrightarrow> el_expires l0 \<le> now \<or> l0 = l"
proof -
  have adm: "claim_admitted i s"
    using run by (auto simp: claim_lease_def claim_admitted_def split: option.splits if_splits)
  note ref = claim_refines [OF ok adm, of now uuid]
  let ?t = "lock_expire el_expires now (lease_table s)"
  have find: "?t (claim_key i) =
      List.find (\<lambda>l. lease_key l = claim_key i \<and> unreleased l) (release_expired now (ds_leases s))"
    unfolding release_expired_table [OF ok, symmetric] by (simp add: lease_table_def)
  show "dispatch_ok s'" using ref run by simp
  have cases: "(?t (claim_key i) = Some l \<and> el_attempt_id l = cl_attempt_id i \<and> el_agent_id l = cl_agent_id i)
      \<or> (?t (claim_key i) = None \<and> l = new_lease now uuid i)"
    using run unfolding find
    by (auto simp: claim_lease_def Let_def split: option.splits if_splits)
  then show "lease_table s' (claim_key i) = Some l" using ref run by (auto simp: lock_claim_def)
  show "el_attempt_id l = cl_attempt_id i" "el_agent_id l = cl_agent_id i"
    using cases by (auto simp: new_lease_def)
  show "now < el_expires l"
    using cases ttl by (auto simp: new_lease_def lock_expire_def split: option.splits if_splits)
  show "el_expires l0 \<le> now \<or> l0 = l" if "lease_table s (claim_key i) = Some l0"
    using cases that by (auto simp: lock_expire_def split: if_splits)
qed

lemma mark_running_table:
  assumes ok: "dispatch_ok s" and l: "lease_table s k = Some l"
  shows "\<exists>l'. lease_table (snd (mark_running now a sid s)) k = Some l'
    \<and> el_id l' = el_id l \<and> el_attempt_id l' = el_attempt_id l
    \<and> el_agent_id l' = el_agent_id l \<and> el_expires l' = el_expires l"
proof -
  let ?s = "snd (mark_running now a sid s)"
  have ok': "dispatch_ok ?s" using dispatch_step_ok [OF ok, of "(now, Call_running a sid)"] by simp
  have m: "l \<in> set (ds_leases s)" "unreleased l" "lease_key l = k" using l lease_table_iff [OF ok] by simp_all
  have "l \<in> set ls \<Longrightarrow> l \<in> set (update_first P f ls) \<or> f l \<in> set (update_first P f ls)" for P f ls
    by (induction ls) auto
  with m(1) have "l \<in> set (ds_leases ?s) \<or> l\<lparr>el_session_id := sid\<rparr> \<in> set (ds_leases ?s)"
    by (auto simp: mark_running_def Let_def split: option.split)
  then show ?thesis
  proof
    assume "l \<in> set (ds_leases ?s)"
    then show ?thesis using m lease_table_iff [OF ok'] by blast
  next
    assume "l\<lparr>el_session_id := sid\<rparr> \<in> set (ds_leases ?s)"
    then have "lease_table ?s k = Some (l\<lparr>el_session_id := sid\<rparr>)"
      using m lease_table_iff [OF ok'] by (simp add: unreleased_def lease_key_def)
    then show ?thesis by simp
  qed
qed

text \<open>No attempt and no lease bears the id that the next attempt gets.\<close>

definition fresh_attempt :: "dispatch_env \<Rightarrow> dispatch_state \<Rightarrow> bool" where
  "fresh_attempt env s \<longleftrightarrow>
     list_all (\<lambda>l. el_attempt_id l \<noteq> ''attempt-'' @ dv_attempt_uuid env) (ds_leases s)
     \<and> list_all (\<lambda>a. at_id a \<noteq> ''attempt-'' @ dv_attempt_uuid env) (ds_attempts s)"

lemma offer_cases:
  "(\<exists>att. offer_attempt now uuid i s = ((att, True), s) \<and> truthy (oi_idempotency_key i)
      \<and> att \<in> set (ds_attempts s) \<and> at_idempotency_key att = oi_idempotency_key i)
   \<or> (\<exists>att. offer_attempt now uuid i s = ((att, False), s\<lparr>ds_attempts := ds_attempts s @ [att]\<rparr>)
      \<and> at_id att = ''attempt-'' @ uuid \<and> at_status att = At_offered)"
  by (auto simp: offer_attempt_def Let_def split: option.split dest: find_SomeD)

lemma no_active_lease:
  assumes "dispatch_ok s" and "snd (get_task_state now task s) = None"
    and "lease_table s (dispatch_task_key task) = Some l"
  shows "el_expires l \<le> now"
  using assms(2,3) lease_table_iff [OF assms(1)]
  by (auto simp: get_task_state_def find_None_iff not_less)

lemma lease_table_same: "ds_leases s = ds_leases s' \<Longrightarrow> lease_table s = lease_table s'"
  by (auto simp: lease_table_def)

lemma dispatch_ok_same: "ds_leases s = ds_leases s' \<Longrightarrow> dispatch_ok s = dispatch_ok s'"
  by (simp add: dispatch_ok_def)

lemma offer_and_claim_Inr:
  assumes run: "offer_and_claim env opts a r p t task w = (Inr (attempt, l), w')"
    and ok: "dispatch_ok (dw_store w)" and fresh: "fresh_attempt env (dw_store w)"
  shows "lease_table (dw_store w') (dispatch_task_key task) = Some l" and "dispatch_ok (dw_store w')"
    and "el_attempt_id l = attempt" and "el_agent_id l = ag_id a" and "dv_now env < el_expires l"
    and "lease_table (dw_store w) (dispatch_task_key task) = Some l0 \<Longrightarrow> el_expires l0 \<le> dv_now env"
    and "w' = w\<lparr>dw_store := dw_store w'\<rparr>"
proof -
  let ?now = "dv_now env" and ?s = "dw_store w"
  obtain att idem s1 where off:
      "offer_attempt ?now (dv_attempt_uuid env) (offer_of env opts a r p t task) ?s = ((att, idem), s1)"
    by (metis surj_pair)
  have s1: "ds_leases s1 = ds_leases ?s" using offer_attempt_keeps(1) off by (metis snd_conv)
  let ?active = "snd (get_task_state ?now task s1)"
  have guard: "\<not> (idem \<and> (?active \<noteq> None \<or> spent_attempt (at_status att)))"
    and claim: "\<exists>c again. claim_lease ?now (dv_lease_uuid env) (claim_of att a task) s1 = (Claim_ok c l again, dw_store w')"
    and att: "attempt = at_id att" and w': "w' = w\<lparr>dw_store := dw_store w'\<rparr>"
    using run off
    by (auto simp: offer_and_claim_def act_bind_Inr_iff on_store_def act_get_def act_throw_def act_return_def
        split: if_splits prod.splits claim_result.splits)
  have ok1: "dispatch_ok s1" and t1: "lease_table s1 = lease_table ?s"
    using ok dispatch_ok_same [OF s1] lease_table_same [OF s1] by simp_all
  from claim obtain c again where
    claim: "claim_lease ?now (dv_lease_uuid env) (claim_of att a task) s1 = (Claim_ok c l again, dw_store w')" by blast
  have key: "claim_key (claim_of att a task) = dispatch_task_key task" "cl_ttl (claim_of att a task) = None"
    by (simp_all add: claim_of_def)
  note c = claim_ok_lease [OF ok1 claim, unfolded key]
  show "lease_table (dw_store w') (dispatch_task_key task) = Some l" "dispatch_ok (dw_store w')"
    "el_attempt_id l = attempt" "el_agent_id l = ag_id a" "?now < el_expires l"
    using c by (simp_all add: att claim_of_def)
  show "w' = w\<lparr>dw_store := dw_store w'\<rparr>" by (rule w')
  show "el_expires l0 \<le> ?now" if l0: "lease_table ?s (dispatch_task_key task) = Some l0"
  proof (cases idem)
    case True
    with guard have "?active = None" by simp
    then show ?thesis using no_active_lease [OF ok1] l0 t1 by simp
  next
    case False
    then have "at_id att = ''attempt-'' @ dv_attempt_uuid env"
      using offer_cases [of ?now "dv_attempt_uuid env" "offer_of env opts a r p t task" ?s] off by auto
    moreover have "l0 \<in> set (ds_leases ?s)" using l0 lease_table_iff [OF ok] by simp
    ultimately have "l0 \<noteq> l"
      using fresh c(3) by (auto simp: fresh_attempt_def list_all_iff claim_of_def)
    then show ?thesis using c(6) l0 t1 by simp
  qed
qed

section \<open>A session that starts\<close>

lemma agent_gate_Inr:
  "agent_gate env a recipient task p w = (Inr u, w') \<Longrightarrow>
     \<not> list_ex (\<lambda>s. ls_agent s = ag_id a \<and> ls_live s) (dv_sessions env)"
  by (auto simp: agent_gate_def Let_def act_bind_Inr_iff act_throw_def find_None_iff list_ex_iff
      split: if_splits option.split_asm)

lemma queue_gate_Inr:
  assumes "queue_gate env opts recipient task p w = (Inr u, w')"
  shows "\<not> is_task_paused_in_state (load_agent_task_queue (dv_now env) (w_queue (dw_lc w))) task"
    and "resolve_agent env recipient (cpo_agent opts) = Some a \<Longrightarrow>
      \<not> list_ex (\<lambda>s. ls_agent s = ag_id a \<and> ls_live s) (dv_sessions env)"
  using assms
  by (auto simp: queue_gate_def act_bind_Inr_iff act_get_def act_throw_def split: if_splits dest: agent_gate_Inr)

lemma retry_gate_Inr:
  "retry_gate key w = (Inr u, w') \<Longrightarrow>
     (case map_of (dw_retries w) key of None \<Rightarrow> True
      | Some x \<Rightarrow> \<not> rr_force_archived x \<and> \<not> rr_decision_required x)"
  by (auto simp: retry_gate_def act_bind_Inr_iff act_get_def act_throw_def act_when_def split: option.split if_splits)

lemma queue_gate_retries: "keeps_view dw_retries (queue_gate env opts recipient task p)"
  unfolding queue_gate_def agent_gate_def Let_def reconcile_queue_def on_queue_def
  by (intro disp_keeps) simp_all

lemma session_started_effect:
  "dw_started (snd (session_started env a r ep t task attempt sid w)) = dw_started w @ [(ag_id a, task, sid)]"
  "dw_store (snd (session_started env a r ep t task attempt sid w)) = snd (mark_running (dv_now env) attempt sid (dw_store w))"
proof -
  have hist: "append_history env p e w = (Inr (), snd (append_history env p e w))" for p e w
    by (simp add: append_history_def act_update_def)
  have keep: "dw_started (snd (append_history env p e w)) = dw_started w"
    "dw_store (snd (append_history env p e w)) = dw_store w" for p e w
    using keeps_append_history [of dw_started env p e] keeps_append_history [of dw_store env p e]
    by (simp_all add: act_keeps_def)
  let ?w1 = "\<lambda>w. w\<lparr>dw_started := dw_started w @ [(ag_id a, task, sid)],
                    dw_retries := clear_retry (retry_key a task) (dw_retries w)\<rparr>"
  have bind: "act_bind (append_history env p e) f w = f () (snd (append_history env p e w))" for p e w
    and f :: "unit \<Rightarrow> unit disp"
    by (subst act_bind_Inr [OF hist]) simp
  have upd: "act_bind (act_update h) f w = f () (h w)" for h and f :: "unit \<Rightarrow> unit disp" and w
    by (simp add: act_bind_def act_update_def)
  have st: "act_bind (on_store h) f w = f (fst (h (dw_store w))) (w\<lparr>dw_store := snd (h (dw_store w))\<rparr>)"
    for h :: "dispatch_state \<Rightarrow> 'x \<times> dispatch_state" and f :: "'x \<Rightarrow> unit disp" and w
    by (simp add: act_bind_def on_store_def split: prod.split)
  show "dw_started (snd (session_started env a r ep t task attempt sid w)) = dw_started w @ [(ag_id a, task, sid)]"
    "dw_store (snd (session_started env a r ep t task attempt sid w)) = snd (mark_running (dv_now env) attempt sid (dw_store w))"
    by (simp_all add: session_started_def on_queue_def upd st bind act_update_def keep)
qed

lemma session_started_Inr:
  "session_started env a r ep t task attempt sid w = (Inr (), snd (session_started env a r ep t task attempt sid w))"
  by (auto simp: session_started_def on_queue_def act_bind_def act_update_def on_store_def append_history_def
      split: prod.split)

lemma keeps_finish_as:
  "(\<And>w s. g (w\<lparr>dw_store := s\<rparr>) = g w) \<Longrightarrow> keeps_view g (finish_as env attempt st reason)"
  unfolding finish_as_def by (rule keeps_on_store)

lemma start_session_starts:
  assumes "dw_started (snd (start_session env decision a r p t task (attempt, l) w)) \<noteq> dw_started w"
  shows "\<exists>sid. dv_start env (ag_id a) task = Inr sid
    \<and> dw_started (snd (start_session env decision a r p t task (attempt, l) w)) = dw_started w @ [(ag_id a, task, sid)]
    \<and> dw_store (snd (start_session env decision a r p t task (attempt, l) w))
        = snd (mark_running (dv_now env) attempt sid (dw_store w))
    \<and> fst (start_session env decision a r p t task (attempt, l) w) = Inr (Out_dispatched sid attempt (el_id l))"
proof -
  let ?claim = "\<lparr>dc_attempt = Some attempt, dc_lease = Some (el_id l), dc_agent = Some (ag_id a), dc_decision = decision\<rparr>"
  obtain r1 w1 where mv: "on_lc (await_dispatch_inbox_to_active env ?claim p) w = (Inr r1, w1)"
    and w1: "dw_started w1 = dw_started w" "dw_store w1 = dw_store w"
    by (cases "await_dispatch_inbox_to_active env ?claim p (dw_lc w)") (simp add: on_lc_def)
  have fin: "keeps_view dw_started (finish_as env attempt st reason)" for st reason
    by (rule keeps_finish_as) simp
  show ?thesis
  proof (cases "\<exists>ep sid. r1 = Inr ep \<and> dv_start env (ag_id a) task = Inr sid")
    case False
    define rest where "rest = (case r1 of Inl e \<Rightarrow>
         act_bind (finish_as env attempt At_rejected (Some (dv_message env e))) (\<lambda>_. act_throw (Out_skipped ''lifecycle_error''))
     | Inr ep \<Rightarrow>
         (case dv_start env (ag_id a) task of
            Inl failure \<Rightarrow>
              act_bind (finish_as env attempt At_session_failed (Some (failure_message failure))) (\<lambda>_.
              act_bind (on_lc (restore_to_inbox env ep ''session_start_failed'')) (\<lambda>_.
              failed_start env r (retry_key a task)
                (no_failure_input\<lparr>fi_filepath := Some (path_text p), fi_task_id := Some task\<rparr>) failure))
          | Inr sid \<Rightarrow>
              act_bind (session_started env a r ep t task attempt sid) (\<lambda>_.
              act_return (Out_dispatched sid attempt (el_id l)))))"
    have "start_session env decision a r p t task (attempt, l) w = rest w1"
      using mv by (simp add: start_session_def Let_def act_bind_def rest_def)
    moreover have "keeps_view dw_started rest"
      using False unfolding rest_def
      by (intro keeps_intros keeps_on_lc fin keeps_failed_start) auto
    ultimately show ?thesis using assms w1 by (simp add: act_keeps_def)
  next
    case True
    then obtain ep sid where e: "r1 = Inr ep" "dv_start env (ag_id a) task = Inr sid" by blast
    have "start_session env decision a r p t task (attempt, l) w =
        (Inr (Out_dispatched sid attempt (el_id l)), snd (session_started env a r ep t task attempt sid w1))"
      using e by (simp add: start_session_def Let_def act_return_def
          act_bind_Inr [where m = "on_lc (await_dispatch_inbox_to_active env ?claim p)", OF mv]
          act_bind_Inr [where m = "session_started env a r ep t task attempt sid", OF session_started_Inr])
    then show ?thesis using e w1 by (simp add: session_started_effect)
  qed
qed

lemma started_bindE:
  assumes "dw_started (snd (act_bind m f w)) \<noteq> dw_started w" and "keeps_view dw_started m"
  obtains x w1 where "m w = (Inr x, w1)" and "dw_started w1 = dw_started w"
    and "dw_started (snd (f x w1)) \<noteq> dw_started w1"
  by (rule view.unkept_bindE [where g = dw_started and w = w and m = m and f = f]) (use assms that in auto)

text \<open>Everything a started session has behind it, from the claim on.\<close>

definition start_facts ::
  "dispatch_env \<Rightarrow> control_opts \<Rightarrow> task_path \<Rightarrow> string \<Rightarrow> dispatcher_world \<Rightarrow> dispatcher_world
     \<Rightarrow> parsed_task \<Rightarrow> agent_rec \<Rightarrow> string \<Rightarrow> execution_lease \<Rightarrow> bool" where
  "start_facts env opts p role w w' t a sid l \<longleftrightarrow>
     (let recipient = or_else (pt_recipient t) role; task = canonical_dispatch_id (snd p) (pt_task_id t) in
      parse_path env (w_files (dw_lc w)) p = Some t
      \<and> \<not> is_observer_role recipient \<and> task \<noteq> []
      \<and> \<not> is_task_paused_in_state (load_agent_task_queue (dv_now env) (w_queue (dw_lc w))) task
      \<and> resolve_agent env recipient (cpo_agent opts) = Some a
      \<and> \<not> list_ex (\<lambda>s. ls_agent s = ag_id a \<and> ls_live s) (dv_sessions env)
      \<and> (case map_of (dw_retries w) (retry_key a task) of None \<Rightarrow> True
         | Some x \<Rightarrow> \<not> rr_force_archived x \<and> \<not> rr_decision_required x)
      \<and> dv_start env (ag_id a) task = Inr sid
      \<and> dw_started w' = dw_started w @ [(ag_id a, task, sid)]
      \<and> lease_table (dw_store w') (dispatch_task_key task) = Some l
      \<and> el_agent_id l = ag_id a \<and> dv_now env < el_expires l
      \<and> (case lease_table (dw_store w) (dispatch_task_key task) of None \<Rightarrow> True
         | Some l0 \<Rightarrow> el_expires l0 \<le> dv_now env))"

lemma dispatch_task_starts:
  assumes run: "dispatch_task env opts decision p role w = (res, w')"
    and grew: "dw_started w' \<noteq> dw_started w"
    and ok: "dispatch_ok (dw_store w)" and fresh: "fresh_attempt env (dw_store w)"
  shows "\<exists>t a sid l. start_facts env opts p role w w' t a sid l"
proof -
  let ?st = "\<lambda>m w. dw_started (snd (m w)) \<noteq> dw_started (w :: dispatcher_world)"
  have grew: "?st (dispatch_task env opts decision p role) w" using run grew by simp
  obtain t where t: "parse_path env (w_files (dw_lc w)) p = Some t"
    using grew by (cases "parse_path env (w_files (dw_lc w)) p")
      (auto simp: dispatch_task_def act_bind_def act_get_def act_throw_def split: if_splits)
  define r where "r = or_else (pt_recipient t) role"
  define task where "task = canonical_dispatch_id (snd p) (pt_task_id t)"
  define claim where "claim = (\<lambda>a. act_bind (offer_and_claim env opts a r p t task) (start_session env decision a r p t task))"
  define rest where "rest = (case resolve_agent env r (cpo_agent opts) of
         None \<Rightarrow> act_throw (Out_agent_not_found r)
       | Some a \<Rightarrow> act_bind (retry_gate (retry_key a task)) (\<lambda>_. claim a))"
  have nr2: "\<not> is_observer_role r" "task \<noteq> []"
    and run2: "dispatch_task env opts decision p role w = dispatch_claimed env opts decision r p t task w"
    using grew t by (auto simp: dispatch_task_def act_bind_def act_get_def act_throw_def Let_def
        r_def [symmetric] task_def [symmetric] split: if_splits)
  have dc: "dispatch_claimed env opts decision r p t task =
      act_bind (queue_gate env opts r task p) (\<lambda>_. act_bind (claim_gate p) (\<lambda>_. rest))"
    unfolding dispatch_claimed_def rest_def claim_def ..
  have g1: "?st (act_bind (queue_gate env opts r task p) (\<lambda>_. act_bind (claim_gate p) (\<lambda>_. rest))) w"
    using grew run2 dc by simp
  obtain u1 w1 where q: "queue_gate env opts r task p w = (Inr u1, w1)" and g2: "?st (act_bind (claim_gate p) (\<lambda>_. rest)) w1"
    by (rule started_bindE [OF g1 keeps_queue_gate]) (use that in auto)
  obtain u2 w2 where c: "claim_gate p w1 = (Inr u2, w2)" and g3: "?st rest w2"
    by (rule started_bindE [OF g2 keeps_claim_gate]) (use that in auto)
  obtain a where a: "resolve_agent env r (cpo_agent opts) = Some a"
    using g3 by (cases "resolve_agent env r (cpo_agent opts)") (simp_all add: act_throw_def rest_def)
  have g4: "?st (act_bind (retry_gate (retry_key a task)) (\<lambda>_. claim a)) w2"
    using g3 by (simp add: rest_def a)
  obtain u3 w3 where rg: "retry_gate (retry_key a task) w2 = (Inr u3, w3)" and g5: "?st (claim a) w3"
    by (rule started_bindE [OF g4 keeps_retry_gate]) (use that in auto)
  have oc: "keeps_view dw_started (offer_and_claim env opts a r p t task)"
    unfolding offer_and_claim_def
    by (intro keeps_on_store keeps_intros) (auto intro: view.keeps_basic split: claim_result.split)
  obtain x w4 where of: "offer_and_claim env opts a r p t task w3 = (Inr x, w4)"
    and R5: "?st (start_session env decision a r p t task x) w4"
    by (rule started_bindE [OF g5 [unfolded claim_def] oc]) (use that in auto)
  obtain attempt l where x: "x = (attempt, l)" by (meson surj_pair)
  have q': "dw_store w1 = dw_store w" "dw_started w1 = dw_started w" "dw_retries w1 = dw_retries w"
    using act_keepsD [OF keeps_queue_gate [OF apart_views(2)] q] act_keepsD [OF keeps_queue_gate [OF apart_views(1)] q]
      act_keepsD [OF queue_gate_retries q] by simp_all
  have c': "dw_store w2 = dw_store w1" "dw_started w2 = dw_started w1" "dw_retries w2 = dw_retries w1"
    by (rule act_keepsD [OF keeps_claim_gate c])+
  have r': "dw_store w3 = dw_store w2" "dw_started w3 = dw_started w2"
    by (rule act_keepsD [OF keeps_retry_gate rg])+
  have same: "dw_store w3 = dw_store w" "dw_started w4 = dw_started w" "dw_retries w2 = dw_retries w"
    using q' c' r' act_keepsD [OF oc of] by simp_all
  note f = offer_and_claim_Inr [OF of [unfolded x], unfolded same(1), OF ok fresh]
  obtain sid where sid: "dv_start env (ag_id a) task = Inr sid"
    "dw_started (snd (start_session env decision a r p t task (attempt, l) w4)) = dw_started w4 @ [(ag_id a, task, sid)]"
    "dw_store (snd (start_session env decision a r p t task (attempt, l) w4)) = snd (mark_running (dv_now env) attempt sid (dw_store w4))"
    using start_session_starts [OF R5 [unfolded x]] by blast
  have end1: "w' = snd (start_session env decision a r p t task (attempt, l) w4)"
    using run run2 unfolding dc
    by (simp add: act_bind_def q c rest_def a rg claim_def of x)
  obtain l' where l': "lease_table (dw_store w') (dispatch_task_key task) = Some l'"
    "el_agent_id l' = el_agent_id l" "el_expires l' = el_expires l"
    using mark_running_table [OF f(2,1), of "dv_now env" attempt sid] sid(3) end1 by auto
  have "start_facts env opts p role w w' t a sid l'"
    unfolding start_facts_def Let_def r_def [symmetric] task_def [symmetric]
    using t nr2 queue_gate_Inr [OF q] a retry_gate_Inr [OF rg] same sid end1 l' f(4,5,6)
    by (auto simp: r_def [symmetric] task_def [symmetric] split: option.split)
  then show ?thesis by blast
qed

section \<open>Behind the control plane\<close>

lemma run_exit_snd: "snd (run_exit m w) = snd (m w)"
  by (auto simp: run_exit_def split: prod.split sum.split)

definition allowed_by ::
  "dispatch_env \<Rightarrow> string \<Rightarrow> control_opts \<Rightarrow> task_path \<Rightarrow> parsed_task \<Rightarrow> execution_decision \<Rightarrow> bool" where
  "allowed_by env source opts p t d \<longleftrightarrow>
     ed_decision d = Decision_allow
     \<and> ed_operation_id d = din_operation_id (decision_input_of env source opts p t Decision_allow [])
     \<and> dispatch_task_key (ed_task_id d) = dispatch_task_key (canonical_dispatch_id (snd p) (pt_task_id t))
     \<and> ed_input_digest d = dv_spec_digest env t"

definition gates_passed :: "dispatch_env \<Rightarrow> control_opts \<Rightarrow> task_path \<Rightarrow> string \<Rightarrow> parsed_task \<Rightarrow> bool" where
  "gates_passed env opts p recipient t \<longleftrightarrow>
     durable_errors p t recipient = []
     \<and> dv_admission env t (or_else (cpo_mode opts) Mode_initial \<noteq> Mode_initial) = None
     \<and> (cpo_bypass opts \<or>
         (dv_product_gate env t = None \<and> dep_allowed (evaluate_task_dependency_gate t (Some (dv_project env)))
          \<and> role_allows env p t recipient))"

lemma gated_dispatch_starts:
  assumes grew: "dw_started (snd (gated_dispatch env source opts p recipient w)) \<noteq> dw_started w"
  obtains t q d w5 res w6 where
    "parse_path env (w_files (dw_lc w)) p = Some t" and "gates_passed env opts p recipient t"
    and "allowed_by env source opts p t d" and "d \<in> set (ds_decisions (dw_store w5))"
    and "ds_leases (dw_store w5) = ds_leases (dw_store w)" and "ds_attempts (dw_store w5) = ds_attempts (dw_store w)"
    and "dw_started w5 = dw_started w"
    and "dispatch_task env opts (Some d) q recipient w5 = (res, w6)" and "dw_started w6 \<noteq> dw_started w5"
    and "dw_store (snd (gated_dispatch env source opts p recipient w)) = dw_store w6"
    and "dw_started (snd (gated_dispatch env source opts p recipient w)) = dw_started w6"
proof -
  let ?st = "\<lambda>m w. dw_started (snd (m w)) \<noteq> dw_started (w :: dispatcher_world)"
  define final where "final = (\<lambda>q d w. case run_exit (dispatch_task env opts (Some d) q recipient) w of
      (out, w') \<Rightarrow> (Inr out :: dispatch_outcome + dispatch_outcome, apply_outcome env q out w'))"
  obtain t where t: "parse_path env (w_files (dw_lc w)) p = Some t"
    using grew by (cases "parse_path env (w_files (dw_lc w)) p")
      (auto simp: gated_dispatch_def act_bind_def act_get_def act_throw_def)
  define perm where "perm = (\<lambda>q. act_bind (decide env source opts p t Decision_allow ''all_dispatch_gates_passed'') (final q))"
  define busi where "busi = act_bind (business_gates env source opts p t recipient) perm"
  have run: "gated_dispatch env source opts p recipient w =
      act_bind (durable_gate env source opts p t recipient) (\<lambda>_. act_bind (admission_gate env source opts p t) (\<lambda>_. busi)) w"
    unfolding busi_def perm_def final_def by (simp add: gated_dispatch_def act_bind_def [of "act_get _"] act_get_def t)
  have g1: "?st (act_bind (durable_gate env source opts p t recipient) (\<lambda>_. act_bind (admission_gate env source opts p t) (\<lambda>_. busi))) w"
    using grew run by simp
  have dec: "keeps_view dw_started (decide env source opts p t v reason)" for t v reason
    by (rule keeps_decide) simp
  note keep = keeps_gates [OF apart_views(1) dec]
  obtain u1 w1 where d1: "durable_gate env source opts p t recipient w = (Inr u1, w1)"
    and s1: "dw_started w1 = dw_started w" and g2: "?st (act_bind (admission_gate env source opts p t) (\<lambda>_. busi)) w1"
    by (rule started_bindE [OF g1 keep(1)]) (use that in auto)
  obtain u2 w2 where d2: "admission_gate env source opts p t w1 = (Inr u2, w2)"
    and s2: "dw_started w2 = dw_started w1" and g3: "?st busi w2"
    by (rule started_bindE [OF g2 keep(2)]) (use that in auto)
  obtain q w3 where d3: "business_gates env source opts p t recipient w2 = (Inr q, w3)"
    and s3: "dw_started w3 = dw_started w2" and g4: "?st (perm q) w3"
    by (rule started_bindE [OF g3 [unfolded busi_def] keep(3)]) (use that in auto)
  obtain d w5 where d4: "decide env source opts p t Decision_allow ''all_dispatch_gates_passed'' w3 = (Inr d, w5)"
    and s4: "dw_started w5 = dw_started w3" and g5: "?st (final q d) w5"
    by (rule started_bindE [OF g4 [unfolded perm_def] dec]) (use that in auto)
  obtain res w6 where d5: "dispatch_task env opts (Some d) q recipient w5 = (res, w6)" by (meson surj_pair)
  have fin: "dw_started (snd (final q d w5)) = dw_started w6" "dw_store (snd (final q d w5)) = dw_store w6"
    using d5 run_exit_snd [of "dispatch_task env opts (Some d) q recipient" w5]
    by (auto simp: final_def keeps_apply_outcome split: prod.split)
  have whole: "snd (gated_dispatch env source opts p recipient w) = snd (final q d w5)"
    unfolding run busi_def perm_def by (simp add: act_bind_def d1 d2 d3 d4 split: prod.split sum.split)
  have store: "dw_store w1 = dw_store w" "w2 = w1" "dw_store w3 = dw_store w2"
    using durable_gate_Inr(2) [OF d1] d2 business_gates_Inr(2) [OF d3] by (simp_all add: admission_gate_Inr)
  note rec = record_decision_Inr [OF decide_Inr(1) [OF d4]]
  show ?thesis
  proof (rule that)
    show "gates_passed env opts p recipient t"
      using durable_gate_Inr(1) [OF d1] d2 business_gates_Inr(1) [OF d3] by (simp add: gates_passed_def admission_gate_Inr)
    show "allowed_by env source opts p t d"
      using rec by (simp add: allowed_by_def decision_input_of_def)
    show "dw_started w6 \<noteq> dw_started w5" using g5 fin by simp
  qed (use t rec store s1 s2 s3 s4 d5 fin whole in simp_all)
qed

lemma control_plane_run:
  "snd (dispatch_from_control_plane env source opts p role w) =
     (let recipient = or_else role (extract_recipient_from_filename (snd p)) in
      if is_observer_role recipient then w else snd (gated_dispatch env source opts p recipient w))"
  by (simp add: dispatch_from_control_plane_def run_exit_snd Let_def act_throw_def)

text \<open>
  C2. A session starts only behind every gate. When the control plane starts a session for a task, the task's
  file was readable and durable, its specification was admitted, and, unless the caller bypasses the
  business gates, the product gate, the dependency gate and the gate of its role let it through; and the
  store holds a permission for this operation, task and content.
\<close>

theorem session_behind_gates:
  assumes "dispatch_from_control_plane env source opts p role w = (out, w')"
    and "dw_started w' \<noteq> dw_started w"
  shows "\<exists>t d. parse_path env (w_files (dw_lc w)) p = Some t
    \<and> gates_passed env opts p (or_else role (extract_recipient_from_filename (snd p))) t
    \<and> d \<in> set (ds_decisions (dw_store w')) \<and> allowed_by env source opts p t d"
proof -
  let ?r = "or_else role (extract_recipient_from_filename (snd p))"
  have w': "w' = snd (gated_dispatch env source opts p ?r w)"
    using assms control_plane_run [of env source opts p role w] by (auto simp: Let_def split: if_splits)
  obtain t q d w5 res w6 where t: "parse_path env (w_files (dw_lc w)) p = Some t" "gates_passed env opts p ?r t"
      "allowed_by env source opts p t d" "d \<in> set (ds_decisions (dw_store w5))"
    and run: "dispatch_task env opts (Some d) q ?r w5 = (res, w6)" and st: "dw_store w' = dw_store w6"
    by (rule gated_dispatch_starts [of env source opts p ?r w]) (use assms(2) w' in auto)
  have "ds_decisions (dw_store w6) = ds_decisions (dw_store w5)"
    by (rule act_keepsD [OF keeps_decisions_dispatch run])
  with t st show ?thesis by auto
qed

text \<open>
  C5. A session starts under a lease of its own. In any state of the attempt store that its operations can
  reach, and with a fresh id for the attempt, a dispatch starts at most one session: its agent had no live
  session, no unexpired lease was held on the task, and afterwards the agent holds the lease of the task.
\<close>

theorem session_under_lease:
  assumes "dispatch_from_control_plane env source opts p role w = (out, w')"
    and "dw_started w' \<noteq> dw_started w"
    and "dw_store w = run_dispatch cs" and "fresh_attempt env (dw_store w)"
  shows "\<exists>agent task sid l. dw_started w' = dw_started w @ [(agent, task, sid)]
    \<and> list_all (\<lambda>s. ls_agent s \<noteq> agent \<or> \<not> ls_live s) (dv_sessions env)
    \<and> lease_table (dw_store w') (dispatch_task_key task) = Some l
    \<and> el_agent_id l = agent \<and> dv_now env < el_expires l
    \<and> lock_expire el_expires (dv_now env) (lease_table (dw_store w)) (dispatch_task_key task) = None"
proof -
  let ?r = "or_else role (extract_recipient_from_filename (snd p))"
  have w': "w' = snd (gated_dispatch env source opts p ?r w)"
    using assms control_plane_run [of env source opts p role w] by (auto simp: Let_def split: if_splits)
  obtain t q d w5 res w6 where st5: "ds_leases (dw_store w5) = ds_leases (dw_store w)"
      "ds_attempts (dw_store w5) = ds_attempts (dw_store w)" "dw_started w5 = dw_started w"
    and run: "dispatch_task env opts (Some d) q ?r w5 = (res, w6)" "dw_started w6 \<noteq> dw_started w5"
    and st: "dw_store w' = dw_store w6" "dw_started w' = dw_started w6"
    by (rule gated_dispatch_starts [of env source opts p ?r w]) (use assms(2) w' in auto)
  have ok: "dispatch_ok (dw_store w5)"
    using run_dispatch_ok [of cs] assms(3) dispatch_ok_same [OF st5(1)] by simp
  have fresh: "fresh_attempt env (dw_store w5)" using assms(4) st5 by (simp add: fresh_attempt_def)
  obtain t a sid l where "start_facts env opts q ?r w5 w6 t a sid l"
    using dispatch_task_starts [OF run ok fresh] by blast
  then show ?thesis
    using st st5 lease_table_same [OF st5(1)]
    by (auto simp: start_facts_def Let_def list_all_iff list_ex_iff lock_expire_def split: option.splits)
qed

section \<open>A dispatch that starts nothing\<close>

lemma bind_stops_or_goes_on:
  assumes "keeps_view g m"
  shows "g (snd (act_bind m f w)) = g w
    \<or> (\<exists>x w1. m w = (Inr x, w1) \<and> g w1 = g w \<and> act_bind m f w = f x w1)"
proof (cases "m w")
  case (Pair r w1)
  then have g: "g w1 = g w" by (rule act_keepsD [OF assms])
  show ?thesis
  proof (cases r)
    case (Inl e)
    with Pair g show ?thesis by (simp add: act_bind_def)
  next
    case (Inr x)
    then have "act_bind m f w = f x w1" using act_bind_Inr [of m w x w1 f] Pair by simp
    with Inr Pair g show ?thesis by blast
  qed
qed

definition leases_started :: "dispatcher_world \<Rightarrow> execution_lease list \<times> dispatch_attempt list \<times> (string \<times> string \<times> string) list" where
  "leases_started w = (ds_leases (dw_store w), ds_attempts (dw_store w), dw_started w)"

lemma leases_started_apart [simp]: "apart_from_gates leases_started"
  by (simp add: apart_from_gates_def leases_started_def)

lemma decide_leases_started: "keeps_view leases_started (decide env source opts p t v reason)"
proof (rule act_keepsI)
  fix w :: dispatcher_world
  obtain r s where r: "record_decision (dv_now env) (dv_decision_uuid env) (decision_input_of env source opts p t v reason) (dw_store w) = (r, s)"
    by (meson surj_pair)
  have "ds_leases s = ds_leases (dw_store w) \<and> ds_attempts s = ds_attempts (dw_store w)"
    using r by (auto simp: record_decision_def Let_def split: option.splits if_splits)
  then show "leases_started (snd (decide env source opts p t v reason w)) = leases_started w"
    using r by (cases r)
      (simp_all add: decide_def act_bind_def on_store_def act_throw_def act_return_def leases_started_def)
qed

lemma dispatch_task_cases:
  "leases_started (snd (dispatch_task env opts decision p role w)) = leases_started w
   \<or> (\<exists>a r t task w1. leases_started w1 = leases_started w \<and>
        dispatch_task env opts decision p role w =
        act_bind (offer_and_claim env opts a r p t task) (start_session env decision a r p t task) w1)"
proof (cases "parse_path env (w_files (dw_lc w)) p")
  case None
  then show ?thesis by (simp add: dispatch_task_def act_bind_def act_get_def act_throw_def)
next
  case (Some t)
  define r where "r = or_else (pt_recipient t) role"
  define task where "task = canonical_dispatch_id (snd p) (pt_task_id t)"
  define claim where "claim = (\<lambda>a. act_bind (offer_and_claim env opts a r p t task) (start_session env decision a r p t task))"
  define rest where "rest = (case resolve_agent env r (cpo_agent opts) of
         None \<Rightarrow> act_throw (Out_agent_not_found r)
       | Some a \<Rightarrow> act_bind (retry_gate (retry_key a task)) (\<lambda>_. claim a))"
  let ?run = "act_bind (queue_gate env opts r task p) (\<lambda>_. act_bind (claim_gate p) (\<lambda>_. rest))"
  let ?stop = "\<lambda>x. leases_started (snd x) = leases_started w"
  let ?on = "\<lambda>x. \<exists>a w1. leases_started w1 = leases_started w \<and> x = claim a w1"
  have rest: "?stop (rest w2) \<or> ?on (rest w2)" if w2: "leases_started w2 = leases_started w" for w2
  proof (cases "resolve_agent env r (cpo_agent opts)")
    case None
    with w2 show ?thesis by (simp add: rest_def act_throw_def)
  next
    case (Some a)
    then show ?thesis
      using bind_stops_or_goes_on [OF keeps_retry_gate, of leases_started "retry_key a task" "\<lambda>_. claim a" w2] w2
      by (auto simp: rest_def)
  qed
  have gate: "?stop (act_bind (claim_gate p) (\<lambda>_. rest) w1) \<or> ?on (act_bind (claim_gate p) (\<lambda>_. rest) w1)"
    if "leases_started w1 = leases_started w" for w1
    using bind_stops_or_goes_on [OF keeps_claim_gate, of leases_started p "\<lambda>_. rest" w1] that rest by metis
  have queue: "?stop (?run w) \<or> ?on (?run w)"
    using bind_stops_or_goes_on [OF keeps_queue_gate [OF leases_started_apart], of env opts r task p
        "\<lambda>_. act_bind (claim_gate p) (\<lambda>_. rest)" w] gate by metis
  have run: "dispatch_claimed env opts decision r p t task = ?run"
    unfolding dispatch_claimed_def rest_def claim_def ..
  have "?stop (dispatch_task env opts decision p role w) \<or> dispatch_task env opts decision p role w = ?run w"
    using Some unfolding run [symmetric]
    by (auto simp: dispatch_task_def act_bind_def [of "act_get _"] act_get_def act_throw_def Let_def r_def task_def)
  with queue show ?thesis unfolding claim_def by metis
qed

lemma act_bind_quiet: "m w = (Inr x, w1) \<Longrightarrow> snd (act_bind m f w) = snd (f x w1)"
  by (simp add: act_bind_def)

lemma start_session_store:
  "dw_started (snd (start_session env decision a r p t task (attempt, l) w)) \<noteq> dw_started w
   \<or> (\<exists>st reason. dw_store (snd (start_session env decision a r p t task (attempt, l) w))
        = finish_attempt (dv_now env) attempt st reason (dw_store w))"
proof -
  let ?claim = "\<lparr>dc_attempt = Some attempt, dc_lease = Some (el_id l), dc_agent = Some (ag_id a), dc_decision = decision\<rparr>"
  obtain r1 w1 where mv: "on_lc (await_dispatch_inbox_to_active env ?claim p) w = (Inr r1, w1)"
    and w1: "dw_started w1 = dw_started w" "dw_store w1 = dw_store w"
    by (cases "await_dispatch_inbox_to_active env ?claim p (dw_lc w)") (simp add: on_lc_def)
  note run = act_bind_Inr [where m = "on_lc (await_dispatch_inbox_to_active env ?claim p)", OF mv]
  have fin: "snd (act_bind (finish_as env attempt st reason) f w1)
      = snd (f () (w1\<lparr>dw_store := finish_attempt (dv_now env) attempt st reason (dw_store w)\<rparr>))"
    for st reason and f :: "unit \<Rightarrow> dispatch_outcome disp"
    by (simp add: act_bind_def finish_as_def on_store_def w1)
  show ?thesis
  proof (cases r1)
    case (Inl e)
    then show ?thesis
      by (auto simp: start_session_def Let_def run fin act_throw_def)
  next
    case (Inr ep)
    show ?thesis
    proof (cases "dv_start env (ag_id a) task")
      case (Inl failure)
      let ?w2 = "w1\<lparr>dw_store := finish_attempt (dv_now env) attempt At_session_failed (Some (failure_message failure)) (dw_store w)\<rparr>"
      have "keeps_view dw_store (act_bind (on_lc (restore_to_inbox env ep ''session_start_failed'')) (\<lambda>_.
          failed_start env r (retry_key a task)
            (no_failure_input\<lparr>fi_filepath := Some (path_text p), fi_task_id := Some task\<rparr>) failure))"
        by (intro keeps_on_lc keeps_intros keeps_failed_start) simp_all
      then show ?thesis
        using Inl Inr by (auto simp: start_session_def Let_def run fin act_keeps_def)
    next
      case (Inr sid)
      have "dw_started (snd (start_session env decision a r p t task (attempt, l) w)) = dw_started w @ [(ag_id a, task, sid)]"
        using \<open>r1 = Inr ep\<close> Inr
        by (simp add: start_session_def Let_def run act_return_def session_started_effect w1
            act_bind_Inr [where m = "session_started env a r ep t task attempt sid", OF session_started_Inr])
      then show ?thesis by simp
    qed
  qed
qed

lemma update_first_append: "(\<And>x. x \<in> set xs \<Longrightarrow> \<not> P x) \<Longrightarrow> update_first P f (xs @ ys) = xs @ update_first P f ys"
  by (induction xs) auto

lemma find_append_fresh: "(\<And>x. x \<in> set xs \<Longrightarrow> \<not> P x) \<Longrightarrow> List.find P (xs @ ys) = List.find P ys"
  by (induction xs) auto

lemma finish_fresh_lease:
  assumes "ds_leases s = ls @ [l]" and "\<And>l'. l' \<in> set ls \<Longrightarrow> el_attempt_id l' \<noteq> x"
    and "el_attempt_id l = x" and "List.find (\<lambda>a. at_id a = x) (ds_attempts s) \<noteq> None"
  shows "lease_table (finish_attempt now x st reason s) = lease_table (s\<lparr>ds_leases := ls\<rparr>)"
proof
  fix k
  let ?rel = "\<lambda>l. l\<lparr>el_released := Some now, el_release_reason := Some (or_else reason (attempt_status_name st))\<rparr>"
  have "update_first (held_by_attempt x) ?rel (ls @ [l]) = ls @ update_first (held_by_attempt x) ?rel [l]"
    by (rule update_first_append) (use assms(2) in \<open>simp add: held_by_attempt_def\<close>)
  then have "ds_leases (finish_attempt now x st reason s) = ls @ update_first (held_by_attempt x) ?rel [l]"
    using assms(1,4) by (auto simp: finish_attempt_def)
  moreover have "List.find P (ls @ [y]) = (case List.find P ls of None \<Rightarrow> if P y then Some y else None | Some z \<Rightarrow> Some z)" for P y
    by (induction ls) auto
  ultimately show "lease_table (finish_attempt now x st reason s) k = lease_table (s\<lparr>ds_leases := ls\<rparr>) k"
    by (auto simp: lease_table_def held_by_attempt_def unreleased_def assms(3) split: option.split)
qed

lemma claim_new_lease:
  assumes "List.find (\<lambda>a. at_id a = cl_attempt_id i) (ds_attempts s) = Some a" and "\<not> terminal_attempt (at_status a)"
    and "\<And>l. l \<in> set (ds_leases s) \<Longrightarrow> el_attempt_id l \<noteq> cl_attempt_id i"
  shows "(\<exists>l. claim_lease now uuid i s = (Claim_conflict l, s\<lparr>ds_leases := release_expired now (ds_leases s)\<rparr>))
    \<or> (\<exists>c s'. claim_lease now uuid i s = (Claim_ok c (new_lease now uuid i) False, s')
         \<and> ds_leases s' = release_expired now (ds_leases s) @ [new_lease now uuid i]
         \<and> List.find (\<lambda>a. at_id a = cl_attempt_id i) (ds_attempts s') \<noteq> None)"
proof -
  have other: "el_attempt_id l \<noteq> cl_attempt_id i" if "l \<in> set (release_expired now (ds_leases s))" for l
    using that assms(3) by (auto simp: release_expired_def split: if_splits)
  have found: "List.find (\<lambda>a. at_id a = cl_attempt_id i)
      (update_first (\<lambda>a. at_id a = cl_attempt_id i) (claimed_attempt now x i) (ds_attempts s)) \<noteq> None" for x
    using assms(1) by (subst find_update_first) (simp_all add: claimed_attempt_def)
  show ?thesis
  proof (cases "List.find (\<lambda>l. lease_key l = claim_key i \<and> unreleased l) (release_expired now (ds_leases s))")
    case None
    with assms found show ?thesis by (simp add: claim_lease_def Let_def)
  next
    case (Some l)
    then have "el_attempt_id l \<noteq> cl_attempt_id i" using other find_SomeD by metis
    with Some assms show ?thesis by (simp add: claim_lease_def Let_def)
  qed
qed

lemma claim_phase_no_leak:
  assumes ok: "dispatch_ok (dw_store w)" and fresh: "fresh_attempt env (dw_store w)" and key: "\<not> truthy (cpo_key opts)"
    and same: "dw_started (snd (act_bind (offer_and_claim env opts a r p t task) (start_session env decision a r p t task) w)) = dw_started w"
    and l: "lease_table (dw_store (snd (act_bind (offer_and_claim env opts a r p t task) (start_session env decision a r p t task) w))) k = Some l"
  shows "lease_table (dw_store w) k = Some l"
proof -
  let ?s = "dw_store w" and ?now = "dv_now env" and ?x = "''attempt-'' @ dv_attempt_uuid env"
  let ?claim = "claim_lease ?now (dv_lease_uuid env)"
  obtain att where att: "offer_attempt ?now (dv_attempt_uuid env) (offer_of env opts a r p t task) ?s
      = ((att, False), ?s\<lparr>ds_attempts := ds_attempts ?s @ [att]\<rparr>)" "at_id att = ?x" "at_status att = At_offered"
    using offer_cases [of ?now "dv_attempt_uuid env" "offer_of env opts a r p t task" ?s] key by (auto simp: offer_of_def)
  define s1 where "s1 = ?s\<lparr>ds_attempts := ds_attempts ?s @ [att]\<rparr>"
  let ?i = "claim_of att a task"
  have i: "cl_attempt_id ?i = ?x" by (simp add: claim_of_def att)
  have fr: "\<And>l. l \<in> set (ds_leases ?s) \<Longrightarrow> el_attempt_id l \<noteq> ?x" "\<And>a. a \<in> set (ds_attempts ?s) \<Longrightarrow> at_id a \<noteq> ?x"
    using fresh by (auto simp: fresh_attempt_def list_all_iff)
  have find: "List.find (\<lambda>a. at_id a = ?x) (ds_attempts s1) = Some att"
    unfolding s1_def using fr(2) by (simp add: find_append_fresh att)
  have ok1: "dispatch_ok s1" using ok by (simp add: s1_def dispatch_ok_def)
  have exp: "lease_table (s1\<lparr>ds_leases := release_expired ?now (ds_leases s1)\<rparr>) k = Some l \<Longrightarrow> lease_table ?s k = Some l"
    unfolding release_expired_table [OF ok1]
    by (auto simp: lock_expire_def s1_def lease_table_def split: option.splits if_splits)
  consider (conflict) l' where "?claim ?i s1 = (Claim_conflict l', s1\<lparr>ds_leases := release_expired ?now (ds_leases s1)\<rparr>)"
    | (ok) c s' where "?claim ?i s1 = (Claim_ok c (new_lease ?now (dv_lease_uuid env) ?i) False, s')"
        "ds_leases s' = release_expired ?now (ds_leases s1) @ [new_lease ?now (dv_lease_uuid env) ?i]"
        "List.find (\<lambda>a. at_id a = ?x) (ds_attempts s') \<noteq> None"
    using claim_new_lease [of ?i s1 att ?now "dv_lease_uuid env"] find fr(1) att(3)
    by (auto simp: i terminal_attempt_def s1_def)
  then show ?thesis
  proof cases
    case conflict
    then have "dw_store (snd (offer_and_claim env opts a r p t task w)) = s1\<lparr>ds_leases := release_expired ?now (ds_leases s1)\<rparr>"
      and "\<exists>e. fst (offer_and_claim env opts a r p t task w) = Inl e"
      using att(1) by (auto simp: offer_and_claim_def act_bind_def on_store_def act_get_def act_throw_def s1_def)
    then show ?thesis using l exp by (auto simp: act_bind_def split: prod.splits)
  next
    case ok
    then have oc: "offer_and_claim env opts a r p t task w
        = (Inr (?x, new_lease ?now (dv_lease_uuid env) ?i), w\<lparr>dw_store := s'\<rparr>)"
      using att by (auto simp: offer_and_claim_def act_bind_def on_store_def act_get_def act_return_def s1_def)
    note run = act_bind_quiet [where m = "offer_and_claim env opts a r p t task", OF oc]
    obtain st reason where store: "dw_store (snd (start_session env decision a r p t task
          (?x, new_lease ?now (dv_lease_uuid env) ?i) (w\<lparr>dw_store := s'\<rparr>))) = finish_attempt ?now ?x st reason s'"
      using start_session_store [of env decision a r p t task ?x "new_lease ?now (dv_lease_uuid env) ?i" "w\<lparr>dw_store := s'\<rparr>"]
        same by (auto simp: run)
    have "lease_table (s1\<lparr>ds_leases := release_expired ?now (ds_leases s1)\<rparr>)
        = lease_table (s'\<lparr>ds_leases := release_expired ?now (ds_leases s1)\<rparr>)"
      by (rule lease_table_same) simp
    also have "\<dots> = lease_table (finish_attempt ?now ?x st reason s')"
      by (rule finish_fresh_lease [OF ok(2) _ _ ok(3), symmetric])
         (use fr(1) in \<open>auto simp: release_expired_def new_lease_def i s1_def split: if_splits\<close>)
    finally have eq: "lease_table (s1\<lparr>ds_leases := release_expired ?now (ds_leases s1)\<rparr>)
        = lease_table (finish_attempt ?now ?x st reason s')" .
    have "lease_table (finish_attempt ?now ?x st reason s') k = Some l" using l unfolding run prod.sel store .
    then have "lease_table (s1\<lparr>ds_leases := release_expired ?now (ds_leases s1)\<rparr>) k = Some l" unfolding eq .
    then show ?thesis by (rule exp)
  qed
qed

lemma gated_dispatch_cases:
  "leases_started (snd (gated_dispatch env source opts p recipient w)) = leases_started w
   \<or> (\<exists>q d w5. leases_started w5 = leases_started w
        \<and> leases_started (snd (gated_dispatch env source opts p recipient w))
          = leases_started (snd (dispatch_task env opts (Some d) q recipient w5)))"
proof (cases "parse_path env (w_files (dw_lc w)) p")
  case None
  then show ?thesis by (simp add: gated_dispatch_def act_bind_def act_get_def act_throw_def)
next
  case (Some t)
  define final where "final = (\<lambda>q d w. case run_exit (dispatch_task env opts (Some d) q recipient) w of
      (out, w') \<Rightarrow> (Inr out :: dispatch_outcome + dispatch_outcome, apply_outcome env q out w'))"
  define perm where "perm = (\<lambda>q. act_bind (decide env source opts p t Decision_allow ''all_dispatch_gates_passed'') (final q))"
  define busi where "busi = act_bind (business_gates env source opts p t recipient) perm"
  let ?adm = "act_bind (admission_gate env source opts p t) (\<lambda>_. busi)"
  let ?ok = "\<lambda>x. leases_started (snd x) = leases_started w \<or> (\<exists>q d w5. leases_started w5 = leases_started w
        \<and> leases_started (snd x) = leases_started (snd (dispatch_task env opts (Some d) q recipient w5)))"
  have final: "?ok (final q d w5)" if "leases_started w5 = leases_started w" for q d w5
  proof -
    have "leases_started (snd (final q d w5)) = leases_started (snd (run_exit (dispatch_task env opts (Some d) q recipient) w5))"
      by (simp add: final_def keeps_apply_outcome split: prod.split)
    then show ?thesis using that run_exit_snd by metis
  qed
  have perm: "?ok (perm q w4)" if "leases_started w4 = leases_started w" for q w4
    using bind_stops_or_goes_on [OF decide_leases_started, of env source opts p t Decision_allow "''all_dispatch_gates_passed''" "final q" w4]
      final that unfolding perm_def by metis
  note keep = keeps_gates [OF leases_started_apart decide_leases_started]
  have busi: "?ok (busi w3)" if "leases_started w3 = leases_started w" for w3
    using bind_stops_or_goes_on [OF keep(3), of env source opts p t recipient perm w3] perm that unfolding busi_def by metis
  have adm: "?ok (?adm w2)" if "leases_started w2 = leases_started w" for w2
    using bind_stops_or_goes_on [OF keep(2), of env source opts p t "\<lambda>_. busi" w2] busi that by metis
  have "?ok (act_bind (durable_gate env source opts p t recipient) (\<lambda>_. ?adm) w)"
    using bind_stops_or_goes_on [OF keep(1), of env source opts p t recipient "\<lambda>_. ?adm" w] adm by metis
  moreover have "gated_dispatch env source opts p recipient w =
      act_bind (durable_gate env source opts p t recipient) (\<lambda>_. ?adm) w"
    unfolding busi_def perm_def final_def by (simp add: gated_dispatch_def act_bind_def [of "act_get _"] act_get_def Some)
  ultimately show ?thesis by simp
qed

lemma control_plane_cases:
  assumes "dispatch_from_control_plane env source opts p role w = (out, w')"
  obtains (stops) "leases_started w' = leases_started w"
  | (claims) a r q t task d w5 where "leases_started w5 = leases_started w"
      and "leases_started w' = leases_started (snd (act_bind (offer_and_claim env opts a r q t task)
             (start_session env d a r q t task) w5))"
proof -
  let ?r = "or_else role (extract_recipient_from_filename (snd p))"
  have "leases_started w' = leases_started w \<or> w' = snd (gated_dispatch env source opts p ?r w)"
    using assms control_plane_run [of env source opts p role w] by (auto simp: Let_def split: if_splits)
  then consider "leases_started w' = leases_started w"
    | q d w5 where "leases_started w5 = leases_started w"
        "leases_started w' = leases_started (snd (dispatch_task env opts (Some d) q ?r w5))"
    using gated_dispatch_cases by metis
  then show ?thesis
  proof cases
    case (2 q d w5)
    then show ?thesis
      using dispatch_task_cases [of env opts "Some d" q ?r w5] that by metis
  qed (rule stops)
qed

text \<open>
  C16. A dispatch that starts nothing leaves no lease behind. A dispatch by the watcher (without an idempotency
  key) that starts no session, because a gate refused, the task was held, the file could not be moved or the
  session failed to start, leaves no lease that was not held before.
\<close>

theorem no_lease_leak:
  assumes "dispatch_from_control_plane env source opts p role w = (out, w')"
    and "dw_started w' = dw_started w" and "\<not> truthy (cpo_key opts)"
    and "dw_store w = run_dispatch cs" and "fresh_attempt env (dw_store w)"
    and "lease_table (dw_store w') k = Some l"
  shows "lease_table (dw_store w) k = Some l"
  using assms(1)
proof (cases rule: control_plane_cases)
  case stops
  then have "lease_table (dw_store w') = lease_table (dw_store w)"
    by (intro lease_table_same) (simp add: leases_started_def)
  with assms(6) show ?thesis by simp
next
  case (claims a r q t task d w5)
  let ?C = "snd (act_bind (offer_and_claim env opts a r q t task) (start_session env d a r q t task) w5)"
  have same: "lease_table (dw_store w5) = lease_table (dw_store w)" "lease_table (dw_store ?C) = lease_table (dw_store w')"
    using claims by (auto simp: leases_started_def intro: lease_table_same)
  have "dispatch_ok (dw_store w5)"
    using claims(1) run_dispatch_ok [of cs] assms(4) dispatch_ok_same [of "dw_store w5" "dw_store w"]
    by (simp add: leases_started_def)
  moreover have "fresh_attempt env (dw_store w5)"
    using claims(1) assms(5) by (simp add: leases_started_def fresh_attempt_def)
  moreover have "dw_started ?C = dw_started w5" using claims assms(2) by (simp add: leases_started_def)
  ultimately show ?thesis
    using claim_phase_no_leak [of w5 env opts a r q t task d k l] assms(3,6) same by simp
qed

text \<open>
  C32. An idempotency key that has been spent starts nothing: when the first attempt with the key of the caller
  has ended, in whatever way, a dispatch with that key starts no session.
\<close>

theorem spent_key_starts_nothing:
  assumes "dispatch_from_control_plane env source opts p role w = (out, w')"
    and "truthy (cpo_key opts)"
    and "List.find (\<lambda>a. at_idempotency_key a = cpo_key opts) (ds_attempts (dw_store w)) = Some att"
    and "spent_attempt (at_status att)"
  shows "dw_started w' = dw_started w"
  using assms(1)
proof (cases rule: control_plane_cases)
  case stops
  then show ?thesis by (simp add: leases_started_def)
next
  case (claims a r q t task d w5)
  have "offer_attempt (dv_now env) (dv_attempt_uuid env) (offer_of env opts a r q t task) (dw_store w5) = ((att, True), dw_store w5)"
    using claims(1) assms(2,3) by (simp add: offer_attempt_def offer_of_def leases_started_def)
  then have "\<exists>e. offer_and_claim env opts a r q t task w5 = (Inl e, w5)"
    using assms(4) by (simp add: offer_and_claim_def act_bind_def on_store_def act_get_def act_throw_def)
  then have "dw_started (snd (act_bind (offer_and_claim env opts a r q t task) (start_session env d a r q t task) w5)) = dw_started w5"
    by (auto simp: act_bind_def)
  with claims show ?thesis by (simp add: leases_started_def)
qed

section \<open>Instances\<close>

definition sample_name :: string where
  "sample_name = ''TASK-20260101-001-PM-to-DEV.md''"

definition sample_parsed :: parsed_task where
  "sample_parsed =
     \<lparr>pt_filename = sample_name,
      pt_frontmatter = [(''protocol'', V_string ''fcop''), (''sender'', V_string ''PM''), (''recipient'', V_string ''DEV'')],
      pt_body = ''Write it.'', pt_task_id = Some ''TASK-20260101-001'', pt_sender = Some ''PM'', pt_recipient = Some ''DEV'',
      pt_priority = None, pt_thread_key = None, pt_layer = None, pt_state = None, pt_dispatch_state = None,
      pt_depends_on = None, pt_blocked_by = None\<rparr>"

definition sample_dispatch_env :: "(start_failure + string) \<Rightarrow> dispatch_env" where
  "sample_dispatch_env start =
     \<lparr>dv_now = 5000, dv_operation_uuid = ''o'', dv_decision_uuid = ''d'', dv_attempt_uuid = ''a'', dv_lease_uuid = ''l'',
      dv_random = 0, dv_parse = (\<lambda>n fm body. Some sample_parsed), dv_file_digest = (\<lambda>fm body. ''f''),
      dv_spec_digest = (\<lambda>t. ''s''), dv_content_hash = (\<lambda>t. ''h''), dv_admission = (\<lambda>t c. None),
      dv_product_gate = (\<lambda>t. None), dv_project = \<lparr>pf_reports = None, pf_stages = []\<rparr>,
      dv_context = \<lparr>xc_tasks = [], xc_reports = [], xc_meta = [], xc_root = ''/srv'', xc_artifact_exists = None,
                      xc_disk = (\<lambda>p. False)\<rparr>,
      dv_agents = (\<lambda>r. [\<lparr>ag_id = ''DEV-01'', ag_role = Some ''DEV'', ag_sdk = None\<rparr>]), dv_sessions = [],
      dv_start = (\<lambda>a t. start), dv_open_edition = False, dv_retry = default_retry_config,
      dv_min_retry_delay = 0, dv_message = (\<lambda>e. ''failed'')\<rparr>"

definition watcher_opts :: control_opts where
  "watcher_opts = \<lparr>cpo_mode = None, cpo_key = None, cpo_bypass = False, cpo_agent = None\<rparr>"

definition sample_dispatcher :: "(time \<times> dispatch_call) list \<Rightarrow> dispatcher_world" where
  "sample_dispatcher cs =
     \<lparr>dw_lc = \<lparr>w_files = [((Inbox, sample_name), Task_file empty_fm ''Write it.'')], w_queue = None, w_reports = [],
               w_ledger = [], w_reviews = []\<rparr>,
      dw_store = run_dispatch cs, dw_retries = [], dw_cooldown = no_cooldown, dw_invalid = [], dw_started = [],
      dw_cancelled = [], dw_running = [], dw_pending = [], dw_downstream = [], dw_history = [], dw_timers = []\<rparr>"

abbreviation sample_run :: "(start_failure + string) \<Rightarrow> dispatch_outcome \<times> dispatcher_world" where
  "sample_run start \<equiv>
     dispatch_from_control_plane (sample_dispatch_env start) ''inbox_watcher'' watcher_opts (Inbox, sample_name) None
       (sample_dispatcher [])"

text \<open>The run of the sample, gate by gate.\<close>

lemma gated_dispatch_run:
  assumes "parse_path env (w_files (dw_lc w)) p = Some t" and "durable_gate env source opts p t recipient w = (Inr u, w1)"
    and "admission_gate env source opts p t w1 = (Inr v, w2)" and "business_gates env source opts p t recipient w2 = (Inr q, w3)"
    and "decide env source opts p t Decision_allow ''all_dispatch_gates_passed'' w3 = (Inr d, w4)"
    and "dispatch_task env opts (Some d) q recipient w4 = (Inr out, w5)"
  shows "gated_dispatch env source opts p recipient w = (Inr out, apply_outcome env q out w5)"
  using assms by (simp add: gated_dispatch_def act_bind_def act_get_def run_exit_def)

lemma dispatch_task_run:
  assumes "parse_path env (w_files (dw_lc w)) p = Some t" and "\<not> is_observer_role role"
    and "pt_recipient t = Some role" and "canonical_dispatch_id (snd p) (pt_task_id t) = task" and "task \<noteq> []"
    and "queue_gate env opts role task p w = (Inr u, w1)" and "claim_gate p w1 = (Inr v, w2)"
    and "resolve_agent env role (cpo_agent opts) = Some a" and "retry_gate (retry_key a task) w2 = (Inr x, w3)"
    and "offer_and_claim env opts a role p t task w3 = (Inr al, w4)"
  shows "dispatch_task env opts d p role w = start_session env d a role p t task al w4"
  using assms by (simp add: dispatch_task_def dispatch_claimed_def act_bind_def act_get_def Let_def)

abbreviation sample_env_ok :: dispatch_env where
  "sample_env_ok \<equiv> sample_dispatch_env (Inr ''sess-1'')"

abbreviation sample_agent :: agent_rec where
  "sample_agent \<equiv> \<lparr>ag_id = ''DEV-01'', ag_role = Some ''DEV'', ag_sdk = None\<rparr>"

definition sample_decision :: "execution_decision \<times> dispatcher_world" where
  "sample_decision = (case decide sample_env_ok ''inbox_watcher'' watcher_opts (Inbox, sample_name) sample_parsed
      Decision_allow ''all_dispatch_gates_passed'' (sample_dispatcher []) of (r, w) \<Rightarrow> (projr r, w))"

definition sample_queued :: dispatcher_world where
  "sample_queued = snd (queue_gate sample_env_ok watcher_opts ''DEV'' ''TASK-20260101-001'' (Inbox, sample_name) (snd sample_decision))"

definition sample_claimed :: "(string \<times> execution_lease) \<times> dispatcher_world" where
  "sample_claimed = (case offer_and_claim sample_env_ok watcher_opts sample_agent ''DEV'' (Inbox, sample_name) sample_parsed
      ''TASK-20260101-001'' sample_queued of (r, w) \<Rightarrow> (projr r, w))"

lemma sample_gates:
  "parse_path sample_env_ok (w_files (dw_lc (sample_dispatcher []))) (Inbox, sample_name) = Some sample_parsed"
  "durable_gate sample_env_ok ''inbox_watcher'' watcher_opts (Inbox, sample_name) sample_parsed ''DEV'' (sample_dispatcher [])
     = (Inr (), sample_dispatcher [])"
  "admission_gate sample_env_ok ''inbox_watcher'' watcher_opts (Inbox, sample_name) sample_parsed (sample_dispatcher [])
     = (Inr (), sample_dispatcher [])"
  "business_gates sample_env_ok ''inbox_watcher'' watcher_opts (Inbox, sample_name) sample_parsed ''DEV'' (sample_dispatcher [])
     = (Inr (Inbox, sample_name), sample_dispatcher [])"
  "decide sample_env_ok ''inbox_watcher'' watcher_opts (Inbox, sample_name) sample_parsed
      Decision_allow ''all_dispatch_gates_passed'' (sample_dispatcher []) = (Inr (fst sample_decision), snd sample_decision)"
  by code_simp+

lemma sample_claims:
  "parse_path sample_env_ok (w_files (dw_lc (snd sample_decision))) (Inbox, sample_name) = Some sample_parsed"
  "canonical_dispatch_id sample_name (pt_task_id sample_parsed) = ''TASK-20260101-001''"
  "queue_gate sample_env_ok watcher_opts ''DEV'' ''TASK-20260101-001'' (Inbox, sample_name) (snd sample_decision) = (Inr (), sample_queued)"
  by code_simp+

lemma sample_takes:
  "claim_gate (Inbox, sample_name) sample_queued = (Inr (), sample_queued)"
  "retry_gate (retry_key sample_agent ''TASK-20260101-001'') sample_queued = (Inr (), sample_queued)"
  "offer_and_claim sample_env_ok watcher_opts sample_agent ''DEV'' (Inbox, sample_name) sample_parsed
      ''TASK-20260101-001'' sample_queued = (Inr (fst sample_claimed), snd sample_claimed)"
  by code_simp+

lemma sample_session:
  "map_prod id dw_started (start_session sample_env_ok (Some (fst sample_decision)) sample_agent ''DEV'' (Inbox, sample_name) sample_parsed
      ''TASK-20260101-001'' (fst sample_claimed) (snd sample_claimed))
   = (Inr (Out_dispatched ''sess-1'' ''attempt-a'' ''lease-l''), [(''DEV-01'', ''TASK-20260101-001'', ''sess-1'')])"
  by code_simp

lemma sample_fresh: "fresh_attempt (sample_dispatch_env start) (dw_store (sample_dispatcher []))"
  by (simp add: fresh_attempt_def sample_dispatcher_def run_dispatch_def empty_dispatch_state_def)

lemma sample_starts:
  "\<exists>out w'. sample_run (Inr ''sess-1'') = (out, w') \<and> dw_started w' = [(''DEV-01'', ''TASK-20260101-001'', ''sess-1'')]"
proof -
  obtain w5 where start: "start_session sample_env_ok (Some (fst sample_decision)) sample_agent ''DEV'' (Inbox, sample_name)
      sample_parsed ''TASK-20260101-001'' (fst sample_claimed) (snd sample_claimed)
      = (Inr (Out_dispatched ''sess-1'' ''attempt-a'' ''lease-l''), w5)"
    and w5: "dw_started w5 = [(''DEV-01'', ''TASK-20260101-001'', ''sess-1'')]"
    using sample_session by (cases "start_session sample_env_ok (Some (fst sample_decision)) sample_agent ''DEV'' (Inbox, sample_name)
      sample_parsed ''TASK-20260101-001'' (fst sample_claimed) (snd sample_claimed)") auto
  have obs: "\<not> is_observer_role ''DEV''" "extract_recipient_from_filename sample_name = ''DEV''"
    "pt_recipient sample_parsed = Some ''DEV''" "resolve_agent sample_env_ok ''DEV'' (cpo_agent watcher_opts) = Some sample_agent"
    by code_simp+
  have "dispatch_task sample_env_ok watcher_opts (Some (fst sample_decision)) (Inbox, sample_name) ''DEV'' (snd sample_decision)
      = (Inr (Out_dispatched ''sess-1'' ''attempt-a'' ''lease-l''), w5)"
    unfolding start [symmetric]
    by (rule dispatch_task_run [OF sample_claims(1) obs(1,3) _ _ sample_claims(3) sample_takes(1) obs(4) sample_takes(2,3)])
       (simp_all add: sample_claims(2))
  from gated_dispatch_run [OF sample_gates this]
  have "sample_run (Inr ''sess-1'') = (Out_dispatched ''sess-1'' ''attempt-a'' ''lease-l'',
      apply_outcome sample_env_ok (Inbox, sample_name) (Out_dispatched ''sess-1'' ''attempt-a'' ''lease-l'') w5)"
    by (simp add: dispatch_from_control_plane_def obs run_exit_def)
  then show ?thesis using w5 by (simp add: keeps_apply_outcome)
qed

lemma sample_none_started: "dw_started (sample_dispatcher cs) = []"
  by (simp add: sample_dispatcher_def)

theorem session_behind_gates_witness:
  "\<exists>w' t d. sample_run (Inr ''sess-1'') = (fst (sample_run (Inr ''sess-1'')), w')
    \<and> parse_path sample_env_ok (w_files (dw_lc (sample_dispatcher []))) (Inbox, sample_name) = Some t
    \<and> gates_passed sample_env_ok watcher_opts (Inbox, sample_name) (or_else None (extract_recipient_from_filename (snd (Inbox, sample_name)))) t
    \<and> d \<in> set (ds_decisions (dw_store w')) \<and> allowed_by sample_env_ok ''inbox_watcher'' watcher_opts (Inbox, sample_name) t d"
proof -
  obtain out w' where run: "sample_run (Inr ''sess-1'') = (out, w')" and "dw_started w' \<noteq> dw_started (sample_dispatcher [])"
    using sample_starts by (auto simp: sample_none_started)
  from session_behind_gates [OF this] run show ?thesis by auto
qed

theorem session_under_lease_witness:
  "\<exists>w' agent task sid l. sample_run (Inr ''sess-1'') = (fst (sample_run (Inr ''sess-1'')), w')
    \<and> dw_started w' = dw_started (sample_dispatcher []) @ [(agent, task, sid)]
    \<and> lease_table (dw_store w') (dispatch_task_key task) = Some l \<and> el_agent_id l = agent"
proof -
  obtain out w' where run: "sample_run (Inr ''sess-1'') = (out, w')" and grew: "dw_started w' \<noteq> dw_started (sample_dispatcher [])"
    using sample_starts by (auto simp: sample_none_started)
  have store: "dw_store (sample_dispatcher []) = run_dispatch []" by (simp add: sample_dispatcher_def)
  show ?thesis using session_under_lease [OF run grew store sample_fresh] run by auto
qed

text \<open>Another agent holds the lease of the task, and the admission gate rejects the new dispatch.\<close>

definition held_calls :: "(time \<times> dispatch_call) list" where
  "held_calls = [(1000, Call_offer ''x'' sample_offer), (1000, Call_claim ''m'' (sample_claim ''attempt-x'' ''s-1''))]"

abbreviation rejected_run :: "dispatch_outcome \<times> dispatcher_world" where
  "rejected_run \<equiv> dispatch_from_control_plane (sample_env_ok\<lparr>dv_admission := (\<lambda>t c. Some [''F1''])\<rparr>) ''inbox_watcher''
     watcher_opts (Inbox, sample_name) None (sample_dispatcher held_calls)"

theorem no_lease_leak_witness:
  "lease_table (dw_store (sample_dispatcher held_calls)) ''TASK-20260101-001''
     = lease_table (dw_store (snd rejected_run)) ''TASK-20260101-001''
   \<and> lease_table (dw_store (snd rejected_run)) ''TASK-20260101-001'' \<noteq> None"
proof -
  have same: "dw_started (snd rejected_run) = dw_started (sample_dispatcher held_calls)" by code_simp
  have key: "\<not> truthy (cpo_key watcher_opts)" by (simp add: watcher_opts_def)
  have store: "dw_store (sample_dispatcher held_calls) = run_dispatch held_calls" by (simp add: sample_dispatcher_def)
  have fresh: "fresh_attempt (sample_env_ok\<lparr>dv_admission := (\<lambda>t c. Some [''F1''])\<rparr>) (dw_store (sample_dispatcher held_calls))"
    by code_simp
  have "lease_table (dw_store (snd rejected_run)) ''TASK-20260101-001'' \<noteq> None" by code_simp
  then obtain l where l: "lease_table (dw_store (snd rejected_run)) ''TASK-20260101-001'' = Some l" by blast
  show ?thesis using no_lease_leak [OF surjective_pairing same key store fresh l] l by simp
qed

text \<open>An ADMIN retry whose first attempt failed: the key of the second one is the same.\<close>

definition spent_calls :: "(time \<times> dispatch_call) list" where
  "spent_calls = [(1000, Call_offer ''x'' (sample_offer\<lparr>oi_idempotency_key := Some ''admin-retry:DEV-01:TASK-20260101-001''\<rparr>)),
     (2000, Call_finished ''attempt-x'' At_session_failed None)]"

theorem spent_key_starts_nothing_witness:
  "dw_started (snd (dispatch_from_control_plane sample_env_ok ''pm_redispatch''
     (watcher_opts\<lparr>cpo_key := Some ''admin-retry:DEV-01:TASK-20260101-001''\<rparr>) (Inbox, sample_name) None
     (sample_dispatcher spent_calls))) = []"
proof -
  let ?o = "watcher_opts\<lparr>cpo_key := Some ''admin-retry:DEV-01:TASK-20260101-001''\<rparr>"
  have key: "truthy (cpo_key ?o)" by simp
  have "(case List.find (\<lambda>a. at_idempotency_key a = cpo_key ?o) (ds_attempts (dw_store (sample_dispatcher spent_calls))) of
      None \<Rightarrow> False | Some a \<Rightarrow> spent_attempt (at_status a))" by code_simp
  then obtain att where att: "List.find (\<lambda>a. at_idempotency_key a = cpo_key ?o)
      (ds_attempts (dw_store (sample_dispatcher spent_calls))) = Some att" "spent_attempt (at_status att)"
    by (auto split: option.splits)
  show ?thesis
    using spent_key_starts_nothing [OF surjective_pairing key att] sample_none_started by simp
qed

end
