(* ===== verification/Planning_Gates.thy ===== *)
theory Planning_Gates
  imports Js_Prelude
begin

text \<open>
  The planning gate (\<^verbatim>\<open>pm/PlanningGateStore.ts\<close>) and the planning grants (\<^verbatim>\<open>pm/PlanningGrantStore.ts\<close>).
  Both are append-only JSON-lines files per task; a state is the list of the records of one task's file in
  order. A record is identified by the digests and the revision of the plan it speaks of.
\<close>

section \<open>Submissions and decisions\<close>

datatype gate_decision = Approve_wp00 | Request_plan_change | Pause | Replan | Terminate

datatype stage_decision =
  Approve_next_stage | Approve_selected_wps | Request_more_evidence | Pause_future_stages
| Revoke_unexecuted_grants | Terminate_task

datatype notice_status = Notice_pending | Notice_delivered | Notice_failed
datatype wake_status = Wake_pending | Wake_started | Wake_failed | Wake_unavailable

text \<open>What a record says it is about.\<close>

record plan_version =
  pv_thread_key :: string
  pv_revision :: int
  pv_body :: string
  pv_validation :: string

record gate_submission =
  gs_id :: time             \<comment> \<open>the number in \<open>PLANNING-REVIEW-n\<close>\<close>
  gs_task :: string
  gs_version :: plan_version
  gs_source :: string
  gs_by :: string

record gate_ruling =
  gr_id :: time
  gr_task :: string
  gr_version :: plan_version
  gr_decision :: gate_decision
  gr_reason :: string
  gr_notice :: notice_status
  gr_wake :: wake_status
  gr_notice_detail :: "string option"
  gr_wake_detail :: "string option"

record stage_ruling =
  sr_id :: time
  sr_task :: string
  sr_version :: plan_version
  sr_decision :: stage_decision
  sr_scope :: "string list"
  sr_evidence :: "string list"
  sr_reason :: string
  sr_notice :: notice_status
  sr_wake :: wake_status
  sr_notice_detail :: "string option"
  sr_wake_detail :: "string option"

datatype gate_record = Rec_submission gate_submission | Rec_ruling gate_ruling | Rec_stage stage_ruling

datatype planning_error = Missing_fields | Bad_digest | Reason_required | Submission_stale
| Scope_not_explicit | Invalid_wp | Ids_and_reason_required

definition last_match :: "('a \<Rightarrow> 'b option) \<Rightarrow> 'a list \<Rightarrow> 'b option" where
  "last_match f xs = (case List.map_filter f (rev xs) of [] \<Rightarrow> None | y # _ \<Rightarrow> Some y)"

fun submission_of :: "gate_record \<Rightarrow> gate_submission option" where
  "submission_of (Rec_submission s) = Some s"
| "submission_of r = None"

fun ruling_of :: "gate_record \<Rightarrow> gate_ruling option" where
  "ruling_of (Rec_ruling r) = Some r"
| "ruling_of r = None"

definition hex_digit :: "char \<Rightarrow> bool" where
  "hex_digit c \<longleftrightarrow> js_digit c \<or> lower_char c \<in> {CHR ''a'', CHR ''b'', CHR ''c'', CHR ''d'', CHR ''e'', CHR ''f''}"

text \<open>\<open>/^sha256:[0-9a-f]{64}$/i\<close>\<close>

definition is_digest :: "string \<Rightarrow> bool" where
  "is_digest s \<longleftrightarrow> js_lower (take 7 s) = ''sha256:'' \<and> length s = 71 \<and> list_all hex_digit (drop 7 s)"

definition submit_planning_gate ::
  "time \<Rightarrow> string \<Rightarrow> plan_version \<Rightarrow> string \<Rightarrow> string \<Rightarrow> gate_record list
     \<Rightarrow> (planning_error + gate_submission) \<times> gate_record list" where
  "submit_planning_gate now task v source by_whom h =
     (if task = [] \<or> pv_thread_key v = [] \<or> pv_revision v < 1 then (Inl Missing_fields, h)
      else if \<not> is_digest (pv_body v) \<or> \<not> is_digest (pv_validation v) then (Inl Bad_digest, h)
      else
        let row = \<lparr>gs_id = now, gs_task = task, gs_version = v, gs_source = source, gs_by = by_whom\<rparr> in
        case last_match submission_of h of
          Some s \<Rightarrow> if gs_version s = v then (Inr s, h) else (Inr row, h @ [Rec_submission row])
        | None \<Rightarrow> (Inr row, h @ [Rec_submission row]))"

definition submission_current :: "plan_version \<Rightarrow> gate_record list \<Rightarrow> bool" where
  "submission_current v h \<longleftrightarrow> map_option gs_version (last_match submission_of h) = Some v"

definition decide_planning_gate ::
  "time \<Rightarrow> string \<Rightarrow> plan_version \<Rightarrow> gate_decision \<Rightarrow> string \<Rightarrow> notice_status option \<Rightarrow> wake_status option
     \<Rightarrow> string option \<Rightarrow> string option \<Rightarrow> gate_record list \<Rightarrow> (planning_error + gate_ruling) \<times> gate_record list" where
  "decide_planning_gate now task v d reason notice wake notice_detail wake_detail h =
     (if js_trim reason = [] then (Inl Reason_required, h)
      else if \<not> submission_current v h then (Inl Submission_stale, h)
      else
        let row = \<lparr>gr_id = now, gr_task = task, gr_version = v, gr_decision = d, gr_reason = js_trim reason,
                   gr_notice = or_else notice Notice_pending, gr_wake = or_else wake Wake_pending,
                   gr_notice_detail = (if truthy notice_detail then notice_detail else None),
                   gr_wake_detail = (if truthy wake_detail then wake_detail else None)\<rparr>
        in (Inr row, h @ [Rec_ruling row]))"

definition decide_planning_stage ::
  "time \<Rightarrow> string \<Rightarrow> plan_version \<Rightarrow> stage_decision \<Rightarrow> string list option \<Rightarrow> string list option \<Rightarrow> string
     \<Rightarrow> gate_record list \<Rightarrow> (planning_error + stage_ruling) \<times> gate_record list" where
  "decide_planning_stage now task v d scope evidence reason h =
     (if js_trim reason = [] then (Inl Reason_required, h)
      else if \<not> submission_current v h then (Inl Submission_stale, h)
      else
        let row = \<lparr>sr_id = now, sr_task = task, sr_version = v, sr_decision = d,
                   sr_scope = js_uniq (filter (\<lambda>w. w \<noteq> []) (map (js_upper \<circ> js_trim) (or_else scope []))),
                   sr_evidence = js_uniq (filter (\<lambda>w. w \<noteq> []) (or_else evidence [])),
                   sr_reason = js_trim reason, sr_notice = Notice_pending, sr_wake = Wake_pending,
                   sr_notice_detail = None, sr_wake_detail = None\<rparr>
        in (Inr row, h @ [Rec_stage row]))"

definition record_planning_stage_delivery ::
  "stage_ruling \<Rightarrow> notice_status \<Rightarrow> wake_status \<Rightarrow> string option \<Rightarrow> string option
     \<Rightarrow> gate_record list \<Rightarrow> stage_ruling \<times> gate_record list" where
  "record_planning_stage_delivery d notice wake notice_detail wake_detail h =
     (let row = d\<lparr>sr_notice := notice, sr_wake := wake,
                  sr_notice_detail := coalesce notice_detail (sr_notice_detail d),
                  sr_wake_detail := coalesce wake_detail (sr_wake_detail d)\<rparr>
      in (row, h @ [Rec_stage row]))"

definition record_planning_gate_delivery ::
  "gate_ruling \<Rightarrow> notice_status \<Rightarrow> wake_status \<Rightarrow> string option \<Rightarrow> string option
     \<Rightarrow> gate_record list \<Rightarrow> gate_ruling \<times> gate_record list" where
  "record_planning_gate_delivery d notice wake notice_detail wake_detail h =
     (let row = d\<lparr>gr_notice := notice, gr_wake := wake,
                  gr_notice_detail := (if truthy notice_detail then notice_detail else gr_notice_detail d),
                  gr_wake_detail := (if truthy wake_detail then wake_detail else gr_wake_detail d)\<rparr>
      in (row, h @ [Rec_ruling row]))"

section \<open>The state of the gate\<close>

datatype gate_status =
  Gate_not_submitted | Gate_pending | Gate_approved | Gate_changes_requested | Gate_paused | Gate_replan
| Gate_terminated | Gate_stale

fun status_of_decision :: "gate_decision \<Rightarrow> gate_status" where
  "status_of_decision Approve_wp00 = Gate_approved"
| "status_of_decision Request_plan_change = Gate_changes_requested"
| "status_of_decision Pause = Gate_paused"
| "status_of_decision Replan = Gate_replan"
| "status_of_decision Terminate = Gate_terminated"

text \<open>The plan as it is now: its revision, when it has one, and its digests.\<close>

type_synonym current_plan = "int option \<times> string \<times> string"

definition plan_key :: "plan_version \<Rightarrow> current_plan" where
  "plan_key v = (Some (pv_revision v), pv_body v, pv_validation v)"

definition current_planning_gate_state :: "gate_record list \<Rightarrow> current_plan option \<Rightarrow> gate_status" where
  "current_planning_gate_state h current =
     (case last_match submission_of h of
        None \<Rightarrow> Gate_not_submitted
      | Some s \<Rightarrow>
          if current \<noteq> None \<and> current \<noteq> Some (plan_key (gs_version s)) then Gate_stale
          else case last_match ruling_of h of
                 None \<Rightarrow> Gate_pending
               | Some r \<Rightarrow>
                   if plan_key (gr_version r) \<noteq> plan_key (gs_version s) then Gate_pending
                   else status_of_decision (gr_decision r))"

section \<open>Grants\<close>

datatype grant_status = Grant_active | Grant_revoked | Grant_stale
datatype grant_kind = Kind_initial_wp00 | Kind_stage

record planning_grant =
  pg_root :: string
  pg_revision :: int
  pg_brief :: string
  pg_validation :: string
  pg_scope :: "string list"
  pg_contract :: string
  pg_decision :: string
  pg_approved_at :: time
  pg_status :: grant_status
  pg_kind :: grant_kind
  pg_reason :: "string option"
  pg_evidence :: "string list option"

record grant_revocation =
  rv_root :: string
  rv_ids :: "string list"
  rv_reason :: string
  rv_at :: time

datatype grant_record = Rec_grant planning_grant | Rec_revocation grant_revocation

definition grant_name :: "string \<Rightarrow> string" where
  "grant_name d = ''PLANNING-GRANT-'' @ d"

definition grant_id :: "planning_grant \<Rightarrow> string" where
  "grant_id g = grant_name (pg_decision g)"

lemma grant_name_not_Nil [simp]: "grant_name d \<noteq> []"
  by (simp add: grant_name_def)

fun grant_of :: "grant_record \<Rightarrow> planning_grant option" where
  "grant_of (Rec_grant g) = Some g"
| "grant_of r = None"

fun revoked_of :: "grant_record \<Rightarrow> string list" where
  "revoked_of (Rec_revocation r) = rv_ids r"
| "revoked_of r = []"

text \<open>\<open>/^WP-\d+$/i\<close>\<close>

definition is_wp_id :: "string \<Rightarrow> bool" where
  "is_wp_id s \<longleftrightarrow> js_lower (take 3 s) = ''wp-'' \<and> drop 3 s \<noteq> [] \<and> list_all js_digit (drop 3 s)"

record grant_input =
  ig_root :: string
  ig_revision :: int
  ig_brief :: string
  ig_validation :: string
  ig_scope :: "string list"
  ig_contract :: string
  ig_decision :: string
  ig_approved_at :: time
  ig_kind :: "grant_kind option"
  ig_reason :: "string option"
  ig_evidence :: "string list option"

definition grant_scope :: "string list \<Rightarrow> string list" where
  "grant_scope ws = js_uniq (filter (\<lambda>w. w \<noteq> []) (map (js_upper \<circ> js_trim) ws))"

definition issue_planning_grant ::
  "grant_input \<Rightarrow> grant_record list \<Rightarrow> (planning_error + planning_grant) \<times> grant_record list" where
  "issue_planning_grant i h =
     (case List.find (\<lambda>g. pg_decision g = ig_decision i) (List.map_filter grant_of h) of
        Some g \<Rightarrow> (Inr g, h)
      | None \<Rightarrow>
          let scope = grant_scope (ig_scope i) in
          if scope = [] \<or> ''*'' \<in> set scope then (Inl Scope_not_explicit, h)
          else if list_ex (\<lambda>w. \<not> is_wp_id w) scope then (Inl Invalid_wp, h)
          else
            let reason = js_trim (str_of (ig_reason i));
                g = \<lparr>pg_root = ig_root i, pg_revision = ig_revision i, pg_brief = ig_brief i,
                     pg_validation = ig_validation i, pg_scope = scope, pg_contract = ig_contract i,
                     pg_decision = ig_decision i, pg_approved_at = ig_approved_at i, pg_status = Grant_active,
                     pg_kind = or_else (ig_kind i) Kind_stage,
                     pg_reason = (if reason = [] then None else Some reason),
                     pg_evidence = (if or_else (ig_evidence i) [] = [] then None
                                    else Some (js_uniq (filter (\<lambda>w. w \<noteq> []) (or_else (ig_evidence i) []))))\<rparr>
            in (Inr g, h @ [Rec_grant g]))"

definition revoke_planning_grants ::
  "string \<Rightarrow> string list \<Rightarrow> string \<Rightarrow> time \<Rightarrow> grant_record list
     \<Rightarrow> (planning_error + grant_revocation) \<times> grant_record list" where
  "revoke_planning_grants root ids reason now h =
     (let ids1 = js_uniq (filter (\<lambda>w. w \<noteq> []) (map js_trim ids)) in
      if ids1 = [] \<or> js_trim reason = [] then (Inl Ids_and_reason_required, h)
      else let row = \<lparr>rv_root = root, rv_ids = ids1, rv_reason = js_trim reason, rv_at = now\<rparr>
           in (Inr row, h @ [Rec_revocation row]))"

record grant_view =
  gv_revision :: "int option"
  gv_brief :: "string option"
  gv_validation :: "string option"

definition grant_outdated :: "grant_view \<Rightarrow> planning_grant \<Rightarrow> bool" where
  "grant_outdated c g \<longleftrightarrow>
     (gv_revision c \<noteq> None \<and> gv_revision c \<noteq> Some (pg_revision g))
     \<or> (truthy (gv_brief c) \<and> gv_brief c \<noteq> Some (pg_brief g))
     \<or> (truthy (gv_validation c) \<and> gv_validation c \<noteq> Some (pg_validation g))"

definition current_planning_grants :: "grant_record list \<Rightarrow> grant_view \<Rightarrow> planning_grant list" where
  "current_planning_grants h c =
     (let revoked = concat (map revoked_of h) in
      map (\<lambda>g. if grant_outdated c g then g\<lparr>pg_status := Grant_stale\<rparr> else g)
        (filter (\<lambda>g. pg_status g = Grant_active \<and> grant_id g \<notin> set revoked) (List.map_filter grant_of h)))"

definition current_planning_grant :: "grant_record list \<Rightarrow> grant_view \<Rightarrow> planning_grant option" where
  "current_planning_grant h c = (case rev (current_planning_grants h c) of [] \<Rightarrow> None | g # _ \<Rightarrow> Some g)"

definition planning_grant_allows :: "planning_grant \<Rightarrow> string \<Rightarrow> bool" where
  "planning_grant_allows g wp \<longleftrightarrow>
     pg_status g = Grant_active \<and> (''*'' \<in> set (pg_scope g) \<or> js_upper (js_trim wp) \<in> set (pg_scope g))"

definition planning_grants_allow :: "planning_grant list \<Rightarrow> string \<Rightarrow> bool" where
  "planning_grants_allow gs wp \<longleftrightarrow> list_ex (\<lambda>g. planning_grant_allows g wp) gs"

section \<open>Runs of the gate\<close>

text \<open>A delivery is recorded for a decision the gate handed out, which is a record of the file.\<close>

datatype gate_call =
  Submit time string plan_version string string
| Decide time string plan_version gate_decision string "notice_status option" "wake_status option"
    "string option" "string option"
| Decide_stage time string plan_version stage_decision "string list option" "string list option" string
| Deliver_gate gate_ruling notice_status wake_status "string option" "string option"
| Deliver_stage stage_ruling notice_status wake_status "string option" "string option"

fun gate_step :: "gate_call \<Rightarrow> gate_record list \<Rightarrow> gate_record list" where
  "gate_step (Submit now task v src b) h = snd (submit_planning_gate now task v src b h)"
| "gate_step (Decide now task v d reason n w nd wd) h = snd (decide_planning_gate now task v d reason n w nd wd h)"
| "gate_step (Decide_stage now task v d sc ev reason) h = snd (decide_planning_stage now task v d sc ev reason h)"
| "gate_step (Deliver_gate r n w nd wd) h =
     (if Rec_ruling r \<in> set h then snd (record_planning_gate_delivery r n w nd wd h) else h)"
| "gate_step (Deliver_stage r n w nd wd) h =
     (if Rec_stage r \<in> set h then snd (record_planning_stage_delivery r n w nd wd h) else h)"

definition run_gate :: "gate_call list \<Rightarrow> gate_record list" where
  "run_gate cs = fold gate_step cs []"

lemma run_gate_snoc: "run_gate (cs @ [c]) = gate_step c (run_gate cs)"
  by (simp add: run_gate_def)

lemma run_gate_Nil [simp]: "run_gate [] = []"
  by (simp add: run_gate_def)

lemma last_match_snoc:
  "last_match f (xs @ [x]) = (case f x of Some y \<Rightarrow> Some y | None \<Rightarrow> last_match f xs)"
  by (simp add: last_match_def List.map_filter_simps split: option.splits)

lemma map_filter_in: "y \<in> set (List.map_filter f xs) \<longleftrightarrow> (\<exists>x \<in> set xs. f x = Some y)"
  by (induction xs) (auto simp: List.map_filter_simps split: option.splits)

lemma last_match_mem: "last_match f xs = Some y \<Longrightarrow> \<exists>x \<in> set xs. f x = Some y"
  using map_filter_in[of y f "rev xs"] by (auto simp: last_match_def split: list.splits)

text \<open>A call that decides \<open>d\<close> on the plan \<open>c\<close> while it is the one submitted.\<close>

definition decides :: "gate_decision \<Rightarrow> current_plan \<Rightarrow> gate_record list \<Rightarrow> gate_call \<Rightarrow> bool" where
  "decides d c h call \<longleftrightarrow>
     (case call of
        Decide now task v d' reason n w nd wd \<Rightarrow>
          d' = d \<and> plan_key v = c \<and> js_trim reason \<noteq> [] \<and> submission_current v h
      | _ \<Rightarrow> False)"

lemma gate_step_ruling:
  assumes "Rec_ruling r \<in> set (gate_step call h)"
  shows "(\<exists>r0. Rec_ruling r0 \<in> set h \<and> gr_decision r0 = gr_decision r \<and> gr_version r0 = gr_version r)
    \<or> decides (gr_decision r) (plan_key (gr_version r)) h call"
  using assms
  by (cases call)
     (auto simp: submit_planning_gate_def decide_planning_gate_def decide_planning_stage_def Let_def decides_def
        record_planning_gate_delivery_def record_planning_stage_delivery_def split: option.splits if_splits)

lemma run_gate_ruling:
  "Rec_ruling r \<in> set (run_gate cs) \<Longrightarrow>
     \<exists>cs1 call cs2. cs = cs1 @ call # cs2 \<and> decides (gr_decision r) (plan_key (gr_version r)) (run_gate cs1) call"
proof (induction cs arbitrary: r rule: rev_induct)
  case (snoc c cs)
  from gate_step_ruling[OF snoc.prems[unfolded run_gate_snoc]] show ?case
  proof
    assume "\<exists>r0. Rec_ruling r0 \<in> set (run_gate cs) \<and> gr_decision r0 = gr_decision r \<and> gr_version r0 = gr_version r"
    then obtain r0 where r0: "Rec_ruling r0 \<in> set (run_gate cs)" "gr_decision r0 = gr_decision r"
      "gr_version r0 = gr_version r" by blast
    from snoc.IH[OF r0(1)] obtain cs1 call cs2 where
      "cs = cs1 @ call # cs2" "decides (gr_decision r0) (plan_key (gr_version r0)) (run_gate cs1) call" by blast
    then show ?thesis using r0(2,3) by (metis append_Cons append_assoc)
  qed blast
qed simp

lemma status_of_decision_inj: "status_of_decision d = status_of_decision d' \<Longrightarrow> d = d'"
  by (cases d; cases d') simp_all

lemma status_of_decision_range:
  "status_of_decision d \<notin> {Gate_not_submitted, Gate_pending, Gate_stale}"
  by (cases d) simp_all

text \<open>C36. Whatever the calls of the planning gate were, it reports for the plan as it is now the outcome of a
  decision only if this plan is the one submitted last and somebody decided just that, with a reason, while
  just this plan was the submitted one: an approval never carries over to a changed plan.\<close>

theorem gate_status_rests_on_decision:
  assumes "current_planning_gate_state (run_gate cs) (Some c) = status_of_decision d"
  shows "map_option (plan_key \<circ> gs_version) (last_match submission_of (run_gate cs)) = Some c
    \<and> (\<exists>cs1 call cs2. cs = cs1 @ call # cs2 \<and> decides d c (run_gate cs1) call)"
proof -
  have "status_of_decision d \<noteq> Gate_not_submitted" "status_of_decision d \<noteq> Gate_pending"
    "status_of_decision d \<noteq> Gate_stale" using status_of_decision_range[of d] by auto
  then obtain s r where sr: "last_match submission_of (run_gate cs) = Some s" "plan_key (gs_version s) = c"
    "last_match ruling_of (run_gate cs) = Some r" "plan_key (gr_version r) = c"
    "status_of_decision (gr_decision r) = status_of_decision d"
    using assms by (auto simp: current_planning_gate_state_def split: option.splits if_splits)
  obtain x where x: "x \<in> set (run_gate cs)" "ruling_of x = Some r" using last_match_mem[OF sr(3)] by blast
  have "x = Rec_ruling r" using x(2) by (cases x) simp_all
  with x(1) have "Rec_ruling r \<in> set (run_gate cs)" by simp
  from run_gate_ruling[OF this] show ?thesis using sr status_of_decision_inj by auto
qed

definition sample_digest :: "char \<Rightarrow> string" where
  "sample_digest c = ''sha256:'' @ replicate 64 c"

definition sample_plan :: "char \<Rightarrow> plan_version" where
  "sample_plan c = \<lparr>pv_thread_key = ''T'', pv_revision = 1, pv_body = sample_digest c, pv_validation = sample_digest c\<rparr>"

definition sample_gate_calls :: "gate_call list" where
  "sample_gate_calls =
     [Submit 1 ''TASK-1'' (sample_plan CHR ''a'') [] ''PM'',
      Decide 2 ''TASK-1'' (sample_plan CHR ''a'') Approve_wp00 ''ok'' None None None None]"

theorem gate_status_rests_on_decision_witness:
  "\<exists>cs1 call cs2. sample_gate_calls = cs1 @ call # cs2
     \<and> decides Approve_wp00 (plan_key (sample_plan CHR ''a'')) (run_gate cs1) call"
proof -
  have "current_planning_gate_state (run_gate sample_gate_calls) (Some (plan_key (sample_plan CHR ''a'')))
      = status_of_decision Approve_wp00" by code_simp
  from gate_status_rests_on_decision[OF this] show ?thesis by blast
qed

text \<open>
  The delivery of a decision appends the decision again. When the delivery of an approval is recorded after a later
  decision to pause the same plan, the approval is the last ruling of the file and the gate reports it.
\<close>

lemma late_delivery_revives_approval:
  "let v = sample_plan CHR ''a''; h = run_gate sample_gate_calls;
       approval = hd (List.map_filter ruling_of h);
       h1 = snd (decide_planning_gate 3 ''TASK-1'' v Pause ''wait'' None None None None h);
       h2 = snd (record_planning_gate_delivery approval Notice_delivered Wake_started None None h1)
   in current_planning_gate_state h1 (Some (plan_key v)) = Gate_paused
      \<and> current_planning_gate_state h2 (Some (plan_key v)) = Gate_approved"
  by code_simp

section \<open>Runs of the grants\<close>

datatype grant_call = Issue grant_input | Revoke string "string list" string time

fun grant_step :: "grant_call \<Rightarrow> grant_record list \<Rightarrow> grant_record list" where
  "grant_step (Issue i) h = snd (issue_planning_grant i h)"
| "grant_step (Revoke root ids reason now) h = snd (revoke_planning_grants root ids reason now h)"

definition run_grants :: "grant_call list \<Rightarrow> grant_record list" where
  "run_grants cs = fold grant_step cs []"

fun revokes :: "string \<Rightarrow> grant_call \<Rightarrow> bool" where
  "revokes d (Issue i) \<longleftrightarrow> False"
| "revokes d (Revoke root ids reason now) \<longleftrightarrow> grant_name d \<in> js_trim ` set ids \<and> js_trim reason \<noteq> []"

text \<open>Issuing \<open>i\<close> is what a grant for \<open>wp\<close> under the view \<open>c\<close> comes from.\<close>

definition issues :: "string \<Rightarrow> string \<Rightarrow> grant_view \<Rightarrow> grant_call \<Rightarrow> bool" where
  "issues d wp c call \<longleftrightarrow>
     (case call of
        Revoke root ids reason now \<Rightarrow> False
      | Issue i \<Rightarrow> ig_decision i = d \<and> wp \<in> set (grant_scope (ig_scope i))
          \<and> (gv_revision c = None \<or> gv_revision c = Some (ig_revision i))
          \<and> (str_of (gv_brief c) = [] \<or> gv_brief c = Some (ig_brief i))
          \<and> (str_of (gv_validation c) = [] \<or> gv_validation c = Some (ig_validation i)))"

definition grants_of_calls :: "grant_record list \<Rightarrow> grant_call list \<Rightarrow> bool" where
  "grants_of_calls h cs \<longleftrightarrow>
     (\<forall>g. Rec_grant g \<in> set h \<longrightarrow> list_all is_wp_id (pg_scope g) \<and>
        (\<exists>i. Issue i \<in> set cs \<and> pg_decision g = ig_decision i \<and> pg_scope g = grant_scope (ig_scope i)
             \<and> pg_revision g = ig_revision i \<and> pg_brief g = ig_brief i \<and> pg_validation g = ig_validation i))
     \<and> (\<forall>d. list_ex (revokes d) cs \<longrightarrow> grant_name d \<in> set (concat (map revoked_of h)))"

lemma run_grants_of_calls: "grants_of_calls (run_grants cs) cs"
proof (induction cs rule: rev_induct)
  case Nil
  show ?case by (simp add: grants_of_calls_def run_grants_def)
next
  case (snoc c cs)
  have run: "run_grants (cs @ [c]) = grant_step c (run_grants cs)" by (simp add: run_grants_def)
  show ?case
  proof (cases c)
    case (Issue i)
    then show ?thesis
      using snoc.IH unfolding run
      by (auto simp: grants_of_calls_def issue_planning_grant_def Let_def list_ex_iff list_all_iff
          split: option.splits)
  next
    case (Revoke root ids reason now)
    have ne: "grant_name d \<in> js_trim ` set ids \<Longrightarrow> js_uniq (filter (\<lambda>w. w \<noteq> []) (map js_trim ids)) \<noteq> []" for d
      by (auto simp: filter_empty_conv) (metis grant_name_not_Nil)
    show ?thesis
      using snoc.IH ne unfolding run unfolding Revoke
      by (auto simp: grants_of_calls_def revoke_planning_grants_def Let_def list_ex_iff)
  qed
qed

lemma wp_id_not_wildcard: "\<not> is_wp_id ''*''"
  by code_simp

text \<open>Whatever was issued and revoked, a work package is allowed only if it is named like one, some grant was issued
  with it in its explicit scope for the revision and the digests of the plan as it is now, and that grant was
  never revoked, neither before nor after it was issued; there is no wildcard.\<close>

theorem allowed_work_was_granted:
  assumes "planning_grants_allow (current_planning_grants (run_grants cs) c) wp"
  shows "is_wp_id (js_upper (js_trim wp))
    \<and> (\<exists>d. list_ex (issues d (js_upper (js_trim wp)) c) cs \<and> \<not> list_ex (revokes d) cs)"
proof -
  obtain g where g: "Rec_grant g \<in> set (run_grants cs)" "grant_id g \<notin> set (concat (map revoked_of (run_grants cs)))"
    "\<not> grant_outdated c g" "''*'' \<in> set (pg_scope g) \<or> js_upper (js_trim wp) \<in> set (pg_scope g)"
  proof -
    obtain g g' where *: "g' \<in> set (List.map_filter grant_of (run_grants cs))" "pg_status g' = Grant_active"
      "grant_id g' \<notin> set (concat (map revoked_of (run_grants cs)))"
      "g = (if grant_outdated c g' then g'\<lparr>pg_status := Grant_stale\<rparr> else g')" "planning_grant_allows g wp"
      using assms by (auto simp: planning_grants_allow_def current_planning_grants_def list_ex_iff Let_def)
    obtain x where x: "x \<in> set (run_grants cs)" "grant_of x = Some g'" using *(1) by (auto simp: map_filter_in)
    have "x = Rec_grant g'" using x(2) by (cases x) simp_all
    then show thesis using that[of g'] * x(1) by (auto simp: planning_grant_allows_def split: if_splits)
  qed
  obtain i where i: "Issue i \<in> set cs" "pg_decision g = ig_decision i" "pg_scope g = grant_scope (ig_scope i)"
    "pg_revision g = ig_revision i" "pg_brief g = ig_brief i" "pg_validation g = ig_validation i"
    and wp: "list_all is_wp_id (pg_scope g)"
    using run_grants_of_calls[of cs] g(1) unfolding grants_of_calls_def by blast
  have scope: "js_upper (js_trim wp) \<in> set (pg_scope g)"
    using g(4) wp wp_id_not_wildcard by (auto simp: list_all_iff)
  have "issues (pg_decision g) (js_upper (js_trim wp)) c (Issue i)"
    using g(3) i scope by (auto simp: issues_def grant_outdated_def truthy_def)
  then have "list_ex (issues (pg_decision g) (js_upper (js_trim wp)) c) cs"
    using i(1) by (auto simp: list_ex_iff)
  moreover have "\<not> list_ex (revokes (pg_decision g)) cs"
    using run_grants_of_calls[of cs] g(2) by (auto simp: grants_of_calls_def grant_id_def)
  moreover have "is_wp_id (js_upper (js_trim wp))" using scope wp by (simp add: list_all_iff)
  ultimately show ?thesis by blast
qed

definition sample_grant_input :: grant_input where
  "sample_grant_input =
     \<lparr>ig_root = ''TASK-1'', ig_revision = 2, ig_brief = ''d1'', ig_validation = ''d2'', ig_scope = ['' wp-03 ''],
      ig_contract = ''d3'', ig_decision = ''D9'', ig_approved_at = 5, ig_kind = None, ig_reason = None,
      ig_evidence = None\<rparr>"

theorem allowed_work_was_granted_witness:
  "\<exists>d. list_ex (issues d ''WP-03'' \<lparr>gv_revision = Some 2, gv_brief = None, gv_validation = Some ''d2''\<rparr>)
         [Issue sample_grant_input, Revoke ''TASK-1'' [''PLANNING-GRANT-D8''] ''old'' 7]
     \<and> \<not> list_ex (revokes d) [Issue sample_grant_input, Revoke ''TASK-1'' [''PLANNING-GRANT-D8''] ''old'' 7]"
proof -
  have 1: "planning_grants_allow (current_planning_grants
      (run_grants [Issue sample_grant_input, Revoke ''TASK-1'' [''PLANNING-GRANT-D8''] ''old'' 7])
      \<lparr>gv_revision = Some 2, gv_brief = None, gv_validation = Some ''d2''\<rparr>) ''Wp-03''" by code_simp
  have 2: "js_upper (js_trim ''Wp-03'') = ''WP-03''" by code_simp
  show ?thesis using allowed_work_was_granted[OF 1] by (simp only: 2)
qed

end
