(* ===== verification/Runtime_Alerts.thy ===== *)
theory Runtime_Alerts
  imports Js_Prelude "HOL-Library.Product_Lexorder" "HOL-Library.Multiset"
begin

text \<open>
  The alert center (\<^verbatim>\<open>alerts/RuntimeAlertManager.ts\<close>, \<^verbatim>\<open>alerts/alert-taxonomy.ts\<close>): alerts are aggregated
  by key, bounded in number, resolved, and shown in a snapshot. An operation reads the clock once.
  Alert objects are shared by reference between the table and a snapshot, so a snapshot is a list of keys
  read in the table as it is when the snapshot is returned. The Chinese titles are constructors, and the
  Chinese alternatives of the text classification have no counterpart in ASCII messages.
\<close>

section \<open>Alerts\<close>

datatype severity = P0 | P1 | P2 | P3

fun severity_rank :: "severity \<Rightarrow> nat" where
  "severity_rank P0 = 0"
| "severity_rank P1 = 1"
| "severity_rank P2 = 2"
| "severity_rank P3 = 3"

lemma severity_rank_inj: "severity_rank s = severity_rank t \<longleftrightarrow> s = t"
  by (cases s; cases t) simp_all

instantiation severity :: linorder
begin

definition less_eq_severity :: "severity \<Rightarrow> severity \<Rightarrow> bool" where
  "less_eq_severity s t \<longleftrightarrow> severity_rank s \<le> severity_rank t"

definition less_severity :: "severity \<Rightarrow> severity \<Rightarrow> bool" where
  "less_severity s t \<longleftrightarrow> severity_rank s < severity_rank t"

instance
  by standard (auto simp: less_eq_severity_def less_severity_def severity_rank_inj)

end

fun severity_name :: "severity \<Rightarrow> string" where
  "severity_name P0 = ''P0''"
| "severity_name P1 = ''P1''"
| "severity_name P2 = ''P2''"
| "severity_name P3 = ''P3''"

datatype alert_category =
  Sdk_network | Concurrency_lock | Cat_lifecycle | Cat_report_gate | Wake_dispatch | Persistence
| Panel_perf | Role_boundary | Shell_tool

fun category_name :: "alert_category \<Rightarrow> string" where
  "category_name Sdk_network = ''sdk_network''"
| "category_name Concurrency_lock = ''concurrency_lock''"
| "category_name Cat_lifecycle = ''lifecycle''"
| "category_name Cat_report_gate = ''report_gate''"
| "category_name Wake_dispatch = ''wake_dispatch''"
| "category_name Persistence = ''persistence''"
| "category_name Panel_perf = ''panel_perf''"
| "category_name Role_boundary = ''role_boundary''"
| "category_name Shell_tool = ''shell_tool''"

datatype alert_status = Alert_active | Alert_cooldown | Alert_waiting | Alert_resolved

text \<open>\<open>T_text\<close> is a title that is given or taken from the code, the others are the literals of the source.\<close>

datatype alert_title =
  T_text string | T_policy_blocked | T_sdk_rate_limit | T_sqlite_constraint | T_report_gate_wait
| T_report_missing | T_admin_pending_review | T_lifecycle_blocked | T_role_boundary | T_persistence_error
| T_sdk_cooldown | T_authority_denied | T_model_not_found | T_response_misaligned | T_runtime_failure
| T_wake_throttled | T_wake_storm

datatype alert_text = Msg string | Msg_title alert_title | Msg_storm nat | Act_pause_automatic

record runtime_alert =
  al_key :: string
  al_severity :: severity
  al_category :: alert_category
  al_code :: string
  al_title :: alert_title
  al_message :: alert_text
  al_agent :: "string option"
  al_task :: "string option"
  al_report :: "string option"
  al_count :: nat
  al_first_seen :: time
  al_last_seen :: time
  al_next_retry :: "time option"
  al_cooldown_until :: "time option"
  al_action :: "alert_text option"
  al_status :: alert_status

record alert_input =
  ai_code :: string
  ai_severity :: "severity option"
  ai_category :: "alert_category option"
  ai_title :: "alert_title option"
  ai_message :: alert_text
  ai_agent :: "string option"
  ai_task :: "string option"
  ai_report :: "string option"
  ai_cooldown_until :: "time option"
  ai_next_retry :: "time option"
  ai_action :: "alert_text option"
  ai_status :: "alert_status option"

record cooldown_view =
  cv_active :: bool
  cv_until :: time
  cv_reason :: string

record alert_center =
  ac_alerts :: "(string, runtime_alert) js_map"
  ac_toasts :: "(string, time) js_map"
  ac_cooldown :: cooldown_view
  ac_storm_start :: time
  ac_storm_count :: nat

definition idle_cooldown :: cooldown_view where
  "idle_cooldown = \<lparr>cv_active = False, cv_until = 0, cv_reason = []\<rparr>"

definition empty_center :: alert_center where
  "empty_center =
     \<lparr>ac_alerts = [], ac_toasts = [], ac_cooldown = idle_cooldown, ac_storm_start = 0, ac_storm_count = 0\<rparr>"

definition max_alerts :: nat where
  "max_alerts = 200"

definition toast_ttl_ms :: int where
  "toast_ttl_ms = 5 * 60 * 1000"

definition storm_window_ms :: int where
  "storm_window_ms = 60000"

definition no_toast_codes :: "string list" where
  "no_toast_codes = [''WAKE_THROTTLED'', ''WAKE_THROTTLED_STORM'', ''REPORT_MISSING'', ''REPORT_GATE_WAIT'',
     ''PANEL_PERF_SLOW'', ''PM_QUEUE_STALE_RELEASED'']"

definition build_alert_key ::
  "severity \<Rightarrow> alert_category \<Rightarrow> string \<Rightarrow> string option \<Rightarrow> string option \<Rightarrow> string" where
  "build_alert_key s c code agent task =
     severity_name s @ '':'' @ category_name c @ '':'' @ code @ '':'' @ str_of agent @ '':'' @ str_of task"

section \<open>Ingestion\<close>

text \<open>\<open>trim\<close> deletes the alerts seen least recently, in a stable order.\<close>

definition trim_alerts :: "(string, runtime_alert) js_map \<Rightarrow> (string, runtime_alert) js_map" where
  "trim_alerts m =
     (if length m \<le> max_alerts then m
      else fold AList.delete
             (take (length m - max_alerts) (map fst (sort_key (\<lambda>e. al_last_seen (snd e)) m))) m)"

definition merged_alert :: "time \<Rightarrow> alert_input \<Rightarrow> runtime_alert \<Rightarrow> runtime_alert" where
  "merged_alert now i a =
     a\<lparr>al_count := al_count a + 1, al_last_seen := now, al_message := ai_message i,
       al_cooldown_until := coalesce (ai_cooldown_until i) (al_cooldown_until a),
       al_next_retry := coalesce (ai_next_retry i) (al_next_retry a),
       al_action := (if ai_action i \<in> {None, Some (Msg [])} then al_action a else ai_action i),
       al_status := or_else (ai_status i) (al_status a)\<rparr>"

definition fresh_alert :: "time \<Rightarrow> string \<Rightarrow> severity \<Rightarrow> alert_category \<Rightarrow> alert_input \<Rightarrow> runtime_alert" where
  "fresh_alert now key s c i =
     \<lparr>al_key = key, al_severity = s, al_category = c, al_code = ai_code i,
      al_title = or_else (ai_title i) (T_text (ai_code i)), al_message = ai_message i, al_agent = ai_agent i,
      al_task = ai_task i, al_report = ai_report i, al_count = 1, al_first_seen = now, al_last_seen = now,
      al_next_retry = ai_next_retry i, al_cooldown_until = ai_cooldown_until i, al_action = ai_action i,
      al_status = or_else (ai_status i) Alert_active\<rparr>"

definition ingest :: "time \<Rightarrow> alert_input \<Rightarrow> alert_center \<Rightarrow> runtime_alert \<times> alert_center" where
  "ingest now i s =
     (let sev = or_else (ai_severity i) P1; cat = or_else (ai_category i) Shell_tool;
          key = build_alert_key sev cat (ai_code i) (ai_agent i) (ai_task i) in
      case map_of (ac_alerts s) key of
        Some a \<Rightarrow> let a1 = merged_alert now i a in (a1, s\<lparr>ac_alerts := AList.update key a1 (ac_alerts s)\<rparr>)
      | None \<Rightarrow> let a = fresh_alert now key sev cat i in
                (a, s\<lparr>ac_alerts := trim_alerts (AList.update key a (ac_alerts s))\<rparr>))"

definition blank_input :: "string \<Rightarrow> alert_text \<Rightarrow> alert_input" where
  "blank_input code msg =
     \<lparr>ai_code = code, ai_severity = None, ai_category = None, ai_title = None, ai_message = msg, ai_agent = None,
      ai_task = None, ai_report = None, ai_cooldown_until = None, ai_next_retry = None, ai_action = None,
      ai_status = None\<rparr>"

definition set_sdk_cooldown :: "time \<Rightarrow> time \<Rightarrow> string \<Rightarrow> alert_center \<Rightarrow> alert_center" where
  "set_sdk_cooldown now until reason s =
     snd (ingest now
       ((blank_input ''SDK_RATE_LIMIT'' (Msg (if reason = [] then ''SDK cooldown active'' else reason)))
          \<lparr>ai_category := Some Sdk_network, ai_severity := Some P0, ai_title := Some T_sdk_rate_limit,
           ai_cooldown_until := Some until, ai_action := Some Act_pause_automatic,
           ai_status := Some Alert_cooldown\<rparr>)
       (s\<lparr>ac_cooldown := \<lparr>cv_active = now < until, cv_until = until, cv_reason = reason\<rparr>\<rparr>))"

definition resolved_alert :: "time \<Rightarrow> runtime_alert \<Rightarrow> runtime_alert" where
  "resolved_alert now a = a\<lparr>al_status := Alert_resolved, al_last_seen := now\<rparr>"

definition clear_sdk_cooldown :: "time \<Rightarrow> alert_center \<Rightarrow> alert_center" where
  "clear_sdk_cooldown now s =
     (let s1 = s\<lparr>ac_cooldown := idle_cooldown\<rparr>;
          key = build_alert_key P0 Sdk_network ''SDK_RATE_LIMIT'' None None in
      case map_of (ac_alerts s) key of
        None \<Rightarrow> s1
      | Some a \<Rightarrow> s1\<lparr>ac_alerts := AList.update key (resolved_alert now a) (ac_alerts s)\<rparr>)"

section \<open>Events\<close>

record event_payload =
  ep_sdk_code :: string          \<comment> \<open>\<open>String(payload.sdk_error_code ?? "")\<close>\<close>
  ep_child_settled :: bool       \<comment> \<open>\<open>child_tasks_settled === true\<close>\<close>
  ep_reason :: string

record alert_event =
  ev_type :: "string option"
  ev_agent :: "string option"
  ev_message :: "string option"
  ev_description :: "string option"
  ev_error :: "string option"
  ev_task :: "string option"
  ev_failure_type :: "string option"
  ev_severity :: "string option"
  ev_transient :: bool
  ev_payload :: "event_payload option"

record classified =
  cl_code :: string
  cl_category :: alert_category
  cl_severity :: severity
  cl_title :: alert_title
  cl_status :: alert_status
  cl_action :: "alert_text option"

definition classified_as ::
  "string \<Rightarrow> alert_category \<Rightarrow> severity \<Rightarrow> alert_title \<Rightarrow> alert_status \<Rightarrow> classified option" where
  "classified_as code c s t st =
     Some \<lparr>cl_code = code, cl_category = c, cl_severity = s, cl_title = t, cl_status = st, cl_action = None\<rparr>"

definition classify_google_code :: "string \<Rightarrow> classified option" where
  "classify_google_code code =
     (let c = js_upper (js_trim code) in
      if c = ''AUTHORITY_DENIED'' then classified_as c Role_boundary P1 T_authority_denied Alert_active
      else if c = ''MODEL_NOT_FOUND'' then classified_as c Sdk_network P0 T_model_not_found Alert_active
      else if c = ''FUNCTION_RESPONSE_MISALIGNED'' then classified_as c Shell_tool P0 T_response_misaligned Alert_active
      else None)"

definition classify_from_text ::
  "string \<Rightarrow> string option \<Rightarrow> string option \<Rightarrow> event_payload option \<Rightarrow> classified option" where
  "classify_from_text text failure_type event_type payload =
     (let has = js_includes (js_lower text); ft = js_lower (str_of failure_type) in
      if has ''codeflowmu_policy_blocked'' \<or> ft = ''policy_blocked''
      then classified_as ''POLICY_BLOCKED'' Role_boundary P3 T_policy_blocked Alert_waiting
      else if has ''nghttp2'' \<or> has ''enhance your calm'' \<or> has ''rate limit'' \<or> has ''429''
      then map_option (\<lambda>c. c\<lparr>cl_action := Some Act_pause_automatic\<rparr>)
             (classified_as ''SDK_RATE_LIMIT'' Sdk_network P0 T_sdk_rate_limit Alert_cooldown)
      else if has ''sqlite_constraint'' \<or> has ''unique constraint'' \<or> has ''database is locked''
      then classified_as ''SQLITE_CONSTRAINT'' Concurrency_lock P0 T_sqlite_constraint Alert_active
      else if event_type = Some ''codeflowmu.report_gate.waiting_report'' \<or> has ''waiting_report'' \<or> has ''waiting report''
      then classified_as ''REPORT_GATE_WAIT'' Cat_report_gate P3 T_report_gate_wait Alert_waiting
      else if event_type = Some ''codeflowmu.report_gate.missing_report'' \<or> has ''missing report''
      then classified_as ''REPORT_MISSING'' Cat_report_gate P2 T_report_missing Alert_waiting
      else if has ''root_review_blocked''
      then (if (case payload of None \<Rightarrow> False
                | Some p \<Rightarrow> ep_child_settled p \<or> js_includes (ep_reason p) ''waiting_pm_to_admin'')
            then classified_as ''ADMIN_PENDING_REVIEW'' Cat_lifecycle P2 T_admin_pending_review Alert_active
            else classified_as ''LIFECYCLE_BLOCKED'' Cat_lifecycle P1 T_lifecycle_blocked Alert_active)
      else if has ''lifecycle'' then classified_as ''LIFECYCLE_BLOCKED'' Cat_lifecycle P1 T_lifecycle_blocked Alert_active
      else if has ''role_boundary'' \<or> has ''eval'' \<and> has ''dispatch''
      then classified_as ''ROLE_BOUNDARY'' Role_boundary P0 T_role_boundary Alert_active
      else if has ''agents.json'' \<or> has ''persist'' \<or> has ''write failed''
      then classified_as ''PERSISTENCE_ERROR'' Persistence P0 T_persistence_error Alert_active
      else if event_type = Some ''codeflowmu.sdk.cooldown''
      then classified_as ''SDK_RATE_LIMIT'' Sdk_network P0 T_sdk_cooldown Alert_cooldown
      else if has ''authority_denied'' then classify_google_code ''AUTHORITY_DENIED''
      else if has ''model_not_found'' then classify_google_code ''MODEL_NOT_FOUND''
      else if has ''function_response_misaligned'' \<or> has ''functionresponse alignment''
      then classify_google_code ''FUNCTION_RESPONSE_MISALIGNED''
      else None)"

definition is_wake_throttled :: "alert_event \<Rightarrow> string \<Rightarrow> string \<Rightarrow> bool" where
  "is_wake_throttled ev msg ft \<longleftrightarrow>
     (let has = js_includes (js_lower msg) in
      if ev_type ev = Some ''wake_agent.skipped'' then True
      else if ft = ''wake_throttled'' \<or> ft = ''pm.wake.skipped'' then True
      else js_includes ft ''wake'' \<and> (has ''throttl'' \<or> has ''skipped''))"

definition wake_input :: "string \<Rightarrow> alert_title \<Rightarrow> alert_text \<Rightarrow> alert_event \<Rightarrow> alert_input" where
  "wake_input code title msg ev =
     (blank_input code msg)\<lparr>ai_category := Some Wake_dispatch, ai_severity := Some P2, ai_title := Some title,
       ai_agent := ev_agent ev, ai_task := ev_task ev, ai_status := Some Alert_waiting\<rparr>"

definition handle_wake_throttled ::
  "time \<Rightarrow> alert_event \<Rightarrow> string \<Rightarrow> alert_center \<Rightarrow> runtime_alert \<times> alert_center" where
  "handle_wake_throttled now ev msg s =
     (if ac_storm_start s = 0 \<or> storm_window_ms < now - ac_storm_start s
      then ingest now
             (wake_input ''WAKE_THROTTLED'' T_wake_throttled (Msg (if msg = [] then ''wake throttled'' else msg)) ev)
             (s\<lparr>ac_storm_start := now, ac_storm_count := 1\<rparr>)
      else ingest now
             (wake_input ''WAKE_THROTTLED_STORM'' T_wake_storm (Msg_storm (ac_storm_count s + 1)) ev)
             (s\<lparr>ac_storm_count := ac_storm_count s + 1\<rparr>))"

definition classified_input :: "classified \<Rightarrow> string \<Rightarrow> alert_event \<Rightarrow> alert_input" where
  "classified_input c msg ev =
     \<lparr>ai_code = cl_code c, ai_severity = Some (cl_severity c), ai_category = Some (cl_category c),
      ai_title = Some (cl_title c), ai_message = (if msg = [] then Msg_title (cl_title c) else Msg msg),
      ai_agent = ev_agent ev, ai_task = ev_task ev, ai_report = None, ai_cooldown_until = None,
      ai_next_retry = None, ai_action = cl_action c, ai_status = Some (cl_status c)\<rparr>"

definition event_message :: "alert_event \<Rightarrow> string" where
  "event_message ev = js_trim (str_of (coalesce (ev_message ev) (coalesce (ev_description ev) (ev_error ev))))"

definition ingest_from_event :: "time \<Rightarrow> alert_event \<Rightarrow> alert_center \<Rightarrow> runtime_alert option \<times> alert_center" where
  "ingest_from_event now ev s =
     (let msg = event_message ev; ft = js_lower (str_of (ev_failure_type ev)) in
      if ev_transient ev then (None, s)
      else if msg = [] \<and> \<not> truthy (ev_failure_type ev) then (None, s)
      else if is_wake_throttled ev msg ft then map_prod Some id (handle_wake_throttled now ev msg s)
      else
        case classify_google_code (case ev_payload ev of None \<Rightarrow> [] | Some p \<Rightarrow> ep_sdk_code p) of
          Some c \<Rightarrow> map_prod Some id (ingest now (classified_input c msg ev) s)
        | None \<Rightarrow>
            case classify_from_text msg (ev_failure_type ev) (ev_type ev) None of
              None \<Rightarrow>
                let sev = js_upper (str_of (ev_severity ev)) in
                map_prod Some id (ingest now
                  \<lparr>ai_code = or_else (ev_failure_type ev) ''RUNTIME_FAILURE'',
                   ai_severity = Some (if sev = ''ERROR'' then P1 else if sev = ''WARN'' then P2 else P1),
                   ai_category = Some Shell_tool, ai_title = Some T_runtime_failure,
                   ai_message = Msg (if msg \<noteq> [] then msg else if truthy (ev_failure_type ev)
                                     then str_of (ev_failure_type ev) else ''unknown''),
                   ai_agent = ev_agent ev, ai_task = ev_task ev, ai_report = None, ai_cooldown_until = None,
                   ai_next_retry = None, ai_action = None, ai_status = Some Alert_active\<rparr> s)
            | Some c \<Rightarrow>
                map_prod Some id (ingest now
                  ((classified_input c msg ev)
                     \<lparr>ai_cooldown_until := (if cl_status c = Alert_cooldown then Some (cv_until (ac_cooldown s)) else None)\<rparr>)
                  s))"

section \<open>Resolving, toasts and the snapshot\<close>

definition resolve_alert :: "time \<Rightarrow> string \<Rightarrow> alert_center \<Rightarrow> bool \<times> alert_center" where
  "resolve_alert now key s =
     (case map_of (ac_alerts s) key of
        None \<Rightarrow> (False, s)
      | Some a \<Rightarrow>
          if al_status a = Alert_resolved then (False, s)
          else (True, s\<lparr>ac_alerts := AList.update key (resolved_alert now a) (ac_alerts s)\<rparr>))"

definition resolve_all :: "time \<Rightarrow> alert_center \<Rightarrow> nat \<times> alert_center" where
  "resolve_all now s =
     (length (filter (\<lambda>e. al_status (snd e) \<noteq> Alert_resolved) (ac_alerts s)),
      s\<lparr>ac_alerts := map (\<lambda>(k, a). (k, if al_status a = Alert_resolved then a else resolved_alert now a)) (ac_alerts s)\<rparr>)"

definition should_show_p0_toast :: "time \<Rightarrow> runtime_alert \<Rightarrow> alert_center \<Rightarrow> bool \<times> alert_center" where
  "should_show_p0_toast now a s =
     (if al_severity a \<noteq> P0 then (False, s)
      else if al_code a \<in> set no_toast_codes then (False, s)
      else if now - or_else (map_of (ac_toasts s) (al_key a)) 0 < toast_ttl_ms then (False, s)
      else (True, s\<lparr>ac_toasts := AList.update (al_key a) now (ac_toasts s)\<rparr>))"

datatype overall = Overall_ok | Overall_degraded | Overall_critical

definition overall_from_alerts :: "runtime_alert list \<Rightarrow> overall" where
  "overall_from_alerts as =
     (if list_ex (\<lambda>a. al_severity a = P0 \<and> al_status a \<noteq> Alert_resolved) as then Overall_critical
      else if list_ex (\<lambda>a. al_severity a \<in> {P1, P2} \<and> al_status a \<noteq> Alert_resolved) as then Overall_degraded
      else Overall_ok)"

record alert_snapshot =
  sn_active :: "runtime_alert list"
  sn_grouped :: "(string, runtime_alert list) js_map"
  sn_banner :: "runtime_alert option"
  sn_overall :: overall
  sn_cooldown :: cooldown_view

definition active_alerts :: "alert_center \<Rightarrow> runtime_alert list" where
  "active_alerts s =
     sort_key (\<lambda>a. (severity_rank (al_severity a), - al_last_seen a))
       (filter (\<lambda>a. al_status a \<noteq> Alert_resolved) (map snd (ac_alerts s)))"

fun group_alerts :: "runtime_alert list \<Rightarrow> (string, runtime_alert list) js_map \<Rightarrow> (string, runtime_alert list) js_map" where
  "group_alerts [] m = m"
| "group_alerts (a # as) m =
     (let k = category_name (al_category a) in group_alerts as (AList.update k (or_else (map_of m k) [] @ [a]) m))"

definition find_banner :: "runtime_alert list \<Rightarrow> runtime_alert option" where
  "find_banner as = coalesce (List.find (\<lambda>a. al_severity a = P0) as) (List.find (\<lambda>a. al_severity a = P1) as)"

text \<open>The object behind a reference, in the table as it is now.\<close>

definition deref :: "alert_center \<Rightarrow> runtime_alert \<Rightarrow> runtime_alert" where
  "deref s a = or_else (map_of (ac_alerts s) (al_key a)) a"

definition get_snapshot :: "time \<Rightarrow> bool \<Rightarrow> alert_center \<Rightarrow> alert_snapshot \<times> alert_center" where
  "get_snapshot now group_by_category s =
     (let refs = active_alerts s;
          s1 = (if 0 < cv_until (ac_cooldown s) \<and> cv_until (ac_cooldown s) \<le> now then clear_sdk_cooldown now s else s)
      in (\<lparr>sn_active = map (deref s1) refs,
           sn_grouped = (if group_by_category then group_alerts (map (deref s1) refs) [] else []),
           sn_banner = map_option (deref s1) (find_banner refs),
           sn_overall = overall_from_alerts (map (deref s1) refs), sn_cooldown = ac_cooldown s1\<rparr>, s1))"

definition reset_center :: "alert_center \<Rightarrow> alert_center" where
  "reset_center s = empty_center"

section \<open>The table stays well formed\<close>

definition alert_ok :: "string \<Rightarrow> runtime_alert \<Rightarrow> bool" where
  "alert_ok k a \<longleftrightarrow>
     al_key a = k \<and> k = build_alert_key (al_severity a) (al_category a) (al_code a) (al_agent a) (al_task a)
     \<and> 1 \<le> al_count a"

definition center_ok :: "alert_center \<Rightarrow> bool" where
  "center_ok s \<longleftrightarrow>
     distinct (map fst (ac_alerts s)) \<and> length (ac_alerts s) \<le> max_alerts
     \<and> list_all (\<lambda>(k, a). alert_ok k a) (ac_alerts s)"

datatype alert_call =
  Call_set_cooldown time string | Call_clear_cooldown | Call_ingest alert_input | Call_event alert_event
| Call_resolve string | Call_resolve_all | Call_toast runtime_alert | Call_snapshot bool | Call_reset

fun alert_step :: "time \<times> alert_call \<Rightarrow> alert_center \<Rightarrow> alert_center" where
  "alert_step (now, Call_set_cooldown until reason) s = set_sdk_cooldown now until reason s"
| "alert_step (now, Call_clear_cooldown) s = clear_sdk_cooldown now s"
| "alert_step (now, Call_ingest i) s = snd (ingest now i s)"
| "alert_step (now, Call_event ev) s = snd (ingest_from_event now ev s)"
| "alert_step (now, Call_resolve key) s = snd (resolve_alert now key s)"
| "alert_step (now, Call_resolve_all) s = snd (resolve_all now s)"
| "alert_step (now, Call_toast a) s = snd (should_show_p0_toast now a s)"
| "alert_step (now, Call_snapshot g) s = snd (get_snapshot now g s)"
| "alert_step (now, Call_reset) s = reset_center s"

definition run_alerts :: "(time \<times> alert_call) list \<Rightarrow> alert_center" where
  "run_alerts cs = fold alert_step cs empty_center"

lemma fold_delete: "fold AList.delete ks m = filter (\<lambda>e. fst e \<notin> set ks) m"
proof (induction ks arbitrary: m)
  case (Cons k ks)
  have "fold AList.delete (k # ks) m = filter (\<lambda>e. fst e \<notin> set ks) (AList.delete k m)" by (simp add: Cons.IH)
  also have "\<dots> = filter (\<lambda>e. fst e \<notin> set (k # ks)) m"
    unfolding AList.delete_eq filter_filter by (rule filter_cong) auto
  finally show ?case .
qed simp

lemma set_trim: "set (trim_alerts m) \<subseteq> set m"
  by (auto simp: trim_alerts_def fold_delete)

lemma distinct_trim: "distinct (map fst m) \<Longrightarrow> distinct (map fst (trim_alerts m))"
  by (simp add: trim_alerts_def fold_delete distinct_keys_filter)

lemma length_trim:
  assumes "distinct (map fst m)"
  shows "length (trim_alerts m) \<le> max_alerts"
proof (cases "length m \<le> max_alerts")
  case True
  then show ?thesis by (simp add: trim_alerts_def)
next
  case False
  let ?ks = "take (length m - max_alerts) (map fst (sort_key (\<lambda>e. al_last_seen (snd e)) m))"
  have sub: "set ?ks \<subseteq> fst ` set m" using set_take_subset[of _ "map fst (sort_key _ m)"] by fastforce
  have dk: "distinct (map fst (sort_key (\<lambda>e. al_last_seen (snd e)) m))"
    using assms by (metis distinct_map distinct_sort set_sort)
  then have "card (set ?ks) = length m - max_alerts" by (simp add: distinct_card)
  moreover have "fst ` set (filter (\<lambda>e. fst e \<notin> set ?ks) m) = fst ` set m - set ?ks" by auto
  moreover have "length (filter (\<lambda>e. fst e \<notin> set ?ks) m) = card (fst ` set (filter (\<lambda>e. fst e \<notin> set ?ks) m))"
    using distinct_card[OF distinct_keys_filter[OF assms, of "\<lambda>e. fst e \<notin> set ?ks"]] by simp
  moreover have "card (fst ` set m) = length m" using distinct_card[OF assms] by simp
  ultimately have "length (filter (\<lambda>e. fst e \<notin> set ?ks) m) = length m - (length m - max_alerts)"
    using card_Diff_subset[OF finite_subset[OF sub] sub] by simp
  then show ?thesis using False by (simp add: trim_alerts_def fold_delete)
qed

lemma center_ok_update:
  "center_ok s \<Longrightarrow> map_of (ac_alerts s) k = Some a \<Longrightarrow> alert_ok k a' \<Longrightarrow>
     center_ok (s\<lparr>ac_alerts := AList.update k a' (ac_alerts s)\<rparr>)"
proof -
  assume ok: "center_ok s" and a: "map_of (ac_alerts s) k = Some a" "alert_ok k a'"
  have "k \<in> fst ` set (ac_alerts s)" using map_of_SomeD[OF a(1)] by force
  then have "length (AList.update k a' (ac_alerts s)) \<le> max_alerts" using ok by (simp add: center_ok_def length_update)
  moreover have "list_all (\<lambda>(k, a). alert_ok k a) (AList.update k a' (ac_alerts s))"
    using ok a(2) unfolding center_ok_def list_all_iff by (simp add: set_update)
  ultimately show ?thesis using ok by (simp add: center_ok_def)
qed

lemma center_ok_more:
  "center_ok (s\<lparr>ac_cooldown := c\<rparr>) = center_ok s" "center_ok (s\<lparr>ac_toasts := t\<rparr>) = center_ok s"
  "center_ok (s\<lparr>ac_storm_start := n\<rparr>) = center_ok s"
  "center_ok (s\<lparr>ac_storm_count := k\<rparr>) = center_ok s"
  by (simp_all add: center_ok_def)

lemma map_of_ok: "center_ok s \<Longrightarrow> map_of (ac_alerts s) k = Some a \<Longrightarrow> alert_ok k a"
  by (auto simp: center_ok_def list_all_iff dest!: map_of_SomeD)

lemma ingest_ok: "center_ok s \<Longrightarrow> center_ok (snd (ingest now i s))"
proof -
  assume ok: "center_ok s"
  let ?k = "build_alert_key (or_else (ai_severity i) P1) (or_else (ai_category i) Shell_tool) (ai_code i) (ai_agent i) (ai_task i)"
  let ?a = "fresh_alert now ?k (or_else (ai_severity i) P1) (or_else (ai_category i) Shell_tool) i"
  show ?thesis
  proof (cases "map_of (ac_alerts s) ?k")
    case None
    have d: "distinct (map fst (AList.update ?k ?a (ac_alerts s)))" using ok by (simp add: center_ok_def)
    have a: "alert_ok ?k ?a" by (simp add: alert_ok_def fresh_alert_def)
    have "list_all (\<lambda>(k, a). alert_ok k a) (AList.update ?k ?a (ac_alerts s))"
      using ok a by (auto simp: center_ok_def set_update list_all_iff)
    then have "list_all (\<lambda>(k, a). alert_ok k a) (trim_alerts (AList.update ?k ?a (ac_alerts s)))"
      using set_trim by (fastforce simp: list_all_iff)
    then show ?thesis
      using None distinct_trim[OF d] length_trim[OF d] by (simp add: ingest_def Let_def center_ok_def)
  next
    case (Some a)
    have "alert_ok ?k (merged_alert now i a)"
      using map_of_ok[OF ok Some] by (simp add: alert_ok_def merged_alert_def)
    then show ?thesis using center_ok_update[OF ok Some] Some by (simp add: ingest_def Let_def)
  qed
qed

lemma resolved_ok: "alert_ok k a \<Longrightarrow> alert_ok k (resolved_alert now a)"
  by (simp add: alert_ok_def resolved_alert_def)

lemma clear_sdk_cooldown_ok: "center_ok s \<Longrightarrow> center_ok (clear_sdk_cooldown now s)"
proof (cases "map_of (ac_alerts s) (build_alert_key P0 Sdk_network ''SDK_RATE_LIMIT'' None None)")
  case None
  assume "center_ok s"
  then show ?thesis by (simp add: clear_sdk_cooldown_def Let_def None center_ok_more)
next
  case (Some a)
  assume "center_ok s"
  then have "center_ok (s\<lparr>ac_cooldown := idle_cooldown,
      ac_alerts := AList.update (build_alert_key P0 Sdk_network ''SDK_RATE_LIMIT'' None None) (resolved_alert now a) (ac_alerts s)\<rparr>)"
    using center_ok_update[of "s\<lparr>ac_cooldown := idle_cooldown\<rparr>" _ a "resolved_alert now a"]
      resolved_ok[OF map_of_ok[OF _ Some]] Some by (simp add: center_ok_more)
  then show ?thesis by (simp add: clear_sdk_cooldown_def Let_def Some)
qed

lemma ingest_from_event_ok: "center_ok s \<Longrightarrow> center_ok (snd (ingest_from_event now ev s))"
proof -
  assume ok: "center_ok s"
  have h: "center_ok (snd (handle_wake_throttled now ev msg s))" for msg
    by (simp add: handle_wake_throttled_def ingest_ok center_ok_more ok)
  show ?thesis by (simp add: ingest_from_event_def Let_def h ingest_ok ok split: option.split)
qed

lemma alert_step_ok: "center_ok s \<Longrightarrow> center_ok (alert_step c s)"
proof (cases "(c, s)" rule: alert_step.cases)
  case (1 now until reason t)
  then show "center_ok s \<Longrightarrow> ?thesis" by (simp add: set_sdk_cooldown_def ingest_ok center_ok_more)
next
  case (5 now key t)
  then show "center_ok s \<Longrightarrow> ?thesis"
    using center_ok_update[of s key] map_of_ok[of s key] resolved_ok
    by (auto simp: resolve_alert_def split: option.splits)
next
  case (6 now t)
  then show "center_ok s \<Longrightarrow> ?thesis"
    using resolved_ok by (auto simp: resolve_all_def center_ok_def list_all_iff comp_def split_def)
next
  case (8 now g t)
  then show "center_ok s \<Longrightarrow> ?thesis" by (simp add: get_snapshot_def clear_sdk_cooldown_ok Let_def)
qed (auto simp: clear_sdk_cooldown_ok ingest_ok ingest_from_event_ok should_show_p0_toast_def center_ok_more
       reset_center_def, simp add: center_ok_def empty_center_def)

lemma empty_center_ok: "center_ok empty_center"
  by (simp add: center_ok_def empty_center_def)

lemma run_alerts_ok: "center_ok (run_alerts cs)"
proof -
  have "center_ok s \<Longrightarrow> center_ok (fold alert_step cs s)" for s
    by (induction cs arbitrary: s) (auto intro: alert_step_ok)
  then show ?thesis by (simp add: run_alerts_def empty_center_ok)
qed

text \<open>C40. After any calls of the alert center, at any times, it holds at most two hundred alerts, one for each key,
  and each is filed under the key made of its own severity, category, code, agent and task.\<close>

theorem alerts_well_formed: "center_ok (run_alerts cs)"
  by (rule run_alerts_ok)

section \<open>What a snapshot shows\<close>

lemma find_banner_sorted:
  "sorted_wrt (\<lambda>a b. al_severity a \<le> al_severity b) as \<Longrightarrow>
     find_banner as = (case as of [] \<Rightarrow> None | a # _ \<Rightarrow> if al_severity a \<le> P1 then Some a else None)"
proof (cases as)
  case (Cons a bs)
  assume "sorted_wrt (\<lambda>a b. al_severity a \<le> al_severity b) as"
  then have b: "\<And>b. b \<in> set bs \<Longrightarrow> severity_rank (al_severity a) \<le> severity_rank (al_severity b)"
    by (auto simp: Cons less_eq_severity_def)
  have none: "List.find (\<lambda>a. al_severity a = t) bs = None" if "severity_rank t < severity_rank (al_severity a)" for t
    using b that by (fastforce simp: find_None_iff)
  show ?thesis
    using none[of P0] none[of P1]
    by (cases "al_severity a") (simp_all add: Cons find_banner_def less_eq_severity_def)
qed (simp add: find_banner_def)

lemma active_alerts_sorted: "sorted_wrt (\<lambda>a b. al_severity a \<le> al_severity b) (active_alerts s)"
proof -
  have "sorted_wrt (\<lambda>a b. (severity_rank (al_severity a), - al_last_seen a) \<le> (severity_rank (al_severity b), - al_last_seen b))
      (active_alerts s)"
    using sorted_sort_key[of "\<lambda>a. (severity_rank (al_severity a), - al_last_seen a)"
        "filter (\<lambda>a. al_status a \<noteq> Alert_resolved) (map snd (ac_alerts s))"]
    by (simp add: active_alerts_def sorted_map)
  then show ?thesis by (rule sorted_wrt_mono_rel[rotated]) (auto simp: less_eq_severity_def less_eq_prod_def)
qed

lemma deref_same:
  assumes "center_ok s" "a \<in> set (active_alerts s)"
  shows "deref s a = a"
proof -
  obtain k where k: "(k, a) \<in> set (ac_alerts s)" using assms(2) by (auto simp: active_alerts_def)
  then have "al_key a = k" using assms(1) by (auto simp: center_ok_def list_all_iff alert_ok_def)
  moreover have "map_of (ac_alerts s) k = Some a"
    using k assms(1) by (simp add: center_ok_def)
  ultimately show ?thesis by (simp add: deref_def)
qed

lemma deref_cleared:
  assumes "center_ok s" "a \<in> set (active_alerts s)"
  shows "al_severity (deref (clear_sdk_cooldown now s) a) = al_severity a"
  using deref_same[OF assms]
  by (auto simp: deref_def clear_sdk_cooldown_def Let_def update_conv_if resolved_alert_def split: option.splits)

lemma banner_deref: "map_option f (find_banner as) = (case as of [] \<Rightarrow> None | a # _ \<Rightarrow> if al_severity a \<le> P1 then Some (f a) else None)"
  if "sorted_wrt (\<lambda>a b. al_severity a \<le> al_severity b) as"
  by (simp add: find_banner_sorted[OF that] split: list.split)

text \<open>In every state the alert center can reach, a snapshot shows the alerts that are not resolved, the most severe
  first; its banner is its first alert if that is of severity P0 or P1 and absent otherwise; and it calls the
  state critical exactly when one of the alerts it shows is a P0 that is not resolved.\<close>

theorem snapshot_shows_worst_first:
  "let s = run_alerts cs; sn = fst (get_snapshot now grouped s) in
     mset (map al_key (sn_active sn)) = mset (map al_key (filter (\<lambda>a. al_status a \<noteq> Alert_resolved) (map snd (ac_alerts s))))
     \<and> sorted (map al_severity (sn_active sn))
     \<and> sn_banner sn = (case sn_active sn of [] \<Rightarrow> None | a # _ \<Rightarrow> if al_severity a \<le> P1 then Some a else None)
     \<and> (sn_overall sn = Overall_critical \<longleftrightarrow> list_ex (\<lambda>a. al_severity a = P0 \<and> al_status a \<noteq> Alert_resolved) (sn_active sn))"
proof -
  define s where "s = run_alerts cs"
  define s1 where "s1 = (if 0 < cv_until (ac_cooldown s) \<and> cv_until (ac_cooldown s) \<le> now then clear_sdk_cooldown now s else s)"
  have ok: "center_ok s" by (simp add: s_def run_alerts_ok)
  have ok1: "center_ok s1" by (simp add: s1_def ok clear_sdk_cooldown_ok)
  have sev: "al_severity (deref s1 a) = al_severity a" if "a \<in> set (active_alerts s)" for a
    using deref_same[OF ok that] deref_cleared[OF ok that] by (simp add: s1_def)
  have key: "al_key (deref s1 a) = al_key a" for a
  proof (cases "map_of (ac_alerts s1) (al_key a)")
    case (Some b)
    have "al_key b = al_key a" using map_of_ok[OF ok1 Some] by (simp only: alert_ok_def)
    then show ?thesis by (simp add: deref_def Some)
  qed (simp add: deref_def)
  have act: "sn_active (fst (get_snapshot now grouped s)) = map (deref s1) (active_alerts s)"
    and ban: "sn_banner (fst (get_snapshot now grouped s)) = map_option (deref s1) (find_banner (active_alerts s))"
    and ov: "sn_overall (fst (get_snapshot now grouped s)) = overall_from_alerts (map (deref s1) (active_alerts s))"
    by (simp_all add: get_snapshot_def s1_def Let_def)
  have "mset (map al_key (map (deref s1) (active_alerts s))) =
      mset (map al_key (filter (\<lambda>a. al_status a \<noteq> Alert_resolved) (map snd (ac_alerts s))))"
    by (simp add: key comp_def active_alerts_def)
  moreover have "sorted (map al_severity (map (deref s1) (active_alerts s)))"
    using active_alerts_sorted[of s] sev by (simp add: sorted_map sorted_wrt_map cong: map_cong)
  moreover have "map_option (deref s1) (find_banner (active_alerts s)) =
      (case map (deref s1) (active_alerts s) of [] \<Rightarrow> None | a # _ \<Rightarrow> if al_severity a \<le> P1 then Some a else None)"
    using sev banner_deref[OF active_alerts_sorted[of s], of "deref s1"] by (cases "active_alerts s") auto
  ultimately show ?thesis
    unfolding s_def[symmetric] Let_def act ban ov by (simp add: overall_from_alerts_def)
qed

section \<open>Toasts\<close>

lemma toasts_only_by_toast:
  "snd c \<noteq> Call_reset \<Longrightarrow> \<forall>a. snd c \<noteq> Call_toast a \<Longrightarrow> ac_toasts (alert_step c s) = ac_toasts s"
proof -
  have i: "ac_toasts (snd (ingest now i t)) = ac_toasts t" for now i t
    by (simp add: ingest_def Let_def split: option.split)
  have c: "ac_toasts (clear_sdk_cooldown now t) = ac_toasts t" for now t
    by (simp add: clear_sdk_cooldown_def Let_def split: option.split)
  have h: "ac_toasts (snd (handle_wake_throttled now ev msg t)) = ac_toasts t" for now ev msg t
    by (simp add: handle_wake_throttled_def i)
  have e: "ac_toasts (snd (ingest_from_event now ev t)) = ac_toasts t" for now ev t
    by (simp add: ingest_from_event_def Let_def h i split: option.split)
  assume "snd c \<noteq> Call_reset" "\<forall>a. snd c \<noteq> Call_toast a"
  then show ?thesis
    by (cases "(c, s)" rule: alert_step.cases)
       (simp_all add: set_sdk_cooldown_def i c e resolve_alert_def resolve_all_def get_snapshot_def Let_def split: option.split)
qed

lemma quiet_step:
  assumes "map_of (ac_toasts s) k = Some t" "fst c < t + toast_ttl_ms" "snd c \<noteq> Call_reset"
  shows "map_of (ac_toasts (alert_step c s)) k = Some t"
proof (cases "\<exists>a. snd c = Call_toast a")
  case True
  then obtain a where "c = (fst c, Call_toast a)" by (metis prod.collapse)
  then show ?thesis
    using assms by (cases "al_key a = k") (auto simp: should_show_p0_toast_def alert_step.simps(7)[of "fst c" a s, folded \<open>c = _\<close>])
next
  case False
  then show ?thesis using toasts_only_by_toast[of c s] assms(1,3) by simp
qed

text \<open>After the panel was told to show the toast of an alert, it is not told so again for that alert within five
  minutes, whatever happens to the alert center in between, short of a reset.\<close>

theorem p0_toast_quiet_period:
  assumes "fst (should_show_p0_toast t a s)"
    and "list_all (\<lambda>c. fst c < t + toast_ttl_ms \<and> snd c \<noteq> Call_reset) cs" and "t' < t + toast_ttl_ms"
    and "al_key b = al_key a"
  shows "\<not> fst (should_show_p0_toast t' b (fold alert_step cs (snd (should_show_p0_toast t a s))))"
proof -
  have "map_of (ac_toasts (snd (should_show_p0_toast t a s))) (al_key a) = Some t"
    using assms(1) by (auto simp: should_show_p0_toast_def split: if_splits)
  moreover have "map_of (ac_toasts s1) k = Some t \<Longrightarrow> list_all (\<lambda>c. fst c < t + toast_ttl_ms \<and> snd c \<noteq> Call_reset) cs
      \<Longrightarrow> map_of (ac_toasts (fold alert_step cs s1)) k = Some t" for s1 k
    by (induction cs arbitrary: s1) (auto intro!: quiet_step)
  ultimately have "map_of (ac_toasts (fold alert_step cs (snd (should_show_p0_toast t a s)))) (al_key a) = Some t"
    using assms(2) by blast
  then show ?thesis using assms(3,4) by (simp add: should_show_p0_toast_def)
qed

definition sample_alert :: runtime_alert where
  "sample_alert = fst (ingest 1000000 ((blank_input ''DB'' (Msg ''x''))\<lparr>ai_severity := Some P0\<rparr>) empty_center)"

theorem p0_toast_quiet_period_witness:
  "\<not> fst (should_show_p0_toast 1200000 sample_alert
     (fold alert_step [(1100000, Call_toast sample_alert), (1150000, Call_resolve_all)]
       (snd (should_show_p0_toast 1000000 sample_alert empty_center))))"
proof -
  have 1: "fst (should_show_p0_toast 1000000 sample_alert empty_center)" by code_simp
  show ?thesis
    by (rule p0_toast_quiet_period[OF 1]) (simp_all add: toast_ttl_ms_def)
qed

section \<open>Deviations\<close>

text \<open>\<open>ingestFromEvent\<close> does not hand the payload of the event to the text classification, whose test for settled
  child tasks reads it: the alert that ADMIN's review is pending is never raised from an event.\<close>

definition not_pending_review :: "classified option \<Rightarrow> bool" where
  "not_pending_review r \<longleftrightarrow> (case r of None \<Rightarrow> True | Some c \<Rightarrow> cl_title c \<noteq> T_admin_pending_review)"

lemma not_pending_review_intros:
  "not_pending_review x \<Longrightarrow> not_pending_review y \<Longrightarrow> not_pending_review (if b then x else y)"
  "t \<noteq> T_admin_pending_review \<Longrightarrow> not_pending_review (classified_as code cat sev t st)"
  "not_pending_review x \<Longrightarrow> not_pending_review (map_option (\<lambda>c. c\<lparr>cl_action := act\<rparr>) x)"
  "not_pending_review None"
  by (auto simp: not_pending_review_def classified_as_def split: option.split)

lemma admin_pending_never_classified: "not_pending_review (classify_from_text text ft et None)"
  unfolding classify_from_text_def classify_google_code_def Let_def option.case if_False
  by (intro not_pending_review_intros) simp_all

text \<open>An expired cooldown is resolved after the active alerts were collected: the snapshot lists its alert among the
  active ones, and shows it as the banner, with the status resolved.\<close>

lemma snapshot_shows_resolved:
  "let sn = fst (get_snapshot 5000 False (set_sdk_cooldown 1000 2000 ''calm'' empty_center)) in
     map al_status (sn_active sn) = [Alert_resolved] \<and> map_option al_status (sn_banner sn) = Some Alert_resolved
     \<and> sn_overall sn = Overall_ok"
  by code_simp

end
