(* ===== verification/Event_Filters.thy ===== *)
theory Event_Filters
  imports Retry_Control "HOL-Library.Word"
begin

text \<open>
  The in-memory filters of the event streams: the deduplication of file events
  (\<^verbatim>\<open>_internal/EventDedupeRegistry.ts\<close>), of displayed rows (\<^verbatim>\<open>_internal/EventDisplayDedupe.ts\<close>) and of
  lifecycle transitions (\<^verbatim>\<open>_internal/LifecycleTransitionDedupe.ts\<close>), the throttle of checks
  (\<^verbatim>\<open>_internal/check-throttle.ts\<close>), the circuit breaker for sessions that fail without a tool call
  (\<^verbatim>\<open>_internal/ZeroToolcallCircuitBreaker.ts\<close>) and the mutex by key (\<^verbatim>\<open>_internal/KeyedMutex.ts\<close>). The clock
  is an argument; a number in a template string is given as its text.
\<close>

section \<open>Registries of keys with a time to live\<close>

type_synonym seen_map = "(string, time) js_map"

definition prune_seen :: "int \<Rightarrow> time \<Rightarrow> seen_map \<Rightarrow> seen_map" where
  "prune_seen ttl now seen = filter (\<lambda>(k, at). \<not> at < now - ttl) seen"

definition see_key :: "int \<Rightarrow> time \<Rightarrow> string \<Rightarrow> seen_map \<Rightarrow> bool \<times> seen_map" where
  "see_key ttl now key seen =
     (let s = prune_seen ttl now seen in
      if map_of s key \<noteq> None then (False, s) else (True, AList.update key now s))"

subsection \<open>File events (\<^verbatim>\<open>EventDedupeRegistry.ts\<close>)\<close>

record event_entry =
  ev_type :: string
  ev_path :: string
  ev_mtime :: string
  ev_size :: string

definition build_event_key :: "event_entry \<Rightarrow> string" where
  "build_event_key e = ev_type e @ ''|'' @ ev_path e @ ''|'' @ ev_mtime e @ ''|'' @ ev_size e"

definition should_process :: "int \<Rightarrow> time \<Rightarrow> event_entry \<Rightarrow> seen_map \<Rightarrow> bool \<times> seen_map" where
  "should_process ttl now e = see_key ttl now (build_event_key e)"

definition file_event :: "string \<Rightarrow> string \<Rightarrow> string \<Rightarrow> event_entry" where
  "file_event path mtime bytes = \<lparr>ev_type = ''fs'', ev_path = path, ev_mtime = mtime, ev_size = bytes\<rparr>"

definition should_process_file_event :: "int \<Rightarrow> time \<Rightarrow> string \<Rightarrow> string \<Rightarrow> string \<Rightarrow> seen_map \<Rightarrow> bool \<times> seen_map" where
  "should_process_file_event ttl now path mtime bytes = should_process ttl now (file_event path mtime bytes)"

definition forget_event :: "event_entry \<Rightarrow> seen_map \<Rightarrow> seen_map" where
  "forget_event e seen = AList.delete (build_event_key e) seen"

subsection \<open>Displayed rows (\<^verbatim>\<open>EventDisplayDedupe.ts\<close>)\<close>

definition js_nat_digit :: "nat \<Rightarrow> char" where
  "js_nat_digit n = char_of (48 + n)"

fun js_nat_text :: "nat \<Rightarrow> string" where
  "js_nat_text n = (if n < 10 then [js_nat_digit n] else js_nat_text (n div 10) @ [js_nat_digit (n mod 10)])"

declare js_nat_text.simps [simp del]

definition js_int_text :: "int \<Rightarrow> string" where
  "js_int_text i = (if i < 0 then ''-'' @ js_nat_text (nat (- i)) else js_nat_text (nat i))"

text \<open>\<open>h = (h * 31 + code) | 0\<close> on the first two hundred code units, read as \<open>h >>> 0\<close>.\<close>

definition hash_step :: "32 word \<Rightarrow> char \<Rightarrow> 32 word" where
  "hash_step h c = h * 31 + of_nat (of_char c)"

definition hash_message :: "string \<Rightarrow> string" where
  "hash_message msg = js_nat_text (unat (foldl hash_step 0 (take 200 msg)))"

record display_row =
  dr_ts :: time
  dr_event_id :: "string option"
  dr_call_id :: "string option"
  dr_session_id :: "string option"
  dr_phase :: "string option"
  dr_actor :: "string option"
  dr_event_type :: string
  dr_message :: "string option"

definition build_display_key :: "int \<Rightarrow> display_row \<Rightarrow> string" where
  "build_display_key bucket_ms r =
     (let event = js_trim (str_of (dr_event_id r)); call = js_trim (str_of (dr_call_id r));
          session = js_trim (str_of (dr_session_id r)); phase = js_trim (str_of (dr_phase r)) in
      if event \<noteq> [] then ''event:'' @ event
      else if call \<noteq> [] \<and> session \<noteq> [] \<and> phase \<noteq> [] then ''call:'' @ session @ ''|'' @ call @ ''|'' @ phase
      else js_int_text (dr_ts r div bucket_ms) @ ''|'' @ js_trim (str_of (dr_actor r)) @ ''|''
             @ js_trim (dr_event_type r) @ ''|'' @ hash_message (js_trim (str_of (dr_message r))))"

definition should_display :: "int \<Rightarrow> int \<Rightarrow> time \<Rightarrow> display_row \<Rightarrow> seen_map \<Rightarrow> bool \<times> seen_map" where
  "should_display ttl bucket_ms now r = see_key ttl now (build_display_key bucket_ms r)"

subsection \<open>Lifecycle transitions (\<^verbatim>\<open>LifecycleTransitionDedupe.ts\<close>)\<close>

definition build_transition_key :: "string \<Rightarrow> string \<Rightarrow> string option \<Rightarrow> string option \<Rightarrow> string" where
  "build_transition_key task event from to =
     js_trim task @ '':'' @ js_trim event @ '':'' @ str_of from @ '':'' @ str_of to"

definition should_emit :: "int \<Rightarrow> time \<Rightarrow> string \<Rightarrow> seen_map \<Rightarrow> bool \<times> seen_map" where
  "should_emit ttl now key seen =
     (if js_trim key = [] then (True, prune_seen ttl now seen) else see_key ttl now (js_trim key) seen)"

definition forget_transition :: "string \<Rightarrow> seen_map \<Rightarrow> seen_map" where
  "forget_transition key seen = AList.delete (js_trim key) seen"

section \<open>The throttle (\<^verbatim>\<open>check-throttle.ts\<close>)\<close>

definition should_run :: "int \<Rightarrow> time \<Rightarrow> string \<Rightarrow> seen_map \<Rightarrow> bool \<times> seen_map" where
  "should_run interval now key m =
     (case map_of m key of
        Some l \<Rightarrow> if now - l < interval then (False, m) else (True, AList.update key now m)
      | None \<Rightarrow> (True, AList.update key now m))"

definition ms_until_ready :: "int \<Rightarrow> time \<Rightarrow> string \<Rightarrow> seen_map \<Rightarrow> int" where
  "ms_until_ready interval now key m =
     (case map_of m key of
        None \<Rightarrow> 0 | Some l \<Rightarrow> if interval \<le> now - l then 0 else interval - (now - l))"

section \<open>A filter is a rate limiter\<close>

text \<open>
  The reference: an event passes unless one with its key has passed less than \<open>gap\<close> ago.
\<close>

definition may_pass :: "int \<Rightarrow> time \<Rightarrow> time option \<Rightarrow> bool" where
  "may_pass gap now prev \<longleftrightarrow> (case prev of None \<Rightarrow> True | Some t \<Rightarrow> t + gap \<le> now)"

fun rate_limit :: "int \<Rightarrow> ('e \<Rightarrow> 'k) \<Rightarrow> (time \<times> 'e) list \<Rightarrow> ('k \<Rightarrow> time option) \<Rightarrow> bool list" where
  "rate_limit gap key [] acc = []"
| "rate_limit gap key ((now, e) # evs) acc =
     (if may_pass gap now (acc (key e)) then True # rate_limit gap key evs (acc(key e \<mapsto> now))
      else False # rate_limit gap key evs acc)"

fun run_filter :: "(time \<Rightarrow> 'e \<Rightarrow> 's \<Rightarrow> bool \<times> 's) \<Rightarrow> (time \<times> 'e) list \<Rightarrow> 's \<Rightarrow> bool list" where
  "run_filter pass [] s = []"
| "run_filter pass ((now, e) # evs) s = fst (pass now e s) # run_filter pass evs (snd (pass now e s))"

text \<open>
  What a registry promises: what it still remembers of a key is the last time an event with it passed,
  it forgets only what may pass again, and it decides by what it remembers.
\<close>

locale event_filter =
  fixes pass :: "time \<Rightarrow> 'e \<Rightarrow> 's \<Rightarrow> bool \<times> 's"
    and seen_at :: "'s \<Rightarrow> 'k \<Rightarrow> time option"
    and key :: "'e \<Rightarrow> 'k"
    and gap :: int
    and ok :: "'s \<Rightarrow> bool"
  assumes decides: "ok s \<Longrightarrow> fst (pass now e s) \<longleftrightarrow> may_pass gap now (seen_at s (key e))"
    and records: "ok s \<Longrightarrow> fst (pass now e s) \<Longrightarrow> seen_at (snd (pass now e s)) (key e) = Some now"
    and remembers: "ok s \<Longrightarrow> \<not> (fst (pass now e s) \<and> key e = k)
      \<Longrightarrow> seen_at (snd (pass now e s)) k = seen_at s k
        \<or> seen_at (snd (pass now e s)) k = None \<and> may_pass gap now (seen_at s k)"
    and keeps_ok: "ok s \<Longrightarrow> ok (snd (pass now e s))"
begin

text \<open>The table remembers a key, or has forgotten one that may pass from \<open>now\<close> on.\<close>

definition agrees :: "time \<Rightarrow> 's \<Rightarrow> ('k \<Rightarrow> time option) \<Rightarrow> bool" where
  "agrees now s acc \<longleftrightarrow> (\<forall>k. seen_at s k = acc k \<or> seen_at s k = None \<and> may_pass gap now (acc k))"

lemma may_pass_later: "may_pass gap now prev \<Longrightarrow> now \<le> later \<Longrightarrow> may_pass gap later prev"
  by (auto simp: may_pass_def split: option.splits)

lemma agrees_later: "agrees now s acc \<Longrightarrow> now \<le> later \<Longrightarrow> agrees later s acc"
  using may_pass_later by (auto simp: agrees_def)

lemma agrees_decides: "ok s \<Longrightarrow> agrees now s acc \<Longrightarrow> fst (pass now e s) = may_pass gap now (acc (key e))"
  unfolding decides agrees_def by (metis may_pass_def option.simps(4))

lemma agrees_step:
  assumes "ok s" and "agrees now s acc"
  shows "agrees now (snd (pass now e s)) (if fst (pass now e s) then acc(key e \<mapsto> now) else acc)"
  unfolding agrees_def
proof
  fix k
  show "seen_at (snd (pass now e s)) k = (if fst (pass now e s) then acc(key e \<mapsto> now) else acc) k
    \<or> seen_at (snd (pass now e s)) k = None
      \<and> may_pass gap now ((if fst (pass now e s) then acc(key e \<mapsto> now) else acc) k)"
  proof (cases "fst (pass now e s) \<and> key e = k")
    case True
    then show ?thesis using records [OF assms(1), of now e] by auto
  next
    case False
    then have acc: "(if fst (pass now e s) then acc(key e \<mapsto> now) else acc) k = acc k" by auto
    show ?thesis unfolding acc using remembers [OF assms(1) False] assms(2) unfolding agrees_def by metis
  qed
qed

lemma run_is_rate_limit:
  "ok s \<Longrightarrow> agrees now s acc \<Longrightarrow> sorted (now # map fst evs) \<Longrightarrow> run_filter pass evs s = rate_limit gap key evs acc"
proof (induction evs arbitrary: now s acc)
  case (Cons te evs)
  obtain t e where te: "te = (t, e)" by (cases te)
  have at: "agrees t s acc" using agrees_later [OF Cons.prems(2), of t] Cons.prems(3) te by simp
  have "run_filter pass evs (snd (pass t e s))
      = rate_limit gap key evs (if fst (pass t e s) then acc(key e \<mapsto> t) else acc)"
    using keeps_ok [OF Cons.prems(1)] agrees_step [OF Cons.prems(1) at] Cons.prems(3) te
    by (intro Cons.IH [where now = t]) (simp_all split: if_splits)
  then show ?case using agrees_decides [OF Cons.prems(1) at, of e] te by simp
qed simp

lemma run_from_empty:
  assumes "ok s" and "\<And>k. seen_at s k = None" and "sorted (map fst evs)"
  shows "run_filter pass evs s = rate_limit gap key evs (\<lambda>k. None)"
proof (cases evs)
  case (Cons te rest)
  then have "sorted (fst te # map fst evs)" using assms(3) by auto
  then show ?thesis using assms(1,2) by (intro run_is_rate_limit [where now = "fst te"]) (simp_all add: agrees_def)
qed simp

end

lemma may_pass_simps [simp]: "may_pass gap now None" "may_pass gap now (Some t) \<longleftrightarrow> t + gap \<le> now"
  by (simp_all add: may_pass_def)

lemma map_of_prune:
  "distinct (map fst m) \<Longrightarrow> map_of (prune_seen ttl now m) k
     = (case map_of m k of Some t \<Rightarrow> if t < now - ttl then None else Some t | None \<Rightarrow> None)"
  by (induction m) (auto simp: prune_seen_def split: option.splits if_splits dest: map_of_SomeD
      intro!: map_of_eq_None_iff [THEN iffD2] simp: rev_image_eqI)

lemma prune_distinct: "distinct (map fst m) \<Longrightarrow> distinct (map fst (prune_seen ttl now m))"
  unfolding prune_seen_def by (rule distinct_keys_filter)

lemma see_key_filter:
  assumes "distinct (map fst m)"
  shows "fst (see_key ttl now x m) \<longleftrightarrow> may_pass (ttl + 1) now (map_of m x)"
    and "fst (see_key ttl now x m) \<Longrightarrow> map_of (snd (see_key ttl now x m)) x = Some now"
    and "\<not> (fst (see_key ttl now x m) \<and> x = k) \<Longrightarrow>
      map_of (snd (see_key ttl now x m)) k = map_of m k
      \<or> map_of (snd (see_key ttl now x m)) k = None \<and> may_pass (ttl + 1) now (map_of m k)"
    and "distinct (map fst (snd (see_key ttl now x m)))"
  using map_of_prune [OF assms, of ttl now] prune_distinct [OF assms, of ttl now]
  by (auto simp: see_key_def Let_def update_conv_if simp del: map_of_eq_Some_iff split: option.splits if_splits)

interpretation dedupe: event_filter "should_process ttl" map_of build_event_key "ttl + 1" "\<lambda>m. distinct (map fst m)" for ttl
  by unfold_locales (use see_key_filter in \<open>unfold should_process_def; blast\<close>)+

interpretation display: event_filter "should_display ttl bucket_ms" map_of "build_display_key bucket_ms" "ttl + 1"
  "\<lambda>m. distinct (map fst m)" for ttl bucket_ms
  by unfold_locales (use see_key_filter in \<open>unfold should_display_def; blast\<close>)+

interpretation throttle: event_filter "should_run interval" map_of "\<lambda>k. k" interval "\<lambda>m. True" for interval
  by unfold_locales (auto simp: should_run_def update_conv_if split: option.splits)

text \<open>
  The deduplication of file events, the deduplication of displayed rows and the throttle are all the
  reference rate limiter, on any sequence of events whose times do not go back: the first two let an event
  pass when more than the time to live has gone by since one with its key passed, the throttle when the
  interval has.
\<close>

theorem filters_are_rate_limits:
  assumes "sorted (map fst files)" and "sorted (map fst rows)" and "sorted (map fst checks)"
  shows "run_filter (should_process ttl) files [] = rate_limit (ttl + 1) build_event_key files (\<lambda>k. None)
    \<and> run_filter (should_display ttl bucket_ms) rows [] = rate_limit (ttl + 1) (build_display_key bucket_ms) rows (\<lambda>k. None)
    \<and> run_filter (should_run interval) checks [] = rate_limit interval (\<lambda>k. k) checks (\<lambda>k. None)"
  using dedupe.run_from_empty [OF _ _ assms(1)] display.run_from_empty [OF _ _ assms(2)]
    throttle.run_from_empty [OF _ _ assms(3)] by simp

definition sample_event :: event_entry where
  "sample_event = file_event ''inbox/TASK-1.md'' ''1700'' ''42''"

definition sample_row :: display_row where
  "sample_row = \<lparr>dr_ts = 1000, dr_event_id = None, dr_call_id = None, dr_session_id = None, dr_phase = None,
     dr_actor = Some ''PM'', dr_event_type = ''wake'', dr_message = Some ''hello''\<rparr>"

theorem filters_are_rate_limits_witness:
  "run_filter (should_process 30000) [(0, sample_event), (30000, sample_event), (30001, sample_event)] []
     = [True, False, True]
   \<and> run_filter (should_display 60000 1000) [(0, sample_row), (5, sample_row)] [] = [True, False]
   \<and> run_filter (should_run 45000) [(0, ''T''), (44999, ''T''), (45000, ''T'')] [] = [True, False, True]"
proof -
  have s: "sorted (map fst [(0 :: int, sample_event), (30000, sample_event), (30001, sample_event)])"
    "sorted (map fst [(0 :: int, sample_row), (5, sample_row)])"
    "sorted (map fst [(0 :: int, ''T''), (44999, ''T''), (45000, ''T'')])" by simp_all
  show ?thesis using filters_are_rate_limits [OF s, of 30000] filters_are_rate_limits [OF s, of 60000 1000]
      filters_are_rate_limits [OF s, of _ _ 45000] by simp
qed

text \<open>What the reference says: two events with one key both pass only if they are \<open>gap\<close> apart.\<close>

lemma rate_limit_since:
  "j < length evs \<Longrightarrow> rate_limit gap key evs acc ! j \<Longrightarrow> acc (key (snd (evs ! j))) = Some t
   \<Longrightarrow> sorted (map fst evs) \<Longrightarrow> 0 \<le> gap \<Longrightarrow> t + gap \<le> fst (evs ! j)"
proof (induction evs arbitrary: j acc t)
  case (Cons te evs)
  obtain u e where te: "te = (u, e)" by (cases te)
  show ?case
  proof (cases j)
    case 0
    then show ?thesis using Cons.prems te by (auto split: if_splits)
  next
    case (Suc i)
    let ?k = "key (snd (evs ! i))"
    have after: "u \<le> fst (evs ! i)" using Cons.prems Suc te by (auto simp: sorted_wrt_nth_less)
    show ?thesis
    proof (cases "may_pass gap u (acc (key e)) \<and> key e = ?k")
      case True
      have past: "t + gap \<le> u" using True Cons.prems(3) Suc te by auto
      have "u + gap \<le> fst (evs ! i)"
        using Cons.IH [of i "acc(key e \<mapsto> u)" u] Cons.prems te Suc True past
        by (auto simp: fun_upd_def split: if_splits)
      then show ?thesis using past Suc Cons.prems(5) by simp
    next
      case False
      then show ?thesis
        using Cons.IH [of i "if may_pass gap u (acc (key e)) then acc(key e \<mapsto> u) else acc" t] Cons.prems te Suc
        by (auto split: if_splits)
    qed
  qed
qed simp

lemma rate_limit_spaced:
  "i < j \<Longrightarrow> j < length evs \<Longrightarrow> rate_limit gap key evs acc ! i \<Longrightarrow> rate_limit gap key evs acc ! j
   \<Longrightarrow> key (snd (evs ! i)) = key (snd (evs ! j)) \<Longrightarrow> sorted (map fst evs) \<Longrightarrow> 0 \<le> gap
   \<Longrightarrow> fst (evs ! i) + gap \<le> fst (evs ! j)"
proof (induction evs arbitrary: i j acc)
  case (Cons te evs)
  obtain u e where te: "te = (u, e)" by (cases te)
  obtain j' where j: "j = Suc j'" using Cons.prems(1) by (cases j) auto
  show ?case
  proof (cases i)
    case 0
    then show ?thesis
      using rate_limit_since [of j' evs gap key "acc(key e \<mapsto> u)" u] Cons.prems te j by (auto split: if_splits)
  next
    case (Suc i')
    then show ?thesis
      using Cons.IH [of i' j' "if may_pass gap u (acc (key e)) then acc(key e \<mapsto> u) else acc"] Cons.prems te j
      by (auto split: if_splits)
  qed
qed simp

section \<open>The message hash\<close>

text \<open>The hash is the polynomial in 31 modulo two to the thirty-second.\<close>

lemma hash_fold: "unat (foldl hash_step h s) = foldl (\<lambda>h c. (h * 31 + of_char c) mod 2 ^ 32) (unat h) s"
proof (induction s arbitrary: h)
  case (Cons c s)
  have "unat (hash_step h c) = (unat h * 31 + of_char c) mod 2 ^ 32"
    by (simp add: hash_step_def unat_word_ariths mod_simps unat_of_nat)
  then show ?case using Cons.IH by simp
qed simp

lemma hash_bounded: "unat (foldl hash_step 0 s) < 2 ^ 32"
  using unsigned_less [of "foldl hash_step 0 s"] by simp

section \<open>The circuit breaker (\<^verbatim>\<open>ZeroToolcallCircuitBreaker.ts\<close>)\<close>

record breaker_config =
  bc_window :: int
  bc_threshold :: nat
  bc_cooldown :: int

definition default_breaker :: breaker_config where
  "default_breaker = \<lparr>bc_window = 60000, bc_threshold = 3, bc_cooldown = 5 * 60000\<rparr>"

text \<open>The hits, and the cooldown registry that the breaker opens.\<close>

definition record_failed_zero_toolcall ::
  "breaker_config \<Rightarrow> time \<Rightarrow> time list \<times> sdk_cooldown \<Rightarrow> bool \<times> time list \<times> sdk_cooldown" where
  "record_failed_zero_toolcall cfg now = (\<lambda>(hits, c).
     let h = dropWhile (\<lambda>t. bc_window cfg < now - t) (hits @ [now]) in
     if length h < bc_threshold cfg then (False, h, c)
     else (True, [], enter_cooldown now default_cooldown_ms ''SDK_CIRCUIT_OPEN'' (Some (bc_cooldown cfg)) c))"

text \<open>The reference keeps every failure since the last opening and counts those inside the window.\<close>

fun breaker_spec :: "breaker_config \<Rightarrow> time list \<Rightarrow> time list \<Rightarrow> bool list" where
  "breaker_spec cfg [] since = []"
| "breaker_spec cfg (now # ts) since =
     (if bc_threshold cfg \<le> length (filter (\<lambda>t. now - bc_window cfg \<le> t) (since @ [now]))
      then True # breaker_spec cfg ts [] else False # breaker_spec cfg ts (since @ [now]))"

fun run_breaker :: "breaker_config \<Rightarrow> time list \<Rightarrow> time list \<times> sdk_cooldown \<Rightarrow> bool list" where
  "run_breaker cfg [] s = []"
| "run_breaker cfg (now # ts) s =
     fst (record_failed_zero_toolcall cfg now s) # run_breaker cfg ts (snd (record_failed_zero_toolcall cfg now s))"

lemma drop_old_filter:
  "sorted ts \<Longrightarrow> dropWhile (\<lambda>t. w < now - t) ts = filter (\<lambda>t. now - w \<le> t) (ts :: int list)"
  by (induction ts) (auto simp: filter_empty_conv intro!: filter_True [symmetric])

lemma breaker_refines:
  assumes "sorted (since @ ts)" and "hits = filter (\<lambda>t. low \<le> t) since" and "\<forall>t \<in> set ts. low \<le> t - bc_window cfg"
  shows "run_breaker cfg ts (hits, c) = breaker_spec cfg ts since"
  using assms
proof (induction ts arbitrary: since hits low c)
  case (Cons now ts)
  have sorted: "sorted (since @ [now])" "sorted (hits @ [now])"
    using Cons.prems by (auto simp: sorted_append intro: sorted_wrt_filter)
  have h: "dropWhile (\<lambda>t. bc_window cfg < now - t) (hits @ [now])
      = filter (\<lambda>t. now - bc_window cfg \<le> t) (since @ [now])"
    unfolding drop_old_filter [OF sorted(2)] using Cons.prems(2,3) by (auto intro!: filter_cong)
  show ?case
  proof (cases "bc_threshold cfg \<le> length (filter (\<lambda>t. now - bc_window cfg \<le> t) (since @ [now]))")
    case True
    have "run_breaker cfg ts ([], c') = breaker_spec cfg ts []" for c'
      using Cons.prems by (intro Cons.IH [where low = low]) (auto simp: sorted_append)
    with True h show ?thesis by (simp add: record_failed_zero_toolcall_def Let_def)
  next
    case False
    have "run_breaker cfg ts (filter (\<lambda>t. now - bc_window cfg \<le> t) (since @ [now]), c)
        = breaker_spec cfg ts (since @ [now])"
      using Cons.prems by (intro Cons.IH [OF _ refl]) (auto simp: sorted_append)
    with False h show ?thesis by (simp add: record_failed_zero_toolcall_def Let_def)
  qed
qed simp

text \<open>
  The breaker opens exactly when the configured number of failures since it last opened lies within the
  window: dropping old hits from the front of its list loses none that count.
\<close>

theorem breaker_opens_iff:
  assumes "sorted ts"
  shows "run_breaker cfg ts ([], c) = breaker_spec cfg ts []"
  using assms by (intro breaker_refines [where low = "Min (insert 0 ((\<lambda>t. t - bc_window cfg) ` set ts))"]) simp_all

theorem breaker_opens_iff_witness:
  "run_breaker default_breaker [0, 10, 60005, 60009, 60010] ([], no_cooldown) = [False, False, False, True, False]"
proof -
  have s: "sorted [0 :: int, 10, 60005, 60009, 60010]" by simp
  show ?thesis unfolding breaker_opens_iff [OF s] by code_simp
qed

section \<open>The mutex by key (\<^verbatim>\<open>KeyedMutex.ts\<close>)\<close>

text \<open>
  The calls of \<open>run\<close> are numbered in the order they come. A call reads the promise at the tail of its key and
  puts its own there (both before it first waits), waits for the one it read, runs its function, and when
  that has returned or thrown releases its gate and takes its promise away if it is still the tail. The promise of a
  call is fulfilled when the call has released its gate: it does so after the promise it waits for.
\<close>

datatype run_phase = Run_waiting | Run_inside | Run_done

record mutex_run =
  mr_key :: string
  mr_prev :: "nat option"
  mr_phase :: run_phase

record keyed_mutex =
  km_tails :: "(string, nat) js_map"
  km_runs :: "mutex_run list"

definition empty_mutex :: keyed_mutex where
  "empty_mutex = \<lparr>km_tails = [], km_runs = []\<rparr>"

definition run_done :: "keyed_mutex \<Rightarrow> nat \<Rightarrow> bool" where
  "run_done s i \<longleftrightarrow> mr_phase (km_runs s ! i) = Run_done"

definition mutex_enter :: "string \<Rightarrow> keyed_mutex \<Rightarrow> keyed_mutex" where
  "mutex_enter key s =
     s\<lparr>km_tails := AList.update key (length (km_runs s)) (km_tails s),
       km_runs := km_runs s @ [\<lparr>mr_key = key, mr_prev = map_of (km_tails s) key, mr_phase = Run_waiting\<rparr>]\<rparr>"

definition set_phase :: "nat \<Rightarrow> run_phase \<Rightarrow> keyed_mutex \<Rightarrow> keyed_mutex" where
  "set_phase i ph s = s\<lparr>km_runs := (km_runs s)[i := (km_runs s ! i)\<lparr>mr_phase := ph\<rparr>]\<rparr>"

definition can_start :: "nat \<Rightarrow> keyed_mutex \<Rightarrow> bool" where
  "can_start i s \<longleftrightarrow> i < length (km_runs s) \<and> mr_phase (km_runs s ! i) = Run_waiting
     \<and> (case mr_prev (km_runs s ! i) of None \<Rightarrow> True | Some p \<Rightarrow> run_done s p)"

definition can_finish :: "nat \<Rightarrow> keyed_mutex \<Rightarrow> bool" where
  "can_finish i s \<longleftrightarrow> i < length (km_runs s) \<and> mr_phase (km_runs s ! i) = Run_inside"

definition mutex_finish :: "nat \<Rightarrow> keyed_mutex \<Rightarrow> keyed_mutex" where
  "mutex_finish i s =
     (let key = mr_key (km_runs s ! i); s' = set_phase i Run_done s in
      if map_of (km_tails s) key = Some i then s'\<lparr>km_tails := AList.delete key (km_tails s)\<rparr> else s')"

inductive mutex_reachable :: "keyed_mutex \<Rightarrow> bool" where
  init: "mutex_reachable empty_mutex"
| enter: "mutex_reachable s \<Longrightarrow> mutex_reachable (mutex_enter key s)"
| start: "mutex_reachable s \<Longrightarrow> can_start i s \<Longrightarrow> mutex_reachable (set_phase i Run_inside s)"
| finish: "mutex_reachable s \<Longrightarrow> can_finish i s \<Longrightarrow> mutex_reachable (mutex_finish i s)"

abbreviation key_at :: "keyed_mutex \<Rightarrow> nat \<Rightarrow> string" where
  "key_at s i \<equiv> mr_key (km_runs s ! i)"

definition mutex_inv :: "keyed_mutex \<Rightarrow> bool" where
  "mutex_inv s \<longleftrightarrow>
     (\<forall>j < length (km_runs s). \<forall>p. mr_prev (km_runs s ! j) = Some p \<longrightarrow> p < j \<and> key_at s p = key_at s j)
   \<and> (\<forall>j < length (km_runs s). \<forall>i < j. key_at s i = key_at s j \<and> \<not> run_done s i \<longrightarrow>
        mr_phase (km_runs s ! j) = Run_waiting \<and> (\<exists>p. mr_prev (km_runs s ! j) = Some p \<and> i \<le> p))
   \<and> (\<forall>i < length (km_runs s). \<not> run_done s i \<longrightarrow> (\<exists>p. map_of (km_tails s) (key_at s i) = Some p \<and> i \<le> p))
   \<and> (\<forall>key p. map_of (km_tails s) key = Some p \<longrightarrow> p < length (km_runs s) \<and> key_at s p = key \<and> \<not> run_done s p)"

lemma mutex_invD:
  assumes "mutex_inv s"
  shows "j < length (km_runs s) \<Longrightarrow> mr_prev (km_runs s ! j) = Some p \<Longrightarrow> p < j \<and> key_at s p = key_at s j"
    and "j < length (km_runs s) \<Longrightarrow> i < j \<Longrightarrow> key_at s i = key_at s j \<Longrightarrow> \<not> run_done s i \<Longrightarrow>
      mr_phase (km_runs s ! j) = Run_waiting \<and> (\<exists>p. mr_prev (km_runs s ! j) = Some p \<and> i \<le> p)"
    and "i < length (km_runs s) \<Longrightarrow> \<not> run_done s i \<Longrightarrow> \<exists>p. map_of (km_tails s) (key_at s i) = Some p \<and> i \<le> p"
    and "map_of (km_tails s) key = Some q \<Longrightarrow> q < length (km_runs s) \<and> key_at s q = key \<and> \<not> run_done s q"
  using assms unfolding mutex_inv_def by blast+

lemma mutex_inv_enter:
  assumes "mutex_inv s"
  shows "mutex_inv (mutex_enter key s)"
proof -
  let ?n = "length (km_runs s)" and ?s = "mutex_enter key s"
  have old: "km_runs ?s ! i = km_runs s ! i" "run_done ?s i = run_done s i" if "i < ?n" for i
    using that by (simp_all add: mutex_enter_def nth_append run_done_def)
  have new: "km_runs ?s ! ?n = \<lparr>mr_key = key, mr_prev = map_of (km_tails s) key, mr_phase = Run_waiting\<rparr>"
    "length (km_runs ?s) = Suc ?n" "km_tails ?s = AList.update key ?n (km_tails s)"
    by (simp_all add: mutex_enter_def)
  note I = mutex_invD [OF assms]
  show ?thesis unfolding mutex_inv_def new(2,3) less_Suc_eq
  proof (intro conjI allI impI; (elim conjE)?)
    fix j p assume "j < ?n \<or> j = ?n" "mr_prev (km_runs ?s ! j) = Some p"
    then show "p < j" "key_at ?s p = key_at ?s j" using I(1) I(4) old new(1) by fastforce+
  next
    fix j i assume j: "j < ?n \<or> j = ?n" and i: "i < j" "key_at ?s i = key_at ?s j" "\<not> run_done ?s i"
    then have "i < ?n" by auto
    with j i I(2,3) old new(1) show "mr_phase (km_runs ?s ! j) = Run_waiting"
      "\<exists>p. mr_prev (km_runs ?s ! j) = Some p \<and> i \<le> p" by (fastforce simp: run_done_def)+
  next
    fix i assume "i < ?n \<or> i = ?n" "\<not> run_done ?s i"
    then show "\<exists>p. map_of (AList.update key ?n (km_tails s)) (key_at ?s i) = Some p \<and> i \<le> p"
      using I(3) old new(1) by (auto simp: update_conv_if)
  next
    fix k p assume "map_of (AList.update key ?n (km_tails s)) k = Some p"
    then have "k = key \<and> p = ?n \<or> map_of (km_tails s) k = Some p" by (auto simp: update_conv_if split: if_splits)
    then show "p < ?n \<or> p = ?n" "key_at ?s p = k" "\<not> run_done ?s p"
      using I(4) old new(1) by (auto simp: run_done_def)
  qed
qed

text \<open>A call moves only its own phase.\<close>

lemma set_phase_simps:
  assumes "i < length (km_runs s)"
  shows "length (km_runs (set_phase i ph s)) = length (km_runs s)" "km_tails (set_phase i ph s) = km_tails s"
    "mr_key (km_runs (set_phase i ph s) ! j) = mr_key (km_runs s ! j)"
    "mr_prev (km_runs (set_phase i ph s) ! j) = mr_prev (km_runs s ! j)"
    "mr_phase (km_runs (set_phase i ph s) ! j) = (if j = i then ph else mr_phase (km_runs s ! j))"
    "run_done (set_phase i ph s) j \<longleftrightarrow> (if j = i then ph = Run_done else run_done s j)"
  using assms by (auto simp: set_phase_def run_done_def nth_list_update)

lemma start_alone:
  assumes "mutex_inv s" and "can_start j s" and "i < j" and "key_at s i = key_at s j"
  shows "run_done s i"
proof (rule ccontr)
  assume i: "\<not> run_done s i"
  note I = mutex_invD [OF assms(1)]
  have j: "j < length (km_runs s)" using assms(2) by (simp add: can_start_def)
  obtain p where p: "mr_prev (km_runs s ! j) = Some p" "i \<le> p" using I(2) [OF j assms(3,4) i] by blast
  then have d: "run_done s p" using assms(2) by (simp add: can_start_def)
  then have "i < p" "p < j" "key_at s p = key_at s j" using i p I(1) [OF j p(1)] by (auto simp: order_le_less)
  then have "mr_phase (km_runs s ! p) = Run_waiting" using I(2) [of p i] i j assms(4) by simp
  then show False using d by (simp add: run_done_def)
qed

lemma mutex_inv_start:
  assumes "mutex_inv s" and "can_start i s"
  shows "mutex_inv (set_phase i Run_inside s)"
proof -
  have i: "i < length (km_runs s)" "mr_phase (km_runs s ! i) = Run_waiting" using assms(2) by (simp_all add: can_start_def)
  note I = mutex_invD [OF assms(1)] and S = set_phase_simps [OF i(1), of Run_inside]
  have same: "run_done (set_phase i Run_inside s) j = run_done s j" for j using i(2) S(6) by (simp add: run_done_def)
  show ?thesis
    unfolding mutex_inv_def S(1,2,3,4,5) same
    using I(1,3,4) I(2) start_alone [OF assms] by (auto 0 4)
qed

lemma mutex_inv_finish:
  assumes "mutex_inv s" and "can_finish i s"
  shows "mutex_inv (mutex_finish i s)"
proof -
  have i: "i < length (km_runs s)" "mr_phase (km_runs s ! i) = Run_inside" using assms(2) by (simp_all add: can_finish_def)
  note I = mutex_invD [OF assms(1)] and S = set_phase_simps [OF i(1), of Run_done]
  let ?s = "mutex_finish i s"
  have runs: "km_runs ?s = km_runs (set_phase i Run_done s)" "run_done ?s = run_done (set_phase i Run_done s)"
    by (simp_all add: mutex_finish_def Let_def run_done_def fun_eq_iff)
  have tails: "map_of (km_tails ?s) k
      = (if k = key_at s i \<and> map_of (km_tails s) k = Some i then None else map_of (km_tails s) k)" for k
    using S(2) by (auto simp: mutex_finish_def Let_def delete_conv_if)
  have nobody: "key_at s j \<noteq> key_at s i" if "map_of (km_tails s) (key_at s i) = Some i" "j < length (km_runs s)"
    "\<not> run_done s j" "j \<noteq> i" for j
    using I(2) [of i j] I(3) [of j] that i by (cases "j < i") (auto simp: not_less)
  have mono: "run_done s j \<Longrightarrow> run_done (set_phase i Run_done s) j" for j by (simp add: S(6))
  show ?thesis unfolding mutex_inv_def runs S(1,3,4)
  proof (intro conjI allI impI; (elim conjE)?)
    fix j p assume "j < length (km_runs s)" "mr_prev (km_runs s ! j) = Some p"
    then show "p < j" "key_at s p = key_at s j" using I(1) by blast+
  next
    fix j k assume j: "j < length (km_runs s)" "k < j" "key_at s k = key_at s j" "\<not> run_done (set_phase i Run_done s) k"
    then have w: "mr_phase (km_runs s ! j) = Run_waiting" "\<exists>p. mr_prev (km_runs s ! j) = Some p \<and> k \<le> p"
      using I(2) mono by blast+
    then show "mr_phase (km_runs (set_phase i Run_done s) ! j) = Run_waiting" using i(2) by (auto simp: S(5))
    show "\<exists>p. mr_prev (km_runs s ! j) = Some p \<and> k \<le> p" by (rule w(2))
  next
    fix j assume j: "j < length (km_runs s)" "\<not> run_done (set_phase i Run_done s) j"
    then have "\<not> run_done s j" "j \<noteq> i" by (auto simp: S(6) split: if_splits)
    then show "\<exists>p. map_of (km_tails ?s) (key_at s j) = Some p \<and> j \<le> p"
      using I(3) [OF j(1)] nobody [OF _ j(1)] by (auto simp: tails)
  next
    fix k p assume "map_of (km_tails ?s) k = Some p"
    then have "map_of (km_tails s) k = Some p" "k \<noteq> key_at s i \<or> p \<noteq> i" by (auto simp: tails split: if_splits)
    then show "p < length (km_runs s)" "key_at s p = k" "\<not> run_done (set_phase i Run_done s) p"
      using I(4) by (auto simp: S(6))
  qed
qed

lemma mutex_reachable_inv: "mutex_reachable s \<Longrightarrow> mutex_inv s"
proof (induction rule: mutex_reachable.induct)
  case init
  then show ?case by (simp add: mutex_inv_def empty_mutex_def)
qed (simp_all add: mutex_inv_enter mutex_inv_start mutex_inv_finish)

text \<open>
  C34. In any interleaving of calls no two run their functions for the same key at the same time, and the calls for a
  key enter in the order in which they came.
\<close>

theorem mutex_exclusive:
  assumes "mutex_reachable s" and "i < j" and "j < length (km_runs s)"
    and "key_at s i = key_at s j" and "mr_phase (km_runs s ! j) \<noteq> Run_waiting"
  shows "mr_phase (km_runs s ! i) = Run_done"
  using mutex_invD(2) [OF mutex_reachable_inv [OF assms(1)] assms(3,2,4)] assms(5) by (auto simp: run_done_def)

text \<open>
  C35. The mutex never blocks for ever: whenever a call for a key has not come to its end, some call for that key
  can take its next step; and when all have ended the table keeps nothing of the key.
\<close>

theorem mutex_progress:
  assumes "mutex_reachable s"
  shows "((\<exists>i < length (km_runs s). key_at s i = key \<and> \<not> run_done s i)
      \<longleftrightarrow> (\<exists>i. (can_start i s \<or> can_finish i s) \<and> key_at s i = key))
    \<and> (map_of (km_tails s) key = None \<longleftrightarrow> (\<forall>i < length (km_runs s). key_at s i = key \<longrightarrow> run_done s i))"
proof -
  note I = mutex_invD [OF mutex_reachable_inv [OF assms]]
  have step: "\<exists>i. (can_start i s \<or> can_finish i s) \<and> key_at s i = key"
    if open_run: "i < length (km_runs s)" "key_at s i = key" "\<not> run_done s i" for i
  proof -
    define m where "m = (LEAST i. i < length (km_runs s) \<and> key_at s i = key \<and> \<not> run_done s i)"
    have m: "m < length (km_runs s)" "key_at s m = key" "\<not> run_done s m"
      using LeastI [of "\<lambda>i. i < length (km_runs s) \<and> key_at s i = key \<and> \<not> run_done s i", OF conjI] open_run
      unfolding m_def by blast+
    have least: "run_done s i" if "i < m" "key_at s i = key" for i
      using not_less_Least [of i "\<lambda>i. i < length (km_runs s) \<and> key_at s i = key \<and> \<not> run_done s i"] that m(1)
      unfolding m_def by auto
    have "can_start m s \<or> can_finish m s"
      using m I(1) [OF m(1)] least by (cases "mr_phase (km_runs s ! m)")
        (auto simp: can_start_def can_finish_def run_done_def split: option.splits)
    then show ?thesis using m(2) by blast
  qed
  have alive: "\<not> run_done s i" "i < length (km_runs s)" if "can_start i s \<or> can_finish i s" for i
    using that by (auto simp: can_start_def can_finish_def run_done_def)
  show ?thesis
  proof (rule conjI; rule iffI)
    assume "\<exists>i < length (km_runs s). key_at s i = key \<and> \<not> run_done s i"
    then show "\<exists>i. (can_start i s \<or> can_finish i s) \<and> key_at s i = key" using step by blast
  next
    assume "\<exists>i. (can_start i s \<or> can_finish i s) \<and> key_at s i = key"
    then show "\<exists>i < length (km_runs s). key_at s i = key \<and> \<not> run_done s i" using alive by blast
  next
    assume "map_of (km_tails s) key = None"
    then show "\<forall>i < length (km_runs s). key_at s i = key \<longrightarrow> run_done s i" using I(3) by fastforce
  next
    assume "\<forall>i < length (km_runs s). key_at s i = key \<longrightarrow> run_done s i"
    then show "map_of (km_tails s) key = None" using I(4) [of key] by (cases "map_of (km_tails s) key") auto
  qed
qed

text \<open>Two calls for one key and one for another: the second waits for the first.\<close>

definition sample_mutex :: keyed_mutex where
  "sample_mutex = set_phase 2 Run_inside (set_phase 1 Run_inside (mutex_finish 0 (set_phase 0 Run_inside
     (mutex_enter ''B'' (mutex_enter ''A'' (mutex_enter ''A'' empty_mutex))))))"

lemma sample_mutex_reachable: "mutex_reachable sample_mutex"
proof -
  let ?s = "mutex_enter ''B'' (mutex_enter ''A'' (mutex_enter ''A'' empty_mutex))"
  have 1: "mutex_reachable (set_phase 0 Run_inside ?s)" by (intro mutex_reachable.intros) code_simp
  have 2: "mutex_reachable (mutex_finish 0 (set_phase 0 Run_inside ?s))"
    by (intro mutex_reachable.finish 1) code_simp
  have 3: "mutex_reachable (set_phase 1 Run_inside (mutex_finish 0 (set_phase 0 Run_inside ?s)))"
    by (intro mutex_reachable.start 2) code_simp
  show ?thesis unfolding sample_mutex_def by (intro mutex_reachable.start 3) code_simp
qed

theorem mutex_exclusive_witness: "mr_phase (km_runs sample_mutex ! 0) = Run_done"
proof (rule mutex_exclusive)
  show "mutex_reachable sample_mutex" by (rule sample_mutex_reachable)
  show "(0 :: nat) < 1" by simp
  show "1 < length (km_runs sample_mutex)" by code_simp
  show "key_at sample_mutex 0 = key_at sample_mutex 1" by code_simp
  show "mr_phase (km_runs sample_mutex ! 1) \<noteq> Run_waiting" by code_simp
qed

theorem mutex_progress_witness: "\<exists>i. (can_start i sample_mutex \<or> can_finish i sample_mutex) \<and> key_at sample_mutex i = ''A''"
proof -
  have "1 < length (km_runs sample_mutex) \<and> key_at sample_mutex 1 = ''A'' \<and> \<not> run_done sample_mutex 1" by code_simp
  then show ?thesis using mutex_progress [OF sample_mutex_reachable, of "''A''"] by blast
qed

end
