(* ===== verification/Pm_Guards.thy ===== *)
theory Pm_Guards
  imports Dispatch_Gate Agent_Queue Retry_Control
begin

text \<open>
  The gates before an agent is woken (\<^verbatim>\<open>_internal/AgentWakeGuard.ts\<close>) and the busy state of the PM's queue
  (\<^verbatim>\<open>scheduler/PmQueueGuard.ts\<close>): who holds it, when it waits for a worker, when it is taken for stale. The
  clock, the registry, the sessions and the cooldown are arguments; log lines and the interval timer, which calls
  the stale check, are left out.
\<close>

section \<open>Waking an agent (\<^verbatim>\<open>AgentWakeGuard.ts\<close>)\<close>

datatype wake_skip =
  Wake_agent_running | Wake_agent_blocked | Wake_agent_review | Wake_agent_stopped | Wake_status_not_idle
| Wake_sdk_cooldown "int option" | Wake_active_session | Wake_task_not_dispatched | Wake_task_paused

text \<open>A session record has the agent among its protocol fields, and may have it as a projection of its own.\<close>

record wake_session =
  ws_protocol_agent :: string
  ws_agent :: "string option"

definition status_skip :: "string \<Rightarrow> wake_skip" where
  "status_skip status =
     (let s = js_lower status in
      if s = ''running'' then Wake_agent_running
      else if s = ''blocked'' then Wake_agent_blocked
      else if s = ''review'' then Wake_agent_review
      else if s = ''stopped'' then Wake_agent_stopped
      else Wake_status_not_idle)"

definition evaluate_agent_wake_gate ::
  "time \<Rightarrow> time \<Rightarrow> sdk_cooldown \<Rightarrow> bool option \<Rightarrow> (string \<Rightarrow> string option) \<Rightarrow> wake_session list \<Rightarrow> string \<Rightarrow> wake_skip option" where
  "evaluate_agent_wake_gate own_now now cooldown forced status_of sessions agent_id =
     (let agent = js_trim agent_id in
      if agent = [] then Some Wake_status_not_idle
      else if or_else forced (cooldown_active own_now cooldown) then
        (let left = remaining_ms own_now now cooldown in Some (Wake_sdk_cooldown (if 0 < left then Some left else None)))
      else case status_of agent of
             None \<Rightarrow> Some Wake_status_not_idle
           | Some st \<Rightarrow>
               if js_lower st \<notin> {''idle'', ''error''} then Some (status_skip (js_lower st))
               else if list_ex (\<lambda>s. ws_agent s = Some agent) sessions then Some Wake_active_session
               else None)"

definition evaluate_task_dispatch_wake_gate :: "agent_task_queue \<Rightarrow> gate_task list \<Rightarrow> string \<Rightarrow> wake_skip option" where
  "evaluate_task_dispatch_wake_gate file tasks raw =
     (let task = strip_md (js_trim raw) in
      if task = [] then None
      else if is_task_paused_in_state file task then Some Wake_task_paused
      else case List.find (\<lambda>t. gt_task_id t = task \<or> js_starts (gt_task_id t) task \<or> strip_md (gt_filename t) = task) tasks of
             None \<Rightarrow> None
           | Some t \<Rightarrow> if is_task_runnable_for_wake t = Wake_not_dispatched then Some Wake_task_not_dispatched else None)"

section \<open>The PM's queue (\<^verbatim>\<open>PmQueueGuard.ts\<close>)\<close>

datatype pm_phase = Phase_idle | Phase_executing | Phase_waiting_downstream | Phase_stale_released

datatype pm_release_reason =
  Rel_completed | Rel_failed | Rel_guard_return | Rel_diagnostics_warning | Rel_file_without_ledger | Rel_session_ended
| Rel_session_cancelled | Rel_downstream_dispatched | Rel_stale_timeout | Rel_start_failed

record pm_guard =
  pg_processing :: bool
  pg_in_flight :: bool
  pg_waiting :: bool
  pg_stale :: bool
  pg_busy_since :: "time option"
  pg_last_event :: "time option"
  pg_role :: "string option"
  pg_stale_at :: "time option"
  pg_nudged_at :: "time option"
  pg_next_nudge :: "time option"
  pg_nudge_task :: "string option"
  pg_wake_session :: "string option"
  pg_nudge_counts :: "(string, nat) js_map"
  pg_failed :: "string list"

definition new_pm_guard :: pm_guard where
  "new_pm_guard =
     \<lparr>pg_processing = False, pg_in_flight = False, pg_waiting = False, pg_stale = False, pg_busy_since = None,
      pg_last_event = None, pg_role = None, pg_stale_at = None, pg_nudged_at = None, pg_next_nudge = None,
      pg_nudge_task = None, pg_wake_session = None, pg_nudge_counts = [], pg_failed = []\<rparr>"

definition is_worker_role :: "string \<Rightarrow> bool" where
  "is_worker_role r \<longleftrightarrow> r \<in> {''DEV'', ''OPS'', ''QA''}"

definition touch_pm_event :: "time \<Rightarrow> pm_guard \<Rightarrow> pm_guard" where
  "touch_pm_event now g = g\<lparr>pg_last_event := Some now, pg_stale := False, pg_stale_at := None\<rparr>"

definition pm_acquire :: "time \<Rightarrow> pm_guard \<Rightarrow> pm_guard" where
  "pm_acquire now g =
     (touch_pm_event now g)\<lparr>pg_processing := True, pg_in_flight := True, pg_waiting := False, pg_role := None,
        pg_busy_since := Some (or_else (pg_busy_since g) now)\<rparr>"

definition pm_release :: "time \<Rightarrow> pm_release_reason \<Rightarrow> pm_guard \<Rightarrow> pm_guard" where
  "pm_release now reason g =
     (let h = g\<lparr>pg_processing := False, pg_in_flight := False, pg_busy_since := None\<rparr> in
      if reason = Rel_stale_timeout then h\<lparr>pg_stale := True, pg_stale_at := Some now\<rparr> else h)"

definition mark_waiting_downstream :: "time \<Rightarrow> string \<Rightarrow> pm_guard \<Rightarrow> pm_guard" where
  "mark_waiting_downstream now role g =
     (let r = js_upper (js_trim role) in
      (touch_pm_event now g)\<lparr>pg_waiting := is_worker_role r, pg_role := (if is_worker_role r then Some r else None),
         pg_processing := False, pg_in_flight := False, pg_busy_since := None\<rparr>)"

definition clear_waiting_downstream :: "pm_guard \<Rightarrow> pm_guard" where
  "clear_waiting_downstream g = g\<lparr>pg_waiting := False, pg_role := None\<rparr>"

definition record_auto_nudge :: "time \<Rightarrow> string \<Rightarrow> string \<Rightarrow> time \<Rightarrow> time \<Rightarrow> string option \<Rightarrow> pm_guard \<Rightarrow> pm_guard" where
  "record_auto_nudge now task role nudged next session g =
     (let r = js_upper (js_trim role);
          h = g\<lparr>pg_nudged_at := Some nudged, pg_next_nudge := Some next, pg_nudge_task := Some task, pg_wake_session := session\<rparr> in
      if \<not> pg_waiting h \<and> is_worker_role r then mark_waiting_downstream now r h
      else if pg_waiting h \<and> \<not> truthy (pg_role h) then h\<lparr>pg_role := Some r\<rparr>
      else h)"

definition clear_auto_nudge :: "pm_guard \<Rightarrow> pm_guard" where
  "clear_auto_nudge g = g\<lparr>pg_nudged_at := None, pg_next_nudge := None, pg_nudge_task := None, pg_wake_session := None\<rparr>"

definition nudge_task_id :: "string \<Rightarrow> string" where
  "nudge_task_id task = js_trim (strip_md task)"

definition nudge_count :: "string \<Rightarrow> pm_guard \<Rightarrow> nat" where
  "nudge_count task g = or_else (map_of (pg_nudge_counts g) (nudge_task_id task)) 0"

definition bump_nudge_count :: "string \<Rightarrow> pm_guard \<Rightarrow> nat \<times> pm_guard" where
  "bump_nudge_count task g =
     (let n = nudge_count task g + 1 in
      (n, g\<lparr>pg_nudge_counts := AList.update (nudge_task_id task) n (pg_nudge_counts g)\<rparr>))"

definition clear_nudge_count :: "string \<Rightarrow> pm_guard \<Rightarrow> pm_guard" where
  "clear_nudge_count task g = g\<lparr>pg_nudge_counts := AList.delete (nudge_task_id task) (pg_nudge_counts g)\<rparr>"

definition mark_worker_failed :: "string \<Rightarrow> pm_guard \<Rightarrow> pm_guard" where
  "mark_worker_failed task g =
     (let t = nudge_task_id task in
      if t = [] then g
      else clear_auto_nudge (clear_waiting_downstream
             (g\<lparr>pg_failed := (if t \<in> set (pg_failed g) then pg_failed g else pg_failed g @ [t])\<rparr>)))"

definition is_worker_failed :: "string \<Rightarrow> pm_guard \<Rightarrow> bool" where
  "is_worker_failed task g \<longleftrightarrow> nudge_task_id task \<in> set (pg_failed g)"

definition clear_worker_failed :: "string option \<Rightarrow> pm_guard \<Rightarrow> pm_guard" where
  "clear_worker_failed task g =
     (if \<not> truthy task then g\<lparr>pg_failed := []\<rparr>
      else g\<lparr>pg_failed := filter (\<lambda>t. t \<noteq> nudge_task_id (str_of task)) (pg_failed g)\<rparr>)"

definition run_guarded ::
  "time \<Rightarrow> (pm_guard \<Rightarrow> ('e + 'a) \<times> pm_guard) \<Rightarrow> pm_release_reason \<Rightarrow> pm_guard \<Rightarrow> ('e + 'a) \<times> pm_guard" where
  "run_guarded now f reason g =
     (case f (pm_acquire now g) of (r, h) \<Rightarrow>
        let h' = (case r of Inl e \<Rightarrow> pm_release now Rel_failed h | Inr x \<Rightarrow> h) in
        (r, if pg_processing h' \<or> pg_in_flight h' then pm_release now reason h' else h'))"

definition is_pm_agent :: "string \<Rightarrow> bool" where
  "is_pm_agent agent \<longleftrightarrow> js_starts (js_upper agent) ''PM''"

definition on_pm_session_started :: "time \<Rightarrow> string \<Rightarrow> pm_guard \<Rightarrow> pm_guard" where
  "on_pm_session_started now agent g = (if \<not> is_pm_agent agent then g else pm_acquire now g)"

definition on_pm_session_ended :: "time \<Rightarrow> string \<Rightarrow> pm_release_reason \<Rightarrow> pm_guard \<Rightarrow> pm_guard" where
  "on_pm_session_ended now agent reason g =
     (if \<not> is_pm_agent agent then g
      else let h = pm_release now reason g in if \<not> pg_waiting h then clear_waiting_downstream h else h)"

definition on_pm_dispatch_to_worker :: "time \<Rightarrow> string option \<Rightarrow> string option \<Rightarrow> pm_guard \<Rightarrow> pm_guard" where
  "on_pm_dispatch_to_worker now sender recipient g =
     (let s = js_upper (js_trim (str_of sender)); r = js_upper (js_trim (str_of recipient)) in
      if s \<noteq> ''PM'' \<or> \<not> is_worker_role r then g else mark_waiting_downstream now r g)"

definition check_and_release_stale :: "time \<Rightarrow> int \<Rightarrow> pm_guard \<Rightarrow> bool \<times> pm_guard" where
  "check_and_release_stale now stale_ms g =
     (if \<not> pg_processing g \<and> \<not> pg_in_flight g then (False, g)
      else case coalesce (pg_last_event g) (pg_busy_since g) of
             None \<Rightarrow> (False, g)
           | Some anchor \<Rightarrow> if now - anchor < stale_ms then (False, g) else (True, pm_release now Rel_stale_timeout g))"

definition pm_executing :: "pm_guard \<Rightarrow> bool" where
  "pm_executing g \<longleftrightarrow> pg_processing g \<or> pg_in_flight g"

definition pm_busy :: "pm_guard \<Rightarrow> bool" where
  "pm_busy g \<longleftrightarrow> pm_executing g \<and> \<not> pg_waiting g"

definition pm_phase_of :: "pm_guard \<Rightarrow> pm_phase" where
  "pm_phase_of g =
     (if pg_stale g \<and> \<not> pm_executing g then Phase_stale_released
      else if pg_waiting g then Phase_waiting_downstream
      else if pm_executing g then Phase_executing
      else Phase_idle)"

text \<open>\<open>envStaleMs\<close>: the environment's value counts only between one and two minutes.\<close>

definition env_stale_ms :: "int option \<Rightarrow> int \<Rightarrow> int" where
  "env_stale_ms raw fallback =
     (case raw of None \<Rightarrow> fallback | Some n \<Rightarrow> if 60000 \<le> n \<and> n \<le> 120000 then n else fallback)"

section \<open>The guard in any sequence of calls\<close>

datatype pm_op =
  Op_acquire | Op_release pm_release_reason | Op_mark_waiting string | Op_clear_waiting
| Op_nudge string string time time "string option" | Op_clear_nudge | Op_bump string | Op_clear_count string
| Op_worker_failed string | Op_clear_failed "string option" | Op_session_started string
| Op_session_ended string pm_release_reason | Op_dispatch "string option" "string option" | Op_check_stale int

fun pm_step :: "time \<times> pm_op \<Rightarrow> pm_guard \<Rightarrow> pm_guard" where
  "pm_step (now, Op_acquire) g = pm_acquire now g"
| "pm_step (now, Op_release r) g = pm_release now r g"
| "pm_step (now, Op_mark_waiting role) g = mark_waiting_downstream now role g"
| "pm_step (now, Op_clear_waiting) g = clear_waiting_downstream g"
| "pm_step (now, Op_nudge t r a b s) g = record_auto_nudge now t r a b s g"
| "pm_step (now, Op_clear_nudge) g = clear_auto_nudge g"
| "pm_step (now, Op_bump t) g = snd (bump_nudge_count t g)"
| "pm_step (now, Op_clear_count t) g = clear_nudge_count t g"
| "pm_step (now, Op_worker_failed t) g = mark_worker_failed t g"
| "pm_step (now, Op_clear_failed t) g = clear_worker_failed t g"
| "pm_step (now, Op_session_started a) g = on_pm_session_started now a g"
| "pm_step (now, Op_session_ended a r) g = on_pm_session_ended now a r g"
| "pm_step (now, Op_dispatch s r) g = on_pm_dispatch_to_worker now s r g"
| "pm_step (now, Op_check_stale ms) g = snd (check_and_release_stale now ms g)"

definition run_pm_guard :: "(time \<times> pm_op) list \<Rightarrow> pm_guard" where
  "run_pm_guard ops = fold pm_step ops new_pm_guard"

text \<open>
  The two busy flags agree and have a start; a busy PM neither waits for a worker nor is taken for stale; a
  waiting PM waits for a worker; a stale release has its time.
\<close>

definition pm_ok :: "pm_guard \<Rightarrow> bool" where
  "pm_ok g \<longleftrightarrow>
     (pg_in_flight g \<longleftrightarrow> pg_processing g) \<and> (pg_busy_since g \<noteq> None \<longleftrightarrow> pg_processing g)
   \<and> (pg_waiting g \<longleftrightarrow> pg_role g \<noteq> None) \<and> (case pg_role g of None \<Rightarrow> True | Some r \<Rightarrow> is_worker_role r)
   \<and> (pg_stale g \<longleftrightarrow> pg_stale_at g \<noteq> None)
   \<and> \<not> (pg_processing g \<and> (pg_waiting g \<or> pg_stale g \<or> pg_last_event g = None))"

named_theorems pm_defs \<comment> \<open>the operations of the guard\<close>

lemmas [pm_defs] = touch_pm_event_def pm_acquire_def pm_release_def mark_waiting_downstream_def clear_waiting_downstream_def
  record_auto_nudge_def clear_auto_nudge_def bump_nudge_count_def clear_nudge_count_def mark_worker_failed_def
  clear_worker_failed_def on_pm_session_started_def on_pm_session_ended_def on_pm_dispatch_to_worker_def
  check_and_release_stale_def

lemma worker_role_text: "is_worker_role r \<Longrightarrow> r \<noteq> []"
  by (auto simp: is_worker_role_def)

lemma pm_step_ok: "pm_ok g \<Longrightarrow> pm_ok (pm_step op g)"
  by (cases "(op, g)" rule: pm_step.cases)
     (auto simp: pm_ok_def pm_defs Let_def truthy_def worker_role_text split: option.splits)

lemma run_pm_guard_ok: "pm_ok (run_pm_guard ops)"
proof -
  have "pm_ok (fold pm_step ops g)" if "pm_ok g" for g
    using that by (induction ops arbitrary: g) (simp_all add: pm_step_ok)
  moreover have "pm_ok new_pm_guard" by (simp add: pm_ok_def new_pm_guard_def)
  ultimately show ?thesis by (simp add: run_pm_guard_def)
qed

text \<open>
  The state of the PM's queue is consistent after any sequence of calls, and what the panel is shown follows: the
  phase is executing exactly when the PM is reported busy, waiting only with a worker it waits for, and a
  stale release is never shown while the PM works.
\<close>

theorem pm_guard_consistent:
  "pm_ok (run_pm_guard ops)
   \<and> (pm_phase_of (run_pm_guard ops) = Phase_executing \<longleftrightarrow> pm_busy (run_pm_guard ops))
   \<and> (pm_busy (run_pm_guard ops) \<longleftrightarrow> pg_busy_since (run_pm_guard ops) \<noteq> None)"
proof -
  have ok: "pm_ok (run_pm_guard ops)" by (rule run_pm_guard_ok)
  then show ?thesis by (auto simp: pm_ok_def pm_phase_of_def pm_busy_def pm_executing_def)
qed

text \<open>
  A PM that stays busy is released: in any state the guard can reach, the stale check releases it exactly when it
  is busy and nothing was heard of it for the configured time, and then it is idle and shown as released.
\<close>

theorem stale_pm_released:
  assumes "g = run_pm_guard ops"
  shows "(fst (check_and_release_stale now ms g)
       \<longleftrightarrow> pm_busy g \<and> (case pg_last_event g of None \<Rightarrow> False | Some t \<Rightarrow> ms \<le> now - t))
    \<and> (if fst (check_and_release_stale now ms g)
       then pm_phase_of (snd (check_and_release_stale now ms g)) = Phase_stale_released
       else snd (check_and_release_stale now ms g) = g)"
  using run_pm_guard_ok [of ops] unfolding assms [symmetric]
  by (auto simp: pm_ok_def pm_busy_def pm_executing_def pm_phase_of_def check_and_release_stale_def pm_release_def Let_def
      split: option.splits)

theorem stale_pm_released_witness:
  "fst (check_and_release_stale 90000 90000 (run_pm_guard [(0, Op_acquire)]))
   \<and> \<not> fst (check_and_release_stale 89999 90000 (run_pm_guard [(0, Op_acquire)]))"
proof -
  have busy: "pm_busy (run_pm_guard [(0, Op_acquire)])" "pg_last_event (run_pm_guard [(0, Op_acquire)]) = Some 0"
    by code_simp+
  show ?thesis using stale_pm_released [OF refl, of 90000 90000 "[(0, Op_acquire)]"]
      stale_pm_released [OF refl, of 89999 90000 "[(0, Op_acquire)]"] busy by simp
qed

text \<open>
  A guarded call never leaves the PM busy, whether it returns or throws, and whatever it does to the guard on
  the way; its result or its exception is handed on.
\<close>

theorem guarded_call_releases:
  "\<not> pm_executing (snd (run_guarded now f reason g))
   \<and> fst (run_guarded now f reason g) = fst (f (pm_acquire now g))"
  by (auto simp: run_guarded_def pm_executing_def pm_release_def Let_def split: prod.splits sum.splits)

section \<open>The wake gate\<close>

text \<open>
  An agent is woken exactly when it is named, no cooldown of the SDK is active, it is registered as idle or in
  error, and no session record carries its name as a projection.
\<close>

theorem agent_wake_iff:
  "evaluate_agent_wake_gate own_now now c forced status_of sessions agent = None \<longleftrightarrow>
     js_trim agent \<noteq> [] \<and> \<not> or_else forced (cooldown_active own_now c)
     \<and> (case status_of (js_trim agent) of None \<Rightarrow> False | Some st \<Rightarrow> js_lower st = ''idle'' \<or> js_lower st = ''error'')
     \<and> Some (js_trim agent) \<notin> ws_agent ` set sessions"
proof -
  have "list_ex (\<lambda>s. ws_agent s = Some (js_trim agent)) sessions \<longleftrightarrow> Some (js_trim agent) \<in> ws_agent ` set sessions"
    by (force simp: list_ex_iff)
  then show ?thesis by (cases "status_of (js_trim agent)") (simp_all add: evaluate_agent_wake_gate_def Let_def)
qed

text \<open>
  The session manager writes the agent among the protocol fields only, so the last check never applies: an
  agent that runs a session is woken if its status does not say so.
\<close>

lemma running_session_unseen:
  "evaluate_agent_wake_gate 0 0 no_cooldown None (\<lambda>a. Some ''idle'')
     [\<lparr>ws_protocol_agent = ''DEV-01'', ws_agent = None\<rparr>] ''DEV-01'' = None"
  by code_simp

end
