(* ===== verification/Adhoc_Queue.thy ===== *)
theory Adhoc_Queue
  imports Task_Dispatch
begin

text \<open>
  The queue of the tasks that found their agent busy (\<^verbatim>\<open>scheduler/TaskDispatcher.ts\<close>, the ad-hoc queue): an
  array in memory, ordered by priority and first in, first out within a priority, with at most one entry
  per file. Its abstract counterpart is one lane per priority.
\<close>

section \<open>Priorities and items\<close>

datatype adhoc_priority = P0 | P1 | P2

fun priority_weight :: "adhoc_priority \<Rightarrow> nat" where
  "priority_weight P0 = 0"
| "priority_weight P1 = 1"
| "priority_weight P2 = 2"

instantiation adhoc_priority :: linorder
begin

definition less_eq_adhoc_priority :: "adhoc_priority \<Rightarrow> adhoc_priority \<Rightarrow> bool" where
  "less_eq_adhoc_priority a b \<longleftrightarrow> priority_weight a \<le> priority_weight b"

definition less_adhoc_priority :: "adhoc_priority \<Rightarrow> adhoc_priority \<Rightarrow> bool" where
  "less_adhoc_priority a b \<longleftrightarrow> priority_weight a < priority_weight b"

instance
proof
  fix a b :: adhoc_priority
  assume "a \<le> b" and "b \<le> a"
  then show "a = b" by (cases a; cases b) (simp_all add: less_eq_adhoc_priority_def)
qed (auto simp: less_eq_adhoc_priority_def less_adhoc_priority_def)

end

lemma priority_order [simp]:
  "P0 \<le> p" "p \<le> P2" "P1 \<le> P0 \<longleftrightarrow> False" "P0 < P1" "P1 < P2" "P0 < P2" "P1 < P0 \<longleftrightarrow> False" "P2 \<le> P0 \<longleftrightarrow> False" "P2 \<le> P1 \<longleftrightarrow> False" "P2 < p \<longleftrightarrow> False" "p < P0 \<longleftrightarrow> False"
  by (cases p; simp add: less_eq_adhoc_priority_def less_adhoc_priority_def)+

definition parse_priority :: "fm_value \<Rightarrow> adhoc_priority" where
  "parse_priority v =
     (if v = V_string ''P0'' then P0 else if v = V_string ''P1'' then P1 else P2)"

record adhoc_item =
  ai_path :: task_path
  ai_recipient :: string
  ai_priority :: adhoc_priority
  ai_enqueued :: time

definition adhoc_key :: "adhoc_item \<Rightarrow> string" where
  "adhoc_key i = queue_path_key (path_text (ai_path i))"

section \<open>Operations\<close>

text \<open>\<open>_insertSorted\<close>: before the first item of a larger weight.\<close>

fun insert_sorted :: "adhoc_item \<Rightarrow> adhoc_item list \<Rightarrow> adhoc_item list" where
  "insert_sorted i [] = [i]"
| "insert_sorted i (q # qs) =
     (if priority_weight (ai_priority i) < priority_weight (ai_priority q) then i # q # qs else q # insert_sorted i qs)"

definition enqueue_unique_sorted :: "adhoc_item \<Rightarrow> adhoc_item list \<Rightarrow> adhoc_item list" where
  "enqueue_unique_sorted item q =
     (case find_index (\<lambda>x. adhoc_key x = adhoc_key item) q of
        None \<Rightarrow> insert_sorted item q
      | Some n \<Rightarrow>
          let old = q ! n;
              priority = (if priority_weight (ai_priority item) < priority_weight (ai_priority old)
                          then ai_priority item else ai_priority old) in
          insert_sorted (item\<lparr>ai_priority := priority, ai_enqueued := ai_enqueued old\<rparr>) (take n q @ drop (Suc n) q))"

text \<open>
  A drain takes an item when its file lies in the inbox in a state that can be claimed; the queue that is
  shown keeps an item only when the state is written and \<^verbatim>\<open>inbox\<close>.
\<close>

definition is_live_adhoc_item :: "task_files \<Rightarrow> adhoc_item \<Rightarrow> bool" where
  "is_live_adhoc_item fs i \<longleftrightarrow>
     fst (ai_path i) = Inbox \<and> map_of fs (ai_path i) \<noteq> None \<and> is_claimable_state (state_at fs (ai_path i))"

definition is_shown_adhoc_item :: "task_files \<Rightarrow> adhoc_item \<Rightarrow> bool" where
  "is_shown_adhoc_item fs i \<longleftrightarrow> fst (ai_path i) = Inbox \<and> state_at fs (ai_path i) = Some ''inbox''"

definition prune_stale :: "task_files \<Rightarrow> adhoc_item list \<Rightarrow> adhoc_item list" where
  "prune_stale fs q = filter (is_shown_adhoc_item fs) q"

text \<open>The loop of \<open>_drainAdhocQueue\<close>: shift until an item is live.\<close>

fun shift_live :: "task_files \<Rightarrow> adhoc_item list \<Rightarrow> adhoc_item option \<times> adhoc_item list" where
  "shift_live fs [] = (None, [])"
| "shift_live fs (i # q) = (if is_live_adhoc_item fs i then (Some i, q) else shift_live fs q)"

section \<open>Order and uniqueness\<close>

definition adhoc_ok :: "adhoc_item list \<Rightarrow> bool" where
  "adhoc_ok q \<longleftrightarrow> sorted (map ai_priority q) \<and> distinct (map adhoc_key q)"

lemma set_insert_sorted [simp]: "set (insert_sorted i q) = insert i (set q)"
  by (induction q) auto

lemma keys_insert_sorted: "distinct (map adhoc_key (insert_sorted i q)) \<longleftrightarrow>
    adhoc_key i \<notin> adhoc_key ` set q \<and> distinct (map adhoc_key q)"
  by (induction q) auto

lemma sorted_insert_sorted: "sorted (map ai_priority q) \<Longrightarrow> sorted (map ai_priority (insert_sorted i q))"
  by (induction q) (auto simp: less_eq_adhoc_priority_def)

lemma insert_sorted_ok: "adhoc_ok q \<Longrightarrow> adhoc_key i \<notin> adhoc_key ` set q \<Longrightarrow> adhoc_ok (insert_sorted i q)"
  by (simp add: adhoc_ok_def keys_insert_sorted sorted_insert_sorted)

lemma adhoc_ok_filter: "adhoc_ok q \<Longrightarrow> adhoc_ok (filter P q)"
  by (simp add: adhoc_ok_def distinct_map_filter sorted_filter)

lemma find_index_key:
  "distinct (map f q) \<Longrightarrow> find_index (\<lambda>x. f x = k) q = Some n \<Longrightarrow>
     n < length q \<and> f (q ! n) = k \<and> take n q @ drop (Suc n) q = filter (\<lambda>x. f x \<noteq> k) q"
proof (induction q arbitrary: n)
  case (Cons x q)
  show ?case
  proof (cases "f x = k")
    case True
    then have "filter (\<lambda>x. f x \<noteq> k) q = q" using Cons.prems(1) by (auto simp: filter_id_conv) (metis image_eqI)
    then show ?thesis using Cons.prems True by simp
  next
    case False
    then obtain m where "find_index (\<lambda>x. f x = k) q = Some m" "n = Suc m" using Cons.prems(2) by auto
    then show ?thesis using Cons.IH [of m] Cons.prems(1) False by simp
  qed
qed simp

lemma find_index_none: "find_index P q = None \<longleftrightarrow> (\<forall>x\<in>set q. \<not> P x)"
  by (induction q) auto

lemma enqueue_cases:
  assumes "adhoc_ok q"
  shows "enqueue_unique_sorted item q =
    (case List.find (\<lambda>x. adhoc_key x = adhoc_key item) q of
       None \<Rightarrow> insert_sorted item q
     | Some old \<Rightarrow> insert_sorted (item\<lparr>ai_priority := min (ai_priority item) (ai_priority old), ai_enqueued := ai_enqueued old\<rparr>)
         (filter (\<lambda>x. adhoc_key x \<noteq> adhoc_key item) q))"
proof (cases "find_index (\<lambda>x. adhoc_key x = adhoc_key item) q")
  case None
  then have "List.find (\<lambda>x. adhoc_key x = adhoc_key item) q = None" by (simp add: find_index_none find_None_iff)
  then show ?thesis using None by (simp add: enqueue_unique_sorted_def)
next
  case (Some n)
  have d: "distinct (map adhoc_key q)" using assms by (simp add: adhoc_ok_def)
  note at = find_index_key [OF d Some]
  have "List.find (\<lambda>x. adhoc_key x = adhoc_key item) q = Some (q ! n)"
    unfolding find_Some_iff using at d
    by (intro exI [of _ n]) (auto simp: distinct_conv_nth, metis length_map nat_neq_iff nth_map order.strict_trans)
  moreover have "(if priority_weight (ai_priority item) < priority_weight (ai_priority (q ! n)) then ai_priority item
      else ai_priority (q ! n)) = min (ai_priority item) (ai_priority (q ! n))"
    by (cases "ai_priority item"; cases "ai_priority (q ! n)") (simp_all add: min_def)
  ultimately show ?thesis using Some at by (simp add: enqueue_unique_sorted_def Let_def)
qed

lemma enqueue_ok: "adhoc_ok q \<Longrightarrow> adhoc_ok (enqueue_unique_sorted item q)"
  by (auto simp: enqueue_cases adhoc_key_def find_None_iff split: option.split
      intro!: insert_sorted_ok adhoc_ok_filter)

lemma shift_live_suffix: "shift_live fs q = (x, r) \<Longrightarrow> \<exists>p. q = p @ (case x of None \<Rightarrow> [] | Some i \<Rightarrow> [i]) @ r"
proof (induction q arbitrary: r)
  case (Cons i q)
  show ?case
  proof (cases "is_live_adhoc_item fs i")
    case True then show ?thesis using Cons.prems by auto
  next
    case False
    then have "shift_live fs q = (x, r)" using Cons.prems by simp
    from Cons.IH [OF this] obtain p where "q = p @ (case x of None \<Rightarrow> [] | Some i \<Rightarrow> [i]) @ r" by blast
    then show ?thesis by (intro exI [of _ "i # p"]) simp
  qed
qed simp

lemma adhoc_ok_suffix: "adhoc_ok (p @ r) \<Longrightarrow> adhoc_ok r"
  by (simp add: adhoc_ok_def sorted_append)

lemma shift_ok: "adhoc_ok q \<Longrightarrow> adhoc_ok (snd (shift_live fs q))"
  using shift_live_suffix [of fs q "fst (shift_live fs q)" "snd (shift_live fs q)"]
  by (metis adhoc_ok_suffix prod.collapse)

section \<open>Three lanes\<close>

text \<open>
  The abstract queue has a lane per priority. An entry of a file that has one moves to the end of the better
  of the two lanes and keeps the time it was first queued; a drain looks through the lanes in order and
  drops what is no longer live on its way.
\<close>

type_synonym lanes = "adhoc_priority \<Rightarrow> adhoc_item list"

definition lanes_of :: "adhoc_item list \<Rightarrow> lanes" where
  "lanes_of q p = filter (\<lambda>i. ai_priority i = p) q"

definition lane_items :: "lanes \<Rightarrow> adhoc_item list" where
  "lane_items l = l P0 @ l P1 @ l P2"

definition lane_add :: "adhoc_item \<Rightarrow> lanes \<Rightarrow> lanes" where
  "lane_add i l = l(ai_priority i := l (ai_priority i) @ [i])"

definition lane_enqueue :: "adhoc_item \<Rightarrow> lanes \<Rightarrow> lanes" where
  "lane_enqueue item l =
     (case List.find (\<lambda>x. adhoc_key x = adhoc_key item) (lane_items l) of
        None \<Rightarrow> lane_add item l
      | Some old \<Rightarrow>
          lane_add (item\<lparr>ai_priority := min (ai_priority item) (ai_priority old), ai_enqueued := ai_enqueued old\<rparr>)
            (\<lambda>p. filter (\<lambda>x. adhoc_key x \<noteq> adhoc_key item) (l p)))"

definition lane_shift :: "task_files \<Rightarrow> lanes \<Rightarrow> adhoc_item option \<times> lanes" where
  "lane_shift fs l =
     (let rest = dropWhile (\<lambda>i. \<not> is_live_adhoc_item fs i) (lane_items l) in
      case rest of
        [] \<Rightarrow> (None, \<lambda>_. [])
      | i # r \<Rightarrow> (Some i, \<lambda>p. filter (\<lambda>x. ai_priority x = p) r))"

lemma sorted_lanes: "sorted (map ai_priority q) \<Longrightarrow> lane_items (lanes_of q) = q"
proof (induction q)
  case (Cons x q)
  then have IH: "lane_items (lanes_of q) = q" by simp
  have le: "\<forall>y\<in>set q. ai_priority x \<le> ai_priority y" using Cons.prems by simp
  have none: "lanes_of q p = []" if "p < ai_priority x" for p
    using le that by (auto simp: lanes_of_def filter_empty_conv)
  show ?case
  proof (cases "ai_priority x")
    case P0
    then show ?thesis using IH by (simp add: lane_items_def lanes_of_def)
  next
    case P1
    then have "lanes_of q P0 = []" using none by simp
    then show ?thesis using IH P1 by (simp add: lane_items_def lanes_of_def)
  next
    case P2
    then have "lanes_of q P0 = []" "lanes_of q P1 = []" using none by simp_all
    then show ?thesis using IH P2 by (simp add: lane_items_def lanes_of_def)
  qed
qed (simp add: lane_items_def lanes_of_def)

lemma lanes_insert_sorted: "sorted (map ai_priority q) \<Longrightarrow> lanes_of (insert_sorted i q) = lane_add i (lanes_of q)"
proof (induction q)
  case (Cons x q)
  have le: "\<forall>y\<in>set q. ai_priority x \<le> ai_priority y" and s: "sorted (map ai_priority q)" using Cons.prems by simp_all
  show ?case
  proof (cases "priority_weight (ai_priority i) < priority_weight (ai_priority x)")
    case True
    then have "ai_priority i < ai_priority x" by (simp add: less_adhoc_priority_def)
    then have "lanes_of (x # q) (ai_priority i) = []" using le by (auto simp: lanes_of_def filter_empty_conv)
    then show ?thesis using True by (auto simp: lanes_of_def lane_add_def fun_eq_iff)
  next
    case False
    then show ?thesis using Cons.IH [OF s] by (auto simp: lanes_of_def lane_add_def fun_eq_iff)
  qed
qed (auto simp: lanes_of_def lane_add_def fun_eq_iff)

lemma lanes_filter: "lanes_of (filter P q) p = filter P (lanes_of q p)"
  by (simp add: lanes_of_def conj_commute)

lemma lanes_enqueue:
  assumes "adhoc_ok q"
  shows "lanes_of (enqueue_unique_sorted item q) = lane_enqueue item (lanes_of q)"
proof -
  have s: "sorted (map ai_priority q)" using assms by (simp add: adhoc_ok_def)
  then have f: "sorted (map ai_priority (filter P q))" for P by (rule sorted_filter)
  show ?thesis
    using lanes_insert_sorted [OF s] lanes_insert_sorted [OF f]
    by (simp add: enqueue_cases [OF assms] lane_enqueue_def sorted_lanes [OF s] lanes_filter [abs_def] fun_eq_iff
        split: option.split)
qed

lemma shift_live_dropWhile:
  "shift_live fs q = (case dropWhile (\<lambda>i. \<not> is_live_adhoc_item fs i) q of [] \<Rightarrow> (None, []) | i # r \<Rightarrow> (Some i, r))"
  by (induction q) auto

lemma lanes_shift:
  assumes "adhoc_ok q"
  shows "lane_shift fs (lanes_of q) = (fst (shift_live fs q), lanes_of (snd (shift_live fs q)))"
proof -
  have "lane_items (lanes_of q) = q" using assms by (simp add: adhoc_ok_def sorted_lanes)
  then show ?thesis
    by (cases "dropWhile (\<lambda>i. \<not> is_live_adhoc_item fs i) q"; simp only: lane_shift_def shift_live_dropWhile Let_def list.case
        fst_conv snd_conv; simp add: lanes_of_def fun_eq_iff)
qed

section \<open>The queue in any run\<close>

datatype adhoc_op = Enqueue_adhoc adhoc_item | Shift_adhoc task_files | Prune_adhoc task_files

fun adhoc_step :: "adhoc_op \<Rightarrow> adhoc_item list \<Rightarrow> adhoc_item option \<times> adhoc_item list" where
  "adhoc_step (Enqueue_adhoc i) q = (None, enqueue_unique_sorted i q)"
| "adhoc_step (Shift_adhoc fs) q = shift_live fs q"
| "adhoc_step (Prune_adhoc fs) q = (None, prune_stale fs q)"

fun lane_step :: "adhoc_op \<Rightarrow> lanes \<Rightarrow> adhoc_item option \<times> lanes" where
  "lane_step (Enqueue_adhoc i) l = (None, lane_enqueue i l)"
| "lane_step (Shift_adhoc fs) l = lane_shift fs l"
| "lane_step (Prune_adhoc fs) l = (None, \<lambda>p. filter (is_shown_adhoc_item fs) (l p))"

fun run_adhoc :: "('q \<Rightarrow> adhoc_op \<Rightarrow> adhoc_item option \<times> 'q) \<Rightarrow> adhoc_op list \<Rightarrow> 'q \<Rightarrow> adhoc_item option list \<times> 'q" where
  "run_adhoc step [] q = ([], q)"
| "run_adhoc step (x # xs) q =
     (case step q x of (out, q') \<Rightarrow> case run_adhoc step xs q' of (outs, q'') \<Rightarrow> (out # outs, q''))"

lemma adhoc_step_ok: "adhoc_ok q \<Longrightarrow> adhoc_ok (snd (adhoc_step x q))"
  by (cases x) (simp_all add: enqueue_ok shift_ok prune_stale_def adhoc_ok_filter)

lemma adhoc_step_lanes:
  "adhoc_ok q \<Longrightarrow> lane_step x (lanes_of q) = (fst (adhoc_step x q), lanes_of (snd (adhoc_step x q)))"
  by (cases x) (simp_all add: lanes_enqueue lanes_shift prune_stale_def lanes_filter [abs_def])

lemma run_adhoc_lanes:
  "adhoc_ok q \<Longrightarrow> run_adhoc (\<lambda>q x. adhoc_step x q) xs q = (outs, q')
     \<Longrightarrow> adhoc_ok q' \<and> run_adhoc (\<lambda>l x. lane_step x l) xs (lanes_of q) = (outs, lanes_of q')"
proof (induction xs arbitrary: q outs)
  case (Cons x xs)
  obtain rest where r: "run_adhoc (\<lambda>q x. adhoc_step x q) xs (snd (adhoc_step x q)) = (rest, q')"
      "outs = fst (adhoc_step x q) # rest"
    using Cons.prems(2) by (simp split: prod.splits)
  note IH = Cons.IH [OF adhoc_step_ok [OF Cons.prems(1)] r(1)]
  show ?case using IH r(2) by (simp add: adhoc_step_lanes [OF Cons.prems(1)])
qed simp


definition sample_item :: "string \<Rightarrow> adhoc_priority \<Rightarrow> time \<Rightarrow> adhoc_item" where
  "sample_item name p t = \<lparr>ai_path = (Inbox, name), ai_recipient = ''DEV'', ai_priority = p, ai_enqueued = t\<rparr>"


text \<open>The shown queue loses an item that a drain would still take: its file has no written state.\<close>

lemma shown_queue_drops_live_item:
  "\<exists>fs. is_live_adhoc_item fs (sample_item ''a.md'' P0 1) \<and> prune_stale fs [sample_item ''a.md'' P0 1] = []"
proof -
  let ?fs = "[((Inbox, ''a.md''), Task_file empty_fm [])]"
  have "is_live_adhoc_item ?fs (sample_item ''a.md'' P0 1)" by code_simp
  moreover have "prune_stale ?fs [sample_item ''a.md'' P0 1] = []" by code_simp
  ultimately show ?thesis by blast
qed

end
