(* ===== verification/Session_Settlement.thy ===== *)
theory Session_Settlement
  imports Adhoc_Queue Pm_Guards Event_Filters Operation_Approval
begin

text \<open>
  What the dispatcher does when a session ends (\<^verbatim>\<open>scheduler/TaskDispatcher.ts\<close>): the attempt is finished, the agent
  freed and its queue advanced (\<^verbatim>\<open>pm/agentTaskQueueControl.ts\<close>), a failed session is retried, handed to ADMIN or left
  waiting for an approval, the ad-hoc queue is drained. The world adds to that of \<open>Task_Dispatch\<close> the ad-hoc
  queue, the guard of the PM, the breaker of empty runs and what is scheduled.

  The environment adds what these methods observe: the stored approval, the tasks a release scan frees (the
  scan is the subject of \<open>Dependency_Gate\<close>, here it is any function on the files), path resolution, the
  text of an exception. A job that the code starts without awaiting it runs after its starter; log lines and
  panel events are left out.
\<close>

section \<open>World\<close>

datatype recovery_error =
  Rec_unreadable | Rec_governor governor_error | Rec_decision dispatch_error
| Task_not_found | Task_not_claimable lifecycle_stage | Recipient_mismatch | Agent_role_mismatch
| Session_mismatch | Dependency_pending dependency_verdict

record recovery_env =
  rv_dispatch :: dispatch_env
  rv_error :: "recovery_error \<Rightarrow> js_error"
  rv_approval :: "string \<Rightarrow> approval_record option"
  rv_resolve :: "string \<Rightarrow> string"
  rv_root :: string
  rv_release :: "task_files \<Rightarrow> task_files \<times> (task_path \<times> string) list"
  rv_breaker :: breaker_config
  rv_report :: "string \<Rightarrow> string \<Rightarrow> string \<Rightarrow> string option"   \<comment> \<open>the report on disk: task, reporter, recipient\<close>
  rv_settle_report :: "string \<Rightarrow> lc_world \<Rightarrow> lc_world"
  rv_agent_role :: "string \<Rightarrow> string option"               \<comment> \<open>\<open>None\<close>: not registered\<close>
  rv_session_of :: "string \<Rightarrow> (string \<times> string) option"     \<comment> \<open>agent and status\<close>

text \<open>A compensating report that the report gate is asked for, and a task marked as waiting for an approval.\<close>

record report_ask =
  ra_task :: string
  ra_reporter :: string
  ra_recipient :: string
  ra_cancelled :: bool
  ra_session :: string

record recovery_world =
  rw_disp :: dispatcher_world
  rw_adhoc :: "adhoc_item list"
  rw_guard :: pm_guard
  rw_hits :: "time list"
  rw_asks :: "report_ask list"
  rw_waits :: "(task_path \<times> string) list"   \<comment> \<open>task files marked as waiting, with the approval\<close>
  rw_drains :: "time list"                    \<comment> \<open>drains to come\<close>

type_synonym 'a recov = "(recovery_world, recovery_error, 'a) act"

abbreviation rv_now :: "recovery_env \<Rightarrow> time" where
  "rv_now env \<equiv> dv_now (rv_dispatch env)"

abbreviation rw_files :: "recovery_world \<Rightarrow> task_files" where
  "rw_files w \<equiv> w_files (dw_lc (rw_disp w))"

definition upd_disp :: "(dispatcher_world \<Rightarrow> dispatcher_world) \<Rightarrow> unit recov" where
  "upd_disp f = act_update (\<lambda>w. w\<lparr>rw_disp := f (rw_disp w)\<rparr>)"

definition on_lifecycle :: "(lc_world, governor_error, 'a) act \<Rightarrow> 'a recov" where
  "on_lifecycle m w =
     (case m (dw_lc (rw_disp w)) of (r, l) \<Rightarrow>
        (case r of Inl e \<Rightarrow> Inl (Rec_governor e) | Inr x \<Rightarrow> Inr x, w\<lparr>rw_disp := (rw_disp w)\<lparr>dw_lc := l\<rparr>\<rparr>))"

definition on_attempts :: "(dispatch_state \<Rightarrow> 'a \<times> dispatch_state) \<Rightarrow> 'a recov" where
  "on_attempts f w =
     (case f (dw_store (rw_disp w)) of (r, s) \<Rightarrow> (Inr r, w\<lparr>rw_disp := (rw_disp w)\<lparr>dw_store := s\<rparr>\<rparr>))"

definition note_history :: "recovery_env \<Rightarrow> task_path \<Rightarrow> string \<Rightarrow> string \<Rightarrow> string \<Rightarrow> unit recov" where
  "note_history env p from to note =
     upd_disp (\<lambda>d. snd (append_history (rv_dispatch env) p \<lparr>he_from = from, he_to = to, he_note = note\<rparr> d))"

definition enqueue_adhoc :: "adhoc_item \<Rightarrow> unit recov" where
  "enqueue_adhoc i = act_update (\<lambda>w. w\<lparr>rw_adhoc := enqueue_unique_sorted i (rw_adhoc w)\<rparr>)"

section \<open>The control plane, with its exceptions\<close>

definition default_opts :: control_opts where
  "default_opts = \<lparr>cpo_mode = None, cpo_key = None, cpo_bypass = False, cpo_agent = None\<rparr>"

definition control_plane ::
  "recovery_env \<Rightarrow> string \<Rightarrow> control_opts \<Rightarrow> task_path \<Rightarrow> string option \<Rightarrow> dispatch_outcome recov" where
  "control_plane env source opts p recipient w =
     (case dispatch_from_control_plane (rv_dispatch env) source opts p recipient (rw_disp w) of (out, d) \<Rightarrow>
        (case out of
           Out_decision_conflict e \<Rightarrow> Inl (Rec_decision e)
         | Out_threw e \<Rightarrow> Inl (Rec_governor e)
         | _ \<Rightarrow> Inr out,
         w\<lparr>rw_disp := d,
           rw_guard := fold (mark_waiting_downstream (rv_now env))
             (drop (length (dw_downstream (rw_disp w))) (dw_downstream d)) (rw_guard w)\<rparr>))"

text \<open>\<open>try { m } catch (err) { h(err) }\<close>\<close>

definition act_catch :: "('w, 'e, 'a) act \<Rightarrow> ('e \<Rightarrow> ('w, 'e, 'a) act) \<Rightarrow> ('w, 'e, 'a) act" where
  "act_catch m h w = (case m w of (Inl e, w') \<Rightarrow> h e w' | (Inr x, w') \<Rightarrow> (Inr x, w'))"

section \<open>The queue of an agent (\<^verbatim>\<open>agentTaskQueueControl.ts\<close>)\<close>

definition load_queue :: "recovery_env \<Rightarrow> agent_task_queue recov" where
  "load_queue env = act_get (\<lambda>w. load_agent_task_queue (rv_now env) (w_queue (dw_lc (rw_disp w))))"

definition save_queue :: "recovery_env \<Rightarrow> agent_task_queue \<Rightarrow> unit recov" where
  "save_queue env q = upd_disp (\<lambda>d. d\<lparr>dw_lc := (dw_lc d)\<lparr>w_queue := save_agent_task_queue (rv_now env) q\<rparr>\<rparr>)"

text \<open>An entry is dispatched by its path and name; a path outside the lifecycle directories has no file here.\<close>

definition item_path :: "queue_item \<Rightarrow> task_path option" where
  "item_path i =
     (if truthy (qi_filepath i) \<and> truthy (qi_filename i)
      then map_option (\<lambda>st. (st, str_of (qi_filename i)))
        (List.find (\<lambda>st. path_text (st, str_of (qi_filename i)) = str_of (qi_filepath i)) all_stages)
      else None)"

definition is_dispatched :: "dispatch_outcome \<Rightarrow> bool" where
  "is_dispatched out \<longleftrightarrow> (case out of Out_dispatched s a l \<Rightarrow> True | _ \<Rightarrow> False)"

definition advance_agent_queue :: "recovery_env \<Rightarrow> string \<Rightarrow> string option \<Rightarrow> bool \<Rightarrow> bool recov" where
  "advance_agent_queue env raw_agent completed clear_stale =
     (let agent = js_trim raw_agent in
      if agent = [] then act_return False
      else
        act_bind (load_queue env) (\<lambda>q.
        let cleared = (if truthy completed then clear_agent_running_in_state agent completed q
                       else if clear_stale then clear_agent_running_in_state agent None q else q);
            (rest, next_item) = dequeue_next_agent_task agent cleared in
        act_bind (save_queue env rest) (\<lambda>_.
        case next_item of
          None \<Rightarrow> act_return False
        | Some i \<Rightarrow>
            (case item_path i of
               None \<Rightarrow> act_return False
             | Some p \<Rightarrow>
                 act_bind (control_plane env ''agent_queue'' default_opts p (qi_recipient i))
                   (\<lambda>out. act_return (is_dispatched out))))))"

definition complete_agent_task_and_advance :: "recovery_env \<Rightarrow> string \<Rightarrow> string \<Rightarrow> string option \<Rightarrow> unit recov" where
  "complete_agent_task_and_advance env agent task session =
     act_bind (load_queue env) (\<lambda>q.
     case Option.bind (map_of (aq_agents q) agent) slot_running of
       None \<Rightarrow> act_return ()
     | Some r \<Rightarrow>
         if truthy session \<and> re_session_id r \<noteq> str_of session then act_return ()
         else
           act_bind (save_queue env (clear_agent_running_in_state agent (Some task) q)) (\<lambda>_.
           act_bind (advance_agent_queue env agent None False) (\<lambda>_. act_return ())))"

definition sync_queue_on_session_started :: "recovery_env \<Rightarrow> string \<Rightarrow> string \<Rightarrow> string \<Rightarrow> unit recov" where
  "sync_queue_on_session_started env raw_agent raw_task raw_session =
     (let agent = js_trim raw_agent; task = norm_queue_task_id raw_task; session = js_trim raw_session in
      act_when (agent \<noteq> [] \<and> task \<noteq> [] \<and> session \<noteq> [])
        (act_bind (load_queue env) (\<lambda>q. save_queue env (set_agent_running agent
           \<lparr>re_task_id = task, re_session_id = session, re_started_at = rv_now env\<rparr> q))))"

definition is_enqueue_allowed :: "task_path option \<Rightarrow> bool" where
  "is_enqueue_allowed p \<longleftrightarrow> (case p of None \<Rightarrow> True | Some q \<Rightarrow> fst q \<in> {Inbox, Active, Review})"

definition enqueue_when_busy ::
  "recovery_env \<Rightarrow> string \<Rightarrow> string \<Rightarrow> string \<Rightarrow> task_path option \<Rightarrow> string option \<Rightarrow> bool recov" where
  "enqueue_when_busy env task agent reason p recipient =
     (if \<not> is_enqueue_allowed p then act_return False
      else
        act_bind (load_queue env) (\<lambda>q.
        act_bind (save_queue env (enqueue_agent_task_in_state (rv_now env)
          \<lparr>in_task_id = task, in_agent_id = agent, in_queued_at = None, in_reason = reason,
           in_filepath = map_option path_text p, in_role = None, in_filename = map_option snd p,
           in_recipient = recipient, in_resume_dispatch = False\<rparr> False q)) (\<lambda>_.
        act_return True)))"

section \<open>A task whose agent is busy\<close>

definition parse_now :: "recovery_env \<Rightarrow> task_path \<Rightarrow> parsed_task option recov" where
  "parse_now env p = act_get (\<lambda>w. parse_path (rv_dispatch env) (rw_files w) p)"

definition read_priority :: "recovery_env \<Rightarrow> task_files \<Rightarrow> task_path \<Rightarrow> adhoc_priority" where
  "read_priority env fs p =
     (case parse_path (rv_dispatch env) fs p of
        None \<Rightarrow> P2 | Some t \<Rightarrow> parse_priority (fm_get (pt_frontmatter t) ''priority''))"

definition busy_item :: "recovery_env \<Rightarrow> task_path \<Rightarrow> string \<Rightarrow> adhoc_priority \<Rightarrow> adhoc_item" where
  "busy_item env p recipient priority =
     \<lparr>ai_path = p, ai_recipient = recipient, ai_priority = priority, ai_enqueued = rv_now env\<rparr>"

definition queue_for_agent :: "recovery_env \<Rightarrow> task_path \<Rightarrow> string \<Rightarrow> unit recov" where
  "queue_for_agent env p recipient =
     (case dv_agents (rv_dispatch env) recipient of
        [] \<Rightarrow> act_return ()
      | a # _ \<Rightarrow>
          act_bind (parse_now env p) (\<lambda>parsed.
          let task = (case parsed of None \<Rightarrow> strip_md (snd p) | Some t \<Rightarrow> canonical_dispatch_id (snd p) (pt_task_id t)) in
          act_bind (load_queue env) (\<lambda>q.
          save_queue env (if is_task_queued_in_state q task then q
            else enqueue_agent_task_in_state (rv_now env)
              \<lparr>in_task_id = task, in_agent_id = ag_id a, in_queued_at = Some (rv_now env), in_reason = ''agent_busy'',
               in_filepath = Some (path_text p), in_role = None, in_filename = Some (snd p),
               in_recipient = Some recipient, in_resume_dispatch = False\<rparr> False q))))"

text \<open>A P0 task has the running session of its agent cancelled; the interrupted task is queued again.\<close>

definition preempt :: "recovery_env \<Rightarrow> string \<Rightarrow> unit recov" where
  "preempt env recipient =
     (case dv_agents (rv_dispatch env) recipient of
        [] \<Rightarrow> act_return ()
      | a # _ \<Rightarrow>
          act_bind (act_get (\<lambda>w. map_of (dw_running (rw_disp w)) (ag_id a))) (\<lambda>running.
          case running of
            None \<Rightarrow> act_return ()
          | Some sid \<Rightarrow>
              act_bind (act_get (\<lambda>w. map_of (dw_pending (rw_disp w)) sid)) (\<lambda>interrupted.
              act_bind (case interrupted of
                          None \<Rightarrow> act_return ()
                        | Some (ip, ir) \<Rightarrow> enqueue_adhoc (busy_item env ip ir P1)) (\<lambda>_.
              upd_disp (\<lambda>d. d\<lparr>dw_cancelled := dw_cancelled d @ [sid]\<rparr>)))))"

definition enqueue_rejected_busy :: "recovery_env \<Rightarrow> task_path \<Rightarrow> string \<Rightarrow> unit recov" where
  "enqueue_rejected_busy env p recipient =
     act_bind (act_when (is_enqueue_allowed (Some p)) (queue_for_agent env p recipient)) (\<lambda>_.
     act_bind (act_get (\<lambda>w. read_priority env (rw_files w) p)) (\<lambda>priority.
     act_bind (enqueue_adhoc (busy_item env p recipient priority)) (\<lambda>_.
     act_when (priority = P0) (preempt env recipient))))"

section \<open>Draining the ad-hoc queue\<close>

definition fallback_retry_key :: "string \<Rightarrow> string \<Rightarrow> string" where
  "fallback_retry_key recipient filename = recipient @ '':'' @ strip_md filename"

definition adhoc_retry_key :: "recovery_env \<Rightarrow> adhoc_item \<Rightarrow> string" where
  "adhoc_retry_key env i =
     (case dv_agents (rv_dispatch env) (ai_recipient i) of
        a # _ \<Rightarrow> ag_id a @ '':'' @ strip_md (snd (ai_path i))
      | [] \<Rightarrow> fallback_retry_key (ai_recipient i) (snd (ai_path i)))"

definition should_defer :: "recovery_env \<Rightarrow> string \<Rightarrow> recovery_world \<Rightarrow> bool" where
  "should_defer env key w = should_defer_restore (rv_now env) (dw_cooldown (rw_disp w)) key (dw_retries (rw_disp w))"

definition due_retry :: "string \<Rightarrow> recovery_world \<Rightarrow> time option" where
  "due_retry key w =
     (case map_of (dw_retries (rw_disp w)) key of
        None \<Rightarrow> None | Some r \<Rightarrow> if rr_decision_required r then None else rr_next_retry r)"

definition schedule_drain :: "time \<Rightarrow> unit recov" where
  "schedule_drain t = act_update (\<lambda>w. w\<lparr>rw_drains := rw_drains w @ [t]\<rparr>)"

text \<open>An exception of the control plane is a failure that is retried.\<close>

definition failed_dispatch :: "recovery_env \<Rightarrow> string \<Rightarrow> task_path \<Rightarrow> recovery_error \<Rightarrow> unit recov" where
  "failed_dispatch env key p e = upd_disp (\<lambda>d.
     case retryable_outcome (rv_dispatch env) key (rv_error env e) no_failure_input d of
       (Inl out, d') \<Rightarrow> d' | (Inr out, d') \<Rightarrow> apply_outcome (rv_dispatch env) p out d')"

definition drain_item :: "recovery_env \<Rightarrow> adhoc_item \<Rightarrow> unit recov" where
  "drain_item env i =
     (let key = adhoc_retry_key env i in
      act_bind (act_get (\<lambda>w. (should_defer env key w, due_retry key w))) (\<lambda>(deferred, due).
      if deferred then
        act_bind (enqueue_adhoc i) (\<lambda>_.
        case due of None \<Rightarrow> act_return () | Some t \<Rightarrow> schedule_drain (rv_now env + max 0 (t - rv_now env)))
      else
        (\<lambda>w. case control_plane env ''adhoc_queue'' default_opts (ai_path i) (Some (ai_recipient i)) w of
           (Inl e, w') \<Rightarrow> failed_dispatch env key (ai_path i) e w'
         | (Inr out, w') \<Rightarrow>
             (case out of Out_rejected_busy r st \<Rightarrow> enqueue_adhoc i w' | _ \<Rightarrow> (Inr (), w')))))"

definition drain_adhoc_queue :: "recovery_env \<Rightarrow> unit recov" where
  "drain_adhoc_queue env =
     act_bind (act_get (\<lambda>w. (rw_adhoc w, dw_cooldown (rw_disp w), rw_files w))) (\<lambda>(q, cooldown, fs).
     if q = [] then act_return ()
     else if cooldown_active (rv_now env) cooldown then
       (let delay = max 0 (co_until cooldown - rv_now env) in
        schedule_drain (rv_now env + (if delay = 0 then 5000 else delay)))
     else
       let (item, rest) = shift_live fs q in
       act_bind (act_update (\<lambda>w. w\<lparr>rw_adhoc := rest\<rparr>)) (\<lambda>_.
       case item of None \<Rightarrow> act_return () | Some i \<Rightarrow> drain_item env i))"

section \<open>Released dependencies\<close>

definition dispatch_released :: "recovery_env \<Rightarrow> task_path \<times> string \<Rightarrow> unit recov" where
  "dispatch_released env = (\<lambda>(p, recipient) w.
     case control_plane env ''dependency_release'' default_opts p (Some recipient) w of
       (Inl e, w') \<Rightarrow> (Inr (), w')
     | (Inr out, w') \<Rightarrow>
         (case out of Out_rejected_busy r st \<Rightarrow> enqueue_rejected_busy env p recipient w' | _ \<Rightarrow> (Inr (), w')))"

definition release_and_dispatch :: "recovery_env \<Rightarrow> unit recov" where
  "release_and_dispatch env =
     act_bind (act_get (\<lambda>w. rv_release env (rw_files w))) (\<lambda>(fs, released).
     act_bind (upd_disp (\<lambda>d. d\<lparr>dw_lc := (dw_lc d)\<lparr>w_files := fs\<rparr>\<rparr>)) (\<lambda>_.
     act_each (dispatch_released env) released))"

definition on_session_settled :: "recovery_env \<Rightarrow> unit recov" where
  "on_session_settled env = act_bind (release_and_dispatch env) (\<lambda>_. drain_adhoc_queue env)"

section \<open>The end of a session\<close>

record session_event =
  se_cancelled :: bool          \<comment> \<open>\<^verbatim>\<open>runtime.session_cancelled\<close> rather than \<^verbatim>\<open>runtime.session_ended\<close>\<close>
  se_agent :: string
  se_status :: "string option"
  se_report_written :: bool
  se_failure_code :: "string option"
  se_failure_category :: "string option"
  se_task_id :: "string option"
  se_tool_calls :: int
  se_error :: "string option"
  se_reason :: "string option"
  se_fingerprint :: "string option"
  se_approval :: "string option"      \<comment> \<open>fields of \<^verbatim>\<open>operation_outcome\<close>\<close>
  se_project :: "string option"
  se_outcome_task :: "string option"
  se_thread :: "string option"
  se_role :: "string option"

text \<open>What the dispatcher remembers of a session it started.\<close>

record settlement =
  st_session :: string
  st_path :: task_path
  st_recipient :: string
  st_task :: string
  st_report_recipient :: string
  st_agent :: string
  st_attempt :: "string option"

definition describe_settlement :: "session_event \<Rightarrow> string option" where
  "describe_settlement e =
     (if se_cancelled e then (if truthy (se_reason e) then Some (''reason='' @ str_of (se_reason e)) else None)
      else if se_failure_code e = Some ''TURN_LIMIT'' then
        Some (''status='' @ or_else (se_status e) ''failed'' @ '', failure_code=TURN_LIMIT (escalate via ISSUE-*)'')
      else if truthy (se_error e) then
        Some (''status='' @ or_else (se_status e) ''?'' @ '', error='' @ str_of (se_error e))
      else if truthy (se_status e) then Some (''status='' @ str_of (se_status e))
      else None)"

definition settled_status :: "session_event \<Rightarrow> attempt_status" where
  "settled_status e =
     (if se_report_written e then At_reported
      else if se_cancelled e \<or> js_lower (str_of (se_status e)) \<in> {''failed'', ''timeout'', ''cancelled''}
      then At_session_failed else At_settled)"

definition event_task :: "session_event \<Rightarrow> task_path \<Rightarrow> string" where
  "event_task e p =
     (let raw = js_trim (str_of (se_task_id e)) in
      canonical_dispatch_id (snd p) (Some (if raw = [] then strip_md (snd p) else raw)))"

definition event_code :: "session_event \<Rightarrow> string" where
  "event_code e = js_upper (js_trim (str_of (se_failure_code e)))"

definition event_category :: "session_event \<Rightarrow> string" where
  "event_category e = js_lower (js_trim (str_of (se_failure_category e)))"

definition event_status :: "session_event \<Rightarrow> string" where
  "event_status e = js_lower (str_of (se_status e))"

definition thread_of :: "task_files \<Rightarrow> task_path \<Rightarrow> string" where
  "thread_of fs p = (case map_of fs p of Some (Task_file fm body) \<Rightarrow> js_trim (str_of (fm_thread_key fm)) | _ \<Rightarrow> [])"

definition agent_role_text :: "string \<Rightarrow> string" where
  "agent_role_text a = js_upper (takeWhile (\<lambda>c. c \<notin> set ''-_:'') a)"

definition operation_approval_required :: string where
  "operation_approval_required = ''OPERATION_APPROVAL_REQUIRED''"

text \<open>The session waits for an approval only if the stored record confirms it, field by field.\<close>

definition confirms_wait :: "recovery_env \<Rightarrow> session_event \<Rightarrow> task_path \<Rightarrow> string \<Rightarrow> approval_record \<Rightarrow> bool" where
  "confirms_wait env e p thread r \<longleftrightarrow>
     is_pending_approval_status (ap_status r) \<and> ap_notice_delivered r
   \<and> rv_resolve env (ap_project_root r) = rv_resolve env (rv_root env) \<and> ap_project_id r = str_of (se_project e)
   \<and> str_of (ap_task_id r) = event_task e p \<and> str_of (ap_task_id r) = str_of (se_outcome_task e)
   \<and> str_of (ap_thread_key r) = str_of (se_thread e) \<and> thread \<noteq> [] \<and> str_of (ap_thread_key r) = thread
   \<and> js_upper (cr_role (ap_request r)) = agent_role_text (se_agent e)
   \<and> js_upper (cr_role (ap_request r)) = js_upper (str_of (se_role e))
   \<and> str_of (ap_fingerprint r) = str_of (se_fingerprint e)"

definition approval_wait :: "recovery_env \<Rightarrow> session_event \<Rightarrow> task_path \<Rightarrow> string \<Rightarrow> bool" where
  "approval_wait env e p thread \<longleftrightarrow>
     event_code e = operation_approval_required \<and> event_status e = ''waiting_approval''
   \<and> js_trim (str_of (se_approval e)) \<noteq> [] \<and> rv_root env \<noteq> []
   \<and> (case rv_approval env (js_trim (str_of (se_approval e))) of None \<Rightarrow> False | Some r \<Rightarrow> confirms_wait env e p thread r)"

definition policy_codes :: "string list" where
  "policy_codes = [operation_approval_required, ''APPROVAL_REQUIRED'', ''APPROVAL_PENDING'',
     ''OPERATION_BOUNDARY_DENIED'', ''ABSOLUTELY_PROHIBITED'', ''CODEFLOWMU_POLICY_BLOCKED'']"

definition is_governance_block :: "bool \<Rightarrow> session_event \<Rightarrow> bool" where
  "is_governance_block waiting e \<longleftrightarrow>
     event_code e = ''CODEFLOWMU_POLICY_BLOCKED'' \<or> waiting
   \<or> event_category e \<in> {''policy_blocked'', ''policy_denied'', ''approval_required'', ''governance''}"

text \<open>The mark in the task file: the state stays (a written \<^verbatim>\<open>waiting_approval\<close> becomes active), the other fields
  name the approval.\<close>

definition mark_waiting :: "recovery_env \<Rightarrow> session_event \<Rightarrow> task_path \<Rightarrow> string recov" where
  "mark_waiting env e p =
     (\<lambda>w. let fs = rw_files w; r = resolve_for_mutation (rv_dispatch env) fs p in
        case map_of fs r of
          Some (Task_file fm body) \<Rightarrow>
            (let cur = (let s = js_trim (str_of (fm_state fm)) in if s = [] then ''dispatched'' else s);
                 st = (if cur = ''waiting_approval'' then ''active'' else cur) in
             (Inr st, w\<lparr>rw_disp := (rw_disp w)\<lparr>dw_lc := (dw_lc (rw_disp w))\<lparr>w_files :=
                 AList.update r (Task_file (fm\<lparr>fm_state := Some st\<rparr>) body) fs\<rparr>\<rparr>,
               rw_waits := rw_waits w @ [(r, js_trim (str_of (se_approval e)))]\<rparr>))
        | _ \<Rightarrow> (Inr ''active'', w))"

definition governance_wait :: "recovery_env \<Rightarrow> session_event \<Rightarrow> task_path \<Rightarrow> unit recov" where
  "governance_wait env e p =
     act_bind (mark_waiting env e p) (\<lambda>st.
     note_history env p st st
       ((if event_code e = [] then ''CODEFLOWMU_POLICY_BLOCKED'' else event_code e) @ '': guard worked; retry_policy=none''))"

definition restore_dispatched :: "recovery_env \<Rightarrow> task_path \<Rightarrow> string \<Rightarrow> string option \<Rightarrow> unit recov" where
  "restore_dispatched env p reason key =
     act_bind (act_get (should_defer env (or_else key (path_text p)))) (\<lambda>deferred.
     act_when (\<not> deferred)
       (act_catch (on_lifecycle (restore_to_inbox (rv_dispatch env) p reason)) (\<lambda>e. act_return ())))"

definition breaker_hit :: "recovery_env \<Rightarrow> session_event \<Rightarrow> unit recov" where
  "breaker_hit env e =
     act_when (se_tool_calls e = 0) (act_update (\<lambda>w.
       case record_failed_zero_toolcall (rv_breaker env) (rv_now env) (rw_hits w, dw_cooldown (rw_disp w)) of
         (opened, hits, cooldown) \<Rightarrow> w\<lparr>rw_hits := hits, rw_disp := (rw_disp w)\<lparr>dw_cooldown := cooldown\<rparr>\<rparr>))"

definition event_reason :: "session_event \<Rightarrow> string" where
  "event_reason e = or_else (coalesce (se_error e) (se_reason e)) (''session_'' @ event_status e)"

definition record_session_failure :: "recovery_env \<Rightarrow> session_event \<Rightarrow> task_path \<Rightarrow> string \<Rightarrow> retry_record recov" where
  "record_session_failure env e p key =
     (\<lambda>w. case record_failure (dv_retry (rv_dispatch env)) (rv_now env) (dv_random (rv_dispatch env)) key
            (Js_error ''Error'' (event_reason e) None None None)
            (no_failure_input\<lparr>fi_filepath := Some (path_text p), fi_task_id := Some (event_task e p), fo_retryable := Some True\<rparr>)
            (dw_retries (rw_disp w)) of
        (r, m) \<Rightarrow> (Inr r, w\<lparr>rw_disp := (rw_disp w)\<lparr>dw_retries := m\<rparr>\<rparr>))"

definition retry_failed_session :: "recovery_env \<Rightarrow> session_event \<Rightarrow> task_path \<Rightarrow> string \<Rightarrow> unit recov" where
  "retry_failed_session env e p key =
     act_bind (record_session_failure env e p key) (\<lambda>r.
     act_bind (breaker_hit env e) (\<lambda>_.
     if rr_decision_required r then
       note_history env p ''dispatched'' ''waiting_admin_decision'' (event_reason e)
     else
       let due = or_else (rr_next_retry r) (rv_now env) in
       if rv_now env < due then upd_disp (schedule_retry (rv_dispatch env) key due)
       else
         act_bind (restore_dispatched env p (''session_'' @ event_status e) (Some key)) (\<lambda>_.
         note_history env p ''dispatched'' ''inbox''
           (''restored after session '' @ event_status e @ '' (no REPORT on disk)''))))"

definition pm_waits :: "session_event \<Rightarrow> task_path \<Rightarrow> pm_guard \<Rightarrow> bool" where
  "pm_waits e p g \<longleftrightarrow>
     pg_waiting g \<and> js_starts (js_upper (se_agent e)) ''PM'' \<and> js_ends (js_lower (snd p)) ''-admin-to-pm.md''"

definition maybe_restore_inbox :: "recovery_env \<Rightarrow> session_event \<Rightarrow> task_path \<Rightarrow> unit recov" where
  "maybe_restore_inbox env e p =
     (if se_cancelled e \<or> se_failure_code e = Some ''TRANSIENT_SDK_DELAYED'' then act_return ()
      else
        act_bind (act_get (\<lambda>w. approval_wait env e p (thread_of (rw_files w) p))) (\<lambda>waiting.
        if \<not> waiting \<and> event_code e \<in> set policy_codes then act_return ()
        else if \<not> waiting \<and> event_status e \<notin> {''failed'', ''timeout''} then act_return ()
        else if se_report_written e then act_return ()
        else if is_governance_block waiting e then governance_wait env e p
        else
          act_bind (act_get (\<lambda>w. pm_waits e p (rw_guard w))) (\<lambda>held.
          let key = se_agent e @ '':'' @ event_task e p in
          act_bind (act_get (should_defer env key)) (\<lambda>deferred.
          act_when (\<not> held \<and> \<not> deferred) (retry_failed_session env e p key)))))"

text \<open>The first event of a session settles it; any other finds it settled.\<close>

definition ask_for_report :: "session_event \<Rightarrow> settlement \<Rightarrow> unit recov" where
  "ask_for_report e s =
     act_when (is_worker_role (js_upper (st_recipient s))) (act_update (\<lambda>w.
       w\<lparr>rw_asks := rw_asks w @ [\<lparr>ra_task = st_task s, ra_reporter = st_recipient s,
           ra_recipient = st_report_recipient s, ra_cancelled = se_cancelled e, ra_session = st_session s\<rparr>]\<rparr>))"

definition free_session :: "settlement \<Rightarrow> unit recov" where
  "free_session s = upd_disp (\<lambda>d. d\<lparr>dw_pending := AList.delete (st_session s) (dw_pending d),
                                     dw_running := AList.delete (st_agent s) (dw_running d)\<rparr>)"

definition finish_session_attempt :: "recovery_env \<Rightarrow> session_event \<Rightarrow> settlement \<Rightarrow> unit recov" where
  "finish_session_attempt env e s =
     (case st_attempt s of
        None \<Rightarrow> act_return ()
      | Some a \<Rightarrow>
          act_when (a \<noteq> []) (on_attempts (\<lambda>s. ((), finish_attempt (rv_now env) a (settled_status e)
            (if truthy (describe_settlement e) then describe_settlement e else None) s))))"

definition handle_session_settlement :: "recovery_env \<Rightarrow> session_event \<Rightarrow> settlement \<Rightarrow> unit recov" where
  "handle_session_settlement env e s =
     act_bind (act_get (\<lambda>w. map_of (dw_pending (rw_disp w)) (st_session s))) (\<lambda>pending.
     if pending = None then act_return ()
     else
       act_bind (free_session s) (\<lambda>_.
       act_bind (finish_session_attempt env e s) (\<lambda>_.
       act_bind (ask_for_report e s) (\<lambda>_.
       act_bind (note_history env (st_path s) ''dispatched'' (if se_cancelled e then ''cancelled'' else ''ended'')
         (str_of (describe_settlement e))) (\<lambda>_.
       act_bind (maybe_restore_inbox env e (st_path s)) (\<lambda>_.
       (\<lambda>w. (Inr (), snd (complete_agent_task_and_advance env (st_agent s) (st_task s) (Some (st_session s)) w)))))))))"

section \<open>The retry timer\<close>

definition retry_timer :: "recovery_env \<Rightarrow> string \<Rightarrow> task_path \<Rightarrow> string \<Rightarrow> string \<Rightarrow> unit recov" where
  "retry_timer env key p recipient note =
     act_bind (act_get (\<lambda>w. (should_defer env key w, due_retry key w))) (\<lambda>(deferred, due).
     if deferred then
       (case due of None \<Rightarrow> act_return () | Some t \<Rightarrow> upd_disp (schedule_retry (rv_dispatch env) key t))
     else
       act_bind (restore_dispatched env p note None) (\<lambda>_.
       act_bind (act_get (\<lambda>w. read_priority env (rw_files w) p)) (\<lambda>priority.
       act_bind (enqueue_adhoc (busy_item env p recipient priority)) (\<lambda>_.
       on_session_settled env))))"

end
