(* ===== verification/Dispatch_Recovery.thy ===== *)
theory Dispatch_Recovery
  imports Session_Settlement
begin

text \<open>
  The other ways a task reaches the control plane (\<^verbatim>\<open>scheduler/TaskDispatcher.ts\<close>): the watcher and the periodic
  scan of the inbox, with the reconciliation of files whose state contradicts their place and the tasks that
  are held for an explicit dispatch; dispatch again by the PM or by ADMIN; the claim by an agent itself. And
  the pause and resumption of a running task (\<^verbatim>\<open>pm/agentTaskQueueControl.ts\<close>), the classification of a
  stalled task (\<^verbatim>\<open>scheduler/TaskDispatchStall.ts\<close>).
\<close>

section \<open>Reconciliation before a dispatch\<close>

datatype reconcile_action =
  Already_consistent | Recoverable_conflict | Confirmed_live_session | Report_reconciled | Repaired_to_inbox

definition goes_on :: "reconcile_action \<Rightarrow> bool" where
  "goes_on a \<longleftrightarrow> a \<in> {Already_consistent, Repaired_to_inbox}"

definition frontmatter_state :: "parsed_task \<Rightarrow> string" where
  "frontmatter_state t =
     js_lower (js_trim (let v = fm_get (pt_frontmatter t) ''state'' in if v = V_null then ''inbox'' else fm_text v))"

definition task_session :: "string \<Rightarrow> string \<Rightarrow> execution_lease option \<Rightarrow> live_session \<Rightarrow> bool" where
  "task_session task role lease s \<longleftrightarrow>
     live_task_id s = norm_queue_task_id task \<and> normalize_dispatch_role (ls_agent s) = normalize_dispatch_role role
   \<and> (case lease of None \<Rightarrow> True | Some l \<Rightarrow> el_session_id l = ls_id s)"

definition task_attempts :: "recovery_env \<Rightarrow> string \<Rightarrow> (dispatch_attempt option \<times> execution_lease option) recov" where
  "task_attempts env task = act_get (\<lambda>w.
     case get_task_state (rv_now env) task (dw_store (rw_disp w)) of
       (as, l) \<Rightarrow> (if as = [] then None else Some (last as), l))"

definition confirm_active ::
  "recovery_env \<Rightarrow> dispatch_attempt option \<Rightarrow> execution_lease option \<Rightarrow> string option \<Rightarrow> task_path \<Rightarrow> task_path recov" where
  "confirm_active env att lease agent p =
     on_lifecycle (await_dispatch_inbox_to_active (rv_dispatch env)
       \<lparr>dc_attempt = map_option at_id att, dc_lease = map_option el_id lease, dc_agent = agent, dc_decision = None\<rparr> p)"

definition settle_report :: "recovery_env \<Rightarrow> string \<Rightarrow> unit recov" where
  "settle_report env path = upd_disp (\<lambda>d. d\<lparr>dw_lc := rv_settle_report env path (dw_lc d)\<rparr>)"

definition fail_lost_attempt :: "recovery_env \<Rightarrow> string \<Rightarrow> dispatch_attempt option \<Rightarrow> unit recov" where
  "fail_lost_attempt env source att =
     (case att of
        None \<Rightarrow> act_return ()
      | Some a \<Rightarrow>
          act_when (at_status a \<notin> {At_settled, At_rejected, At_expired, At_stale, At_session_failed, At_superseded})
            (on_attempts (\<lambda>s. ((), finish_attempt (rv_now env) (at_id a) At_session_failed
               (Some (source @ '':no_live_session'')) s))))"

definition reconcile_task ::
  "recovery_env \<Rightarrow> task_path \<Rightarrow> string \<Rightarrow> string \<Rightarrow> string \<Rightarrow> (reconcile_action \<times> task_path) recov" where
  "reconcile_task env p recipient sender source =
     act_bind (parse_now env p) (\<lambda>parsed.
     case parsed of
       None \<Rightarrow> act_throw Rec_unreadable
     | Some t \<Rightarrow>
         if frontmatter_state t = ''inbox'' then act_return (Already_consistent, p)
         else if frontmatter_state t \<notin> {''dispatched'', ''running'', ''active''} then act_return (Recoverable_conflict, p)
         else
           let task = canonical_dispatch_id (snd p) (pt_task_id t) in
           act_bind (task_attempts env task) (\<lambda>(att, lease).
           case List.find (task_session task recipient lease) (dv_sessions (rv_dispatch env)) of
             Some s \<Rightarrow>
               act_bind (confirm_active env att lease (Some (ls_agent s)) p) (\<lambda>q. act_return (Confirmed_live_session, q))
           | None \<Rightarrow>
               (case rv_report env task (normalize_dispatch_role recipient) (normalize_dispatch_role sender) of
                  Some report \<Rightarrow>
                    act_bind (on_lifecycle (repair_inbox_split (rv_dispatch env) p (source @ '':report_exists''))) (\<lambda>q.
                    act_bind (confirm_active env att lease (map_option el_agent_id lease) q) (\<lambda>_.
                    act_bind (settle_report env report) (\<lambda>_. act_return (Report_reconciled, q))))
                | None \<Rightarrow>
                    act_bind (fail_lost_attempt env source att) (\<lambda>_.
                    act_bind (on_lifecycle (repair_inbox_split (rv_dispatch env) p (source @ '':no_live_session''))) (\<lambda>q.
                    act_return (Repaired_to_inbox, q))))))"

section \<open>Held tasks and the watcher\<close>

definition raw_field :: "parsed_task option \<Rightarrow> string \<Rightarrow> string option" where
  "raw_field t k =
     (case t of None \<Rightarrow> None | Some u \<Rightarrow> keep_text (js_trim (fm_text (fm_get (pt_frontmatter u) k))))"

definition explicit_hold :: "recovery_env \<Rightarrow> task_files \<Rightarrow> task_path \<Rightarrow> string \<Rightarrow> string \<Rightarrow> hold_reason option" where
  "explicit_hold env fs p sender recipient =
     (let t = parse_path (rv_dispatch env) fs p in
      resolve_explicit_dispatch_hold_reason
        \<lparr>hi_sender = Some sender, hi_recipient = Some recipient, hi_filename = Some (snd p),
         hi_protocol = raw_field t ''protocol'', hi_fm_sender = raw_field t ''sender'',
         hi_parent = raw_field t ''parent'', hi_parent_task_id = raw_field t ''parent_task_id'',
         hi_rework_of = raw_field t ''rework_of''\<rparr>)"

fun hold_text :: "hold_reason \<Rightarrow> string" where
  "hold_text Untrusted_source = ''untrusted_source''"
| "hold_text Missing_provenance = ''missing_provenance''"
| "hold_text Manual_import = ''manual_import''"
| "hold_text Child_subtask = ''child_subtask''"

definition hold_marker :: "hold_reason \<Rightarrow> string" where
  "hold_marker r = ''reason='' @ hold_text r @ ''; awaiting explicit dispatch_task''"

text \<open>\<open>None\<close> is \<^verbatim>\<open>held_in_inbox\<close>; the marker is looked for in the text of the file, whose history is part of it.\<close>

definition register_held ::
  "recovery_env \<Rightarrow> task_path \<Rightarrow> string \<Rightarrow> hold_reason \<Rightarrow> dispatch_outcome option recov" where
  "register_held env p recipient r =
     (if is_observer_role recipient then act_return (Some (Out_observer_bypass recipient))
      else
        act_bind (act_get (\<lambda>w. (map_of (rw_files w) p, dw_history (rw_disp w)))) (\<lambda>(file, history).
        case file of
          Some (Task_file fm body) \<Rightarrow>
            if or_else (file_state fm) ''inbox'' \<noteq> ''inbox'' then act_return (Some (Out_already_dispatched None))
            else if js_includes body (hold_marker r)
                 \<or> list_ex (\<lambda>(n, h). n = snd p \<and> js_includes (he_note h) (hold_marker r)) history then act_return None
            else act_bind (note_history env p ''inbox'' ''held'' (hold_marker r)) (\<lambda>_. act_return None)
        | _ \<Rightarrow> act_return (Some Out_parse_failed)))"

definition handle_outcome :: "recovery_env \<Rightarrow> task_path \<Rightarrow> string \<Rightarrow> dispatch_outcome option \<Rightarrow> unit recov" where
  "handle_outcome env p recipient out =
     (case out of
        None \<Rightarrow> act_return ()
      | Some (Out_already_dispatched s) \<Rightarrow> act_return ()
      | Some (Out_observer_bypass r) \<Rightarrow> act_return ()
      | Some x \<Rightarrow> upd_disp (apply_outcome (rv_dispatch env) p x))"

definition watch_dispatch :: "recovery_env \<Rightarrow> task_path \<Rightarrow> string \<Rightarrow> unit recov" where
  "watch_dispatch env p recipient =
     act_bind (control_plane env ''inbox_watcher'' default_opts p (Some recipient)) (\<lambda>out.
     case out of Out_rejected_busy r st \<Rightarrow> enqueue_rejected_busy env p recipient | _ \<Rightarrow> act_return ())"

definition handle_inbox :: "recovery_env \<Rightarrow> task_path \<Rightarrow> string \<Rightarrow> string \<Rightarrow> unit recov" where
  "handle_inbox env p recipient sender w =
     (let key = fallback_retry_key recipient (snd p) in
      case reconcile_task env p recipient sender ''watcher_event'' w of
        (Inl e, w') \<Rightarrow> failed_dispatch env key p e w'
      | (Inr (action, q), w') \<Rightarrow>
          act_when (goes_on action)
            (act_catch
              (act_bind (act_get (\<lambda>w. explicit_hold env (rw_files w) q sender recipient)) (\<lambda>hold.
               case hold of
                 Some r \<Rightarrow> act_bind (register_held env q recipient r) (handle_outcome env q recipient)
               | None \<Rightarrow> watch_dispatch env q recipient))
              (failed_dispatch env key q)) w')"

text \<open>The names the scan looks at.\<close>

definition inbox_task_name :: "string \<Rightarrow> bool" where
  "inbox_task_name s \<longleftrightarrow>
     (case task_id_prefix s of
        None \<Rightarrow> False
      | Some pre \<Rightarrow>
          let r = drop (length pre) s; sender = takeWhile alnum (drop 1 r); r2 = drop (1 + length sender) r;
              tail = drop 4 r2 in
          take 1 r = ''-'' \<and> sender \<noteq> [] \<and> js_lower (take 4 r2) = ''-to-'' \<and> js_ends (js_lower tail) ''.md''
          \<and> list_all (\<lambda>part. part \<noteq> [] \<and> list_all alnum part) (js_split (CHR ''-'') (take (length tail - 3) tail)))"

definition scan_entry :: "recovery_env \<Rightarrow> task_path \<Rightarrow> unit recov" where
  "scan_entry env p =
     (let recipient = extract_recipient_from_filename (snd p); sender = extract_sender_from_filename (snd p) in
      act_bind (act_get (\<lambda>w. map_of (rw_files w) p)) (\<lambda>file.
      if \<not> inbox_task_name (snd p) \<or> file = None \<or> recipient = [] \<or> sender = [] then act_return ()
      else
        act_bind (reconcile_task env p recipient sender ''periodic_reconcile'') (\<lambda>(action, q).
        act_when (goes_on action) (handle_inbox env p recipient sender))))"

definition reconcile_inbox_now :: "recovery_env \<Rightarrow> unit recov" where
  "reconcile_inbox_now env =
     act_bind (act_get (\<lambda>w. map (\<lambda>n. (Inbox, n)) (stage_filenames Inbox (rw_files w)))) (\<lambda>paths.
     act_catch (act_each (scan_entry env) paths) (\<lambda>e. act_return ()))"

section \<open>Dispatch again\<close>

definition locate :: "string \<Rightarrow> task_path option recov" where
  "locate task = act_get (\<lambda>w. find_task_path_by_id (rw_files w) task)"

definition demand :: "recovery_error \<Rightarrow> 'a option \<Rightarrow> 'a recov" where
  "demand e x = (case x of None \<Rightarrow> act_throw e | Some y \<Rightarrow> act_return y)"

record redispatch =
  rd_task :: string
  rd_mode :: attempt_mode
  rd_role :: "string option"
  rd_agent :: "string option"
  rd_key :: string

text \<open>An active task without a session goes back to the inbox; with a report it is settled instead.\<close>

definition redispatch_active ::
  "recovery_env \<Rightarrow> redispatch \<Rightarrow> task_path \<Rightarrow> string \<Rightarrow> string \<Rightarrow> dispatch_outcome option recov" where
  "redispatch_active env i p role sender =
     act_bind (task_attempts env (rd_task i)) (\<lambda>(att, lease).
     case List.find (task_session (rd_task i) (or_else (rd_agent i) role) lease) (dv_sessions (rv_dispatch env)) of
       Some s \<Rightarrow> act_return (Some (Out_already_dispatched (Some (ls_id s))))
     | None \<Rightarrow>
         (case rv_report env (rd_task i) (normalize_dispatch_role role) (normalize_dispatch_role sender) of
            Some report \<Rightarrow>
              act_bind (settle_report env report) (\<lambda>_. act_return (Some (Out_skipped ''already_done'')))
          | None \<Rightarrow>
              act_bind (on_lifecycle (restore_to_inbox (rv_dispatch env) p (''redispatch:'' @ mode_text (rd_mode i)))) (\<lambda>_.
              act_return None)))"

definition redispatch_inbox ::
  "recovery_env \<Rightarrow> redispatch \<Rightarrow> task_path \<Rightarrow> string \<Rightarrow> string \<Rightarrow> dispatch_outcome option recov" where
  "redispatch_inbox env i p role sender =
     act_bind (reconcile_task env p role sender (''redispatch:'' @ mode_text (rd_mode i))) (\<lambda>(action, q).
     if goes_on action then act_return None
     else if action = Confirmed_live_session then
       act_bind (task_attempts env (rd_task i)) (\<lambda>(att, lease).
       act_return (Some (Out_already_dispatched (map_option el_session_id lease))))
     else act_return (Some (Out_skipped (if action = Report_reconciled then ''already_done'' else ''lifecycle_split''))))"

definition redispatch_located ::
  "recovery_env \<Rightarrow> redispatch \<Rightarrow> string \<Rightarrow> task_path option \<Rightarrow> dispatch_outcome recov" where
  "redispatch_located env i role located =
     (case located of
        Some p \<Rightarrow>
          if fst p = Inbox then
            control_plane env ''pm_redispatch''
              \<lparr>cpo_mode = Some (rd_mode i), cpo_key = Some (rd_key i), cpo_bypass = False,
               cpo_agent = (if truthy (rd_agent i) then rd_agent i else None)\<rparr> p (Some role)
          else act_return (Out_skipped ''lifecycle_error'')
      | None \<Rightarrow> act_return (Out_skipped ''lifecycle_error''))"

definition redispatch_from :: "recovery_env \<Rightarrow> redispatch \<Rightarrow> string \<Rightarrow> string \<Rightarrow> task_path option \<Rightarrow> dispatch_outcome recov" where
  "redispatch_from env i role sender located =
     (case located of
        None \<Rightarrow> act_return Out_no_task_id
      | Some p \<Rightarrow>
          if fst p = Inbox then
            act_bind (parse_now env p) (\<lambda>parsed.
            act_bind (demand Rec_unreadable parsed) (\<lambda>t.
            act_bind (redispatch_inbox env i p role sender) (\<lambda>early.
            case early of
              Some out \<Rightarrow> act_return out
            | None \<Rightarrow> act_bind (locate (rd_task i)) (redispatch_located env i role))))
          else redispatch_located env i role located)"

definition redispatch_task :: "recovery_env \<Rightarrow> redispatch \<Rightarrow> dispatch_outcome recov" where
  "redispatch_task env i =
     act_bind (locate (rd_task i)) (\<lambda>located.
     case located of
       None \<Rightarrow> act_return Out_no_task_id
     | Some p \<Rightarrow>
         act_bind (parse_now env p) (\<lambda>parsed.
         act_bind (demand Rec_unreadable parsed) (\<lambda>t.
         let role = or_else (coalesce (rd_role i) (pt_recipient t)) (extract_recipient_from_filename (snd p));
             sender = or_else (pt_sender t) (extract_sender_from_filename (snd p)) in
         if fst p = Active then
           act_bind (redispatch_active env i p role sender) (\<lambda>early.
           case early of
             Some out \<Rightarrow> act_return out
           | None \<Rightarrow> act_bind (locate (rd_task i)) (redispatch_from env i role sender))
         else redispatch_from env i role sender (Some p))))"

definition admin_retry_dispatch :: "recovery_env \<Rightarrow> task_path \<Rightarrow> string \<Rightarrow> string \<Rightarrow> dispatch_outcome recov" where
  "admin_retry_dispatch env p recipient key =
     act_bind (act_get (\<lambda>w. admin_retry (rv_now env) key (dw_retries (rw_disp w)))) (\<lambda>(r, m).
     if r = None then act_return Out_no_task_id
     else
       act_bind (upd_disp (\<lambda>d. d\<lparr>dw_retries := m\<rparr>)) (\<lambda>_.
       redispatch_task env
         \<lparr>rd_task = strip_md (snd p), rd_mode = Mode_repair_retry, rd_role = Some recipient, rd_agent = None,
          rd_key = ''admin-retry:'' @ key\<rparr>))"

definition admin_force_archive_dispatch :: "recovery_env \<Rightarrow> task_path \<Rightarrow> string \<Rightarrow> unit recov" where
  "admin_force_archive_dispatch env p key =
     act_bind (act_get (\<lambda>w. admin_force_archive key (dw_retries (rw_disp w)))) (\<lambda>(r, m).
     case r of
       None \<Rightarrow> act_return ()
     | Some x \<Rightarrow>
         act_bind (upd_disp (\<lambda>d. d\<lparr>dw_retries := m\<rparr>)) (\<lambda>_.
         note_history env p ''dispatched'' ''admin_force_archive'' (rr_last_error x)))"

section \<open>The claim by an agent\<close>

record claim_request =
  cq_task :: string
  cq_role :: string
  cq_agent :: string
  cq_session :: string
  cq_key :: "string option"

datatype self_claim =
  Self_held execution_lease
| Self_refused claim_result
| Self_claimed string string task_path      \<comment> \<open>attempt, lease, path\<close>

definition assert_executor_identity :: "recovery_env \<Rightarrow> claim_request \<Rightarrow> unit recov" where
  "assert_executor_identity env i =
     (if (case rv_agent_role env (cq_agent i) of None \<Rightarrow> True | Some r \<Rightarrow> js_upper r \<noteq> js_upper (js_trim (cq_role i)))
      then act_throw Agent_role_mismatch
      else act_when (rv_session_of env (cq_session i) \<noteq> Some (cq_agent i, ''running'')) (act_throw Session_mismatch))"

definition claim_located :: "recovery_env \<Rightarrow> claim_request \<Rightarrow> task_path recov" where
  "claim_located env i =
     act_bind (locate (cq_task i)) (\<lambda>located.
     act_bind (demand Task_not_found located) (\<lambda>p.
     if fst p \<noteq> Inbox then act_return p
     else
       act_bind (parse_now env p) (\<lambda>parsed.
       act_bind (demand Rec_unreadable parsed) (\<lambda>t.
       act_bind (reconcile_task env p
         (or_else (pt_recipient t) (extract_recipient_from_filename (snd p)))
         (or_else (pt_sender t) (extract_sender_from_filename (snd p))) ''agent_claim'') (\<lambda>(action, q).
       if goes_on action then act_return p
       else act_bind (locate (cq_task i)) (demand Task_not_found))))))"

definition self_offer :: "recovery_env \<Rightarrow> claim_request \<Rightarrow> task_path \<Rightarrow> parsed_task \<Rightarrow> string \<Rightarrow> string \<Rightarrow> offer_input" where
  "self_offer env i p t task op =
     \<lparr>oi_task_id = task, oi_task_path = path_text p, oi_content_hash = Some (dv_content_hash (rv_dispatch env) t),
      oi_thread_key = keep_text (str_of (pt_thread_key t)), oi_parent_task_id = None, oi_target_role = cq_role i,
      oi_target_agent_id = Some (cq_agent i), oi_source = ''agent_self_claim'', oi_mode = Mode_agent_claim,
      oi_idempotency_key = Some op\<rparr>"

definition self_claim_input :: "claim_request \<Rightarrow> string \<Rightarrow> string \<Rightarrow> claim_input" where
  "self_claim_input i task attempt =
     \<lparr>cl_task_id = task, cl_attempt_id = attempt, cl_agent_id = cq_agent i, cl_session_id = cq_session i, cl_ttl = None\<rparr>"

definition claim_operation :: "claim_request \<Rightarrow> string \<Rightarrow> string" where
  "claim_operation i task = or_else (cq_key i) (''agent-claim:'' @ task @ '':'' @ cq_session i)"

definition claim_admit :: "recovery_env \<Rightarrow> claim_request \<Rightarrow> parsed_task \<Rightarrow> unit recov" where
  "claim_admit env i t =
     (if js_upper (str_of (pt_recipient t)) \<noteq> js_upper (cq_role i) then act_throw Recipient_mismatch
      else if \<not> list_ex (\<lambda>a. ag_id a = cq_agent i) (dv_agents (rv_dispatch env) (cq_role i)) then act_throw Agent_role_mismatch
      else
        let v = evaluate_task_dependency_gate t (Some (dv_project (rv_dispatch env))) in
        act_when (\<not> dep_allowed v) (act_throw (Dependency_pending v)))"

text \<open>The lease is taken, then the file moves: an exception of the move leaves the lease.\<close>

definition activate_claim ::
  "recovery_env \<Rightarrow> claim_request \<Rightarrow> task_path \<Rightarrow> execution_decision \<Rightarrow> string \<Rightarrow> execution_lease \<Rightarrow> self_claim recov" where
  "activate_claim env i p decision attempt l =
     act_bind (on_lifecycle (await_dispatch_inbox_to_active (rv_dispatch env)
       \<lparr>dc_attempt = Some attempt, dc_lease = Some (el_id l), dc_agent = Some (cq_agent i), dc_decision = Some decision\<rparr> p)) (\<lambda>q.
     act_bind (on_attempts (mark_running (rv_now env) attempt (cq_session i))) (\<lambda>_.
     act_return (Self_claimed attempt (el_id l) q)))"

definition claim_offered ::
  "recovery_env \<Rightarrow> claim_request \<Rightarrow> task_path \<Rightarrow> parsed_task \<Rightarrow> string \<Rightarrow> execution_decision \<Rightarrow> self_claim recov" where
  "claim_offered env i p t task decision =
     act_bind (on_attempts (offer_attempt (rv_now env) (dv_attempt_uuid (rv_dispatch env))
       (self_offer env i p t task (claim_operation i task)))) (\<lambda>(att, idem).
     act_bind (on_attempts (claim_lease (rv_now env) (dv_lease_uuid (rv_dispatch env)) (self_claim_input i task (at_id att)))) (\<lambda>r.
     case r of
       Claim_ok claimed l again \<Rightarrow> activate_claim env i p decision (at_id att) l
     | _ \<Rightarrow> act_return (Self_refused r)))"

definition claim_inbox_task :: "recovery_env \<Rightarrow> claim_request \<Rightarrow> task_path \<Rightarrow> parsed_task \<Rightarrow> self_claim recov" where
  "claim_inbox_task env i p t =
     (let task = canonical_dispatch_id (snd p) (pt_task_id t) in
      act_bind (on_attempts (record_decision (rv_now env) (dv_decision_uuid (rv_dispatch env))
        \<lparr>din_operation_id = claim_operation i task, din_task_id = task,
         din_input_digest = dv_spec_digest (rv_dispatch env) t, din_decision = Decision_allow,
         din_reason = ''agent_identity_and_dependency_gates_passed'', din_source = ''agent_self_claim''\<rparr>)) (\<lambda>d.
      case d of
        Inl e \<Rightarrow> act_throw (Rec_decision e)
      | Inr decision \<Rightarrow> claim_offered env i p t task decision))"

definition claim_my_task :: "recovery_env \<Rightarrow> claim_request \<Rightarrow> self_claim recov" where
  "claim_my_task env i =
     act_bind (assert_executor_identity env i) (\<lambda>_.
     act_bind (claim_located env i) (\<lambda>p.
     if fst p \<noteq> Inbox then
       act_bind (task_attempts env (cq_task i)) (\<lambda>(att, lease).
       case lease of
         Some l \<Rightarrow>
           if fst p = Active \<and> el_session_id l = cq_session i \<and> el_agent_id l = cq_agent i then act_return (Self_held l)
           else act_throw (Task_not_claimable (fst p))
       | None \<Rightarrow> act_throw (Task_not_claimable (fst p)))
     else
       act_bind (parse_now env p) (\<lambda>parsed.
       act_bind (demand Rec_unreadable parsed) (\<lambda>t.
       act_bind (claim_admit env i t) (\<lambda>_.
       claim_inbox_task env i p t)))))"

section \<open>Pause and resumption\<close>

datatype pause_error =
  Missing_params | Not_running | Session_cancel_failed | Release_failed | Session_still_running | Not_paused

record pause_request =
  pq_task :: string
  pq_agent :: string
  pq_by :: "string option"
  pq_reason :: "string option"

text \<open>
  What a pause observes besides the world: whether the cancellation succeeds, whether the agent is released,
  which sessions are still there. While it waits for both, other handlers run: any function on the world.
\<close>

record pause_env =
  pv_cancel_ok :: bool
  pv_release_ok :: bool
  pv_sessions_after :: "live_session list"
  pv_meanwhile :: "recovery_world \<Rightarrow> recovery_world"

definition session_of_task :: "string \<Rightarrow> string \<Rightarrow> live_session list \<Rightarrow> live_session option" where
  "session_of_task agent task ss = List.find (\<lambda>s. ls_agent s = agent \<and> live_task_id s = task) ss"

definition bind_running :: "recovery_env \<Rightarrow> string \<Rightarrow> string \<Rightarrow> live_session \<Rightarrow> unit recov" where
  "bind_running env agent task s =
     act_bind (load_queue env) (\<lambda>q. save_queue env (set_agent_running agent
       \<lparr>re_task_id = task, re_session_id = ls_id s, re_started_at = rv_now env\<rparr> q))"

definition patch_display_paused :: "task_path option \<Rightarrow> unit recov" where
  "patch_display_paused located = upd_disp (\<lambda>d.
     case located of
       None \<Rightarrow> d
     | Some p \<Rightarrow>
         (case map_of (w_files (dw_lc d)) p of
            Some (Task_file fm body) \<Rightarrow>
              d\<lparr>dw_lc := (dw_lc d)\<lparr>w_files := AList.update p
                 (Task_file (fm\<lparr>fm_display_status := Some ''paused_by_admin''\<rparr>) body) (w_files (dw_lc d))\<rparr>\<rparr>
          | _ \<Rightarrow> d))"

definition paused_entry_of :: "recovery_env \<Rightarrow> pause_request \<Rightarrow> string \<Rightarrow> string \<Rightarrow> task_path option \<Rightarrow> paused_record" where
  "paused_entry_of env i task agent located =
     \<lparr>pe_task_id = task, pe_agent_id = agent, pe_paused_at = rv_now env, pe_paused_by = or_else (pq_by i) ''ADMIN'',
      pe_pause_reason = or_else (pq_reason i) ''ADMIN interrupted current execution'',
      pr_filepath = map_option path_text located, pr_filename = map_option snd located\<rparr>"

text \<open>The queue that is saved at the end is the one that was loaded at the start.\<close>

definition do_pause ::
  "recovery_env \<Rightarrow> pause_env \<Rightarrow> pause_request \<Rightarrow> string \<Rightarrow> string \<Rightarrow> agent_task_queue \<Rightarrow> live_session option
     \<Rightarrow> (pause_error + unit) recov" where
  "do_pause env pv i task agent snapshot live =
     act_bind (locate task) (\<lambda>located.
     if live \<noteq> None \<and> \<not> pv_cancel_ok pv then act_return (Inl Session_cancel_failed)
     else
       act_bind (upd_disp (\<lambda>d. case live of None \<Rightarrow> d | Some s \<Rightarrow> d\<lparr>dw_cancelled := dw_cancelled d @ [ls_id s]\<rparr>)) (\<lambda>_.
       act_bind (act_update (pv_meanwhile pv)) (\<lambda>_.
       if \<not> pv_release_ok pv then act_return (Inl Release_failed)
       else if session_of_task agent task (pv_sessions_after pv) \<noteq> None then act_return (Inl Session_still_running)
       else
         act_bind (save_queue env (pause_agent_task (paused_entry_of env i task agent located) snapshot)) (\<lambda>_.
         act_bind (patch_display_paused located) (\<lambda>_.
         act_bind (advance_agent_queue env agent None False) (\<lambda>_. act_return (Inr ())))))))"

definition pause_task_execution :: "recovery_env \<Rightarrow> pause_env \<Rightarrow> pause_request \<Rightarrow> (pause_error + unit) recov" where
  "pause_task_execution env pv i =
     (let task = norm_queue_task_id (pq_task i); agent = js_trim (pq_agent i);
          live = session_of_task agent task (dv_sessions (rv_dispatch env)) in
      if task = [] \<or> agent = [] then act_return (Inl Missing_params)
      else
        act_bind (load_queue env) (\<lambda>q.
        let status = get_task_dispatch_status q task in
        case live of
          None \<Rightarrow>
            if status = Some Paused_status then act_return (Inr ())
            else if status \<noteq> Some Running_status then act_return (Inl Not_running)
            else do_pause env pv i task agent q None
        | Some s \<Rightarrow>
            act_bind (act_when (status \<noteq> Some Running_status) (bind_running env agent task s)) (\<lambda>_.
            do_pause env pv i task agent q (Some s))))"

definition resume_task_execution :: "recovery_env \<Rightarrow> string \<Rightarrow> bool \<Rightarrow> (pause_error + dispatch_status) recov" where
  "resume_task_execution env raw priority =
     (let task = norm_queue_task_id raw in
      if task = [] then act_return (Inl Missing_params)
      else
        act_bind (load_queue env) (\<lambda>q.
        case map_of (aq_paused q) task of
          None \<Rightarrow> act_return (Inl Not_paused)
        | Some e \<Rightarrow>
            act_bind (save_queue env (fst (resume_paused_task (rv_now env) task priority q))) (\<lambda>_.
            act_bind (advance_agent_queue env (pe_agent_id e) None False) (\<lambda>dispatched.
            act_bind (load_queue env) (\<lambda>after.
            act_return (Inr (or_else (get_task_dispatch_status after task)
              (if dispatched then Running_status else Queued_status))))))))"

section \<open>A stalled task (\<^verbatim>\<open>TaskDispatchStall.ts\<close>)\<close>

datatype stall_state =
  Stall_waiting_dependency | Stall_lifecycle_split | Stall_task_unclaimed | Stall_session_lost | Stall_waiting_admin
| Stall_running | Stall_settled | Stall_unknown

datatype stall_advice =
  Advice_wait_dependency | Advice_repair_retry | Advice_claim_task | Advice_restart_session | Advice_wait_admin | Advice_none

record stall_input =
  si_bucket :: "string option"
  si_fm_state :: "string option"
  si_dependency_allowed :: "bool option"
  si_waiting_admin :: bool
  si_lease :: "execution_lease option"
  si_attempt :: "dispatch_attempt option"
  si_live :: bool

definition classify_stall :: "stall_input \<Rightarrow> stall_state \<times> bool \<times> stall_advice" where
  "classify_stall i =
     (let bucket = js_lower (js_trim (str_of (si_bucket i))); state = js_lower (js_trim (str_of (si_fm_state i))) in
      if si_dependency_allowed i = Some False then (Stall_waiting_dependency, False, Advice_wait_dependency)
      else if bucket = ''inbox'' \<and> state \<in> {''dispatched'', ''running''} then (Stall_lifecycle_split, True, Advice_repair_retry)
      else if si_waiting_admin i then (Stall_waiting_admin, False, Advice_wait_admin)
      else if bucket \<in> {''done'', ''review'', ''archive''} then (Stall_settled, False, Advice_none)
      else if bucket = ''inbox'' \<and> si_lease i = None then (Stall_task_unclaimed, True, Advice_claim_task)
      else if bucket = ''active'' then
        (if si_lease i \<noteq> None \<and> si_live i then (Stall_running, False, Advice_none)
         else (Stall_session_lost, True, Advice_restart_session))
      else if map_option at_status (si_attempt i) = Some At_settled then (Stall_settled, False, Advice_none)
      else (Stall_unknown, False, Advice_none))"

definition dispatch_task_state :: "recovery_env \<Rightarrow> string \<Rightarrow> recovery_world \<Rightarrow> (stall_state \<times> bool \<times> stall_advice) option" where
  "dispatch_task_state env task w =
     (case find_task_path_by_id (rw_files w) task of
        None \<Rightarrow> None
      | Some p \<Rightarrow>
          (case parse_path (rv_dispatch env) (rw_files w) p of
             None \<Rightarrow> None
           | Some t \<Rightarrow>
               let d = rw_disp w; (as, lease) = get_task_state (rv_now env) task (dw_store d);
                   live = list_ex (\<lambda>s. (lease \<noteq> None \<and> Some (ls_id s) = map_option el_session_id lease)
                        \<or> live_task_id s = norm_queue_task_id task) (dv_sessions (rv_dispatch env));
                   retry = List.find (\<lambda>r. norm_queue_task_id (str_of (rr_task_id r)) = norm_queue_task_id task)
                        (map snd (dw_retries d)) in
               Some (classify_stall
                 \<lparr>si_bucket = Some (stage_name (fst p)),
                  si_fm_state = Some (let v = fm_get (pt_frontmatter t) ''state'' in if v = V_null then ''inbox'' else fm_text v),
                  si_dependency_allowed = Some (dep_allowed (evaluate_task_dependency_gate t (Some (dv_project (rv_dispatch env))))),
                  si_waiting_admin = (case retry of None \<Rightarrow> False | Some r \<Rightarrow> rr_decision_required r),
                  si_lease = lease, si_attempt = (if as = [] then None else Some (last as)), si_live = live\<rparr>)))"

end
