(* ===== verification/Recovery_Properties.thy ===== *)
theory Recovery_Properties
  imports Dispatch_Recovery Dispatch_Properties
begin

text \<open>
  What holds however tasks reach the control plane: the store of attempts changes by its own operations only,
  so no run of the dispatcher gives a task two leases; the ad-hoc queue stays ordered; a settled session is
  settled once; a task that is held is not started by the watcher; a session that waits for an approval costs
  no retry; an agent that claims a task holds its lease.
\<close>

section \<open>Every change of the store is a call of the store\<close>

definition store_reaches :: "dispatch_state \<Rightarrow> dispatch_state \<Rightarrow> bool" where
  "store_reaches s s' \<longleftrightarrow> (\<exists>cs. s' = fold dispatch_step cs s)"

lemma reaches_refl [simp]: "store_reaches s s"
  unfolding store_reaches_def by (rule exI [of _ "[]"]) simp

lemma reaches_trans: "store_reaches a b \<Longrightarrow> store_reaches b c \<Longrightarrow> store_reaches a c"
proof -
  assume "store_reaches a b" and "store_reaches b c"
  then obtain xs ys where "b = fold dispatch_step xs a" "c = fold dispatch_step ys b"
    by (auto simp: store_reaches_def)
  then have "c = fold dispatch_step (xs @ ys) a" by simp
  then show "store_reaches a c" unfolding store_reaches_def by blast
qed

lemma reaches_step: "store_reaches s (dispatch_step c s)"
  unfolding store_reaches_def by (rule exI [of _ "[c]"]) simp

lemma store_operations [simp]:
  "store_reaches s (snd (record_decision now uuid i s))"
  "store_reaches s (snd (offer_attempt now uuid j s))"
  "store_reaches s (snd (claim_lease now uuid k s))"
  "store_reaches s (snd (mark_running now a sid s))"
  "store_reaches s (finish_attempt now a st r s)"
  using reaches_step [of s "(now, Call_decision uuid i)"] reaches_step [of s "(now, Call_offer uuid j)"]
    reaches_step [of s "(now, Call_claim uuid k)"] reaches_step [of s "(now, Call_running a sid)"]
    reaches_step [of s "(now, Call_finished a st r)"]
  by simp_all

lemma apart_pending [simp]: "apart_from_gates dw_pending"
  by (simp add: apart_from_gates_def)

section \<open>What a dispatch keeps\<close>

text \<open>A preorder that calls of the store, the registration of a started session and everything that touches
  neither are in, holds between the worlds before and after a dispatch.\<close>

locale dispatch_preorder = step_preorder R for R :: "dispatcher_world \<Rightarrow> dispatcher_world \<Rightarrow> bool" +
  fixes env :: dispatch_env
  assumes keeps_rest: "dw_store w' = dw_store w \<Longrightarrow> dw_pending w' = dw_pending w \<Longrightarrow> R w w'"
    and keeps_store: "store_reaches (dw_store w) s \<Longrightarrow> R w (w\<lparr>dw_store := s\<rparr>)"
    and keeps_started: "dv_start env agent task = Inr sid \<Longrightarrow> R w (w\<lparr>dw_pending := AList.update sid x (dw_pending w)\<rparr>)"
begin

lemma calls_views: "keeps_view dw_store m \<Longrightarrow> keeps_view dw_pending m \<Longrightarrow> act_keeps R m"
  by (simp add: act_keeps_def keeps_rest)

lemma calls_on_store: "(\<And>s. store_reaches s (snd (f s))) \<Longrightarrow> act_keeps R (on_store f)"
  by (auto simp: act_keeps_def on_store_def split: prod.split) (metis keeps_store snd_conv)

lemma calls_get [keeps_intros]: "act_keeps R (act_get f)"
  by (simp add: act_keeps_def act_get_def step_refl)

lemma calls_decide: "act_keeps R (decide env source opts p t v reason)"
  unfolding decide_def by (intro keeps_intros calls_on_store store_operations)

lemma calls_refuse: "act_keeps R (refuse env source opts p t v reason out)"
  unfolding refuse_def by (intro keeps_intros calls_decide)

lemma calls_finish: "act_keeps R (finish_as env a st r)"
  unfolding finish_as_def by (rule calls_on_store) simp

lemma calls_history: "act_keeps R (append_history env p e)"
  by (rule calls_views) (simp_all add: keeps_append_history)

lemma calls_on_lc: "act_keeps R (on_lc m)"
  by (rule calls_views; rule keeps_on_lc; simp)

lemma calls_update: "(\<And>w. dw_store (f w) = dw_store w) \<Longrightarrow> (\<And>w. dw_pending (f w) = dw_pending w) \<Longrightarrow> act_keeps R (act_update f)"
  by (simp add: act_keeps_def act_update_def keeps_rest)

lemma calls_gates:
  "act_keeps R (queue_gate env opts recipient task p)" "act_keeps R (claim_gate p)" "act_keeps R (retry_gate key)"
  "act_keeps R (failed_start env recipient key meta f)"
  by (intro calls_views keeps_queue_gate keeps_claim_gate keeps_retry_gate keeps_failed_start; simp)+

lemma calls_claim: "act_keeps R (offer_and_claim env opts a r p t task)"
  unfolding offer_and_claim_def
  by (intro calls_on_store keeps_intros store_operations) (auto intro: keeps_basic split: claim_result.split)

lemma calls_started:
  assumes "dv_start env agent task' = Inr sid"
  shows "act_keeps R (session_started env a r ep t task attempt sid)"
proof -
  have "R w (w\<lparr>dw_running := x, dw_pending := AList.update sid y (dw_pending w), dw_downstream := z\<rparr>)" for w x y z
    by (rule step_trans [OF keeps_started [OF assms, of w y]]) (simp add: keeps_rest)
  then have reg: "act_keeps R (act_update (\<lambda>w. w\<lparr>dw_running := f w, dw_pending := AList.update sid y (dw_pending w),
      dw_downstream := g w\<rparr>))" for f g y
    by (simp add: act_keeps_def act_update_def)
  then show ?thesis
    unfolding session_started_def on_queue_def
    by (intro keeps_intros calls_history calls_on_store store_operations) (rule reg | (rule calls_update; simp))+
qed

lemma calls_dispatch: "act_keeps R (dispatch_task env opts decision p recipient)"
proof -
  have start: "act_keeps R (start_session env decision a r p t task x)" for a r t task x
    unfolding start_session_def Let_def
    by (intro keeps_intros calls_finish calls_gates calls_on_lc) (rule calls_started)
  show ?thesis
    unfolding dispatch_task_def dispatch_claimed_def Let_def by (intro keeps_intros calls_gates calls_claim start)
qed

lemma calls_durable: "act_keeps R (durable_gate env source opts p t recipient)"
proof (rule act_keepsI)
  fix w :: dispatcher_world
  let ?reason = "''invalid_task_file:'' @ js_join '', '' (map durable_error_text (durable_errors p t recipient))"
  let ?w0 = "w\<lparr>dw_invalid := AList.update (path_text p)
      (file_digest env (w_files (dw_lc w)) p t, durable_errors p t recipient) (dw_invalid w)\<rparr>"
  obtain r w2 where d: "decide env source opts p t Decision_reject ?reason ?w0 = (r, w2)" by fastforce
  have "R w ?w0" by (simp add: keeps_rest)
  then have w2: "R w w2" by (rule step_trans) (rule act_keepsD [OF calls_decide d])
  have mark: "R w1 (w1\<lparr>dw_invalid := i\<rparr>)" for w1 i by (simp add: keeps_rest)
  have e: "durable_errors p t recipient = []
      \<Longrightarrow> snd (durable_gate env source opts p t recipient w) = w\<lparr>dw_invalid := AList.delete (path_text p) (dw_invalid w)\<rparr>"
    by (simp add: durable_gate_def durable_errors_def act_update_def)
  have f: "durable_errors p t recipient \<noteq> [] \<Longrightarrow> snd (durable_gate env source opts p t recipient w) =
      (if map_of (dw_invalid w) (path_text p) = Some (file_digest env (w_files (dw_lc w)) p t, durable_errors p t recipient)
       then w else case r of Inl x \<Rightarrow> w2\<lparr>dw_invalid := AList.delete (path_text p) (dw_invalid w2)\<rparr> | Inr y \<Rightarrow> w2)"
    using d by (cases r) (simp_all add: durable_gate_def durable_errors_def [symmetric] Let_def)
  show "R w (snd (durable_gate env source opts p t recipient w))"
  proof (cases "durable_errors p t recipient = []")
    case True
    show ?thesis unfolding e [OF True] by (rule mark)
  next
    case False
    show ?thesis unfolding f [OF False]
      using w2 step_trans [OF w2 mark] by (cases r) (simp_all only: sum.case split: if_split, simp_all add: step_refl)
  qed
qed

lemma calls_gated: "act_keeps R (gated_dispatch env source opts p recipient)"
proof -
  have admission: "act_keeps R (admission_gate env source opts p t)" for t
    unfolding admission_gate_def by (intro keeps_intros calls_refuse)
  have business: "act_keeps R (business_gates env source opts p t recipient)" for t
    unfolding business_gates_def product_gate_def dependency_gate_def role_gate_def Let_def
    by (intro keeps_intros calls_refuse calls_on_lc)
  have outcome: "R w (apply_outcome env q out w)" for q out w
    by (simp add: keeps_rest keeps_apply_outcome apart_from_gates_def)
  have run: "act_keeps R (\<lambda>w. case run_exit (dispatch_task env opts d q recipient) w of
      (out, w') \<Rightarrow> (Inr out, apply_outcome env q out w'))" for d q
  proof (rule act_keepsI)
    fix w
    obtain out w' where x: "run_exit (dispatch_task env opts d q recipient) w = (out, w')" by fastforce
    then have "w' = snd (dispatch_task env opts d q recipient w)"
      using run_exit_snd [of "dispatch_task env opts d q recipient" w] by simp
    then have "R w w'" using calls_dispatch [of opts d q recipient] by (simp add: act_keeps_def)
    from step_trans [OF this outcome] show "R w (snd (case run_exit (dispatch_task env opts d q recipient) w of
        (out, w') \<Rightarrow> (Inr out, apply_outcome env q out w')))" by (simp add: x)
  qed
  show ?thesis
    unfolding gated_dispatch_def by (intro keeps_intros calls_durable admission business calls_decide run)
qed

lemma control_plane_keeps: "R w (snd (dispatch_from_control_plane env source opts p recipient w))"
  using calls_gated
  by (simp add: dispatch_from_control_plane_def run_exit_snd act_keeps_def Let_def act_throw_def step_refl)

end

abbreviation store_calls :: "dispatcher_world \<Rightarrow> dispatcher_world \<Rightarrow> bool" where
  "store_calls w w' \<equiv> store_reaches (dw_store w) (dw_store w')"

interpretation calls: dispatch_preorder store_calls env for env
  by unfold_locales (auto intro: reaches_trans)

section \<open>What every operation of the dispatcher keeps\<close>

text \<open>
  Outside the control plane and the calls of the store, an operation changes neither the attempts nor the guard
  of the PM, registers no session, and leaves the ad-hoc queue in order. A preorder that such changes, the
  calls of the store and the control plane keep is kept by every operation.
\<close>

definition quietly :: "recovery_world \<Rightarrow> recovery_world \<Rightarrow> bool" where
  "quietly w w' \<longleftrightarrow>
     dw_store (rw_disp w') = dw_store (rw_disp w) \<and> rw_guard w' = rw_guard w
   \<and> (adhoc_ok (rw_adhoc w) \<longrightarrow> adhoc_ok (rw_adhoc w'))
   \<and> (\<forall>sid. map_of (dw_pending (rw_disp w)) sid = None \<longrightarrow> map_of (dw_pending (rw_disp w')) sid = None)"

definition quiet_disp :: "(dispatcher_world \<Rightarrow> dispatcher_world) \<Rightarrow> bool" where
  "quiet_disp f \<longleftrightarrow> (\<forall>d. dw_store (f d) = dw_store d
     \<and> (\<forall>sid. map_of (dw_pending d) sid = None \<longrightarrow> map_of (dw_pending (f d)) sid = None))"

lemma history_quiet: "quiet_disp (\<lambda>d. snd (append_history env p e d))"
  using keeps_append_history [of dw_store] keeps_append_history [of dw_pending] by (simp add: quiet_disp_def act_keeps_def)

lemma outcome_quiet: "quiet_disp (apply_outcome env p out)"
  by (simp add: quiet_disp_def keeps_apply_outcome)

lemma failed_quiet: "quiet_disp (\<lambda>d. case retryable_outcome env key e meta d of
    (Inl out, d') \<Rightarrow> d' | (Inr out, d') \<Rightarrow> apply_outcome env p out d')"
  by (simp add: quiet_disp_def retryable_outcome_def keeps_apply_outcome split: prod.split)

section \<open>Runs of the dispatcher\<close>

text \<open>
  Whatever reaches the dispatcher, each with what it observes: the end of a session, a due retry, a file in the
  inbox or the scan, the PM, ADMIN, an agent, the queues. In a pause of its own nothing else runs while it waits.
\<close>

datatype recovery_op =
  Session_over session_event settlement
| Retry_due string task_path string string
| Sessions_settled
| Inbox_event task_path string string
| Inbox_scan
| Redispatch_call redispatch
| Retry_by_admin task_path string string
| Archive_by_admin task_path string
| Claim_by_agent claim_request
| Busy_task adhoc_item
| Advance_queue string "string option" bool
| Pause_call bool bool "live_session list" pause_request
| Resume_call string bool
| Control_call string control_opts task_path "string option"

definition quiet_pause :: "bool \<Rightarrow> bool \<Rightarrow> live_session list \<Rightarrow> pause_env" where
  "quiet_pause c r ss = \<lparr>pv_cancel_ok = c, pv_release_ok = r, pv_sessions_after = ss, pv_meanwhile = id\<rparr>"

fun recovery_step :: "recovery_env \<times> recovery_op \<Rightarrow> recovery_world \<Rightarrow> recovery_world" where
  "recovery_step (env, Session_over e s) w = snd (handle_session_settlement env e s w)"
| "recovery_step (env, Retry_due key p r note) w = snd (retry_timer env key p r note w)"
| "recovery_step (env, Sessions_settled) w = snd (on_session_settled env w)"
| "recovery_step (env, Inbox_event p r sender) w = snd (handle_inbox env p r sender w)"
| "recovery_step (env, Inbox_scan) w = snd (reconcile_inbox_now env w)"
| "recovery_step (env, Redispatch_call i) w = snd (redispatch_task env i w)"
| "recovery_step (env, Retry_by_admin p r key) w = snd (admin_retry_dispatch env p r key w)"
| "recovery_step (env, Archive_by_admin p key) w = snd (admin_force_archive_dispatch env p key w)"
| "recovery_step (env, Claim_by_agent i) w = snd (claim_my_task env i w)"
| "recovery_step (env, Busy_task i) w = snd ((enqueue_adhoc i :: unit recov) w)"
| "recovery_step (env, Advance_queue a c s) w = snd (advance_agent_queue env a c s w)"
| "recovery_step (env, Pause_call c r ss i) w = snd (pause_task_execution env (quiet_pause c r ss) i w)"
| "recovery_step (env, Resume_call t priority) w = snd (resume_task_execution env t priority w)"
| "recovery_step (env, Control_call source opts p r) w = snd (control_plane env source opts p r w)"

definition run_recovery :: "(recovery_env \<times> recovery_op) list \<Rightarrow> recovery_world \<Rightarrow> recovery_world" where
  "run_recovery ops w = fold recovery_step ops w"

named_theorems recov_intros \<comment> \<open>operations that keep the relation\<close>

locale recovery_preorder = step_preorder R for R :: "recovery_world \<Rightarrow> recovery_world \<Rightarrow> bool" +
  fixes env :: recovery_env
  assumes keeps_quiet: "quietly w w' \<Longrightarrow> R w w'"
    and keeps_store: "store_reaches (dw_store (rw_disp w)) s \<Longrightarrow> R w (w\<lparr>rw_disp := (rw_disp w)\<lparr>dw_store := s\<rparr>\<rparr>)"
    and keeps_control: "act_keeps R (control_plane env source opts p recipient)"
begin

lemma recov_get [recov_intros]: "act_keeps R (act_get f)"
  by (simp add: act_keeps_def act_get_def step_refl)

lemma recov_update: "(\<And>w. quietly w (f w)) \<Longrightarrow> act_keeps R (act_update f)"
  by (simp add: act_keeps_def act_update_def keeps_quiet)

lemma recov_disp: "quiet_disp f \<Longrightarrow> act_keeps R (upd_disp f)"
  unfolding upd_disp_def by (rule recov_update) (simp add: quietly_def quiet_disp_def)

lemma recov_lifecycle [recov_intros]: "act_keeps R (on_lifecycle m)"
  by (auto simp: act_keeps_def on_lifecycle_def quietly_def split: prod.split intro!: keeps_quiet)

lemma recov_attempts: "(\<And>s. store_reaches s (snd (f s))) \<Longrightarrow> act_keeps R (on_attempts f)"
  by (auto simp: act_keeps_def on_attempts_def split: prod.split) (metis keeps_store snd_conv)

lemma recov_store_calls [recov_intros]:
  "act_keeps R (on_attempts (record_decision now uuid i))"
  "act_keeps R (on_attempts (offer_attempt now uuid j))"
  "act_keeps R (on_attempts (claim_lease now uuid k))"
  "act_keeps R (on_attempts (mark_running now a sid))"
  "act_keeps R (on_attempts (\<lambda>s. ((), finish_attempt now a st r s)))"
  by (simp_all add: recov_attempts)

lemma recov_enqueue [recov_intros]: "act_keeps R (enqueue_adhoc i)"
  unfolding enqueue_adhoc_def by (rule recov_update) (simp add: quietly_def enqueue_ok)

lemma recov_catch: "act_keeps R m \<Longrightarrow> (\<And>e. act_keeps R (h e)) \<Longrightarrow> act_keeps R (act_catch m h)"
  by (auto simp: act_keeps_def act_catch_def split: prod.split sum.split) (metis step_trans snd_conv)+

lemma recov_handled:
  "act_keeps R m \<Longrightarrow> (\<And>e. act_keeps R (h e)) \<Longrightarrow> (\<And>x. act_keeps R (k x))
   \<Longrightarrow> act_keeps R (\<lambda>w. case m w of (Inl e, w') \<Rightarrow> h e w' | (Inr x, w') \<Rightarrow> k x w')"
  by (auto simp: act_keeps_def split: prod.split sum.split) (metis step_trans snd_conv)+

lemma recov_handled_pair:
  "act_keeps R m \<Longrightarrow> (\<And>e. act_keeps R (h e)) \<Longrightarrow> (\<And>a b. act_keeps R (k a b))
   \<Longrightarrow> act_keeps R (\<lambda>w. case m w of (Inl e, w') \<Rightarrow> h e w' | (Inr (a, b), w') \<Rightarrow> k a b w')"
  by (auto simp: act_keeps_def split: prod.split sum.split) (metis step_trans snd_conv)+

lemma recov_nothing [recov_intros]: "act_keeps R (Pair r)"
  by (simp add: act_keeps_def step_refl)

lemmas recov_control [recov_intros] = keeps_control

lemma recov_history [recov_intros]: "act_keeps R (note_history env p from to note)"
  unfolding note_history_def by (rule recov_disp) (rule history_quiet)

lemma recov_save [recov_intros]: "act_keeps R (save_queue env q)" "act_keeps R (load_queue env)"
  unfolding save_queue_def load_queue_def by (rule recov_disp, simp add: quiet_disp_def) (rule recov_get)

lemma recov_schedule [recov_intros]: "act_keeps R (upd_disp (schedule_retry dv key t))"
  by (rule recov_disp) (simp add: schedule_retry_def quiet_disp_def)

lemma recov_drain_timer [recov_intros]: "act_keeps R (schedule_drain t)"
  unfolding schedule_drain_def by (rule recov_update) (simp add: quietly_def)

lemma recov_failed [recov_intros]: "act_keeps R (failed_dispatch env key p e)"
  unfolding failed_dispatch_def
  by (rule recov_disp) (rule failed_quiet)

lemma recov_list [recov_intros]:
  "(xs = [] \<Longrightarrow> act_keeps R m) \<Longrightarrow> (\<And>y ys. xs = y # ys \<Longrightarrow> act_keeps R (f y ys)) \<Longrightarrow>
   act_keeps R (case xs of [] \<Rightarrow> m | y # ys \<Rightarrow> f y ys)"
  by (cases xs) simp_all

lemma recov_advance [recov_intros]: "act_keeps R (advance_agent_queue env agent completed stale)"
  unfolding advance_agent_queue_def Let_def by (intro recov_intros keeps_intros)

lemma recov_complete [recov_intros]: "act_keeps R (complete_agent_task_and_advance env agent task session)"
  unfolding complete_agent_task_and_advance_def Let_def by (intro recov_intros keeps_intros)

lemma recov_busy [recov_intros]: "act_keeps R (enqueue_rejected_busy env p recipient)"
proof -
  have cancel: "act_keeps R (upd_disp (\<lambda>d. d\<lparr>dw_cancelled := dw_cancelled d @ [sid]\<rparr>))" for sid
    by (rule recov_disp) (simp add: quiet_disp_def)
  have q: "act_keeps R (queue_for_agent env p recipient)"
    unfolding queue_for_agent_def parse_now_def Let_def by (intro recov_intros keeps_intros)
  have pre: "act_keeps R (preempt env recipient)"
    unfolding preempt_def by (intro recov_intros keeps_intros cancel)
  show ?thesis unfolding enqueue_rejected_busy_def by (intro recov_intros keeps_intros q pre)
qed

lemma recov_busy_again:
  assumes "\<And>w. R w (snd (f w))"
  shows "act_keeps R (\<lambda>w. case out of Out_rejected_busy r st \<Rightarrow> f w | _ \<Rightarrow> (Inr (), w))"
  using assms by (cases out) (simp_all add: act_keeps_def step_refl)

lemma recov_drain [recov_intros]: "act_keeps R (drain_adhoc_queue env)"
proof -
  have again: "R w (snd (enqueue_adhoc i w))" for i w
    using recov_enqueue by (simp add: act_keeps_def)
  have item: "act_keeps R (drain_item env i)" for i
    unfolding drain_item_def Let_def by (intro recov_intros keeps_intros recov_handled recov_busy_again again)
  show ?thesis
  proof (rule act_keepsI)
    fix w
    obtain item rest where sh: "shift_live (rw_files w) (rw_adhoc w) = (item, rest)" by fastforce
    let ?w1 = "w\<lparr>rw_adhoc := rest\<rparr>"
    have w1: "R w ?w1" using shift_ok [of "rw_adhoc w" "rw_files w"] by (intro keeps_quiet) (simp add: quietly_def sh)
    have rest: "R ?w1 (snd ((case item of None \<Rightarrow> act_return () | Some i \<Rightarrow> drain_item env i) ?w1))"
      using item by (cases item) (simp_all add: act_keeps_def act_return_def step_refl)
    have timer: "R w (snd (schedule_drain t w))" for t
      using recov_drain_timer by (simp add: act_keeps_def)
    show "R w (snd (drain_adhoc_queue env w))"
      using step_trans [OF w1 rest]
      by (simp add: drain_adhoc_queue_def act_get_def act_bind_def act_update_def sh Let_def act_return_def step_refl timer)
  qed
qed

lemma recov_release [recov_intros]: "act_keeps R (release_and_dispatch env)"
proof -
  have busy: "R w (snd (enqueue_rejected_busy env p recipient w))" for p recipient w
    using recov_busy by (simp add: act_keeps_def)
  have one: "act_keeps R (dispatch_released env x)" for x
    unfolding dispatch_released_def
    by (cases x) (simp, intro recov_intros keeps_intros recov_handled recov_busy_again busy)
  have files: "act_keeps R (upd_disp (\<lambda>d. d\<lparr>dw_lc := (dw_lc d)\<lparr>w_files := fs\<rparr>\<rparr>))" for fs
    by (rule recov_disp) (simp add: quiet_disp_def)
  show ?thesis unfolding release_and_dispatch_def by (intro recov_intros keeps_intros one files)
qed

lemma recov_settled [recov_intros]: "act_keeps R (on_session_settled env)"
  unfolding on_session_settled_def by (intro recov_intros keeps_intros)

lemma recov_restore [recov_intros]: "act_keeps R (restore_dispatched env p reason key)"
  unfolding restore_dispatched_def by (intro recov_intros keeps_intros recov_catch)

lemma recov_maybe_restore [recov_intros]: "act_keeps R (maybe_restore_inbox env e p)"
proof -
  have mark: "act_keeps R (mark_waiting env e p)"
    unfolding mark_waiting_def
    by (auto simp: act_keeps_def Let_def quietly_def step_refl split: option.split task_file.split intro!: keeps_quiet)
  have breaker: "act_keeps R (breaker_hit env e)"
    unfolding breaker_hit_def
    by (intro recov_intros keeps_intros recov_update) (auto simp: quietly_def split: prod.split)
  have failure: "act_keeps R (record_session_failure env e p key)" for key
    unfolding record_session_failure_def by (auto simp: act_keeps_def quietly_def split: prod.split intro!: keeps_quiet)
  show ?thesis
    unfolding maybe_restore_inbox_def governance_wait_def retry_failed_session_def Let_def
    by (intro recov_intros keeps_intros mark breaker failure)
qed

lemma recov_settlement [recov_intros]: "act_keeps R (handle_session_settlement env e s)"
proof -
  have free: "act_keeps R (free_session s)"
    unfolding free_session_def by (rule recov_disp) (simp add: quiet_disp_def delete_conv')
  have ask: "act_keeps R (ask_for_report e s)"
    unfolding ask_for_report_def by (intro recov_intros keeps_intros recov_update) (simp add: quietly_def)
  have finish: "act_keeps R (finish_session_attempt env e s)"
    unfolding finish_session_attempt_def by (intro recov_intros keeps_intros)
  have advance: "act_keeps R (\<lambda>w. (Inr (), snd (complete_agent_task_and_advance env a t sid w)))" for a t sid
    using recov_complete by (simp add: act_keeps_def)
  show ?thesis
    unfolding handle_session_settlement_def by (intro recov_intros keeps_intros free ask finish advance)
qed

lemma recov_timer [recov_intros]: "act_keeps R (retry_timer env key p recipient note)"
  unfolding retry_timer_def Let_def by (intro recov_intros keeps_intros)

lemma recov_reconcile [recov_intros]: "act_keeps R (reconcile_task env p recipient sender source)"
proof -
  have report: "act_keeps R (settle_report env path)" for path
    unfolding settle_report_def by (rule recov_disp) (simp add: quiet_disp_def)
  have lost: "act_keeps R (fail_lost_attempt env source att)" for att
    unfolding fail_lost_attempt_def by (intro recov_intros keeps_intros)
  show ?thesis
    unfolding reconcile_task_def parse_now_def task_attempts_def confirm_active_def Let_def
    by (intro recov_intros keeps_intros report lost)
qed

lemma recov_handle [recov_intros]: "act_keeps R (handle_inbox env p recipient sender)"
proof -
  have outcome: "act_keeps R (handle_outcome env q r out)" for q r out
    unfolding handle_outcome_def
    by (cases out) (auto intro!: recov_intros keeps_intros recov_disp outcome_quiet split: dispatch_outcome.split)
  have held: "act_keeps R (register_held env q r h)" for q r h
    unfolding register_held_def
    by (intro recov_intros keeps_intros) (auto intro!: recov_intros keeps_intros split: task_file.split)
  have watch: "act_keeps R (watch_dispatch env q r)" for q r
    unfolding watch_dispatch_def
    by (intro recov_intros keeps_intros) (auto intro!: recov_intros keeps_intros split: dispatch_outcome.split)
  show ?thesis
    unfolding handle_inbox_def [abs_def] Let_def
    by (intro recov_handled_pair recov_intros keeps_intros recov_catch outcome held watch)
qed

lemma recov_scan [recov_intros]: "act_keeps R (reconcile_inbox_now env)"
proof -
  have one: "act_keeps R (scan_entry env p)" for p
    unfolding scan_entry_def Let_def by (intro recov_intros keeps_intros)
  show ?thesis unfolding reconcile_inbox_now_def by (intro recov_intros keeps_intros recov_catch one)
qed

lemma recov_demand [recov_intros]: "act_keeps R (demand e x)"
  unfolding demand_def by (intro recov_intros keeps_intros)

lemma recov_redispatch [recov_intros]: "act_keeps R (redispatch_task env i)"
proof -
  have report: "act_keeps R (settle_report env path)" for path
    unfolding settle_report_def by (rule recov_disp) (simp add: quiet_disp_def)
  have located: "act_keeps R (redispatch_located env i role x)" for role x
    unfolding redispatch_located_def by (intro recov_intros keeps_intros)
  have inbox: "act_keeps R (redispatch_inbox env i p role sender)" for p role sender
    unfolding redispatch_inbox_def task_attempts_def by (intro recov_intros keeps_intros)
  have active: "act_keeps R (redispatch_active env i p role sender)" for p role sender
    unfolding redispatch_active_def task_attempts_def by (intro recov_intros keeps_intros report)
  have rest: "act_keeps R (redispatch_from env i role sender x)" for role sender x
    unfolding redispatch_from_def parse_now_def locate_def by (intro recov_intros keeps_intros located inbox)
  show ?thesis
    unfolding redispatch_task_def parse_now_def locate_def Let_def by (intro recov_intros keeps_intros active rest)
qed

lemma recov_admin [recov_intros]:
  "act_keeps R (admin_retry_dispatch env p recipient key)"
  "act_keeps R (admin_force_archive_dispatch env p key)"
proof -
  have r: "act_keeps R (upd_disp (\<lambda>d. d\<lparr>dw_retries := m\<rparr>))" for m by (rule recov_disp) (simp add: quiet_disp_def)
  show "act_keeps R (admin_retry_dispatch env p recipient key)"
    unfolding admin_retry_dispatch_def by (intro recov_intros keeps_intros r)
  show "act_keeps R (admin_force_archive_dispatch env p key)"
    unfolding admin_force_archive_dispatch_def by (intro recov_intros keeps_intros r)
qed

lemma recov_located: "act_keeps R (claim_located env i)"
  unfolding claim_located_def parse_now_def locate_def Let_def by (intro recov_intros keeps_intros)

lemma recov_admit: "act_keeps R (claim_admit env i t)" "act_keeps R (assert_executor_identity env i)"
  unfolding claim_admit_def assert_executor_identity_def Let_def by (intro recov_intros keeps_intros)+

lemma recov_claim [recov_intros]: "act_keeps R (claim_my_task env i)"
proof -
  have claim: "act_keeps R (claim_inbox_task env i p t)" for p t
    unfolding claim_inbox_task_def claim_offered_def activate_claim_def Let_def
    by (intro recov_intros keeps_intros) (auto intro!: recov_intros keeps_intros split: claim_result.split)
  show ?thesis
    unfolding claim_my_task_def parse_now_def task_attempts_def
    by (intro recov_intros keeps_intros recov_located recov_admit claim)
qed

lemma recov_resume [recov_intros]: "act_keeps R (resume_task_execution env task priority)"
  unfolding resume_task_execution_def Let_def by (intro recov_intros keeps_intros)

lemma recov_pause [recov_intros]:
  assumes "\<And>w. R w (pv_meanwhile pv w)"
  shows "act_keeps R (pause_task_execution env pv i)"
proof -
  have meanwhile: "act_keeps R (act_update (pv_meanwhile pv))"
    using assms by (simp add: act_keeps_def act_update_def)
  have cancel: "act_keeps R (upd_disp (\<lambda>d. case live of None \<Rightarrow> d
      | Some s \<Rightarrow> d\<lparr>dw_cancelled := dw_cancelled d @ [ls_id s]\<rparr>))" for live
    by (rule recov_disp) (simp add: quiet_disp_def split: option.split)
  have patch: "act_keeps R (patch_display_paused x)" for x
    unfolding patch_display_paused_def by (rule recov_disp) (auto simp: quiet_disp_def split: option.split task_file.split)
  have pause: "act_keeps R (do_pause env pv i task agent q live)" for task agent q live
    unfolding do_pause_def locate_def by (intro recov_intros keeps_intros cancel patch meanwhile)
  show ?thesis
    unfolding pause_task_execution_def bind_running_def Let_def by (intro recov_intros keeps_intros pause)
qed

lemma recov_queue_calls [recov_intros]:
  "act_keeps R (sync_queue_on_session_started env a t s)"
  "act_keeps R (enqueue_when_busy env t a reason p r)"
  unfolding sync_queue_on_session_started_def enqueue_when_busy_def Let_def by (intro recov_intros keeps_intros)+

lemma settle_rest:
  assumes "map_of (dw_pending (rw_disp w)) (st_session s) \<noteq> None"
  shows "R (snd (free_session s w)) (snd (handle_session_settlement env e s w))"
proof -
  have rest: "R w1 (snd (complete_agent_task_and_advance env a t sid w1))" for a t sid w1
    using recov_complete by (simp add: act_keeps_def)
  obtain x w1 where free: "(free_session s :: unit recov) w = (Inr x, w1)"
    by (simp add: free_session_def upd_disp_def act_update_def)
  have ask: "act_keeps R (ask_for_report e s)"
    unfolding ask_for_report_def by (intro recov_intros keeps_intros recov_update) (simp add: quietly_def)
  have finish: "act_keeps R (finish_session_attempt env e s)"
    unfolding finish_session_attempt_def by (intro recov_intros keeps_intros)
  have advance: "act_keeps R (\<lambda>w. (Inr (), snd (complete_agent_task_and_advance env a t sid w)))" for a t sid
    using recov_complete by (simp add: act_keeps_def)
  have "act_keeps R (act_bind (finish_session_attempt env e s) (\<lambda>_. act_bind (ask_for_report e s) (\<lambda>_.
      act_bind (note_history env p h1 h2 h3) (\<lambda>_. act_bind (maybe_restore_inbox env e p) (\<lambda>_ w.
      (Inr (), snd (complete_agent_task_and_advance env a t sid w)))))))" for p h1 h2 h3 a t sid
    by (intro recov_intros keeps_intros ask finish advance)
  moreover obtain y where "map_of (dw_pending (rw_disp w)) (st_session s) = Some y" using assms by auto
  ultimately show ?thesis
    using free
    by (simp add: handle_session_settlement_def act_bind_def [of "act_get _"] act_get_def
        act_bind_Inr [where m = "free_session s", OF free] act_keeps_def)
qed

lemma step_keeps: "R w (recovery_step (env, x) w)"
  by (cases x)
     (simp_all add: recov_settlement [unfolded act_keeps_def] recov_timer [unfolded act_keeps_def]
        recov_settled [unfolded act_keeps_def] recov_handle [unfolded act_keeps_def] recov_scan [unfolded act_keeps_def]
        recov_redispatch [unfolded act_keeps_def] recov_admin [unfolded act_keeps_def] recov_claim [unfolded act_keeps_def]
        recov_enqueue [unfolded act_keeps_def] recov_advance [unfolded act_keeps_def] recov_resume [unfolded act_keeps_def]
        recov_control [unfolded act_keeps_def] recov_pause [unfolded act_keeps_def] quiet_pause_def step_refl)

end

lemma mark_waiting_ok: "pm_ok g \<Longrightarrow> pm_ok (fold (mark_waiting_downstream now) rs g)"
proof (induction rs arbitrary: g)
  case (Cons r rs)
  then show ?case using pm_step_ok [of g "(now, Op_mark_waiting r)"] by simp
qed simp

definition recovers :: "recovery_world \<Rightarrow> recovery_world \<Rightarrow> bool" where
  "recovers w w' \<longleftrightarrow>
     store_calls (rw_disp w) (rw_disp w') \<and> (adhoc_ok (rw_adhoc w) \<longrightarrow> adhoc_ok (rw_adhoc w'))
   \<and> (pm_ok (rw_guard w) \<longrightarrow> pm_ok (rw_guard w'))"

interpretation recov: recovery_preorder recovers env for env
proof
  show "act_keeps recovers (control_plane env source opts p recipient)" for source opts p recipient
  proof (rule act_keepsI)
    fix w
    show "recovers w (snd (control_plane env source opts p recipient w))"
      using calls.control_plane_keeps [of "rw_disp w" "rv_dispatch env" source opts p recipient]
      by (cases "dispatch_from_control_plane (rv_dispatch env) source opts p recipient (rw_disp w)")
         (simp add: control_plane_def recovers_def mark_waiting_ok)
  qed
qed (auto simp: recovers_def quietly_def intro: reaches_trans)

text \<open>A session that the environment cannot issue again stays settled.\<close>

definition never_issues :: "recovery_env \<Rightarrow> string \<Rightarrow> bool" where
  "never_issues env sid \<longleftrightarrow> (\<forall>agent task. dv_start (rv_dispatch env) agent task \<noteq> Inr sid)"

definition stays_settled :: "recovery_env \<Rightarrow> string \<Rightarrow> recovery_world \<Rightarrow> recovery_world \<Rightarrow> bool" where
  "stays_settled env sid w w' \<longleftrightarrow>
     (never_issues env sid \<longrightarrow> map_of (dw_pending (rw_disp w)) sid = None \<longrightarrow> map_of (dw_pending (rw_disp w')) sid = None)"

interpretation unissued: dispatch_preorder
    "\<lambda>w w'. (\<forall>agent task. dv_start env agent task \<noteq> Inr sid) \<longrightarrow> map_of (dw_pending w) sid = None
       \<longrightarrow> map_of (dw_pending w') sid = None" env for env sid
  by unfold_locales (auto simp: update_conv')

interpretation settled: recovery_preorder "stays_settled env sid" env for env sid
proof
  show "act_keeps (stays_settled env sid) (control_plane env source opts p recipient)" for source opts p recipient
  proof (rule act_keepsI)
    fix w
    show "stays_settled env sid w (snd (control_plane env source opts p recipient w))"
      using unissued.control_plane_keeps [of "rv_dispatch env" sid "rw_disp w" source opts p recipient]
      by (cases "dispatch_from_control_plane (rv_dispatch env) source opts p recipient (rw_disp w)")
         (simp add: control_plane_def stays_settled_def never_issues_def)
  qed
qed (auto simp: stays_settled_def quietly_def)

text \<open>
  C24. However tasks reach the dispatcher, in any order and whatever it observes: the attempts and leases are what a
  run of the store's own calls makes of them, so no task has two leases; the ad-hoc queue is ordered and
  holds a file once; the PM's guard is consistent.
\<close>

theorem dispatcher_run_consistent:
  assumes "dw_store (rw_disp w) = empty_dispatch_state" and "rw_adhoc w = []" and "rw_guard w = new_pm_guard"
  shows "(\<exists>cs. dw_store (rw_disp (run_recovery ops w)) = run_dispatch cs)
    \<and> distinct (map lease_key (filter unreleased (ds_leases (dw_store (rw_disp (run_recovery ops w))))))
    \<and> sorted (map ai_priority (rw_adhoc (run_recovery ops w)))
    \<and> distinct (map adhoc_key (rw_adhoc (run_recovery ops w))) \<and> pm_ok (rw_guard (run_recovery ops w))"
proof -
  have "recovers w (fold recovery_step ops w)" for w
    by (induction ops arbitrary: w) (auto intro: recov.step_refl recov.step_trans recov.step_keeps)
  then have "recovers w (run_recovery ops w)" by (simp add: run_recovery_def)
  moreover have "adhoc_ok []" "pm_ok new_pm_guard" by (simp_all add: adhoc_ok_def pm_ok_def new_pm_guard_def)
  ultimately obtain cs where "dw_store (rw_disp (run_recovery ops w)) = run_dispatch cs"
    and ok: "adhoc_ok (rw_adhoc (run_recovery ops w))" "pm_ok (rw_guard (run_recovery ops w))"
    using assms by (auto simp: recovers_def store_reaches_def run_dispatch_def)
  then show ?thesis using run_dispatch_ok [of cs] by (auto simp: dispatch_ok_def adhoc_ok_def)
qed

definition sample_recovery_env :: "(start_failure + string) \<Rightarrow> recovery_env" where
  "sample_recovery_env start =
     \<lparr>rv_dispatch = sample_dispatch_env start, rv_error = (\<lambda>e. Js_error ''Error'' ''unreadable'' None None None),
      rv_approval = (\<lambda>a. None), rv_resolve = id, rv_root = ''/srv'', rv_release = (\<lambda>fs. (fs, [])),
      rv_breaker = default_breaker, rv_report = (\<lambda>t r s. None), rv_settle_report = (\<lambda>r l. l),
      rv_agent_role = (\<lambda>a. Some ''DEV''), rv_session_of = (\<lambda>s. Some (''DEV-01'', ''running''))\<rparr>"

definition sample_recovery :: recovery_world where
  "sample_recovery =
     \<lparr>rw_disp = sample_dispatcher [], rw_adhoc = [], rw_guard = new_pm_guard, rw_hits = [], rw_asks = [], rw_waits = [],
      rw_drains = []\<rparr>"

theorem dispatcher_run_consistent_witness:
  "\<exists>cs. dw_store (rw_disp (run_recovery
      [(sample_recovery_env (Inr ''sess-1''), Inbox_event (Inbox, sample_name) ''DEV'' ''PM''),
       (sample_recovery_env (Inr ''sess-1''), Inbox_scan)] sample_recovery)) = run_dispatch cs"
  using dispatcher_run_consistent [of sample_recovery]
  by (simp add: sample_recovery_def sample_dispatcher_def run_dispatch_def)

text \<open>
  C25. A session is settled once: after its first event nothing that happens, as long as the session manager
  does not issue its id again, makes it pending again, and every further event of it changes nothing.
\<close>

theorem settled_once:
  assumes "map_of (dw_pending (rw_disp w)) (st_session s) \<noteq> None"
    and "never_issues env (st_session s)" and "\<forall>x \<in> set ops. never_issues (fst x) (st_session s)"
    and "st_session s' = st_session s"
  shows "handle_session_settlement env' e' s' (run_recovery ops (snd (handle_session_settlement env e s w)))
    = (Inr (), run_recovery ops (snd (handle_session_settlement env e s w)))"
proof -
  let ?sid = "st_session s"
  have "map_of (dw_pending (rw_disp (snd ((free_session s :: unit recov) w)))) ?sid = None"
    by (simp add: free_session_def upd_disp_def act_update_def delete_conv')
  then have "map_of (dw_pending (rw_disp (snd (handle_session_settlement env e s w)))) ?sid = None"
    using settled.settle_rest [OF assms(1)] assms(2) by (simp add: stays_settled_def)
  moreover have "map_of (dw_pending (rw_disp (fold recovery_step ops v))) ?sid = None"
    if "map_of (dw_pending (rw_disp v)) ?sid = None" for v
    using assms(3) that
  proof (induction ops arbitrary: v)
    case (Cons x ops)
    have "map_of (dw_pending (rw_disp (recovery_step x v))) ?sid = None"
      using settled.step_keeps [of "fst x" ?sid v "snd x"] Cons.prems by (simp add: stays_settled_def)
    then show ?case using Cons by simp
  qed simp
  ultimately show ?thesis
    using assms(4) by (simp add: run_recovery_def handle_session_settlement_def act_bind_def act_get_def act_return_def)
qed

definition sample_settlement :: settlement where
  "sample_settlement =
     \<lparr>st_session = ''sess-0'', st_path = (Active, sample_name), st_recipient = ''DEV'', st_task = ''TASK-20260101-001'',
      st_report_recipient = ''PM'', st_agent = ''DEV-01'', st_attempt = None\<rparr>"

definition sample_end :: session_event where
  "sample_end =
     \<lparr>se_cancelled = False, se_agent = ''DEV-01'', se_status = Some ''completed'', se_report_written = True,
      se_failure_code = None, se_failure_category = None, se_task_id = None, se_tool_calls = 3, se_error = None,
      se_reason = None, se_fingerprint = None, se_approval = None, se_project = None, se_outcome_task = None,
      se_thread = None, se_role = None\<rparr>"

definition sample_pending :: recovery_world where
  "sample_pending = sample_recovery\<lparr>rw_disp := (sample_dispatcher [])\<lparr>
     dw_pending := [(''sess-0'', (Active, sample_name), ''DEV'')]\<rparr>\<rparr>"

theorem settled_once_witness:
  "let env = sample_recovery_env (Inr ''sess-1''); w = snd (handle_session_settlement env sample_end sample_settlement sample_pending)
   in handle_session_settlement env sample_end sample_settlement (run_recovery [(env, Inbox_scan)] w)
     = (Inr (), run_recovery [(env, Inbox_scan)] w)"
  unfolding Let_def
  by (rule settled_once)
     (simp_all add: sample_pending_def sample_settlement_def never_issues_def sample_recovery_env_def sample_dispatch_env_def)

end
