(* ===== verification/Recovery_Guarantees.thy ===== *)
theory Recovery_Guarantees
  imports Recovery_Properties
begin

text \<open>
  What the single recoveries guarantee: a task that is held stays held, a session that policy interrupts costs no
  retry, an agent that claims a task for itself holds its lease; and where they fall short of what they are for.
\<close>

section \<open>Held tasks\<close>

lemma history_only: "\<exists>h. snd (append_history env p e d) = d\<lparr>dw_history := h\<rparr>"
proof (cases "snd (append_history env p e d) = d")
  case True
  then show ?thesis by (intro exI [of _ "dw_history d"]) simp
next
  case False
  then show ?thesis by (auto simp: append_history_def act_update_def Let_def split: option.split if_split)
qed

lemma note_history_run: "\<exists>h. note_history env p h1 h2 h3 w = (Inr (), w\<lparr>rw_disp := (rw_disp w)\<lparr>dw_history := h\<rparr>\<rparr>)"
  using history_only [of "rv_dispatch env" p "\<lparr>he_from = h1, he_to = h2, he_note = h3\<rparr>" "rw_disp w"]
  by (auto simp: note_history_def upd_disp_def act_update_def)

text \<open>
  C27. The watcher never starts a task that is held for an explicit dispatch: an event for a readable file whose
  route, parent or provenance asks for a hold changes nothing but the history of the file.
\<close>

theorem held_task_not_started:
  assumes "parse_path (rv_dispatch env) (rw_files w) p = Some t" and "frontmatter_state t = ''inbox''"
    and "explicit_hold env (rw_files w) p sender recipient = Some r"
  shows "\<exists>h. handle_inbox env p recipient sender w = (Inr (), w\<lparr>rw_disp := (rw_disp w)\<lparr>dw_history := h\<rparr>\<rparr>)"
proof -
  obtain fm body where content: "map_of (rw_files w) p = Some (Task_file fm body)"
    using assms(1) by (auto simp: parse_path_def split: option.splits task_file.splits)
  have same: "\<exists>h. w = w\<lparr>rw_disp := (rw_disp w)\<lparr>dw_history := h\<rparr>\<rparr>"
    by (rule exI [of _ "dw_history (rw_disp w)"]) simp
  have held: "\<exists>out h. register_held env p recipient r w = (Inr out, w\<lparr>rw_disp := (rw_disp w)\<lparr>dw_history := h\<rparr>\<rparr>)
      \<and> out \<in> {None, Some (Out_observer_bypass recipient), Some (Out_already_dispatched None)}"
    using note_history_run [of env p "''inbox''" "''held''" "hold_marker r" w] same
    by (auto simp: register_held_def act_bind_def act_get_def act_return_def content)
  then obtain out h where run: "register_held env p recipient r w = (Inr out, w\<lparr>rw_disp := (rw_disp w)\<lparr>dw_history := h\<rparr>\<rparr>)"
    and out: "out \<in> {None, Some (Out_observer_bypass recipient), Some (Out_already_dispatched None)}" by blast
  have "reconcile_task env p recipient sender ''watcher_event'' w = (Inr (Already_consistent, p), w)"
    using assms(1,2) by (simp add: reconcile_task_def parse_now_def act_bind_def act_get_def act_return_def)
  then show ?thesis
    using run out
    by (auto simp: handle_inbox_def Let_def goes_on_def act_when_def act_catch_def act_bind_def act_get_def assms(3)
        handle_outcome_def act_return_def)
qed

definition held_name :: string where
  "held_name = ''TASK-20260101-002-CI-to-DEV.md''"

definition held_parsed :: parsed_task where
  "held_parsed = sample_parsed\<lparr>pt_filename := held_name, pt_task_id := Some ''TASK-20260101-002'', pt_sender := Some ''CI'',
     pt_frontmatter := [(''sender'', V_string ''CI''), (''recipient'', V_string ''DEV'')]\<rparr>"

definition held_env :: recovery_env where
  "held_env = (sample_recovery_env (Inr ''sess-1''))\<lparr>rv_dispatch := sample_env_ok\<lparr>dv_parse := (\<lambda>n fm body. Some held_parsed)\<rparr>\<rparr>"

definition world_with :: "task_files \<Rightarrow> agent_task_queue option \<Rightarrow> recovery_world" where
  "world_with fs q = sample_recovery\<lparr>rw_disp := (sample_dispatcher [])\<lparr>dw_lc :=
     \<lparr>w_files = fs, w_queue = q, w_reports = [], w_ledger = [], w_reviews = []\<rparr>\<rparr>\<rparr>"

theorem held_task_not_started_witness:
  "let w = world_with [((Inbox, held_name), Task_file empty_fm ''Write it.'')] None
   in \<exists>h. handle_inbox held_env (Inbox, held_name) ''DEV'' ''CI'' w = (Inr (), w\<lparr>rw_disp := (rw_disp w)\<lparr>dw_history := h\<rparr>\<rparr>)"
  unfolding Let_def
proof (rule held_task_not_started [of _ _ _ held_parsed _ _ Manual_import])
  let ?w = "world_with [((Inbox, held_name), Task_file empty_fm ''Write it.'')] None"
  show "parse_path (rv_dispatch held_env) (rw_files ?w) (Inbox, held_name) = Some held_parsed" by code_simp
  show "frontmatter_state held_parsed = ''inbox''" by code_simp
  show "explicit_hold held_env (rw_files ?w) (Inbox, held_name) ''CI'' ''DEV'' = Some Manual_import" by code_simp
qed

section \<open>Interruptions by policy\<close>

lemma mark_waiting_run:
  "\<exists>st w' fs. mark_waiting env e p w = (Inr st, w')
    \<and> rw_disp w' = (rw_disp w)\<lparr>dw_lc := (dw_lc (rw_disp w))\<lparr>w_files := fs\<rparr>\<rparr> \<and> map fst fs = map fst (rw_files w)
    \<and> rw_adhoc w' = rw_adhoc w \<and> rw_hits w' = rw_hits w"
proof -
  let ?r = "resolve_for_mutation (rv_dispatch env) (rw_files w) p"
  show ?thesis
  proof (cases "\<exists>fm body. map_of (rw_files w) ?r = Some (Task_file fm body)")
    case True
    then obtain fm body where r: "map_of (rw_files w) ?r = Some (Task_file fm body)" by blast
    then have "?r \<in> fst ` set (rw_files w)" by (metis domI dom_map_of_conv_image_fst)
    then have "map fst (AList.update ?r x (rw_files w)) = map fst (rw_files w)" for x by (simp add: update_keys)
    then show ?thesis by (simp add: mark_waiting_def Let_def r) blast
  next
    case False
    then have "mark_waiting env e p w = (Inr ''active'', w)"
      by (auto simp: mark_waiting_def Let_def split: option.split task_file.split)
    then show ?thesis by (intro exI [of _ "''active''"] exI [of _ w] exI [of _ "rw_files w"]) simp
  qed
qed

text \<open>
  C26. A session that policy interrupted, with a confirmed approval to wait for or by an older code, costs no retry:
  no failure is recorded, nothing is scheduled, the breaker does not count it, no attempt and no queue changes and
  no task moves; without a confirmed approval nothing changes at all.
\<close>

theorem policy_stop_costs_no_retry:
  assumes "event_code e \<in> set policy_codes" and "maybe_restore_inbox env e p w = (r, w')"
  shows "dw_retries (rw_disp w') = dw_retries (rw_disp w) \<and> dw_timers (rw_disp w') = dw_timers (rw_disp w)
    \<and> dw_store (rw_disp w') = dw_store (rw_disp w) \<and> w_queue (dw_lc (rw_disp w')) = w_queue (dw_lc (rw_disp w))
    \<and> rw_hits w' = rw_hits w \<and> rw_adhoc w' = rw_adhoc w
    \<and> map fst (rw_files w') = map fst (rw_files w)
    \<and> (\<not> approval_wait env e p (thread_of (rw_files w) p) \<longrightarrow> w' = w)"
proof -
  obtain st w1 fs where mark: "mark_waiting env e p w = (Inr st, w1)"
    and w1: "rw_disp w1 = (rw_disp w)\<lparr>dw_lc := (dw_lc (rw_disp w))\<lparr>w_files := fs\<rparr>\<rparr>"
      "map fst fs = map fst (rw_files w)" "rw_adhoc w1 = rw_adhoc w" "rw_hits w1 = rw_hits w"
    using mark_waiting_run [of env e p w] by blast
  let ?text = "(if event_code e = [] then ''CODEFLOWMU_POLICY_BLOCKED'' else event_code e) @ '': guard worked; retry_policy=none''"
  obtain h where hist: "note_history env p st st ?text w1 = (Inr (), w1\<lparr>rw_disp := (rw_disp w1)\<lparr>dw_history := h\<rparr>\<rparr>)"
    using note_history_run by blast
  have gov: "governance_wait env e p w = (Inr (), w1\<lparr>rw_disp := (rw_disp w1)\<lparr>dw_history := h\<rparr>\<rparr>)"
    using mark hist by (simp only: governance_wait_def act_bind_def prod.case sum.case)
  have cases: "w' = w \<or> (approval_wait env e p (thread_of (rw_files w) p) \<and> w' = snd (governance_wait env e p w))"
    using assms
    by (auto simp: maybe_restore_inbox_def act_bind_def act_get_def act_return_def is_governance_block_def split: if_splits)
  then show ?thesis using w1 by (auto simp: gov)
qed

definition policy_end :: session_event where
  "policy_end = sample_end\<lparr>se_status := Some ''failed'', se_failure_code := Some ''approval_pending''\<rparr>"

theorem policy_stop_costs_no_retry_witness:
  "let env = sample_recovery_env (Inr ''sess-1'')
   in dw_retries (rw_disp (snd (maybe_restore_inbox env policy_end (Active, sample_name) sample_recovery)))
     = dw_retries (rw_disp sample_recovery)"
proof -
  have "event_code policy_end \<in> set policy_codes" by code_simp
  from policy_stop_costs_no_retry [OF this prod.collapse [symmetric]] show ?thesis unfolding Let_def by blast
qed

section \<open>A claim by the agent itself\<close>

lemma reaches_ok: "store_reaches s s' \<Longrightarrow> dispatch_ok s \<Longrightarrow> dispatch_ok s'"
proof -
  have "dispatch_ok s \<Longrightarrow> dispatch_ok (fold dispatch_step cs s)" for cs s
    by (induction cs arbitrary: s) (auto intro: dispatch_step_ok)
  then show "store_reaches s s' \<Longrightarrow> dispatch_ok s \<Longrightarrow> dispatch_ok s'" by (auto simp: store_reaches_def)
qed

lemma on_lifecycle_Inr: "on_lifecycle m w = (Inr x, w') \<Longrightarrow> dw_store (rw_disp w') = dw_store (rw_disp w)"
  by (auto simp: on_lifecycle_def split: prod.splits)

lemma activate_claim_Inr:
  assumes "activate_claim env i p d attempt l w = (Inr (Self_claimed a k q), w')"
  shows "a = attempt" and "k = el_id l" and "dw_store (rw_disp w') = snd (mark_running (rv_now env) attempt (cq_session i) (dw_store (rw_disp w)))"
  using assms
  by (auto simp: activate_claim_def act_bind_Inr_iff act_return_def on_attempts_def case_prod_beta dest!: on_lifecycle_Inr)

lemma claim_offered_holds:
  assumes run: "claim_offered env i p t task d w = (Inr (Self_claimed a k q), w')" and ok: "dispatch_ok (dw_store (rw_disp w))"
  shows "\<exists>lease. lease_table (dw_store (rw_disp w')) (dispatch_task_key task) = Some lease
    \<and> el_id lease = k \<and> el_attempt_id lease = a \<and> el_agent_id lease = cq_agent i \<and> rv_now env < el_expires lease"
proof -
  let ?now = "rv_now env" and ?dv = "rv_dispatch env" and ?s = "dw_store (rw_disp w)"
  obtain att idem s1 where off:
      "offer_attempt ?now (dv_attempt_uuid ?dv) (self_offer env i p t task (claim_operation i task)) ?s = ((att, idem), s1)"
    by (metis surj_pair)
  let ?w1 = "w\<lparr>rw_disp := (rw_disp w)\<lparr>dw_store := s1\<rparr>\<rparr>" and ?in = "self_claim_input i task (at_id att)"
  obtain r s2 where cl: "claim_lease ?now (dv_lease_uuid ?dv) ?in s1 = (r, s2)" by fastforce
  let ?w2 = "?w1\<lparr>rw_disp := (rw_disp ?w1)\<lparr>dw_store := s2\<rparr>\<rparr>"
  obtain c l again where r: "r = Claim_ok c l again"
    and act: "activate_claim env i p d (at_id att) l ?w2 = (Inr (Self_claimed a k q), w')"
    using run off cl
    by (cases r) (auto simp: claim_offered_def act_bind_def on_attempts_def act_return_def)
  have "dispatch_ok s1" using reaches_ok [OF store_operations(2) ok] off by (metis snd_conv)
  moreover have key: "claim_key ?in = dispatch_task_key task" "cl_ttl ?in = None" by (simp_all add: self_claim_input_def)
  ultimately have c: "lease_table s2 (dispatch_task_key task) = Some l" "dispatch_ok s2" "el_attempt_id l = at_id att"
    "el_agent_id l = cq_agent i" "?now < el_expires l"
    using claim_ok_lease [of s1 ?now "dv_lease_uuid ?dv" ?in c l again s2] cl r by (simp_all add: self_claim_input_def)
  show ?thesis
    using mark_running_table [OF c(2,1), of ?now "at_id att" "cq_session i"] activate_claim_Inr [OF act] c(3-5) by auto
qed

lemma claim_inbox_holds:
  assumes run: "claim_inbox_task env i p t w = (Inr (Self_claimed a k q), w')" and ok: "dispatch_ok (dw_store (rw_disp w))"
  shows "\<exists>lease. lease_table (dw_store (rw_disp w')) (dispatch_task_key (canonical_dispatch_id (snd p) (pt_task_id t))) = Some lease
    \<and> el_id lease = k \<and> el_attempt_id lease = a \<and> el_agent_id lease = cq_agent i \<and> rv_now env < el_expires lease"
proof -
  let ?task = "canonical_dispatch_id (snd p) (pt_task_id t)"
  obtain rd w1 where dec: "recovers w w1"
    and rest: "(case rd of Inl e \<Rightarrow> act_throw (Rec_decision e) | Inr d \<Rightarrow> claim_offered env i p t ?task d) w1
        = (Inr (Self_claimed a k q), w')"
    using run [unfolded claim_inbox_task_def Let_def]
    by (rule act_bindE) (use act_keepsD [OF recov.recov_store_calls(1)] in blast)
  then obtain d where "claim_offered env i p t ?task d w1 = (Inr (Self_claimed a k q), w')"
    by (cases rd) (simp_all add: act_throw_def)
  moreover have "dispatch_ok (dw_store (rw_disp w1))" using dec reaches_ok ok by (auto simp: recovers_def)
  ultimately show ?thesis by (rule claim_offered_holds)
qed

lemma not_claimed: "(case x of
       None \<Rightarrow> act_throw e
     | Some l \<Rightarrow> if c l then act_return (Self_held l) else act_throw e) w \<noteq> (Inr (Self_claimed a k q), w')"
  by (auto simp: act_return_def act_throw_def split: option.split)

lemma demand_Inr [simp]: "demand e x w = (Inr y, w') \<longleftrightarrow> x = Some y \<and> w' = w"
  by (cases x) (auto simp: demand_def act_return_def act_throw_def)

text \<open>The identity check only looks, so the task is located in the world of the call; what is admitted is the
  parse of the located file.\<close>

lemma identity_only_looks: "assert_executor_identity env i w = (Inr u, w1) \<Longrightarrow> w1 = w"
  by (auto simp: assert_executor_identity_def act_throw_def act_when_def act_return_def split: if_splits)

lemma claim_located_names:
  assumes "claim_located env i w = (Inr p, w1)"
  shows "find_task_path_by_id (rw_files w) (cq_task i) = Some p \<or> find_task_path_by_id (rw_files w1) (cq_task i) = Some p"
  using assms unfolding claim_located_def locate_def
  by (auto simp: act_get_def act_return_def split: if_splits elim!: act_bindE)

lemma claim_run:
  assumes "claim_my_task env i w = (Inr (Self_claimed a l q), w')"
  obtains u p w1 t v w2 where "assert_executor_identity env i w = (Inr u, w)" "claim_located env i w = (Inr p, w1)"
    "fst p = Inbox" "parse_path (rv_dispatch env) (rw_files w1) p = Some t"
    "claim_admit env i t w1 = (Inr v, w2)" "claim_inbox_task env i p t w2 = (Inr (Self_claimed a l q), w')"
  using assms unfolding claim_my_task_def
  by (elim act_bindE)
     (auto simp: not_claimed parse_now_def act_get_def dest: identity_only_looks split: if_splits elim!: act_bindE intro: that)

text \<open>
  C23. A claim by an agent that succeeds gives it the task it asked for: the agent is registered in the role it names
  and among the agents of that role, its session is running, the file located for the request lies in the inbox, and
  the content read from this very file is addressed to that role and passes the dependency gate. Afterwards the agent
  holds the lease of that file's task, the one the answer names, unexpired, whatever ran before.
\<close>

theorem self_claim_holds_lease:
  assumes "claim_my_task env i w = (Inr (Self_claimed a l q), w')" and "dw_store (rw_disp w) = run_dispatch cs"
  shows "(\<exists>role. rv_agent_role env (cq_agent i) = Some role \<and> js_upper role = js_upper (js_trim (cq_role i)))
    \<and> list_ex (\<lambda>x. ag_id x = cq_agent i) (dv_agents (rv_dispatch env) (cq_role i))
    \<and> rv_session_of env (cq_session i) = Some (cq_agent i, ''running'')
    \<and> (\<exists>p w1 t lease. claim_located env i w = (Inr p, w1) \<and> fst p = Inbox
        \<and> (find_task_path_by_id (rw_files w) (cq_task i) = Some p \<or> find_task_path_by_id (rw_files w1) (cq_task i) = Some p)
        \<and> parse_path (rv_dispatch env) (rw_files w1) p = Some t
        \<and> js_upper (str_of (pt_recipient t)) = js_upper (cq_role i)
        \<and> dep_allowed (evaluate_task_dependency_gate t (Some (dv_project (rv_dispatch env))))
        \<and> lease_table (dw_store (rw_disp w')) (dispatch_task_key (canonical_dispatch_id (snd p) (pt_task_id t))) = Some lease
        \<and> el_id lease = l \<and> el_attempt_id lease = a \<and> el_agent_id lease = cq_agent i \<and> rv_now env < el_expires lease)"
proof -
  obtain u p w1 t v w2 where ident: "assert_executor_identity env i w = (Inr u, w)"
    and loc: "claim_located env i w = (Inr p, w1)" and inbox: "fst p = Inbox"
    and parse: "parse_path (rv_dispatch env) (rw_files w1) p = Some t"
    and adm: "claim_admit env i t w1 = (Inr v, w2)"
    and claim: "claim_inbox_task env i p t w2 = (Inr (Self_claimed a l q), w')"
    using assms(1) by (rule claim_run)
  have "dispatch_ok (dw_store (rw_disp w))" by (simp add: assms(2) run_dispatch_ok)
  moreover have "recovers w w2"
    using act_keepsD [OF recov.recov_located loc] act_keepsD [OF recov.recov_admit(1) adm] by (rule recov.step_trans)
  ultimately have "dispatch_ok (dw_store (rw_disp w2))" by (auto simp: recovers_def intro: reaches_ok)
  from claim_inbox_holds [OF claim this] obtain lease where
    "lease_table (dw_store (rw_disp w')) (dispatch_task_key (canonical_dispatch_id (snd p) (pt_task_id t))) = Some lease"
    "el_id lease = l" "el_attempt_id lease = a" "el_agent_id lease = cq_agent i" "rv_now env < el_expires lease" by blast
  moreover have "js_upper (str_of (pt_recipient t)) = js_upper (cq_role i)"
    "list_ex (\<lambda>x. ag_id x = cq_agent i) (dv_agents (rv_dispatch env) (cq_role i))"
    "dep_allowed (evaluate_task_dependency_gate t (Some (dv_project (rv_dispatch env))))"
    using adm by (auto simp: claim_admit_def Let_def act_throw_def act_when_def split: if_splits)
  moreover have "\<exists>role. rv_agent_role env (cq_agent i) = Some role \<and> js_upper role = js_upper (js_trim (cq_role i))"
    "rv_session_of env (cq_session i) = Some (cq_agent i, ''running'')"
    using ident by (auto simp: assert_executor_identity_def act_throw_def act_when_def split: if_splits option.splits)
  ultimately show ?thesis using loc inbox parse claim_located_names [OF loc] by blast
qed

definition sample_claim :: claim_request where
  "sample_claim = \<lparr>cq_task = ''TASK-20260101-001'', cq_role = ''DEV'', cq_agent = ''DEV-01'', cq_session = ''sess-7'', cq_key = None\<rparr>"

lemma sample_claim_run:
  "fst (claim_my_task (sample_recovery_env (Inr ''sess-1'')) sample_claim sample_recovery)
     = Inr (Self_claimed ''attempt-a'' ''lease-l'' (Active, sample_name))"
  by code_simp

theorem self_claim_holds_lease_witness:
  "let env = sample_recovery_env (Inr ''sess-1''); w' = snd (claim_my_task env sample_claim sample_recovery) in
   \<exists>p w1 t lease. claim_located env sample_claim sample_recovery = (Inr p, w1) \<and> fst p = Inbox
     \<and> parse_path (rv_dispatch env) (rw_files w1) p = Some t \<and> js_upper (str_of (pt_recipient t)) = js_upper ''DEV''
     \<and> lease_table (dw_store (rw_disp w')) (dispatch_task_key (canonical_dispatch_id (snd p) (pt_task_id t))) = Some lease
     \<and> el_id lease = ''lease-l'' \<and> el_attempt_id lease = ''attempt-a'' \<and> el_agent_id lease = ''DEV-01''"
proof -
  let ?env = "sample_recovery_env (Inr ''sess-1'')"
  obtain w' where run: "claim_my_task ?env sample_claim sample_recovery
      = (Inr (Self_claimed ''attempt-a'' ''lease-l'' (Active, sample_name)), w')"
    using sample_claim_run by (metis prod.collapse)
  have "dw_store (rw_disp sample_recovery) = run_dispatch []" by (simp add: sample_recovery_def sample_dispatcher_def)
  from self_claim_holds_lease [OF run this] obtain p w1 t lease where
    "claim_located ?env sample_claim sample_recovery = (Inr p, w1)" "fst p = Inbox"
    "parse_path (rv_dispatch ?env) (rw_files w1) p = Some t" "js_upper (str_of (pt_recipient t)) = js_upper (cq_role sample_claim)"
    "lease_table (dw_store (rw_disp w')) (dispatch_task_key (canonical_dispatch_id (snd p) (pt_task_id t))) = Some lease"
    "el_id lease = ''lease-l''" "el_attempt_id lease = ''attempt-a''" "el_agent_id lease = cq_agent sample_claim" by blast
  moreover have "cq_agent sample_claim = ''DEV-01''" "cq_role sample_claim = ''DEV''" by (simp_all add: sample_claim_def)
  ultimately show ?thesis unfolding Let_def run snd_conv by metis
qed

section \<open>Where the recoveries fall short\<close>

text \<open>
  A task that was paused is resumed with priority: the answer is that it is queued, but the entry of the pause
  kept no path, so the advance takes it from the queue and starts nothing. It is in no queue any more.
\<close>

definition paused_queue :: agent_task_queue where
  "paused_queue = pause_agent_task
     \<lparr>pe_task_id = ''TASK-20260101-001'', pe_agent_id = ''DEV-01'', pe_paused_at = 0, pe_paused_by = ''ADMIN'',
      pe_pause_reason = ''check'', pr_filepath = Some (path_text (Active, sample_name)), pr_filename = Some sample_name\<rparr>
     (load_agent_task_queue 0 None)"

lemma resumed_task_in_no_queue:
  "case resume_task_execution (sample_recovery_env (Inr ''sess-1'')) ''TASK-20260101-001'' True
       (world_with [((Active, sample_name), Task_file empty_fm ''Write it.'')] (save_agent_task_queue 0 paused_queue)) of
     (r, w') \<Rightarrow> r = Inr (Inr Queued_status) \<and> dw_started (rw_disp w') = []
       \<and> get_task_dispatch_status (load_agent_task_queue 0 (w_queue (dw_lc (rw_disp w')))) ''TASK-20260101-001'' = None"
  by code_simp

text \<open>A pause saves the queue it loaded at its start: whatever others did to the queue while it waited for the
  session is lost.\<close>

lemma pause_overwrites_queue:
  assumes "pv_release_ok pv" and "session_of_task agent task (pv_sessions_after pv) = None" and "pv_cancel_ok pv \<or> live = None"
  shows "do_pause env (pv\<lparr>pv_meanwhile := \<lambda>w. w\<lparr>rw_disp := (rw_disp w)\<lparr>dw_lc := (dw_lc (rw_disp w))\<lparr>w_queue := f w\<rparr>\<rparr>\<rparr>\<rparr>)
      i task agent q live w = do_pause env (pv\<lparr>pv_meanwhile := id\<rparr>) i task agent q live w"
  using assms
  by (auto simp: do_pause_def act_bind_def act_update_def upd_disp_def save_queue_def act_get_def locate_def)

text \<open>A task that a P0 task interrupts is queued again with the path of its running session, which is active: no
  drain ever takes it.\<close>

lemma interrupted_item_never_drained:
  "fst p = Active \<Longrightarrow> shift_live fs (busy_item env p recipient P1 # q) = shift_live fs q"
  by (simp add: is_live_adhoc_item_def busy_item_def)

text \<open>The drain looks for a pending retry under the name of the file, the dispatcher records it under the task's id.\<close>

lemma drain_misses_recorded_retry:
  "adhoc_retry_key (sample_recovery_env start) (busy_item env (Inbox, sample_name) ''DEV'' P2)
     \<noteq> retry_key sample_agent (canonical_dispatch_id sample_name (Some ''TASK-20260101-001''))"
  by code_simp

text \<open>One file that cannot be parsed ends the scan of the inbox: the tasks listed behind it are not started.\<close>

lemma scan_stops_at_unreadable_file:
  assumes "stage_filenames Inbox (rw_files w) = n # behind" and "map_of (rw_files w) (Inbox, n) = Some f"
    and "inbox_task_name n" and "extract_recipient_from_filename n \<noteq> []" and "extract_sender_from_filename n \<noteq> []"
    and "parse_path (rv_dispatch env) (rw_files w) (Inbox, n) = None"
  shows "reconcile_inbox_now env w = (Inr (), w)"
  using assms
  by (simp add: reconcile_inbox_now_def scan_entry_def reconcile_task_def parse_now_def act_bind_def act_get_def act_catch_def
      act_throw_def act_return_def Let_def)

text \<open>A task is found by a prefix of its file name: 001 also names 0010.\<close>

lemma prefix_finds_other_task:
  "find_task_path_by_id [((Inbox, ''TASK-20260101-0010-PM-to-DEV.md''), f)] ''TASK-20260101-001''
     = Some (Inbox, ''TASK-20260101-0010-PM-to-DEV.md'')"
  by code_simp

end
