(* ===== verification/Governance_Approval.thy ===== *)
theory Governance_Approval
  imports Js_Prelude
begin

text \<open>
  The formal governance records that ADMIN approves (\<^verbatim>\<open>approval/GovernanceApprovalService.ts\<close>): the PM drafts and
  submits a record, ADMIN decides or revokes it, and an authorization is used by consuming it. The world is what
  the service keeps on disk: the record files in their four directories, the decision files, the idempotency
  files, the transaction files of decisions under way, the lock files and the audit log. The service is
  synchronous, so a call is one step; what it wrote before an exception stays. \<open>gve_fault\<close> is an exception of the
  file system within the writes of a decision, the case the transaction files are for. Digests, the parser of
  dates, fresh identifiers, the verifier of chat messages and the task files of the project are components of
  \<open>gov_env\<close>; the YAML library returns the values it wrote. The derived index, the Markdown body, the time stamps
  that nothing reads, the hash chain of the log and the write lease of the project are left out; the file of an idempotency key is named by the key.
\<close>

section \<open>Data\<close>

datatype gov_status =
  Gs_draft | Gs_pending | Gs_changes | Gs_rejected | Gs_effective | Gs_consumed | Gs_expired | Gs_revoked
| Gs_superseded | Gs_legacy

datatype gov_verdict = Gv_approved | Gv_rejected | Gv_changes | Gv_revoked

datatype gov_bucket = Gb_draft | Gb_pending | Gb_effective | Gb_closed

datatype gov_error =
  Ge_disabled | Ge_type_invalid | Ge_prohibited | Ge_schema_invalid | Ge_author | Ge_submitter | Ge_approver
| Ge_revision_invalid | Ge_revision_conflict | Ge_not_draft | Ge_revision_not_allowed | Ge_reason_required
| Ge_ui_action_required | Ge_state_conflict | Ge_creation_failed | Ge_scope_mismatch | Ge_required | Ge_pending
| Ge_rejected | Ge_expired | Ge_revoked | Ge_consumed | Ge_not_found | Ge_decision_not_found | Ge_immutable
| Ge_busy | Ge_idempotency | Ge_corrupt | Ge_io

record gov_input =
  gvi_type :: string
  gvi_issued_by :: string
  gvi_authored_by :: string
  gvi_recipient :: string
  gvi_task :: string
  gvi_thread :: string
  gvi_project :: string
  gvi_source_kind :: string
  gvi_message :: "string option"
  gvi_session :: "string option"
  gvi_intent :: string
  gvi_boundary :: string
  gvi_allowed :: "string list"
  gvi_prohibited :: "string list"
  gvi_targets :: "string list"
  gvi_conditions :: "string list"
  gvi_expires :: "string option"
  gvi_limit :: "int option"
  gvi_retry :: "string option"
  gvi_risk :: string
  gvi_revocation :: "string list"
  gvi_evidence :: "string list"
  gvi_references :: "string list"
  gvi_supersedes :: "string option"
  gvi_blocks :: bool

text \<open>The content of a record, in the shape that the two digests are taken of.\<close>

record gov_scope =
  gvs_type :: string
  gvs_project :: string
  gvs_task :: string
  gvs_recipient :: string
  gvs_targets :: "string list"
  gvs_allowed :: "string list"
  gvs_prohibited :: "string list"
  gvs_conditions :: "string list"
  gvs_expires :: "string option"
  gvs_limit :: "int option"

record gov_content = gov_scope +
  gvc_issued_by :: string
  gvc_authored_by :: string
  gvc_thread :: string
  gvc_source_kind :: string
  gvc_message :: "string option"
  gvc_session :: "string option"
  gvc_intent :: string
  gvc_boundary :: string
  gvc_retry :: string
  gvc_risk :: string
  gvc_revocation :: "string list"
  gvc_evidence :: "string list"
  gvc_references :: "string list"
  gvc_supersedes :: "string option"
  gvc_blocks :: bool

record gov_record =
  gv_type :: string
  gv_id :: string
  gv_rev :: int
  gv_status :: gov_status
  gv_approval :: "string option"
  gv_recipient :: string
  gv_task :: string
  gv_thread :: string
  gv_project :: string
  gv_source_kind :: string
  gv_message :: "string option"
  gv_session :: "string option"
  gv_scope_digest :: string
  gv_content_hash :: string
  gv_created :: time
  gv_submitted :: "time option"
  gv_expires :: "string option"
  gv_limit :: "int option"
  gv_used :: int
  gv_supersedes :: "string option"
  gv_blocks :: bool
  gv_retry :: string
  gv_intent :: string
  gv_boundary :: string
  gv_allowed :: "string list"
  gv_prohibited :: "string list"
  gv_targets :: "string list"
  gv_conditions :: "string list"
  gv_risk :: string
  gv_revocation :: "string list"
  gv_evidence :: "string list"
  gv_references :: "string list"
  gv_verified :: bool
  gv_decision :: "string option"
  gv_lease :: "string option"

record gov_decision =
  gvd_id :: string
  gvd_lease :: "string option"
  gvd_approval :: "string option"
  gvd_gov :: string
  gvd_rev :: int
  gvd_by :: string
  gvd_verdict :: gov_verdict
  gvd_scope_digest :: string
  gvd_content_hash :: string
  gvd_created :: time
  gvd_ui_action :: string
  gvd_reason :: string
  gvd_conditions :: "string list"

datatype gov_action = Act_draft | Act_submit | Act_decided gov_verdict | Act_consume

record gov_idem =
  gvk_gov :: string
  gvk_rev :: int
  gvk_approval :: "string option"
  gvk_decision :: "string option"
  gvk_action :: gov_action

record gov_tx =
  gvx_gov :: string
  gvx_rev :: int
  gvx_decision :: string

datatype gov_event =
  Ev_drafted | Ev_validated | Ev_submitted | Ev_source_rejected | Ev_decided gov_verdict | Ev_consumed | Ev_expired
| Ev_tamper | Ev_recovered

type_synonym gov_path = "gov_bucket \<times> string \<times> int"   \<comment> \<open>directory, sanitized id, revision: \<^verbatim>\<open><id>-r<revision>.md\<close>\<close>

record gov_world =
  gvw_files :: "(gov_path \<times> gov_record) list"
  gvw_decisions :: "(string \<times> gov_decision) list"
  gvw_idem :: "(string \<times> gov_idem) list"
  gvw_tx :: "(string \<times> gov_tx) list"
  gvw_locks :: "(string \<times> int) list"
  gvw_log :: "(gov_event \<times> string \<times> int) list"

record source_query =
  sq_message :: string
  sq_session :: string
  sq_project :: string
  sq_task :: string

record source_verdict =
  sv_exists :: bool
  sv_sender :: string
  sv_project :: "string option"
  sv_tasks :: "string list"
  sv_immutable :: "bool option"

record gov_env =
  gve_now :: time
  gve_enabled :: bool
  gve_parse_date :: "string \<Rightarrow> time option"
  gve_content_digest :: "gov_content \<Rightarrow> string"
  gve_scope_digest :: "gov_scope \<Rightarrow> string"
  gve_lease_digest :: "string \<Rightarrow> int \<Rightarrow> string \<Rightarrow> string"
  gve_new_id :: string
  gve_new_approval :: string
  gve_new_decision :: string
  gve_verify :: "(source_query \<Rightarrow> source_verdict) option"
  gve_task_files :: "(string \<times> string option) list"    \<comment> \<open>name and declared task id of the files below the task directories\<close>
  gve_fault :: "nat option"

type_synonym 'a gov = "(gov_world, gov_error, 'a) act"

section \<open>Normal forms and checks\<close>

definition norm_list :: "string list \<Rightarrow> string list" where
  "norm_list xs = js_uniq (filter (\<lambda>s. s \<noteq> []) (map js_trim xs))"

definition norm_opt :: "string option \<Rightarrow> string option" where
  "norm_opt v = (let s = js_trim (str_of v) in if s = [] then None else Some s)"

definition is_pm_actor :: "string \<Rightarrow> bool" where
  "is_pm_actor v \<longleftrightarrow>
     (let s = js_trim v in js_lower (take 2 s) = ''pm'' \<and> (drop 2 s = [] \<or> hd (drop 2 s) \<in> set ''-_.''))"

definition gov_char :: "char \<Rightarrow> bool" where
  "gov_char c \<longleftrightarrow> js_digit c \<or> (let n = of_char (lower_char c) :: nat in 97 \<le> n \<and> n \<le> 122) \<or> c \<in> set ''._-''"

definition gov_sanitize :: "string \<Rightarrow> string" where
  "gov_sanitize s = map (\<lambda>c. if gov_char c then c else CHR ''_'') s"

definition gov_record_types :: "string list" where
  "gov_record_types = [''DIRECTIVE'', ''AUTHORIZATION'', ''DECISION'', ''AMENDMENT'', ''APPROVAL_REQUEST'', ''REVOCATION'', ''SUPERSEDE'']"

definition scope_of_input :: "gov_input \<Rightarrow> gov_scope" where
  "scope_of_input i =
     \<lparr>gvs_type = gvi_type i, gvs_project = gvi_project i, gvs_task = gvi_task i, gvs_recipient = gvi_recipient i,
      gvs_targets = norm_list (gvi_targets i), gvs_allowed = norm_list (gvi_allowed i),
      gvs_prohibited = norm_list (gvi_prohibited i), gvs_conditions = norm_list (gvi_conditions i),
      gvs_expires = gvi_expires i, gvs_limit = gvi_limit i\<rparr>"

definition content_of_input :: "gov_input \<Rightarrow> gov_content" where
  "content_of_input i =
     gov_scope.extend (scope_of_input i) (gov_content.fields (gvi_issued_by i) (gvi_authored_by i) (gvi_thread i)
       (gvi_source_kind i) (gvi_message i) (gvi_session i) (gvi_intent i) (gvi_boundary i)
       (or_else (gvi_retry i) ''explicit_new_approval'') (gvi_risk i) (norm_list (gvi_revocation i))
       (norm_list (gvi_evidence i)) (norm_list (gvi_references i)) (gvi_supersedes i) (gvi_blocks i))"

definition validate_gov_input :: "gov_env \<Rightarrow> gov_input \<Rightarrow> gov_error + unit" where
  "validate_gov_input env i =
     (if gvi_type i \<notin> set gov_record_types then Inl Ge_type_invalid
      else if gvi_issued_by i \<noteq> ''ADMIN'' \<or> gvi_authored_by i \<noteq> ''PM'' then Inl Ge_prohibited
      else if list_ex (\<lambda>v. js_trim v = []) [gvi_recipient i, gvi_task i, gvi_thread i, gvi_project i, gvi_intent i,
                gvi_boundary i, gvi_risk i] then Inl Ge_schema_invalid
      else if norm_list (gvi_allowed i) = [] \<or> norm_list (gvi_prohibited i) = [] \<or> norm_list (gvi_targets i) = []
        then Inl Ge_schema_invalid
      else if (case gvi_limit i of None \<Rightarrow> False | Some l \<Rightarrow> l < 1 \<or> 2 ^ 53 \<le> l) then Inl Ge_schema_invalid
      else if truthy (gvi_expires i) \<and> gve_parse_date env (str_of (gvi_expires i)) = None then Inl Ge_schema_invalid
      else Inr ())"

text \<open>What a draft stores: texts trimmed, lists normalized, the target task among the references.\<close>

definition draft_record :: "gov_env \<Rightarrow> gov_input \<Rightarrow> string \<Rightarrow> int \<Rightarrow> gov_record" where
  "draft_record env i gid vn =
     \<lparr>gv_type = gvi_type i, gv_id = gid, gv_rev = vn, gv_status = Gs_draft, gv_approval = None,
      gv_recipient = js_trim (gvi_recipient i), gv_task = js_trim (gvi_task i), gv_thread = js_trim (gvi_thread i),
      gv_project = js_trim (gvi_project i), gv_source_kind = gvi_source_kind i, gv_message = norm_opt (gvi_message i),
      gv_session = norm_opt (gvi_session i), gv_scope_digest = gve_scope_digest env (scope_of_input i),
      gv_content_hash = gve_content_digest env (content_of_input i), gv_created = gve_now env, gv_submitted = None,
      gv_expires = gvi_expires i, gv_limit = gvi_limit i, gv_used = 0, gv_supersedes = gvi_supersedes i,
      gv_blocks = gvi_blocks i, gv_retry = or_else (gvi_retry i) ''explicit_new_approval'',
      gv_intent = js_trim (gvi_intent i), gv_boundary = js_trim (gvi_boundary i), gv_allowed = norm_list (gvi_allowed i),
      gv_prohibited = norm_list (gvi_prohibited i), gv_targets = norm_list (gvi_targets i),
      gv_conditions = norm_list (gvi_conditions i), gv_risk = js_trim (gvi_risk i),
      gv_revocation = norm_list (gvi_revocation i), gv_evidence = norm_list (gvi_evidence i),
      gv_references = norm_list (gvi_task i # gvi_references i), gv_verified = False, gv_decision = None, gv_lease = None\<rparr>"

text \<open>The digests recomputed from a stored record, which \<open>assertHashes\<close> compares with the stored ones.\<close>

definition scope_of_record :: "gov_record \<Rightarrow> gov_scope" where
  "scope_of_record r =
     \<lparr>gvs_type = js_trim (gv_type r), gvs_project = js_trim (gv_project r), gvs_task = js_trim (gv_task r),
      gvs_recipient = js_trim (gv_recipient r), gvs_targets = norm_list (gv_targets r), gvs_allowed = norm_list (gv_allowed r),
      gvs_prohibited = norm_list (gv_prohibited r), gvs_conditions = norm_list (gv_conditions r),
      gvs_expires = norm_opt (gv_expires r), gvs_limit = gv_limit r\<rparr>"

definition content_of_record :: "gov_record \<Rightarrow> gov_content" where
  "content_of_record r =
     gov_scope.extend (scope_of_record r) (gov_content.fields ''ADMIN'' ''PM'' (js_trim (gv_thread r))
       (js_trim (gv_source_kind r)) (norm_opt (gv_message r)) (norm_opt (gv_session r)) (js_trim (gv_intent r))
       (js_trim (gv_boundary r)) (js_trim (gv_retry r)) (js_trim (gv_risk r)) (norm_list (gv_revocation r))
       (norm_list (gv_evidence r)) (norm_list (filter (\<lambda>x. x \<noteq> js_trim (gv_task r)) (norm_list (gv_references r))))
       (norm_opt (gv_supersedes r)) (gv_blocks r))"

definition hashes_match :: "gov_env \<Rightarrow> gov_record \<Rightarrow> bool" where
  "hashes_match env r \<longleftrightarrow>
     gve_content_digest env (content_of_record r) = gv_content_hash r
   \<and> gve_scope_digest env (scope_of_record r) = gv_scope_digest r"

section \<open>Files\<close>

definition gov_bucket_of :: "gov_status \<Rightarrow> gov_bucket" where
  "gov_bucket_of s =
     (if s = Gs_draft then Gb_draft else if s = Gs_pending then Gb_pending
      else if s = Gs_effective then Gb_effective else Gb_closed)"

definition gov_path_of :: "gov_status \<Rightarrow> string \<Rightarrow> int \<Rightarrow> gov_path" where
  "gov_path_of s gid vn = (gov_bucket_of s, gov_sanitize gid, vn)"

definition gov_paths :: "gov_world \<Rightarrow> gov_path list" where
  "gov_paths w = concat (map (\<lambda>b. filter (\<lambda>p. fst p = b) (map fst (gvw_files w))) [Gb_draft, Gb_pending, Gb_effective, Gb_closed])"

definition find_gov_path :: "gov_world \<Rightarrow> string \<Rightarrow> int \<Rightarrow> gov_path option" where
  "find_gov_path w gid vn = List.find (\<lambda>p. snd p = (gov_sanitize gid, vn)) (gov_paths w)"

definition read_gov :: "gov_path \<Rightarrow> gov_record gov" where
  "read_gov p w =
     (case map_of (gvw_files w) p of
        None \<Rightarrow> (Inl Ge_io, w)
      | Some r \<Rightarrow>
          if gv_id r = [] then (Inl Ge_corrupt, w)
          else (Inr (r\<lparr>gv_expires := norm_opt (gv_expires r), gv_supersedes := norm_opt (gv_supersedes r)\<rparr>), w))"

definition gov_upd :: "(gov_world \<Rightarrow> gov_world) \<Rightarrow> unit gov" where
  "gov_upd f w = (Inr (), f w)"

definition gov_get :: "(gov_world \<Rightarrow> 'a) \<Rightarrow> 'a gov" where
  "gov_get f w = (Inr (f w), w)"

definition put_gov :: "gov_path \<Rightarrow> gov_record \<Rightarrow> gov_world \<Rightarrow> gov_world" where
  "put_gov p r w = w\<lparr>gvw_files := AList.update p r (gvw_files w)\<rparr>"

definition del_gov :: "gov_path \<Rightarrow> gov_world \<Rightarrow> gov_world" where
  "del_gov p w = w\<lparr>gvw_files := AList.delete p (gvw_files w)\<rparr>"

text \<open>Rewrite the file at \<open>p\<close>, with a change of its fields, at the place of its new status.\<close>

definition move_gov :: "gov_path \<Rightarrow> (gov_record \<Rightarrow> gov_record) \<Rightarrow> gov_world \<Rightarrow> gov_world" where
  "move_gov p f w =
     (case map_of (gvw_files w) p of
        None \<Rightarrow> w
      | Some r \<Rightarrow>
          let q = (gov_bucket_of (gv_status (f r)), snd p); w' = put_gov q (f r) w in if q = p then w' else del_gov p w')"

definition gov_audit :: "gov_event \<Rightarrow> string \<Rightarrow> int \<Rightarrow> gov_world \<Rightarrow> gov_world" where
  "gov_audit e gid vn w = w\<lparr>gvw_log := gvw_log w @ [(e, gid, vn)]\<rparr>"

definition gov_lock :: "string \<Rightarrow> int \<Rightarrow> 'a gov \<Rightarrow> 'a gov" where
  "gov_lock gid vn m w =
     (let k = (gov_sanitize gid, vn) in
      if k \<in> set (gvw_locks w) then (Inl Ge_busy, w)
      else case m (w\<lparr>gvw_locks := k # gvw_locks w\<rparr>) of (r, w') \<Rightarrow> (r, w'\<lparr>gvw_locks := removeAll k (gvw_locks w')\<rparr>))"

definition read_idem :: "string \<Rightarrow> gov_idem option gov" where
  "read_idem key = gov_get (\<lambda>w. map_of (gvw_idem w) key)"

definition write_idem :: "string \<Rightarrow> gov_idem \<Rightarrow> unit gov" where
  "write_idem key v =
     act_bind (read_idem key) (\<lambda>old.
     case old of
       None \<Rightarrow> gov_upd (\<lambda>w. w\<lparr>gvw_idem := AList.update key v (gvw_idem w)\<rparr>)
     | Some x \<Rightarrow> if x = v then act_return () else act_throw Ge_idempotency)"

definition keep_idem :: "string option \<Rightarrow> gov_idem \<Rightarrow> unit gov" where
  "keep_idem key v = act_when (truthy key) (write_idem (str_of key) v)"

definition same_action :: "gov_action \<Rightarrow> gov_action \<Rightarrow> unit gov" where
  "same_action actual expected = act_check (check (actual = expected) Ge_idempotency)"

section \<open>Reading with expiry\<close>

definition expires_now :: "gov_env \<Rightarrow> gov_record \<Rightarrow> bool" where
  "expires_now env r \<longleftrightarrow>
     truthy (gv_expires r) \<and> gv_status r \<in> {Gs_pending, Gs_effective}
   \<and> \<not> (case gve_parse_date env (str_of (gv_expires r)) of None \<Rightarrow> False | Some t \<Rightarrow> gve_now env < t)"

definition expire_record :: "gov_path \<Rightarrow> (gov_path \<times> gov_record) gov" where
  "expire_record p =
     act_bind (read_gov p) (\<lambda>r.
     if gv_status r \<notin> {Gs_pending, Gs_effective} then act_return (p, r)
     else
       act_bind (gov_upd (gov_audit Ev_expired (gv_id r) (gv_rev r) \<circ> move_gov p (\<lambda>s. s\<lparr>gv_status := Gs_expired\<rparr>))) (\<lambda>_.
       act_bind (read_gov (gov_path_of Gs_expired (gv_id r) (gv_rev r))) (\<lambda>r'.
       act_return (gov_path_of Gs_expired (gv_id r) (gv_rev r), r'))))"

definition expire_gov :: "gov_env \<Rightarrow> gov_path \<times> gov_record \<Rightarrow> (gov_path \<times> gov_record) gov" where
  "expire_gov env x =
     (if expires_now env (snd x) then gov_lock (gv_id (snd x)) (gv_rev (snd x)) (expire_record (fst x)) else act_return x)"

definition get_gov :: "gov_env \<Rightarrow> string \<Rightarrow> int \<Rightarrow> (gov_path \<times> gov_record) gov" where
  "get_gov env gid vn =
     act_bind (gov_get (\<lambda>w. find_gov_path w gid vn)) (\<lambda>found.
     case found of
       None \<Rightarrow> act_throw Ge_not_found
     | Some p \<Rightarrow> act_bind (read_gov p) (\<lambda>r. expire_gov env (p, r)))"

definition get_decision :: "string \<Rightarrow> gov_decision gov" where
  "get_decision did =
     act_bind (gov_get (\<lambda>w. map_of (gvw_decisions w) (gov_sanitize did))) (\<lambda>d.
     case d of None \<Rightarrow> act_throw Ge_decision_not_found | Some x \<Rightarrow> act_return x)"

definition list_decisions :: "string \<Rightarrow> gov_world \<Rightarrow> gov_decision list" where
  "list_decisions gid w =
     sort_key (\<lambda>d. - gvd_created d) (filter (\<lambda>d. gid = [] \<or> gvd_gov d = gid) (map snd (gvw_decisions w)))"

definition decision_for_revision :: "string \<Rightarrow> int \<Rightarrow> gov_world \<Rightarrow> gov_decision option" where
  "decision_for_revision gid vn w = List.find (\<lambda>d. gvd_rev d = vn) (list_decisions gid w)"

section \<open>Transactions\<close>

fun target_status :: "gov_verdict \<Rightarrow> gov_status" where
  "target_status Gv_approved = Gs_effective"
| "target_status Gv_rejected = Gs_rejected"
| "target_status Gv_changes = Gs_changes"
| "target_status Gv_revoked = Gs_revoked"

definition settle_fields :: "gov_decision \<Rightarrow> gov_record \<Rightarrow> gov_record" where
  "settle_fields d r = r\<lparr>gv_status := target_status (gvd_verdict d), gv_decision := Some (gvd_id d)\<rparr>"

text \<open>One transaction file: the record is brought to the status of the decision, without a lock.\<close>

definition recover_one :: "gov_env \<Rightarrow> string \<Rightarrow> unit gov" where
  "recover_one env key =
     act_bind (gov_get (\<lambda>w. map_of (gvw_tx w) key)) (\<lambda>tx.
     case tx of
       None \<Rightarrow> act_throw Ge_io
     | Some x \<Rightarrow>
         act_bind (get_decision (gvx_decision x)) (\<lambda>d.
         act_bind (get_gov env (gvx_gov x) (gvx_rev x)) (\<lambda>(p, r).
         act_bind (act_when (gv_status r \<noteq> target_status (gvd_verdict d)) (gov_upd (move_gov p (settle_fields d)))) (\<lambda>_.
         gov_upd (\<lambda>w. gov_audit Ev_recovered (gvx_gov x) (gvx_rev x) (w\<lparr>gvw_tx := AList.delete key (gvw_tx w)\<rparr>))))))"

definition recover_transactions :: "gov_env \<Rightarrow> unit gov" where
  "recover_transactions env = act_bind (gov_get (\<lambda>w. map fst (gvw_tx w))) (act_each (recover_one env))"

section \<open>Lists\<close>

definition list_gov ::
  "gov_env \<Rightarrow> gov_status option \<Rightarrow> string option \<Rightarrow> int option \<Rightarrow> (gov_path \<times> gov_record) list gov" where
  "list_gov env status task limit =
     act_bind (recover_transactions env) (\<lambda>_.
     act_bind (gov_get gov_paths) (\<lambda>ps.
     act_bind (act_map (\<lambda>p. act_bind (read_gov p) (\<lambda>r. act_return (p, r))) ps) (\<lambda>rows.
     act_bind (act_map (expire_gov env) rows) (\<lambda>current.
     act_return (take (nat (max 1 (min (or_else limit 200) 1000)))
       (sort_key (\<lambda>x. - gv_created (snd x))
         (filter (\<lambda>x. (status = None \<or> status = Some (gv_status (snd x))) \<and> (\<not> truthy task \<or> gv_task (snd x) = str_of task))
           current)))))))"

definition latest_gov :: "gov_env \<Rightarrow> string \<Rightarrow> (gov_path \<times> gov_record) option gov" where
  "latest_gov env gid =
     act_bind (list_gov env None None (Some 1000)) (\<lambda>rows.
     case sort_key (\<lambda>x. - gv_rev (snd x)) (filter (\<lambda>x. gv_id (snd x) = gid) rows) of
       [] \<Rightarrow> act_return None
     | x # xs \<Rightarrow> act_return (Some x))"

section \<open>Drafting and submission\<close>

definition write_draft ::
  "gov_env \<Rightarrow> gov_input \<Rightarrow> string option \<Rightarrow> int option \<Rightarrow> string option \<Rightarrow> (gov_path \<times> gov_record) gov" where
  "write_draft env i gid vn key =
     act_bind (act_check (check (gve_enabled env) Ge_disabled)) (\<lambda>_.
     act_bind (act_check (validate_gov_input env i)) (\<lambda>_.
     act_bind (act_check (check (is_pm_actor (gvi_authored_by i)) Ge_author)) (\<lambda>_.
     act_bind (if truthy key then read_idem (str_of key) else act_return None) (\<lambda>prior.
     case prior of
       Some x \<Rightarrow> act_bind (same_action (gvk_action x) Act_draft) (\<lambda>_. get_gov env (gvk_gov x) (gvk_rev x))
     | None \<Rightarrow>
         let g = gov_sanitize (or_else gid (gve_new_id env)); n = or_else vn 1 in
         act_bind (act_check (check (1 \<le> n \<and> n < 2 ^ 53) Ge_revision_invalid)) (\<lambda>_.
         act_bind (gov_get (\<lambda>w. find_gov_path w g n)) (\<lambda>found.
         act_bind (act_check (check (found = None) Ge_revision_conflict)) (\<lambda>_.
         act_bind (gov_upd (gov_audit Ev_drafted g n \<circ> put_gov (gov_path_of Gs_draft g n) (draft_record env i g n))) (\<lambda>_.
         act_bind (keep_idem key \<lparr>gvk_gov = g, gvk_rev = n, gvk_approval = None, gvk_decision = None, gvk_action = Act_draft\<rparr>) (\<lambda>_.
         act_bind (read_gov (gov_path_of Gs_draft g n)) (\<lambda>r. act_return (gov_path_of Gs_draft g n, r)))))))))))"

definition target_task_exists :: "gov_env \<Rightarrow> string \<Rightarrow> bool" where
  "target_task_exists env task \<longleftrightarrow>
     (let n = js_lower (gov_sanitize task) in
      list_ex (\<lambda>(name, declared).
        js_ends (js_lower name) ''.md''
        \<and> (let base = js_lower (take (length name - 3) name) in
           base = n \<or> js_starts base (n @ ''-'') \<or> (case declared of None \<Rightarrow> False | Some d \<Rightarrow> js_lower (gov_sanitize (js_trim d)) = n)))
      (gve_task_files env))"

definition verify_source :: "gov_env \<Rightarrow> gov_record \<Rightarrow> unit gov" where
  "verify_source env r =
     (if \<not> target_task_exists env (gv_task r) then act_throw Ge_creation_failed
      else if gv_source_kind r \<noteq> ''admin_chat'' then act_return ()
      else
        case (gv_message r, gv_session r, gve_verify env) of
          (Some m, Some s, Some verify) \<Rightarrow>
            let v = verify \<lparr>sq_message = m, sq_session = s, sq_project = gv_project r, sq_task = gv_task r\<rparr> in
            if \<not> sv_exists v \<or> js_upper (js_trim (sv_sender v)) \<noteq> ''ADMIN'' then
              act_bind (gov_upd (gov_audit Ev_source_rejected (gv_id r) (gv_rev r))) (\<lambda>_. act_throw Ge_prohibited)
            else if truthy (sv_project v) \<and> sv_project v \<noteq> Some (gv_project r) \<and> gv_task r \<notin> set (sv_tasks v)
              then act_throw Ge_creation_failed
            else if sv_immutable v = Some False then act_throw Ge_creation_failed
            else act_return ()
        | _ \<Rightarrow> act_throw Ge_creation_failed)"

definition submit_fields :: "gov_env \<Rightarrow> gov_record \<Rightarrow> gov_record" where
  "submit_fields env r =
     r\<lparr>gv_status := Gs_pending, gv_approval := Some (gov_sanitize (gve_new_approval env)), gv_submitted := Some (gve_now env),
       gv_verified := True\<rparr>"

definition submit_locked :: "gov_env \<Rightarrow> string \<Rightarrow> int \<Rightarrow> string option \<Rightarrow> (gov_path \<times> gov_record) gov" where
  "submit_locked env gid vn key =
     act_bind (if truthy key then read_idem (str_of key) else act_return None) (\<lambda>prior.
     case prior of
       Some x \<Rightarrow> act_bind (same_action (gvk_action x) Act_submit) (\<lambda>_. get_gov env (gvk_gov x) (gvk_rev x))
     | None \<Rightarrow>
         act_bind (get_gov env gid vn) (\<lambda>(p, r).
         if gv_status r = Gs_pending then act_return (p, r)
         else if gv_status r \<noteq> Gs_draft then act_throw Ge_not_draft
         else
           act_bind (verify_source env r) (\<lambda>_.
           act_bind (gov_upd (gov_audit Ev_submitted gid vn \<circ> gov_audit Ev_validated gid vn \<circ> move_gov p (submit_fields env))) (\<lambda>_.
           act_bind (keep_idem key \<lparr>gvk_gov = gid, gvk_rev = vn, gvk_approval = Some (gov_sanitize (gve_new_approval env)),
             gvk_decision = None, gvk_action = Act_submit\<rparr>) (\<lambda>_.
           act_bind (read_gov (gov_path_of Gs_pending gid vn)) (\<lambda>r'. act_return (gov_path_of Gs_pending gid vn, r')))))))"

definition submit_gov :: "gov_env \<Rightarrow> string \<Rightarrow> int \<Rightarrow> string \<Rightarrow> string option \<Rightarrow> (gov_path \<times> gov_record) gov" where
  "submit_gov env gid vn actor key =
     act_bind (act_check (check (gve_enabled env) Ge_disabled)) (\<lambda>_.
     act_bind (act_check (check (is_pm_actor actor) Ge_submitter)) (\<lambda>_.
     gov_lock gid vn (submit_locked env gid vn key)))"

definition revise_gov ::
  "gov_env \<Rightarrow> string \<Rightarrow> int \<Rightarrow> gov_input \<Rightarrow> string \<Rightarrow> string option \<Rightarrow> (gov_path \<times> gov_record) gov" where
  "revise_gov env gid vn i actor key =
     act_bind (act_check (check (is_pm_actor actor) Ge_author)) (\<lambda>_.
     act_bind (get_gov env gid vn) (\<lambda>(p, r).
     act_bind (act_check (check (gv_status r = Gs_changes) Ge_revision_not_allowed)) (\<lambda>_.
     write_draft env i (Some gid) (Some (vn + 1)) key)))"

section \<open>Decisions\<close>

record gov_decide =
  gvq_gov :: string
  gvq_rev :: int
  gvq_approval :: string
  gvq_actor :: string
  gvq_verdict :: gov_verdict     \<comment> \<open>not \<open>Gv_revoked\<close>\<close>
  gvq_reason :: string
  gvq_conditions :: "string list"
  gvq_ui_action :: string
  gvq_key :: string

definition assert_hashes :: "gov_env \<Rightarrow> gov_record \<Rightarrow> unit gov" where
  "assert_hashes env r =
     (if hashes_match env r then act_return ()
      else act_bind (gov_upd (gov_audit Ev_tamper (gv_id r) (gv_rev r))) (\<lambda>_. act_throw Ge_scope_mismatch))"

definition decision_of :: "gov_env \<Rightarrow> gov_decide \<Rightarrow> gov_record \<Rightarrow> gov_decision" where
  "decision_of env i r =
     \<lparr>gvd_id = gov_sanitize (gve_new_decision env),
      gvd_lease = (if gvq_verdict i = Gv_approved
        then Some (''LEASE-'' @ gve_lease_digest env (gv_id r) (gv_rev r) (gov_sanitize (gve_new_decision env))) else None),
      gvd_approval = gv_approval r, gvd_gov = gv_id r, gvd_rev = gv_rev r, gvd_by = ''ADMIN'', gvd_verdict = gvq_verdict i,
      gvd_scope_digest = gv_scope_digest r, gvd_content_hash = gv_content_hash r, gvd_created = gve_now env,
      gvd_ui_action = js_trim (gvq_ui_action i), gvd_reason = js_trim (gvq_reason i),
      gvd_conditions = norm_list (gvq_conditions i)\<rparr>"

definition create_decision :: "gov_decision \<Rightarrow> unit gov" where
  "create_decision d =
     act_bind (gov_get (\<lambda>w. map_of (gvw_decisions w) (gvd_id d))) (\<lambda>old.
     act_bind (act_check (check (old = None) Ge_immutable)) (\<lambda>_.
     gov_upd (\<lambda>w. w\<lparr>gvw_decisions := AList.update (gvd_id d) d (gvw_decisions w)\<rparr>)))"

definition decided_fields :: "gov_decision \<Rightarrow> gov_record \<Rightarrow> gov_record" where
  "decided_fields d r = (settle_fields d r)\<lparr>gv_lease := (case gvd_lease d of None \<Rightarrow> gv_lease r | Some l \<Rightarrow> Some l)\<rparr>"

text \<open>The writes of a decision after its file: the transaction, the record at its new place, the removal of the old
  file, the end of the transaction.\<close>

definition commit_steps :: "gov_path \<Rightarrow> gov_record \<Rightarrow> gov_decision \<Rightarrow> (gov_world \<Rightarrow> gov_world) list" where
  "commit_steps p stored d =
     (let key = ''TX-'' @ gvd_id d in
      [\<lambda>w. w\<lparr>gvw_tx := AList.update key \<lparr>gvx_gov = gvd_gov d, gvx_rev = gvd_rev d, gvx_decision = gvd_id d\<rparr> (gvw_tx w)\<rparr>,
       put_gov (gov_path_of (target_status (gvd_verdict d)) (gvd_gov d) (gvd_rev d)) (decided_fields d stored),
       del_gov p,
       \<lambda>w. w\<lparr>gvw_tx := AList.delete key (gvw_tx w)\<rparr>])"

definition run_steps :: "('w \<Rightarrow> 'w) list \<Rightarrow> 'w \<Rightarrow> 'w" where
  "run_steps fs w = fold (\<lambda>f. f) fs w"

definition commit_decision :: "gov_env \<Rightarrow> gov_path \<Rightarrow> gov_decision \<Rightarrow> unit gov" where
  "commit_decision env p d w =
     (case map_of (gvw_files w) p of
        None \<Rightarrow> (Inl Ge_io, w)
      | Some stored \<Rightarrow>
          (case gve_fault env of
             None \<Rightarrow> (Inr (), run_steps (commit_steps p stored d) w)
           | Some n \<Rightarrow> (Inl Ge_io, run_steps (take n (commit_steps p stored d)) w)))"

definition decide_pending :: "gov_env \<Rightarrow> gov_decide \<Rightarrow> gov_path \<Rightarrow> gov_record \<Rightarrow> (gov_record \<times> gov_decision) gov" where
  "decide_pending env i p r =
     (let d = decision_of env i r; q = gov_path_of (target_status (gvq_verdict i)) (gv_id r) (gv_rev r) in
      act_bind (assert_hashes env r) (\<lambda>_.
      act_bind (create_decision d) (\<lambda>_.
      act_bind (commit_decision env p d) (\<lambda>_.
      act_bind (write_idem (gvq_key i) \<lparr>gvk_gov = gv_id r, gvk_rev = gv_rev r, gvk_approval = gv_approval r,
        gvk_decision = Some (gvd_id d), gvk_action = Act_decided (gvq_verdict i)\<rparr>) (\<lambda>_.
      act_bind (gov_upd (gov_audit (Ev_decided (gvq_verdict i)) (gv_id r) (gv_rev r))) (\<lambda>_.
      act_bind (read_gov q) (\<lambda>r'. act_return (r', d))))))))"

definition decided_before :: "gov_env \<Rightarrow> string \<Rightarrow> int \<Rightarrow> gov_idem option \<Rightarrow> gov_verdict \<Rightarrow> (gov_record \<times> gov_decision) option gov" where
  "decided_before env gid vn prior v =
     (case prior of
        None \<Rightarrow> act_return None
      | Some x \<Rightarrow>
          if \<not> truthy (gvk_decision x) then act_return None
          else
            act_bind (same_action (gvk_action x) (Act_decided v)) (\<lambda>_.
            act_bind (get_gov env gid vn) (\<lambda>(p, r).
            act_bind (get_decision (str_of (gvk_decision x))) (\<lambda>d. act_return (Some (r, d))))))"

definition decide_locked :: "gov_env \<Rightarrow> gov_decide \<Rightarrow> (gov_record \<times> gov_decision) gov" where
  "decide_locked env i =
     act_bind (read_idem (gvq_key i)) (\<lambda>prior.
     act_bind (decided_before env (gvq_gov i) (gvq_rev i) prior (gvq_verdict i)) (\<lambda>again.
     case again of
       Some x \<Rightarrow> act_return x
     | None \<Rightarrow>
         act_bind (get_gov env (gvq_gov i) (gvq_rev i)) (\<lambda>(p, r).
         if gv_status r \<noteq> Gs_pending \<or> gv_approval r \<noteq> Some (gvq_approval i) then
           act_bind (gov_get (decision_for_revision (gvq_gov i) (gvq_rev i))) (\<lambda>old.
           case old of
             None \<Rightarrow> act_throw Ge_state_conflict
           | Some d \<Rightarrow> if gvd_verdict d = gvq_verdict i then act_return (r, d) else act_throw Ge_state_conflict)
         else decide_pending env i p r)))"

definition decide_gov :: "gov_env \<Rightarrow> gov_decide \<Rightarrow> (gov_record \<times> gov_decision) gov" where
  "decide_gov env i =
     act_bind (act_check (check (gve_enabled env) Ge_disabled)) (\<lambda>_.
     act_bind (act_check (check (js_upper (js_trim (gvq_actor i)) = ''ADMIN'') Ge_approver)) (\<lambda>_.
     act_bind (act_check (check (js_trim (gvq_reason i) \<noteq> []) Ge_reason_required)) (\<lambda>_.
     act_bind (act_check (check (js_trim (gvq_ui_action i) \<noteq> []) Ge_ui_action_required)) (\<lambda>_.
     gov_lock (gvq_gov i) (gvq_rev i) (decide_locked env i)))))"

text \<open>The decision of a revocation, as \<open>readDecision\<close> returns it.\<close>

definition revocation_of :: "gov_env \<Rightarrow> gov_decide \<Rightarrow> gov_record \<Rightarrow> gov_decision" where
  "revocation_of env i r =
     (decision_of env i r)\<lparr>gvd_lease := None, gvd_verdict := Gv_revoked, gvd_conditions := []\<rparr>"

definition revoke_locked :: "gov_env \<Rightarrow> gov_decide \<Rightarrow> (gov_record \<times> gov_decision) gov" where
  "revoke_locked env i =
     act_bind (read_idem (gvq_key i)) (\<lambda>prior.
     act_bind (decided_before env (gvq_gov i) (gvq_rev i) prior Gv_revoked) (\<lambda>again.
     case again of
       Some x \<Rightarrow> act_return x
     | None \<Rightarrow>
         act_bind (get_gov env (gvq_gov i) (gvq_rev i)) (\<lambda>(p, r).
         let d = revocation_of env i r; q = gov_path_of Gs_revoked (gv_id r) (gv_rev r) in
         act_bind (act_check (check (gv_status r = Gs_effective) Ge_state_conflict)) (\<lambda>_.
         act_bind (assert_hashes env r) (\<lambda>_.
         act_bind (create_decision d) (\<lambda>_.
         act_bind (gov_upd (move_gov p (\<lambda>s. s\<lparr>gv_status := Gs_revoked\<rparr>))) (\<lambda>_.
         act_bind (write_idem (gvq_key i) \<lparr>gvk_gov = gv_id r, gvk_rev = gv_rev r, gvk_approval = gv_approval r,
           gvk_decision = Some (gvd_id d), gvk_action = Act_decided Gv_revoked\<rparr>) (\<lambda>_.
         act_bind (gov_upd (gov_audit (Ev_decided Gv_revoked) (gv_id r) (gv_rev r))) (\<lambda>_.
         act_bind (read_gov q) (\<lambda>r'. act_return (r', d)))))))))))"

definition revoke_gov :: "gov_env \<Rightarrow> gov_decide \<Rightarrow> (gov_record \<times> gov_decision) gov" where
  "revoke_gov env i =
     act_bind (act_check (check (js_upper (js_trim (gvq_actor i)) = ''ADMIN'') Ge_approver)) (\<lambda>_.
     gov_lock (gvq_gov i) (gvq_rev i) (revoke_locked env i))"

section \<open>Authorizations\<close>

record gov_reference =
  gva_gov :: string
  gva_rev :: int
  gva_approval :: string
  gva_decision :: string
  gva_scope_digest :: string
  gva_content_hash :: string
  gva_lease :: string
  gva_key :: string

record gov_expected =
  gvp_project :: string
  gvp_task :: string
  gvp_scope_digest :: string
  gvp_content_hash :: "string option"

definition status_code :: "gov_status \<Rightarrow> gov_error" where
  "status_code s =
     (case s of Gs_pending \<Rightarrow> Ge_pending | Gs_rejected \<Rightarrow> Ge_rejected | Gs_expired \<Rightarrow> Ge_expired | Gs_revoked \<Rightarrow> Ge_revoked
      | Gs_consumed \<Rightarrow> Ge_consumed | Gs_superseded \<Rightarrow> Ge_revoked | _ \<Rightarrow> Ge_required)"

definition scope_agrees :: "gov_reference \<Rightarrow> gov_expected \<Rightarrow> gov_record \<Rightarrow> bool" where
  "scope_agrees a e r \<longleftrightarrow>
     gv_project r = gvp_project e \<and> gv_task r = gvp_task e \<and> gv_scope_digest r = gvp_scope_digest e
   \<and> gv_scope_digest r = gva_scope_digest a \<and> gv_content_hash r = gva_content_hash a
   \<and> (truthy (gvp_content_hash e) \<longrightarrow> gvp_content_hash e = Some (gv_content_hash r))"

definition decision_agrees :: "gov_reference \<Rightarrow> gov_decision \<Rightarrow> bool" where
  "decision_agrees a d \<longleftrightarrow>
     gvd_verdict d = Gv_approved \<and> str_of (gvd_approval d) = gva_approval a \<and> gvd_gov d = gva_gov a \<and> gvd_rev d = gva_rev a
   \<and> gvd_lease d = Some (gva_lease a) \<and> gvd_scope_digest d = gva_scope_digest a \<and> gvd_content_hash d = gva_content_hash a"

definition validate_authorization ::
  "gov_env \<Rightarrow> gov_reference \<Rightarrow> gov_expected \<Rightarrow> ((gov_path \<times> gov_record) \<times> gov_decision) gov" where
  "validate_authorization env a e =
     act_bind (latest_gov env (gva_gov a)) (\<lambda>found.
     case found of
       None \<Rightarrow> act_throw Ge_required
     | Some g \<Rightarrow>
         act_bind (expire_gov env g) (\<lambda>_.
         act_bind (get_gov env (gv_id (snd g)) (gv_rev (snd g))) (\<lambda>(p, r).
         act_bind (act_check (check (gv_status r = Gs_effective) (status_code (gv_status r)))) (\<lambda>_.
         act_bind (act_check (check (gv_rev (snd g) = gva_rev a) Ge_scope_mismatch)) (\<lambda>_.
         act_bind (assert_hashes env r) (\<lambda>_.
         act_bind (act_check (check (scope_agrees a e r) Ge_scope_mismatch)) (\<lambda>_.
         act_bind (get_decision (gva_decision a)) (\<lambda>d.
         act_bind (act_check (check (decision_agrees a d) Ge_scope_mismatch)) (\<lambda>_.
         act_return ((p, r), d))))))))))"

definition consume_fields :: "gov_record \<Rightarrow> gov_record" where
  "consume_fields r =
     (let n = gv_used r + 1 in
      r\<lparr>gv_status := (if (case gv_limit r of None \<Rightarrow> False | Some l \<Rightarrow> l \<le> n) then Gs_consumed else Gs_effective), gv_used := n\<rparr>)"

definition consume_gov_locked :: "gov_env \<Rightarrow> gov_reference \<Rightarrow> gov_record \<Rightarrow> gov_decision \<Rightarrow> gov_record gov" where
  "consume_gov_locked env a g d =
     act_bind (read_idem (gva_key a)) (\<lambda>prior.
     if map_option gvk_action prior = Some Act_consume then
       act_bind (get_gov env (gv_id g) (gv_rev g)) (\<lambda>(p, r). act_return r)
     else
       act_bind (get_gov env (gv_id g) (gv_rev g)) (\<lambda>(p, r).
       act_bind (act_check (check (gv_status r = Gs_effective) Ge_consumed)) (\<lambda>_.
       act_bind (gov_upd (move_gov p consume_fields)) (\<lambda>_.
       act_bind (write_idem (gva_key a) \<lparr>gvk_gov = gv_id r, gvk_rev = gv_rev r, gvk_approval = gv_approval r,
         gvk_decision = Some (gvd_id d), gvk_action = Act_consume\<rparr>) (\<lambda>_.
       act_bind (gov_upd (gov_audit Ev_consumed (gv_id r) (gv_rev r))) (\<lambda>_.
       read_gov (gov_path_of (gv_status (consume_fields r)) (gv_id r) (gv_rev r))))))))"

definition consume_gov :: "gov_env \<Rightarrow> gov_reference \<Rightarrow> gov_expected \<Rightarrow> gov_record gov" where
  "consume_gov env a e =
     act_bind (read_idem (gva_key a)) (\<lambda>prior.
     case prior of
       Some x \<Rightarrow>
         if gvk_action x = Act_consume then act_bind (get_gov env (gvk_gov x) (gvk_rev x)) (\<lambda>(p, r). act_return r)
         else act_bind (validate_authorization env a e) (\<lambda>((p, g), d).
           gov_lock (gv_id g) (gv_rev g) (consume_gov_locked env a g d))
     | None \<Rightarrow>
         act_bind (validate_authorization env a e) (\<lambda>((p, g), d).
         gov_lock (gv_id g) (gv_rev g) (consume_gov_locked env a g d)))"

definition norm_scope_value :: "string \<Rightarrow> string" where
  "norm_scope_value s = js_lower (map (\<lambda>c. if c = CHR 0x5C then CHR ''/'' else c) (js_trim s))"

definition action_in_scope :: "gov_record \<Rightarrow> string \<Rightarrow> string list \<Rightarrow> bool" where
  "action_in_scope r action targets \<longleftrightarrow>
     norm_scope_value action \<in> set (map norm_scope_value (gv_allowed r))
   \<and> list_all (\<lambda>t. norm_scope_value t \<in> set (map norm_scope_value (gv_targets r))) targets"

definition authorize_action ::
  "gov_env \<Rightarrow> gov_reference \<Rightarrow> string \<Rightarrow> string \<Rightarrow> string \<Rightarrow> string list \<Rightarrow> gov_record gov" where
  "authorize_action env a project task action targets =
     (let e = \<lparr>gvp_project = project, gvp_task = task, gvp_scope_digest = gva_scope_digest a,
               gvp_content_hash = Some (gva_content_hash a)\<rparr> in
      act_bind (validate_authorization env a e) (\<lambda>((p, r), d).
      act_bind (act_check (check (action_in_scope r action targets) Ge_scope_mismatch)) (\<lambda>_.
      consume_gov env a e)))"

end
