(* ===== verification/Governance_Properties.thy ===== *)
theory Governance_Properties
  imports Governance_Approval
begin

text \<open>
  What the governance service promises. Every call is a sequence of abstract effects on the files (\<open>gov_effect\<close>):
  a new draft, a move of one record to the directory of its next status, a decision, its transaction and the
  recovery of one. The invariant and the properties are shown for the effects and so hold in every run, also when
  the file system fails in the middle of a decision.
\<close>

section \<open>Files and their keys\<close>

lemma set_gov_paths: "set (gov_paths w) = fst ` set (gvw_files w)"
proof -
  have "b = Gb_draft \<or> b = Gb_pending \<or> b = Gb_effective \<or> b = Gb_closed" for b by (cases b) auto
  then show ?thesis unfolding gov_paths_def by (auto simp: image_iff)
qed

lemma find_gov_path_Some:
  "find_gov_path w gid n = Some p \<Longrightarrow> snd p = (gov_sanitize gid, n) \<and> (\<exists>s. map_of (gvw_files w) p = Some s)"
  unfolding find_gov_path_def using set_gov_paths [of w]
  by (auto dest!: find_SomeD) (metis map_of_eq_None_iff not_None_eq image_eqI fst_conv)

lemma find_gov_path_None:
  "find_gov_path w gid n = None \<Longrightarrow> map_of (gvw_files w) p = Some s \<Longrightarrow> snd p \<noteq> (gov_sanitize gid, n)"
  unfolding find_gov_path_def using set_gov_paths [of w]
  by (auto dest!: find_NoneD dest: map_of_SomeD simp: image_iff)

lemma gov_char_underscore: "gov_char CHR ''_''"
  by (simp add: gov_char_def)

lemma gov_sanitize_idem [simp]: "gov_sanitize (gov_sanitize s) = gov_sanitize s"
  by (simp add: gov_sanitize_def gov_char_underscore)

definition read_of :: "gov_record \<Rightarrow> gov_record" where
  "read_of s = s\<lparr>gv_expires := norm_opt (gv_expires s), gv_supersedes := norm_opt (gv_supersedes s)\<rparr>"

lemma norm_opt_idem [simp]: "norm_opt (norm_opt v) = norm_opt v"
  by (simp add: norm_opt_def Let_def)

lemma read_of_simps [simp]:
  "gv_id (read_of s) = gv_id s" "gv_rev (read_of s) = gv_rev s" "gv_status (read_of s) = gv_status s"
  "gv_approval (read_of s) = gv_approval s" "gv_content_hash (read_of s) = gv_content_hash s"
  "gv_scope_digest (read_of s) = gv_scope_digest s" "gv_used (read_of s) = gv_used s" "gv_limit (read_of s) = gv_limit s"
  "content_of_record (read_of s) = content_of_record s" "scope_of_record (read_of s) = scope_of_record s"
  "gv_created (read_of s) = gv_created s" "gv_allowed (read_of s) = gv_allowed s" "gv_targets (read_of s) = gv_targets s"
  "gv_project (read_of s) = gv_project s" "gv_task (read_of s) = gv_task s"
  by (simp_all add: read_of_def content_of_record_def scope_of_record_def gov_scope.defs gov_content.defs)

lemma read_gov_Inr: "read_gov p w = (Inr r, w') \<longleftrightarrow> w' = w \<and> (\<exists>s. map_of (gvw_files w) p = Some s \<and> gv_id s \<noteq> [] \<and> r = read_of s)"
  by (auto simp: read_gov_def read_of_def split: option.split)

lemma move_files:
  assumes "map_of (gvw_files w) p = Some s"
  shows "map_of (gvw_files (move_gov p f w)) x =
    (if x = (gov_bucket_of (gv_status (f s)), snd p) then Some (f s) else if x = p then None else map_of (gvw_files w) x)"
  using assms by (auto simp: move_gov_def Let_def put_gov_def del_gov_def update_conv' delete_conv')

lemma move_rest [simp]:
  "gvw_decisions (move_gov p f w) = gvw_decisions w" "gvw_tx (move_gov p f w) = gvw_tx w"
  "gvw_idem (move_gov p f w) = gvw_idem w" "gvw_locks (move_gov p f w) = gvw_locks w" "gvw_log (move_gov p f w) = gvw_log w"
  by (auto simp: move_gov_def Let_def put_gov_def del_gov_def split: option.split)

section \<open>Effects\<close>

definition use_log :: "gov_world \<Rightarrow> (string \<times> int) list" where
  "use_log w = map snd (filter (\<lambda>x. fst x = Ev_consumed) (gvw_log w))"

definition matches :: "gov_decision \<Rightarrow> gov_record \<Rightarrow> bool" where
  "matches d s \<longleftrightarrow>
     gvd_gov d = gv_id s \<and> gvd_rev d = gv_rev s \<and> gvd_approval d = gv_approval s \<and> gvd_by d = ''ADMIN''
   \<and> gvd_scope_digest d = gv_scope_digest s \<and> gvd_content_hash d = gv_content_hash s"

definition fresh_draft :: "gov_record \<Rightarrow> bool" where
  "fresh_draft r \<longleftrightarrow>
     gv_status r = Gs_draft \<and> gv_used r = 0 \<and> gov_sanitize (gv_id r) = gv_id r
   \<and> (case gv_limit r of None \<Rightarrow> True | Some l \<Rightarrow> 1 \<le> l)"

inductive gov_effect :: "bool \<Rightarrow> (gov_decision \<Rightarrow> bool) \<Rightarrow> gov_world \<Rightarrow> gov_world \<Rightarrow> bool" for faults may where
  Aside: "gvw_files w' = gvw_files w \<Longrightarrow> gvw_decisions w' = gvw_decisions w \<Longrightarrow> gvw_tx w' = gvw_tx w
    \<Longrightarrow> use_log w' = use_log w \<Longrightarrow> gov_effect faults may w w'"
| Draft: "find_gov_path w (gv_id r) (gv_rev r) = None \<Longrightarrow> fresh_draft r
    \<Longrightarrow> gov_effect faults may w (put_gov (Gb_draft, gv_id r, gv_rev r) r w)"
| Submit: "map_of (gvw_files w) p = Some s \<Longrightarrow> gv_status s = Gs_draft \<Longrightarrow> gov_effect faults may w (move_gov p (submit_fields env) w)"
| Expire: "map_of (gvw_files w) p = Some s \<Longrightarrow> gv_status s \<in> {Gs_pending, Gs_effective}
    \<Longrightarrow> gov_effect faults may w (move_gov p (\<lambda>s. s\<lparr>gv_status := Gs_expired\<rparr>) w)"
| Decision: "map_of (gvw_files w) p = Some s \<Longrightarrow> matches d s \<Longrightarrow> gov_sanitize (gvd_id d) = gvd_id d
    \<Longrightarrow> gv_status s = (if gvd_verdict d = Gv_revoked then Gs_effective else Gs_pending)
    \<Longrightarrow> map_of (gvw_decisions w) (gvd_id d) = None \<Longrightarrow> may d
    \<Longrightarrow> gov_effect faults may w (w\<lparr>gvw_decisions := AList.update (gvd_id d) d (gvw_decisions w)\<rparr>)"
| Commit: "map_of (gvw_files w) p = Some s \<Longrightarrow> gv_status s = Gs_pending \<Longrightarrow> map_of (gvw_decisions w) (gvd_id d) = Some d
    \<Longrightarrow> matches d s \<Longrightarrow> gvd_verdict d \<noteq> Gv_revoked \<Longrightarrow> faults \<or> n = 4 \<Longrightarrow> gov_effect faults may w (run_steps (take n (commit_steps p s d)) w)"
| Revoke: "map_of (gvw_files w) p = Some s \<Longrightarrow> gv_status s = Gs_effective
    \<Longrightarrow> gov_effect faults may w (move_gov p (\<lambda>s. s\<lparr>gv_status := Gs_revoked\<rparr>) w)"
| Consume: "map_of (gvw_files w) p = Some s \<Longrightarrow> gv_status s = Gs_effective
    \<Longrightarrow> gvw_files w' = gvw_files (move_gov p consume_fields w) \<Longrightarrow> gvw_decisions w' = gvw_decisions w
    \<Longrightarrow> gvw_tx w' = gvw_tx w \<Longrightarrow> use_log w' = use_log w \<or> use_log w' = use_log w @ [(gv_id s, gv_rev s)]
    \<Longrightarrow> gov_effect faults may w w'"
| Settle: "map_of (gvw_tx w) key = Some x \<Longrightarrow> map_of (gvw_decisions w) (gov_sanitize (gvx_decision x)) = Some d
    \<Longrightarrow> map_of (gvw_files w) p = Some s \<Longrightarrow> snd p = (gov_sanitize (gvx_gov x), gvx_rev x)
    \<Longrightarrow> gov_effect faults may w (move_gov p (settle_fields d) w)"
| Forget: "map_of (gvw_tx w) key = Some x \<Longrightarrow> gov_effect faults may w (w\<lparr>gvw_tx := AList.delete key (gvw_tx w)\<rparr>)"

abbreviation gov_reach :: "bool \<Rightarrow> (gov_decision \<Rightarrow> bool) \<Rightarrow> gov_world \<Rightarrow> gov_world \<Rightarrow> bool" where
  "gov_reach faults may \<equiv> (gov_effect faults may)\<^sup>*\<^sup>*"

interpretation reach: step_preorder "gov_reach faults may" for faults may
  by unfold_locales auto

text \<open>Every record lies under its own id and revision.\<close>

definition named :: "gov_world \<Rightarrow> bool" where
  "named w \<longleftrightarrow> (\<forall>p s. map_of (gvw_files w) p = Some s \<longrightarrow> snd p = (gv_id s, gv_rev s) \<and> gov_sanitize (gv_id s) = gv_id s)"

lemma namedD: "named w \<Longrightarrow> map_of (gvw_files w) p = Some s \<Longrightarrow> snd p = (gv_id s, gv_rev s) \<and> gov_sanitize (gv_id s) = gv_id s"
  by (cases p) (auto simp: named_def)

lemma named_move:
  assumes "named w" and "map_of (gvw_files w) p = Some s" and "gv_id (f s) = gv_id s" and "gv_rev (f s) = gv_rev s"
  shows "named (move_gov p f w)"
  using assms namedD [OF assms(1,2)] by (auto simp: named_def move_files split: if_splits)

lemma named_same: "gvw_files w' = gvw_files w \<Longrightarrow> named w \<Longrightarrow> named w'"
  by (simp only: named_def)

lemma named_put:
  "named w \<Longrightarrow> snd q = (gv_id s, gv_rev s) \<Longrightarrow> gov_sanitize (gv_id s) = gv_id s
    \<Longrightarrow> gvw_files w' = AList.update q s (gvw_files w) \<Longrightarrow> named w'"
  unfolding named_def by (cases q) (auto simp: update_conv' split: if_splits)

lemma named_del: "named w \<Longrightarrow> gvw_files w' = AList.delete p (gvw_files w) \<Longrightarrow> named w'"
  unfolding named_def by (auto simp: delete_conv' split: if_splits)

text \<open>The writes of a commit, one after the other.\<close>

lemma commit_cases:
  obtains "run_steps (take n (commit_steps p s d)) w = w"
  | k x where "gvw_files (run_steps (take n (commit_steps p s d)) w) = gvw_files w"
      "gvw_tx (run_steps (take n (commit_steps p s d)) w) = AList.update k x (gvw_tx w)"
      "k = ''TX-'' @ gvd_id d" "x = \<lparr>gvx_gov = gvd_gov d, gvx_rev = gvd_rev d, gvx_decision = gvd_id d\<rparr>"
  | k x where "gvw_files (run_steps (take n (commit_steps p s d)) w)
        = AList.update (gov_path_of (target_status (gvd_verdict d)) (gvd_gov d) (gvd_rev d)) (decided_fields d s) (gvw_files w)"
      "gvw_tx (run_steps (take n (commit_steps p s d)) w) = AList.update k x (gvw_tx w)"
      "k = ''TX-'' @ gvd_id d" "x = \<lparr>gvx_gov = gvd_gov d, gvx_rev = gvd_rev d, gvx_decision = gvd_id d\<rparr>"
  | k x where "gvw_files (run_steps (take n (commit_steps p s d)) w) = AList.delete p
        (AList.update (gov_path_of (target_status (gvd_verdict d)) (gvd_gov d) (gvd_rev d)) (decided_fields d s) (gvw_files w))"
      "gvw_tx (run_steps (take n (commit_steps p s d)) w) = AList.update k x (gvw_tx w)"
      "k = ''TX-'' @ gvd_id d" "x = \<lparr>gvx_gov = gvd_gov d, gvx_rev = gvd_rev d, gvx_decision = gvd_id d\<rparr>"
  | k x where "gvw_files (run_steps (take n (commit_steps p s d)) w) = AList.delete p
        (AList.update (gov_path_of (target_status (gvd_verdict d)) (gvd_gov d) (gvd_rev d)) (decided_fields d s) (gvw_files w))"
      "gvw_tx (run_steps (take n (commit_steps p s d)) w) = AList.delete k (AList.update k x (gvw_tx w))"
proof -
  have "n = 0 \<or> n = 1 \<or> n = 2 \<or> n = 3 \<or> take n (commit_steps p s d) = commit_steps p s d"
    by (auto simp: commit_steps_def Let_def)
  then show thesis
    using that
    by (elim disjE) (simp_all add: commit_steps_def Let_def run_steps_def put_gov_def del_gov_def numeral_nat)
qed

lemma commit_rest [simp]:
  "gvw_decisions (run_steps (take n (commit_steps p s d)) w) = gvw_decisions w"
  "use_log (run_steps (take n (commit_steps p s d)) w) = use_log w"
proof -
  have "n = 0 \<or> n = 1 \<or> n = 2 \<or> n = 3 \<or> take n (commit_steps p s d) = commit_steps p s d"
    by (auto simp: commit_steps_def Let_def)
  then show "gvw_decisions (run_steps (take n (commit_steps p s d)) w) = gvw_decisions w"
    "use_log (run_steps (take n (commit_steps p s d)) w) = use_log w"
    by (elim disjE; simp add: commit_steps_def Let_def run_steps_def put_gov_def del_gov_def numeral_nat use_log_def)+
qed

lemma field_changes [simp]:
  "gv_id (decided_fields d s) = gv_id s" "gv_rev (decided_fields d s) = gv_rev s"
  "gv_status (decided_fields d s) = target_status (gvd_verdict d)"
  "gv_id (settle_fields d s) = gv_id s" "gv_rev (settle_fields d s) = gv_rev s"
  "gv_status (settle_fields d s) = target_status (gvd_verdict d)"
  "gv_id (submit_fields env s) = gv_id s" "gv_rev (submit_fields env s) = gv_rev s" "gv_status (submit_fields env s) = Gs_pending"
  "gv_id (consume_fields s) = gv_id s" "gv_rev (consume_fields s) = gv_rev s"
  by (simp_all add: decided_fields_def settle_fields_def submit_fields_def consume_fields_def Let_def)

lemma effect_named:
  assumes "gov_effect faults may w w'" and "named w"
  shows "named w'"
  using assms
proof (cases rule: gov_effect.cases)
  case (Draft r)
  then show ?thesis using assms(2) by (auto simp: named_def put_gov_def update_conv' fresh_draft_def)
next
  case (Commit p s d n)
  let ?q = "gov_path_of (target_status (gvd_verdict d)) (gvd_gov d) (gvd_rev d)"
  have key: "snd ?q = (gv_id (decided_fields d s), gv_rev (decided_fields d s))" "gov_sanitize (gv_id (decided_fields d s)) = gv_id (decided_fields d s)"
    using Commit namedD [OF assms(2)] by (auto simp: gov_path_of_def matches_def)
  have put: "named v" if "gvw_files v = AList.update ?q (decided_fields d s) (gvw_files w)" for v
    by (rule named_put [OF assms(2) key that])
  then have "named v" if "gvw_files v = AList.delete p (AList.update ?q (decided_fields d s) (gvw_files w))" for v
    using that named_del [of "put_gov ?q (decided_fields d s) w" v p] by (simp add: put_gov_def)
  with put show ?thesis
    unfolding Commit(1)
    by (cases rule: commit_cases [of n p s d w]) (use assms(2) in \<open>auto intro: named_same\<close>)
next
  case (Consume p s)
  then show ?thesis using named_move [OF assms(2), of p s consume_fields] by (auto intro: named_same)
qed (auto intro: named_same named_move)

lemma reach_named: "gov_reach faults may w w' \<Longrightarrow> named w \<Longrightarrow> named w'"
  by (induction rule: rtranclp_induct) (auto intro: effect_named)

section \<open>Specifications of calls\<close>

text \<open>Every outcome of the call is reached by effects; a result has the property of the world it leaves.\<close>

definition gspec :: "bool \<Rightarrow> (gov_decision \<Rightarrow> bool) \<Rightarrow> (gov_world \<Rightarrow> bool) \<Rightarrow> 'a gov \<Rightarrow> ('a \<Rightarrow> gov_world \<Rightarrow> bool) \<Rightarrow> bool" where
  "gspec faults may P m Q \<longleftrightarrow> act_spec (gov_reach faults may) (\<lambda>w. named w \<and> P w) m (\<lambda>x w. named w \<and> Q x w)"

named_theorems gspecs \<comment> \<open>specifications of calls\<close>

lemma gspecI:
  "(\<And>w. named w \<Longrightarrow> P w \<Longrightarrow> gov_reach faults may w (snd (m w)) \<and> (\<forall>x. fst (m w) = Inr x \<longrightarrow> Q x (snd (m w))))
    \<Longrightarrow> gspec faults may P m Q"
  unfolding gspec_def act_spec_def by (metis reach_named)

lemma gspecD:
  assumes "gspec faults may P m Q" and "named w" and "P w"
  shows "gov_reach faults may w (snd (m w))" and "m w = (Inr x, w') \<Longrightarrow> Q x w'"
  using assms by (auto simp: gspec_def act_spec_def)

lemma gspec_bind: "gspec faults may P m Q \<Longrightarrow> (\<And>x. gspec faults may (Q x) (f x) S) \<Longrightarrow> gspec faults may P (act_bind m f) S"
  unfolding gspec_def by (rule reach.spec_bind)

lemma gspec_bind2:
  "gspec faults may P m Q \<Longrightarrow> (\<And>a b. gspec faults may (Q (a, b)) (f a b) S) \<Longrightarrow> gspec faults may P (act_bind m (\<lambda>(a, b). f a b)) S"
  by (rule gspec_bind) (auto split: prod.split)

lemma gspec_conseq:
  "gspec faults may P m Q \<Longrightarrow> (\<And>w. named w \<Longrightarrow> P' w \<Longrightarrow> P w) \<Longrightarrow> (\<And>x w. named w \<Longrightarrow> Q x w \<Longrightarrow> Q' x w) \<Longrightarrow> gspec faults may P' m Q'"
  unfolding gspec_def act_spec_def by blast

lemma gspec_return [gspecs]: "(\<And>w. P w \<Longrightarrow> Q x w) \<Longrightarrow> gspec faults may P (act_return x) Q"
  by (rule gspecI) (simp add: act_return_def)

lemma gspec_throw [gspecs]: "gspec faults may P (act_throw e) Q"
  by (rule gspecI) (simp add: act_throw_def)

lemma gspec_check [gspecs]: "(b \<Longrightarrow> gspec faults may P (f ()) Q) \<Longrightarrow> gspec faults may P (act_bind (act_check (check b e)) f) Q"
proof -
  have "act_bind (act_check (Inr ())) f = f ()" and "act_bind (act_check (Inl e)) f = act_throw e"
    by (auto simp: act_simps)
  then show "(b \<Longrightarrow> gspec faults may P (f ()) Q) \<Longrightarrow> gspec faults may P (act_bind (act_check (check b e)) f) Q"
    by (cases b) (auto intro: gspec_throw)
qed

lemma gspec_if [gspecs]:
  "(b \<Longrightarrow> gspec faults may P m Q) \<Longrightarrow> (\<not> b \<Longrightarrow> gspec faults may P m' Q) \<Longrightarrow> gspec faults may P (if b then m else m') Q"
  by simp

lemma gspec_option [gspecs]:
  "(x = None \<Longrightarrow> gspec faults may P m Q) \<Longrightarrow> (\<And>y. x = Some y \<Longrightarrow> gspec faults may P (f y) Q)
    \<Longrightarrow> gspec faults may P (case x of None \<Rightarrow> m | Some y \<Rightarrow> f y) Q"
  by (cases x) auto

lemma gspec_let [gspecs]: "gspec faults may P (f v) Q \<Longrightarrow> gspec faults may P (let x = v in f x) Q"
  by simp

lemma gspec_get: "(\<And>w. P w \<Longrightarrow> Q (f w) w) \<Longrightarrow> gspec faults may P (gov_get f) Q"
  by (rule gspecI) (simp add: gov_get_def)

lemma gspec_upd:
  "(\<And>w. named w \<Longrightarrow> P w \<Longrightarrow> gov_reach faults may w (f w) \<and> Q () (f w)) \<Longrightarrow> gspec faults may P (gov_upd f) Q"
  by (rule gspecI) (simp add: gov_upd_def)

text \<open>Changes of the log, the idempotency files and the locks.\<close>

definition aside :: "gov_world \<Rightarrow> gov_world \<Rightarrow> bool" where
  "aside w w' \<longleftrightarrow> gvw_files w' = gvw_files w \<and> gvw_decisions w' = gvw_decisions w \<and> gvw_tx w' = gvw_tx w \<and> use_log w' = use_log w"

lemma aside_reach: "aside w w' \<Longrightarrow> gov_reach faults may w w'"
  by (intro r_into_rtranclp gov_effect.Aside) (simp_all add: aside_def)

lemma aside_simps [simp]:
  "aside w w" "aside w (w\<lparr>gvw_locks := l\<rparr>)" "aside w (w\<lparr>gvw_idem := k\<rparr>)" "e \<noteq> Ev_consumed \<Longrightarrow> aside w (gov_audit e g n w)"
  by (simp_all add: aside_def use_log_def gov_audit_def)

definition cur :: "gov_path \<times> gov_record \<Rightarrow> gov_world \<Rightarrow> bool" where
  "cur x w \<longleftrightarrow> (\<exists>s. map_of (gvw_files w) (fst x) = Some s \<and> snd x = read_of s \<and> gv_id s \<noteq> [])"

lemma cur_aside: "aside w w' \<Longrightarrow> cur x w \<Longrightarrow> cur x w'"
  by (simp add: aside_def cur_def)

lemma gspec_aside:
  "(\<And>w. aside w (f w)) \<Longrightarrow> (\<And>w w'. P w \<Longrightarrow> aside w w' \<Longrightarrow> P w') \<Longrightarrow> gspec faults may P (gov_upd f) (\<lambda>_. P)"
  by (rule gspec_upd) (auto intro: aside_reach)

lemma gspec_read: "gspec faults may P (read_gov p) (\<lambda>r w. P w \<and> cur (p, r) w)"
  by (rule gspecI) (auto simp: read_gov_def cur_def read_of_def split: option.split)

lemma gspec_lock:
  assumes m: "gspec faults may P' m Q" and P: "\<And>w l. P w \<Longrightarrow> P' (w\<lparr>gvw_locks := l\<rparr>)"
    and Q: "\<And>x w l. Q x w \<Longrightarrow> Q x (w\<lparr>gvw_locks := l\<rparr>)"
  shows "gspec faults may P (gov_lock g n m) Q"
proof (rule gspecI)
  fix w assume w: "named w" "P w"
  let ?l = "w\<lparr>gvw_locks := (gov_sanitize g, n) # gvw_locks w\<rparr>"
  obtain r w' where run: "m ?l = (r, w')" by fastforce
  have "named ?l" using w(1) by (auto intro: named_same)
  then have "gov_reach faults may ?l w'" "\<And>x. r = Inr x \<Longrightarrow> Q x w'"
    using gspecD [OF m, of ?l] P [OF w(2)] run by auto
  moreover have "gov_reach faults may w ?l" by (simp add: aside_reach)
  moreover have "gov_reach faults may w' (w'\<lparr>gvw_locks := l\<rparr>)" for l by (simp add: aside_reach)
  ultimately show "gov_reach faults may w (snd (gov_lock g n m w))
      \<and> (\<forall>x. fst (gov_lock g n m w) = Inr x \<longrightarrow> Q x (snd (gov_lock g n m w)))"
    using run Q by (auto simp: gov_lock_def Let_def intro: rtranclp_trans)
qed

lemma gspec_write_idem:
  "(\<And>w w'. P w \<Longrightarrow> aside w w' \<Longrightarrow> P w') \<Longrightarrow> gspec faults may P (write_idem key v) (\<lambda>_. P)"
  unfolding write_idem_def read_idem_def
  by (rule gspec_bind [OF gspec_get [where Q = "\<lambda>_. P"]]) (auto intro!: gspecs gspec_aside)

lemma gspec_keep_idem:
  "(\<And>w w'. P w \<Longrightarrow> aside w w' \<Longrightarrow> P w') \<Longrightarrow> gspec faults may P (keep_idem key v) (\<lambda>_. P)"
  by (auto simp: keep_idem_def act_when_def intro: gspec_write_idem gspecs)

text \<open>Conditions on the decisions and transactions alone.\<close>

definition framed :: "(gov_world \<Rightarrow> bool) \<Rightarrow> bool" where
  "framed F \<longleftrightarrow> (\<forall>w w'. gvw_decisions w' = gvw_decisions w \<longrightarrow> gvw_tx w' = gvw_tx w \<longrightarrow> F w \<longrightarrow> F w')"

lemma framedD: "framed F \<Longrightarrow> F w \<Longrightarrow> gvw_decisions w' = gvw_decisions w \<Longrightarrow> gvw_tx w' = gvw_tx w \<Longrightarrow> F w'"
  by (auto simp: framed_def)

lemma framed_intros [intro, simp]: "framed (\<lambda>w. True)" "framed (\<lambda>w. P (gvw_decisions w) (gvw_tx w))"
  by (simp_all add: framed_def)

lemma gspec_expire_record:
  assumes F: "framed F"
  shows "gspec faults may (\<lambda>w. cur (p, r) w \<and> F w) (expire_record p) (\<lambda>x w. cur x w \<and> snd (fst x) = snd p \<and> F w)"
proof -
  let ?k = "\<lambda>x w. cur x w \<and> snd (fst x) = snd p \<and> F w" and ?c = "\<lambda>w. cur (p, r) w \<and> F w"
  let ?q = "gov_path_of Gs_expired (gv_id r) (gv_rev r)"
  let ?f = "\<lambda>s. s\<lparr>gv_status := Gs_expired\<rparr>"
  have upd: "gspec faults may (\<lambda>w. ?c w \<and> gv_status r \<in> {Gs_pending, Gs_effective})
      (gov_upd (gov_audit Ev_expired (gv_id r) (gv_rev r) \<circ> move_gov p ?f)) (\<lambda>_ w. snd ?q = snd p \<and> F w)"
  proof (rule gspec_upd)
    fix w assume w: "named w" "?c w \<and> gv_status r \<in> {Gs_pending, Gs_effective}"
    then obtain s where s: "map_of (gvw_files w) p = Some s" "r = read_of s" by (auto simp: cur_def)
    have "gov_effect faults may w (move_gov p ?f w)" using s w(2) by (intro gov_effect.Expire) auto
    moreover have "gov_reach faults may (move_gov p ?f w) (gov_audit Ev_expired (gv_id r) (gv_rev r) (move_gov p ?f w))"
      by (simp add: aside_reach)
    moreover have "F (gov_audit Ev_expired (gv_id r) (gv_rev r) (move_gov p ?f w))"
      by (rule framedD [OF F, of w]) (use w(2) in \<open>simp_all add: gov_audit_def\<close>)
    ultimately show "gov_reach faults may w ((gov_audit Ev_expired (gv_id r) (gv_rev r) \<circ> move_gov p ?f) w)
        \<and> snd ?q = snd p \<and> F ((gov_audit Ev_expired (gv_id r) (gv_rev r) \<circ> move_gov p ?f) w)"
      using s namedD [OF w(1) s(1)] by (auto simp: gov_path_of_def intro: converse_rtranclp_into_rtranclp)
  qed
  show ?thesis
    unfolding expire_record_def
  proof (rule gspec_bind [OF gspec_read])
    fix r' show "gspec faults may (\<lambda>w. ?c w \<and> cur (p, r') w) (if gv_status r' \<notin> {Gs_pending, Gs_effective} then act_return (p, r')
     else act_bind (gov_upd (gov_audit Ev_expired (gv_id r') (gv_rev r') \<circ> move_gov p ?f)) (\<lambda>_.
       act_bind (read_gov (gov_path_of Gs_expired (gv_id r') (gv_rev r'))) (\<lambda>r''.
       act_return (gov_path_of Gs_expired (gv_id r') (gv_rev r'), r'')))) ?k"
    proof (cases "r' = r")
      case True
      show ?thesis unfolding True
      proof (rule gspec_if)
        assume "\<not> gv_status r \<notin> {Gs_pending, Gs_effective}"
        then show "gspec faults may (\<lambda>w. ?c w \<and> cur (p, r) w)
            (act_bind (gov_upd (gov_audit Ev_expired (gv_id r) (gv_rev r) \<circ> move_gov p ?f)) (\<lambda>_.
             act_bind (read_gov ?q) (\<lambda>r''. act_return (?q, r'')))) ?k"
          by (intro gspec_conseq [OF gspec_bind [OF upd gspec_bind [OF gspec_read gspec_return [where Q = ?k]]]]) auto
      qed (auto intro: gspec_return)
    next
      case False
      show ?thesis by (rule gspecI) (use False in \<open>auto simp: cur_def\<close>)
    qed
  qed
qed

lemma gspec_expire:
  assumes F: "framed F"
  shows "gspec faults may (\<lambda>w. cur (p, r) w \<and> F w) (expire_gov env (p, r)) (\<lambda>x w. cur x w \<and> snd (fst x) = snd p \<and> F w)"
proof -
  have lock: "F w \<Longrightarrow> F (w\<lparr>gvw_locks := l\<rparr>)" "cur x w \<Longrightarrow> cur x (w\<lparr>gvw_locks := l\<rparr>)" for x w l
    by (rule framedD [OF F], simp_all add: cur_def)
  show ?thesis
    unfolding expire_gov_def fst_conv snd_conv
    by (rule gspec_if, rule gspec_lock [OF gspec_expire_record [OF F, of faults may p r]])
       (auto intro: gspec_return lock)
qed

lemma gspec_expire_any: "gspec faults may (\<lambda>_. True) (expire_gov env x) (\<lambda>_ _. True)"
proof -
  have "gspec faults may (\<lambda>_. True) (expire_record p) (\<lambda>_ _. True)" for p
  proof (rule gspecI)
    fix w assume w: "named w"
    show "gov_reach faults may w (snd (expire_record p w)) \<and> (\<forall>x. fst (expire_record p w) = Inr x \<longrightarrow> True)"
    proof (cases "\<exists>r. cur (p, r) w")
      case True
      then obtain r where "cur (p, r) w" by blast
      with w gspecD(1) [OF gspec_expire_record [of "\<lambda>_. True"], of w p r faults] show ?thesis by simp
    next
      case False
      then have "fst (read_gov p w) \<in> range Inl" "snd (read_gov p w) = w"
        by (auto simp: read_gov_def cur_def split: option.split)
      then show ?thesis by (auto simp: expire_record_def act_bind_def split: prod.split sum.split)
    qed
  qed
  then show ?thesis
    unfolding expire_gov_def by (intro gspec_if gspec_return gspec_lock) auto
qed

definition at_key :: "string \<Rightarrow> int \<Rightarrow> gov_path \<times> gov_record \<Rightarrow> gov_world \<Rightarrow> bool" where
  "at_key g n x w \<longleftrightarrow> cur x w \<and> snd (fst x) = (gov_sanitize g, n)"

lemma gspec_get_gov:
  assumes F: "framed F"
  shows "gspec faults may F (get_gov env g n) (\<lambda>x w. at_key g n x w \<and> F w)"
  unfolding get_gov_def
proof (rule gspec_bind [OF gspec_get [where Q = "\<lambda>x w. x = find_gov_path w g n \<and> F w"]])
  fix found
  show "gspec faults may (\<lambda>w. found = find_gov_path w g n \<and> F w)
    (case found of None \<Rightarrow> act_throw Ge_not_found | Some p \<Rightarrow> act_bind (read_gov p) (\<lambda>r. expire_gov env (p, r)))
    (\<lambda>x w. at_key g n x w \<and> F w)"
  proof (cases found)
    case (Some p)
    show ?thesis
    proof (cases "snd p = (gov_sanitize g, n)")
      case True
      then show ?thesis
        unfolding Some option.case
        by (intro gspec_bind [OF gspec_read] gspec_conseq [OF gspec_expire [OF F]]) (auto simp: at_key_def)
    next
      case False
      then show ?thesis by (intro gspecI) (metis Some find_gov_path_Some)
    qed
  qed (auto intro: gspecs)
qed simp

lemma gspec_get_decision: "gspec faults may P (get_decision did) (\<lambda>d w. P w \<and> map_of (gvw_decisions w) (gov_sanitize did) = Some d)"
  unfolding get_decision_def
  by (rule gspec_bind [OF gspec_get [where Q = "\<lambda>d w. P w \<and> map_of (gvw_decisions w) (gov_sanitize did) = d"]])
     (auto intro!: gspecs)

lemma gspec_any: "gspec faults may (\<lambda>_. True) m (\<lambda>_ _. True) \<Longrightarrow> gspec faults may P m (\<lambda>_ _. True)"
  by (rule gspec_conseq) auto

lemma gspec_each: "(\<And>x. gspec faults may (\<lambda>_. True) (f x) (\<lambda>_ _. True)) \<Longrightarrow> gspec faults may (\<lambda>_. True) (act_each f xs) (\<lambda>_ _. True)"
  by (induction xs) (auto intro: gspec_bind gspecs)

lemma gspec_map: "(\<And>x. gspec faults may (\<lambda>_. True) (f x) (\<lambda>_ _. True)) \<Longrightarrow> gspec faults may (\<lambda>_. True) (act_map f xs) (\<lambda>_ _. True)"
  by (induction xs) (auto intro: gspec_bind gspecs)

lemma gspec_upd_aside: "(\<And>w. aside w (f w)) \<Longrightarrow> gspec faults may P (gov_upd f) (\<lambda>_ _. True)"
  by (rule gspec_upd) (auto intro: aside_reach)

lemma gspec_recover: "gspec faults may (\<lambda>_. True) (recover_transactions env) (\<lambda>_ _. True)"
proof -
  have "gspec faults may (\<lambda>_. True) (recover_one env key) (\<lambda>_ _. True)" for key
    unfolding recover_one_def
  proof (rule gspec_bind [OF gspec_get [where Q = "\<lambda>tx w. map_of (gvw_tx w) key = tx"]], simp, rule gspec_option, rule gspec_throw)
    fix tx :: "gov_tx option" and x assume tx: "tx = Some x"
    let ?F = "\<lambda>d w. map_of (gvw_tx w) key = tx \<and> map_of (gvw_decisions w) (gov_sanitize (gvx_decision x)) = Some d"
    have settle: "gspec faults may (\<lambda>w. at_key (gvx_gov x) (gvx_rev x) (p, r) w \<and> ?F d w)
        (act_when b (gov_upd (move_gov p (settle_fields d)))) (\<lambda>_. \<lambda>w. map_of (gvw_tx w) key = tx)" for p r d b
      unfolding act_when_def
    proof (intro gspec_if gspec_upd conjI)
      fix w assume w: "at_key (gvx_gov x) (gvx_rev x) (p, r) w \<and> ?F d w"
      then obtain s where "map_of (gvw_files w) p = Some s" "snd p = (gov_sanitize (gvx_gov x), gvx_rev x)"
        by (auto simp: at_key_def cur_def)
      then show "gov_reach faults may w (move_gov p (settle_fields d) w)"
        using w tx by (intro r_into_rtranclp gov_effect.Settle) auto
    qed (auto intro: gspec_return)
    have forget: "gspec faults may (\<lambda>w. map_of (gvw_tx w) key = tx)
        (gov_upd (\<lambda>w. gov_audit Ev_recovered (gvx_gov x) (gvx_rev x) (w\<lparr>gvw_tx := AList.delete key (gvw_tx w)\<rparr>))) (\<lambda>_ _. True)"
    proof (intro gspec_upd conjI TrueI)
      fix w :: gov_world assume "map_of (gvw_tx w) key = tx"
      then have "gov_effect faults may w (w\<lparr>gvw_tx := AList.delete key (gvw_tx w)\<rparr>)" using tx by (auto intro: gov_effect.Forget)
      moreover have "gov_reach faults may v (gov_audit Ev_recovered (gvx_gov x) (gvx_rev x) v)" for v by (simp add: aside_reach)
      ultimately show "gov_reach faults may w (gov_audit Ev_recovered (gvx_gov x) (gvx_rev x) (w\<lparr>gvw_tx := AList.delete key (gvw_tx w)\<rparr>))"
        by (metis converse_rtranclp_into_rtranclp)
    qed
    have fr: "framed (?F d)" for d by (simp add: framed_def)
    show "gspec faults may (\<lambda>w. map_of (gvw_tx w) key = tx) (act_bind (get_decision (gvx_decision x)) (\<lambda>d.
         act_bind (get_gov env (gvx_gov x) (gvx_rev x)) (\<lambda>(p, r).
         act_bind (act_when (gv_status r \<noteq> target_status (gvd_verdict d)) (gov_upd (move_gov p (settle_fields d)))) (\<lambda>_.
         gov_upd (\<lambda>w. gov_audit Ev_recovered (gvx_gov x) (gvx_rev x) (w\<lparr>gvw_tx := AList.delete key (gvw_tx w)\<rparr>)))))) (\<lambda>_ _. True)"
      by (rule gspec_bind [OF gspec_get_decision gspec_bind2 [OF gspec_get_gov [OF fr] gspec_bind [OF settle forget]]])
  qed
  then show ?thesis
    unfolding recover_transactions_def by (intro gspec_bind [OF gspec_get [where Q = "\<lambda>_ _. True"]] gspec_each) auto
qed

lemma gspec_list: "gspec faults may (\<lambda>_. True) (list_gov env status task limit) (\<lambda>_ _. True)"
  unfolding list_gov_def
  by (intro gspec_bind [OF gspec_recover] gspec_bind [OF gspec_get [where Q = "\<lambda>_ _. True"]] gspec_bind [OF gspec_map]
      gspec_expire_any gspec_bind [OF gspec_conseq [OF gspec_read [where P = "\<lambda>_. True"], where Q' = "\<lambda>_ _. True"]] gspec_return) auto

lemma gspec_latest: "gspec faults may (\<lambda>_. True) (latest_gov env g) (\<lambda>_ _. True)"
  unfolding latest_gov_def
  by (intro gspec_bind [OF gspec_list]) (auto intro: gspecs split: list.split)

lemma gspec_get_any: "gspec faults may (\<lambda>_. True) (get_gov env g n) (\<lambda>_ _. True)"
  by (rule gspec_conseq [OF gspec_get_gov [of "\<lambda>_. True"]]) auto

lemma gspec_checked: "(\<And>u. r = Inr u \<Longrightarrow> gspec faults may P (f u) Q) \<Longrightarrow> gspec faults may P (act_bind (act_check r) f) Q"
proof -
  have "act_bind (act_check (Inr u)) f = f u" "act_bind (act_check (Inl e)) f = act_throw e" for u e
    by (auto simp: act_simps)
  then show "(\<And>u. r = Inr u \<Longrightarrow> gspec faults may P (f u) Q) \<Longrightarrow> gspec faults may P (act_bind (act_check r) f) Q"
    by (cases r) (auto intro: gspec_throw)
qed

lemma gspec_prior: "gspec faults may P (if b then read_idem k else act_return None) (\<lambda>_. P)"
  unfolding read_idem_def by (intro gspec_if gspec_get gspec_return)

lemma gspec_same_action: "gspec faults may P (same_action a b) (\<lambda>_. P)"
  by (rule gspecI) (auto simp: same_action_def act_check_def)

lemma gspec_draft: "gspec faults may (\<lambda>_. True) (write_draft env i gid vn key) (\<lambda>_ _. True)"
proof -
  let ?g = "gov_sanitize (or_else gid (gve_new_id env))" and ?n = "or_else vn 1"
  let ?r = "draft_record env i ?g ?n"
  have put: "gspec faults may (\<lambda>w. find_gov_path w ?g ?n = None)
      (gov_upd (gov_audit Ev_drafted ?g ?n \<circ> put_gov (gov_path_of Gs_draft ?g ?n) ?r)) (\<lambda>_ _. True)"
    if "validate_gov_input env i = Inr ()"
  proof (intro gspec_upd conjI TrueI)
    fix w assume "find_gov_path w ?g ?n = None"
    moreover have "fresh_draft ?r" using that
      by (auto simp: fresh_draft_def draft_record_def validate_gov_input_def split: if_splits option.splits)
    ultimately have "gov_effect faults may w (put_gov (Gb_draft, gv_id ?r, gv_rev ?r) ?r w)"
      by (intro gov_effect.Draft) (simp_all add: draft_record_def)
    then have "gov_reach faults may w (put_gov (gov_path_of Gs_draft ?g ?n) ?r w)"
      by (simp add: draft_record_def gov_path_of_def gov_bucket_of_def)
    moreover have "gov_reach faults may v (gov_audit Ev_drafted ?g ?n v)" for v by (simp add: aside_reach)
    ultimately show "gov_reach faults may w ((gov_audit Ev_drafted ?g ?n \<circ> put_gov (gov_path_of Gs_draft ?g ?n) ?r) w)"
      by (metis comp_apply rtranclp_trans)
  qed
  show ?thesis
    unfolding write_draft_def Let_def
    apply (rule gspec_check)
    apply (rule gspec_checked)
    apply (rule gspec_check)
    apply (rule gspec_bind [OF gspec_prior])
    apply (rule gspec_option)
     apply (rule gspec_check)
     apply (rule gspec_bind [OF gspec_get [where Q = "\<lambda>x w. x = find_gov_path w ?g ?n"]], rule refl)
     apply (rule gspec_check)
     apply (rule gspec_bind [OF gspec_conseq [OF put, where Q' = "\<lambda>_ _. True"]])
        apply simp
       apply simp
      apply simp
     apply (rule gspec_bind [OF gspec_keep_idem], simp)
     apply (rule gspec_bind [OF gspec_read], rule gspec_return, simp)
    apply (rule gspec_bind [OF gspec_same_action gspec_get_any])
    done
qed

lemma at_key_aside: "aside w w' \<Longrightarrow> at_key g n x w \<Longrightarrow> at_key g n x w'"
  by (simp add: at_key_def cur_aside)

lemma gspec_verify_source:
  "(\<And>w w'. P w \<Longrightarrow> aside w w' \<Longrightarrow> P w') \<Longrightarrow> gspec faults may P (verify_source env r) (\<lambda>_. P)"
  unfolding verify_source_def Let_def
  by (auto intro!: gspecs gspec_bind [OF gspec_aside] split: option.split)

lemma gspec_submit: "gspec faults may (\<lambda>_. True) (submit_gov env g n actor key) (\<lambda>_ _. True)"
proof -
  have move: "gspec faults may (\<lambda>w. at_key g n (p, r) w \<and> gv_status r = Gs_draft)
      (gov_upd (gov_audit Ev_submitted g n \<circ> gov_audit Ev_validated g n \<circ> move_gov p (submit_fields env))) (\<lambda>_ _. True)" for p r
  proof (intro gspec_upd conjI TrueI)
    fix w assume "at_key g n (p, r) w \<and> gv_status r = Gs_draft"
    then have "gov_effect faults may w (move_gov p (submit_fields env) w)"
      by (auto simp: at_key_def cur_def intro: gov_effect.Submit)
    moreover have "gov_reach faults may v (gov_audit Ev_submitted g n (gov_audit Ev_validated g n v))" for v
      by (rule aside_reach) (simp add: aside_def use_log_def gov_audit_def)
    ultimately show "gov_reach faults may w ((gov_audit Ev_submitted g n \<circ> gov_audit Ev_validated g n \<circ> move_gov p (submit_fields env)) w)"
      by (metis comp_apply converse_rtranclp_into_rtranclp)
  qed
  have "gspec faults may (\<lambda>_. True) (submit_locked env g n key) (\<lambda>_ _. True)"
    unfolding submit_locked_def
    apply (rule gspec_bind [OF gspec_prior])
    apply (rule gspec_option)
     apply (rule gspec_bind2 [OF gspec_get_gov [OF framed_intros(1)]])
     apply (rule gspec_if, rule gspec_return, simp)
     apply (rule gspec_if, rule gspec_throw)
     apply (rule gspec_bind [OF gspec_verify_source], erule conjE, rule conjI, erule (1) at_key_aside, assumption)
     apply (rule gspec_bind [OF gspec_conseq [OF move, where Q' = "\<lambda>_ _. True"]])
        apply simp
       apply simp
     apply (rule gspec_bind [OF gspec_keep_idem], simp)
     apply (rule gspec_bind [OF gspec_read], rule gspec_return, simp)
    apply (rule gspec_bind [OF gspec_same_action gspec_get_any])
    done
  then show ?thesis
    unfolding submit_gov_def by (intro gspec_check gspec_lock)
qed

lemma gspec_revise: "gspec faults may (\<lambda>_. True) (revise_gov env g n i actor key) (\<lambda>_ _. True)"
  unfolding revise_gov_def by (intro gspec_check gspec_bind2 [OF gspec_get_any] gspec_draft)

section \<open>Decisions and revocations\<close>

lemma gspec_get_key: "gspec faults may (\<lambda>_. True) (get_gov env g n) (at_key g n)"
  by (rule gspec_conseq [OF gspec_get_gov [of "\<lambda>_. True"]]) auto

text \<open>A record as it was read, whose decision \<open>d\<close> is on disk.\<close>

definition decided_at :: "string \<Rightarrow> int \<Rightarrow> gov_path \<times> gov_record \<Rightarrow> gov_decision \<Rightarrow> gov_world \<Rightarrow> bool" where
  "decided_at g n x d w \<longleftrightarrow> at_key g n x w \<and> map_of (gvw_decisions w) (gvd_id d) = Some d"

lemma gspec_assert_hashes:
  "(\<And>w w'. P w \<Longrightarrow> aside w w' \<Longrightarrow> P w') \<Longrightarrow> gspec faults may P (assert_hashes env r) (\<lambda>_ w. P w \<and> hashes_match env r)"
  unfolding assert_hashes_def
  by (auto intro!: gspecs gspec_bind [OF gspec_aside])

lemma matches_read: "matches d (read_of s) = matches d s"
  by (simp add: matches_def)

lemma gspec_create:
  assumes "matches d r" and "gov_sanitize (gvd_id d) = gvd_id d"
    and "gv_status r = (if gvd_verdict d = Gv_revoked then Gs_effective else Gs_pending)"
    and "\<And>w. named w \<Longrightarrow> at_key g n (p, r) w \<Longrightarrow> may d"
  shows "gspec faults may (at_key g n (p, r)) (create_decision d) (\<lambda>_. decided_at g n (p, r) d)"
proof -
  have upd: "gspec faults may (\<lambda>w. at_key g n (p, r) w \<and> map_of (gvw_decisions w) (gvd_id d) = None)
      (gov_upd (\<lambda>w. w\<lparr>gvw_decisions := AList.update (gvd_id d) d (gvw_decisions w)\<rparr>)) (\<lambda>_. decided_at g n (p, r) d)"
  proof (rule gspec_upd, intro conjI)
    fix w assume nm: "named w" and w: "at_key g n (p, r) w \<and> map_of (gvw_decisions w) (gvd_id d) = None"
    then obtain s where s: "map_of (gvw_files w) p = Some s" "r = read_of s" by (auto simp: at_key_def cur_def)
    then show "gov_reach faults may w (w\<lparr>gvw_decisions := AList.update (gvd_id d) d (gvw_decisions w)\<rparr>)"
      using assms(1-3) assms(4) [OF nm] w
      by (intro r_into_rtranclp gov_effect.Decision [OF s(1)]) (auto simp: matches_read split: if_splits)
    show "decided_at g n (p, r) d (w\<lparr>gvw_decisions := AList.update (gvd_id d) d (gvw_decisions w)\<rparr>)"
      using w by (simp add: decided_at_def at_key_def cur_def update_conv')
  qed
  show ?thesis
    unfolding create_decision_def
    by (rule gspec_bind [OF gspec_get [where Q = "\<lambda>x w. at_key g n (p, r) w \<and> x = map_of (gvw_decisions w) (gvd_id d)"]], simp)
       (rule gspec_check, rule gspec_conseq [OF upd], simp_all)
qed

lemma gspec_commit:
  assumes "matches d r" and "gv_status r = Gs_pending" and "gvd_verdict d \<noteq> Gv_revoked" and "faults \<or> gve_fault env = None"
  shows "gspec faults may (decided_at g n (p, r) d) (commit_decision env p d) (\<lambda>_ _. True)"
proof (rule gspecI)
  fix w assume w: "decided_at g n (p, r) d w"
  then obtain s where s: "map_of (gvw_files w) p = Some s" "r = read_of s" "map_of (gvw_decisions w) (gvd_id d) = Some d"
    by (auto simp: decided_at_def at_key_def cur_def)
  have step: "gov_reach faults may w (run_steps (take k (commit_steps p s d)) w)" if "faults \<or> k = 4" for k
    using assms s that by (intro r_into_rtranclp gov_effect.Commit) (auto simp: matches_read)
  have "take 4 (commit_steps p s d) = commit_steps p s d" by (simp add: commit_steps_def Let_def)
  then show "gov_reach faults may w (snd (commit_decision env p d w))
      \<and> (\<forall>x. fst (commit_decision env p d w) = Inr x \<longrightarrow> True)"
    using assms(4) s step step [of 4] by (auto simp: commit_decision_def split: option.split)
qed

lemma gspec_decided_before: "gspec faults may (\<lambda>_. True) (decided_before env g n prior v) (\<lambda>_ _. True)"
  unfolding decided_before_def
  by (intro gspec_option gspec_if gspec_return gspec_bind [OF gspec_same_action] gspec_bind2 [OF gspec_get_any]
      gspec_bind [OF gspec_conseq [OF gspec_get_decision [of faults may "\<lambda>_. True"], where Q' = "\<lambda>_ _. True"]]) auto

lemma matches_decision: "matches (decision_of env i r) r" "matches (revocation_of env i r) r"
  by (simp_all add: matches_def decision_of_def revocation_of_def)

lemma decision_ids [simp]:
  "gvd_id (decision_of env i r) = gov_sanitize (gve_new_decision env)" "gvd_verdict (decision_of env i r) = gvq_verdict i"
  "gvd_id (revocation_of env i r) = gov_sanitize (gve_new_decision env)" "gvd_verdict (revocation_of env i r) = Gv_revoked"
  by (simp_all add: decision_of_def revocation_of_def)

lemma gspec_decide_pending:
  assumes "gv_status r = Gs_pending" and "gvq_verdict i \<noteq> Gv_revoked" and "faults \<or> gve_fault env = None"
    and "\<And>w. named w \<Longrightarrow> at_key g n (p, r) w \<Longrightarrow> may (decision_of env i r)"
  shows "gspec faults may (at_key g n (p, r)) (decide_pending env i p r) (\<lambda>_ _. True)"
  unfolding decide_pending_def Let_def
  apply (rule gspec_bind [OF gspec_assert_hashes], erule (1) at_key_aside)
  apply (rule gspec_bind [where Q = "\<lambda>_. decided_at g n (p, r) (decision_of env i r)"])
   apply (rule gspec_conseq [OF gspec_create [OF matches_decision(1)]], simp, simp add: assms, erule (1) assms(4), erule conjunct1, assumption)
  apply (rule gspec_bind [OF gspec_commit [OF matches_decision(1) assms(1) _ assms(3)]], simp add: assms)
  apply (rule gspec_bind [OF gspec_write_idem], simp)
  apply (rule gspec_bind [OF gspec_upd_aside], simp)
  apply (rule gspec_bind [OF gspec_read], rule gspec_return, simp)
  done

text \<open>What a call may decide.\<close>

definition decision_for :: "gov_decide \<Rightarrow> gov_verdict \<Rightarrow> gov_decision \<Rightarrow> bool" where
  "decision_for q v d \<longleftrightarrow>
     js_upper (js_trim (gvq_actor q)) = ''ADMIN'' \<and> gvd_verdict d = v \<and> gvd_gov d = gov_sanitize (gvq_gov q) \<and> gvd_rev d = gvq_rev q"

definition admin_decides :: "gov_decide \<Rightarrow> gov_decision \<Rightarrow> bool" where
  "admin_decides q d \<longleftrightarrow>
     decision_for q (gvq_verdict q) d \<and> js_trim (gvq_reason q) \<noteq> [] \<and> js_trim (gvq_ui_action q) \<noteq> []
   \<and> gvd_approval d = Some (gvq_approval q)"

lemma decision_key:
  assumes "named w" and "at_key g n (p, r) w"
  shows "gv_id r = gov_sanitize g" and "gv_rev r = n"
proof -
  obtain s where "map_of (gvw_files w) p = Some s" "r = read_of s" "snd p = (gov_sanitize g, n)"
    using assms(2) by (auto simp: at_key_def cur_def)
  then show "gv_id r = gov_sanitize g" "gv_rev r = n" using namedD [OF assms(1)] by auto
qed

lemma decision_for_of:
  assumes "named w" and "at_key (gvq_gov i) (gvq_rev i) (p, r) w" and "js_upper (js_trim (gvq_actor i)) = ''ADMIN''"
  shows "decision_for i (gvq_verdict i) (decision_of env i r)" and "decision_for i Gv_revoked (revocation_of env i r)"
  using decision_key [OF assms(1,2)] assms(3) by (simp_all add: decision_for_def decision_of_def revocation_of_def)

lemma gspec_decide:
  assumes "gvq_verdict i \<noteq> Gv_revoked" and "faults \<or> gve_fault env = None"
  shows "gspec faults (admin_decides i) (\<lambda>_. True) (decide_gov env i) (\<lambda>_ _. True)"
proof -
  have "gspec faults (admin_decides i) (\<lambda>_. True) (decide_locked env i) (\<lambda>_ _. True)"
    if "js_upper (js_trim (gvq_actor i)) = ''ADMIN''" "js_trim (gvq_reason i) \<noteq> []" "js_trim (gvq_ui_action i) \<noteq> []"
    unfolding decide_locked_def read_idem_def
    apply (rule gspec_bind [OF gspec_get [where Q = "\<lambda>_ _. True"]], rule TrueI)
    apply (rule gspec_bind [OF gspec_decided_before])
    apply (rule gspec_option)
     apply (rule gspec_bind2 [OF gspec_get_key])
     apply (rule gspec_if)
      apply (rule gspec_bind [OF gspec_get [where Q = "\<lambda>_ _. True"]], rule TrueI)
      apply (intro gspec_option gspec_throw gspec_if gspec_return TrueI)
     apply (rule gspec_conseq [OF gspec_decide_pending [OF _ assms]], blast)
       apply (unfold admin_decides_def, intro conjI, erule (1) decision_for_of(1), rule that, rule that, rule that)
       apply (simp add: decision_of_def)
      apply (assumption, rule TrueI)
    apply (rule gspec_return, rule TrueI)
    done
  then show ?thesis
    unfolding decide_gov_def by (intro gspec_check gspec_lock TrueI)
qed

lemma gspec_revoke: "gspec faults (decision_for i Gv_revoked) (\<lambda>_. True) (revoke_gov env i) (\<lambda>_ _. True)"
proof -
  have move: "gspec faults (decision_for i Gv_revoked) (\<lambda>w. at_key g n (p, r) w) (gov_upd (move_gov p (\<lambda>s. s\<lparr>gv_status := Gs_revoked\<rparr>))) (\<lambda>_ _. True)"
    if "gv_status r = Gs_effective" for g n p r
    using that by (intro gspec_upd conjI TrueI r_into_rtranclp) (auto simp: at_key_def cur_def intro: gov_effect.Revoke)
  have "gspec faults (decision_for i Gv_revoked) (\<lambda>_. True) (revoke_locked env i) (\<lambda>_ _. True)"
    if "js_upper (js_trim (gvq_actor i)) = ''ADMIN''"
    unfolding revoke_locked_def read_idem_def Let_def
    apply (rule gspec_bind [OF gspec_get [where Q = "\<lambda>_ _. True"]], rule TrueI)
    apply (rule gspec_bind [OF gspec_decided_before])
    apply (rule gspec_option)
     apply (rule gspec_bind2 [OF gspec_get_key])
     apply (rule gspec_check)
     apply (rule gspec_bind [OF gspec_assert_hashes], erule (1) at_key_aside)
     apply (rename_tac p r u, rule_tac Q = "\<lambda>_. decided_at (gvq_gov i) (gvq_rev i) (p, r) (revocation_of env i r)" in gspec_bind)
      apply (rule gspec_conseq [OF gspec_create [OF matches_decision(2)]], simp, simp, erule (1) decision_for_of(2), rule that, erule conjunct1, assumption)
     apply (rule gspec_bind [where Q = "\<lambda>_ _. True"])
      apply (rule gspec_conseq [OF move], assumption, unfold decided_at_def, erule conjunct1, rule TrueI)
     apply (rule gspec_bind [OF gspec_write_idem], simp)
     apply (rule gspec_bind [OF gspec_upd_aside], simp)
     apply (rule gspec_bind [OF gspec_read], rule gspec_return, simp)
    apply (rule gspec_return, rule TrueI)
    done
  then show ?thesis
    unfolding revoke_gov_def by (intro gspec_check gspec_lock)
qed

section \<open>Authorizations\<close>

lemma gspec_conj: "gspec faults may P m Q \<Longrightarrow> gspec faults may P m Q' \<Longrightarrow> gspec faults may P m (\<lambda>x w. Q x w \<and> Q' x w)"
  unfolding gspec_def act_spec_def by blast

lemma gspec_fact: "(b \<Longrightarrow> gspec faults may (\<lambda>_. True) m Q) \<Longrightarrow> gspec faults may (\<lambda>_. b) m Q"
  unfolding gspec_def act_spec_def by blast

lemma expire_fresh:
  assumes "named w" and "cur (p, r) w" and "expire_gov env (p, r) w = (Inr x, w')"
  shows "\<not> expires_now env (snd x)"
proof (cases "expires_now env r")
  case False
  then show ?thesis using assms(3) by (auto simp: expire_gov_def act_return_def)
next
  case True
  obtain s where s: "map_of (gvw_files w) p = Some s" "r = read_of s" "gv_id s \<noteq> []" using assms(2) by (auto simp: cur_def)
  have p: "snd p = (gv_id s, gv_rev s)" "gov_sanitize (gv_id s) = gv_id s" using namedD [OF assms(1) s(1)] by auto
  let ?l = "w\<lparr>gvw_locks := (gov_sanitize (gv_id s), gv_rev s) # gvw_locks w\<rparr>"
  let ?q = "gov_path_of Gs_expired (gv_id s) (gv_rev s)"
  have st: "gv_status s \<in> {Gs_pending, Gs_effective}" using True s(2) by (auto simp: expires_now_def)
  have "map_of (gvw_files (gov_audit Ev_expired (gv_id s) (gv_rev s) (move_gov p (\<lambda>s. s\<lparr>gv_status := Gs_expired\<rparr>) ?l))) ?q
      = Some (s\<lparr>gv_status := Gs_expired\<rparr>)"
    using s p move_files [of ?l p s "\<lambda>s. s\<lparr>gv_status := Gs_expired\<rparr>" ?q] by (simp add: gov_audit_def gov_path_of_def)
  then have "fst (expire_record p ?l) = Inr (?q, read_of (s\<lparr>gv_status := Gs_expired\<rparr>))"
    using s st by (auto simp: expire_record_def act_bind_def read_gov_def gov_upd_def act_return_def read_of_def)
  then have "x = (?q, read_of (s\<lparr>gv_status := Gs_expired\<rparr>))"
    using assms(3) True unfolding s(2)
    by (auto simp: expire_gov_def gov_lock_def Let_def split: prod.splits if_splits)
  then have "gv_status (snd x) = Gs_expired" by simp
  then show ?thesis by (simp add: expires_now_def)
qed

lemma gspec_expire_fresh: "gspec faults may (cur (p, r)) (expire_gov env (p, r)) (\<lambda>x _. \<not> expires_now env (snd x))"
  by (rule gspecI) (metis (no_types, lifting) expire_fresh prod.collapse gspec_expire_any gspecD(1))

lemma gspec_get_fresh: "gspec faults may (\<lambda>_. True) (get_gov env g n) (\<lambda>x _. \<not> expires_now env (snd x))"
  unfolding get_gov_def
  by (intro gspec_bind [OF gspec_get [where Q = "\<lambda>_ _. True"]] gspec_option gspec_throw TrueI
      gspec_bind [OF gspec_read] gspec_conseq [OF gspec_expire_fresh]) auto

lemma gspec_latest_id: "gspec faults may (\<lambda>_. True) (latest_gov env g) (\<lambda>x _. \<forall>y. x = Some y \<longrightarrow> gv_id (snd y) = g)"
  unfolding latest_gov_def
proof (rule gspec_bind [OF gspec_list])
  fix rows :: "(gov_path \<times> gov_record) list"
  let ?xs = "sort_key (\<lambda>x. - gv_rev (snd x)) (filter (\<lambda>x. gv_id (snd x) = g) rows)"
  have ids: "\<forall>y\<in>set ?xs. gv_id (snd y) = g" by simp
  show "gspec faults may (\<lambda>_. True) (case ?xs of [] \<Rightarrow> act_return None | x # xs \<Rightarrow> act_return (Some x))
      (\<lambda>x _. \<forall>y. x = Some y \<longrightarrow> gv_id (snd y) = g)"
  proof (cases ?xs)
    case (Cons y ys)
    then have "gv_id (snd y) = g" using ids by (metis list.set_intros(1))
    then show ?thesis unfolding Cons list.case by (intro gspec_return) simp
  qed (simp add: gspec_return)
qed

text \<open>What an accepted reference rests on: the record on disk, ADMIN's decision and the request agree.\<close>

definition authorized :: "gov_env \<Rightarrow> gov_reference \<Rightarrow> gov_expected \<Rightarrow> gov_path \<Rightarrow> gov_record \<Rightarrow> gov_decision \<Rightarrow> gov_world \<Rightarrow> bool" where
  "authorized env a e p r d w \<longleftrightarrow>
     at_key (gva_gov a) (gva_rev a) (p, r) w \<and> gv_status r = Gs_effective \<and> \<not> expires_now env r \<and> hashes_match env r
   \<and> scope_agrees a e r \<and> decision_agrees a d \<and> map_of (gvw_decisions w) (gov_sanitize (gva_decision a)) = Some d"

lemma gspec_validate:
  "gspec faults may (\<lambda>_. True) (validate_authorization env a e) (\<lambda>((p, r), d). authorized env a e p r d)"
proof -
  have get: "gspec faults may (\<lambda>_. True) (get_gov env (gva_gov a) n) (\<lambda>x w. at_key (gva_gov a) n x w \<and> \<not> expires_now env (snd x))" for n
    by (rule gspec_conj [OF gspec_get_key gspec_get_fresh])
  have body: "gspec faults may (\<lambda>_. True)
     (act_bind (get_gov env (gva_gov a) n) (\<lambda>(p, r).
         act_bind (act_check (check (gv_status r = Gs_effective) (status_code (gv_status r)))) (\<lambda>_.
         act_bind (act_check (check (n = gva_rev a) Ge_scope_mismatch)) (\<lambda>_.
         act_bind (assert_hashes env r) (\<lambda>_.
         act_bind (act_check (check (scope_agrees a e r) Ge_scope_mismatch)) (\<lambda>_.
         act_bind (get_decision (gva_decision a)) (\<lambda>d.
         act_bind (act_check (check (decision_agrees a d) Ge_scope_mismatch)) (\<lambda>_.
         act_return ((p, r), d))))))))) (\<lambda>((p, r), d). authorized env a e p r d)" for n
    apply (rule gspec_bind2 [OF get])
    apply (rule gspec_check)
    apply (rule gspec_check)
    apply (rule gspec_bind [OF gspec_assert_hashes], erule conjE, rule conjI, erule (1) at_key_aside, assumption)
    apply (rule gspec_check)
    apply (rule gspec_bind [OF gspec_get_decision])
    apply (rule gspec_check)
    apply (rule gspec_return)
    apply (simp add: authorized_def)
    done
  show ?thesis
    unfolding validate_authorization_def
    apply (rule gspec_bind [OF gspec_latest_id])
    apply (rule gspec_option, rule gspec_throw)
    subgoal for found g
      unfolding simp_thms
      by (rule gspec_conseq [OF gspec_fact [of "gv_id (snd g) = gva_gov a", OF gspec_bind [OF gspec_expire_any]]])
         (simp_all add: body)
    done
qed

text \<open>The use of an authorization: the record is charged, the key is spent and the use is logged. A key spent on
  something else stops after the charge.\<close>

definition charge :: "gov_path \<Rightarrow> gov_record \<Rightarrow> string \<Rightarrow> gov_idem \<Rightarrow> gov_record gov" where
  "charge p r key v =
     act_bind (gov_upd (move_gov p consume_fields)) (\<lambda>_.
     act_bind (write_idem key v) (\<lambda>_.
     act_bind (gov_upd (gov_audit Ev_consumed (gv_id r) (gv_rev r))) (\<lambda>_.
     read_gov (gov_path_of (gv_status (consume_fields r)) (gv_id r) (gv_rev r)))))"

lemma read_gov_snd [simp]: "snd (read_gov p w) = w"
  by (simp add: read_gov_def split: option.split)

lemma charge_run:
  defines "move \<equiv> move_gov"
  shows "snd (charge p r key v w) =
    (case map_of (gvw_idem w) key of
       None \<Rightarrow> gov_audit Ev_consumed (gv_id r) (gv_rev r) ((move p consume_fields w)\<lparr>gvw_idem := AList.update key v (gvw_idem w)\<rparr>)
     | Some x \<Rightarrow> if x = v then gov_audit Ev_consumed (gv_id r) (gv_rev r) (move p consume_fields w) else move p consume_fields w)"
  by (auto simp: charge_def act_bind_def gov_upd_def write_idem_def read_idem_def gov_get_def act_return_def act_throw_def move_def
      split: option.split)

lemma gspec_charge:
  assumes "gv_status r = Gs_effective"
  shows "gspec faults may (at_key g n (p, r)) (charge p r key v) (\<lambda>_ _. True)"
proof (rule gspecI)
  fix w assume "at_key g n (p, r) w"
  then obtain s where s: "map_of (gvw_files w) p = Some s" "r = read_of s" by (auto simp: at_key_def cur_def)
  have "gov_effect faults may w (snd (charge p r key v w))"
    using s assms by (intro gov_effect.Consume [OF s(1)]) (auto simp: charge_run gov_audit_def use_log_def split: option.split)
  then show "gov_reach faults may w (snd (charge p r key v w)) \<and> (\<forall>x. fst (charge p r key v w) = Inr x \<longrightarrow> True)"
    by auto
qed

lemma consume_gov_locked_charge:
  "consume_gov_locked env a g d =
     act_bind (read_idem (gva_key a)) (\<lambda>prior.
     if map_option gvk_action prior = Some Act_consume then
       act_bind (get_gov env (gv_id g) (gv_rev g)) (\<lambda>(p, r). act_return r)
     else
       act_bind (get_gov env (gv_id g) (gv_rev g)) (\<lambda>(p, r).
       act_bind (act_check (check (gv_status r = Gs_effective) Ge_consumed)) (\<lambda>_.
       charge p r (gva_key a) \<lparr>gvk_gov = gv_id r, gvk_rev = gv_rev r, gvk_approval = gv_approval r,
         gvk_decision = Some (gvd_id d), gvk_action = Act_consume\<rparr>)))"
  unfolding consume_gov_locked_def charge_def ..

lemma gspec_consume_locked: "gspec faults may (\<lambda>_. True) (consume_gov_locked env a g d) (\<lambda>_ _. True)"
  unfolding consume_gov_locked_charge read_idem_def
  apply (rule gspec_bind [OF gspec_get [where Q = "\<lambda>_ _. True"]], rule TrueI)
  apply (rule gspec_if)
   apply (rule gspec_bind2 [OF gspec_get_any], rule gspec_return, rule TrueI)
  apply (rule gspec_bind2 [OF gspec_get_key])
  apply (rule gspec_check)
  apply (erule gspec_charge)
  done

lemma gspec_consume: "gspec faults may (\<lambda>_. True) (consume_gov env a e) (\<lambda>_ _. True)"
proof -
  have auth: "gspec faults may (\<lambda>_. True) (act_bind (validate_authorization env a e) (\<lambda>((p, g), d).
      gov_lock (gv_id g) (gv_rev g) (consume_gov_locked env a g d))) (\<lambda>_ _. True)"
    by (rule gspec_bind [OF gspec_validate]) (auto intro!: gspec_lock gspec_any [OF gspec_consume_locked] split: prod.split)
  show ?thesis
    unfolding consume_gov_def read_idem_def
    by (rule gspec_bind [OF gspec_get [where Q = "\<lambda>_ _. True"]], rule TrueI)
       (intro gspec_option gspec_if auth gspec_bind2 [OF gspec_get_any] gspec_return TrueI)
qed

lemma gspec_authorize: "gspec faults may (\<lambda>_. True) (authorize_action env a project task action targets) (\<lambda>_ _. True)"
  unfolding authorize_action_def Let_def
  by (rule gspec_bind [OF gspec_validate])
     (auto intro!: gspec_check gspec_any [OF gspec_consume] split: prod.split)

section \<open>Runs of calls\<close>

datatype gov_call =
  Call_draft gov_input "string option" "int option" "string option"
| Call_submit string int string "string option"
| Call_revise string int gov_input string "string option"
| Call_decide gov_decide
| Call_revoke gov_decide
| Call_list "gov_status option" "string option" "int option"
| Call_get string int
| Call_validate gov_reference gov_expected
| Call_consume gov_reference gov_expected
| Call_authorize gov_reference string string string "string list"

definition gov_step :: "gov_world \<Rightarrow> gov_env \<times> gov_call \<Rightarrow> gov_world" where
  "gov_step w c =
     (case c of
        (env, Call_draft i g n k) \<Rightarrow> snd (write_draft env i g n k w)
      | (env, Call_submit g n actor k) \<Rightarrow> snd (submit_gov env g n actor k w)
      | (env, Call_revise g n i actor k) \<Rightarrow> snd (revise_gov env g n i actor k w)
      | (env, Call_decide q) \<Rightarrow> snd (decide_gov env q w)
      | (env, Call_revoke q) \<Rightarrow> snd (revoke_gov env q w)
      | (env, Call_list s t l) \<Rightarrow> snd (list_gov env s t l w)
      | (env, Call_get g n) \<Rightarrow> snd (get_gov env g n w)
      | (env, Call_validate a e) \<Rightarrow> snd (validate_authorization env a e w)
      | (env, Call_consume a e) \<Rightarrow> snd (consume_gov env a e w)
      | (env, Call_authorize a project task action targets) \<Rightarrow> snd (authorize_action env a project task action targets w))"

definition gov_run :: "gov_world \<Rightarrow> (gov_env \<times> gov_call) list \<Rightarrow> gov_world" where
  "gov_run w cs = foldl gov_step w cs"

text \<open>The type of a decision excludes \<open>Gv_revoked\<close>; without faults every write of a decision goes through.\<close>

definition well_typed :: "gov_env \<times> gov_call \<Rightarrow> bool" where
  "well_typed c \<longleftrightarrow> (case snd c of Call_decide q \<Rightarrow> gvq_verdict q \<noteq> Gv_revoked | _ \<Rightarrow> True)"

definition faultless :: "gov_env \<times> gov_call \<Rightarrow> bool" where
  "faultless c \<longleftrightarrow> gve_fault (fst c) = None"

definition call_decides :: "gov_env \<times> gov_call \<Rightarrow> gov_decision \<Rightarrow> bool" where
  "call_decides c d \<longleftrightarrow>
     (case snd c of Call_decide q \<Rightarrow> admin_decides q d | Call_revoke q \<Rightarrow> decision_for q Gv_revoked d | _ \<Rightarrow> False)"

lemma gov_step_reach:
  assumes "named w" and "well_typed c" and "faults \<or> faultless c"
  shows "gov_reach faults (call_decides c) w (gov_step w c)"
proof -
  have reach: "gspec faults may (\<lambda>_. True) m (\<lambda>_ _. True) \<Longrightarrow> gov_reach faults may w (snd (m w))" for may and m :: "'a gov"
    using gspecD(1) [of faults may "\<lambda>_. True"] assms(1) by blast
  obtain env call where c: "c = (env, call)" by fastforce
  have "call_decides (env, Call_decide q) = admin_decides q" "call_decides (env, Call_revoke q) = decision_for q Gv_revoked" for q
    by (simp_all add: fun_eq_iff call_decides_def)
  then show ?thesis
    using assms gspecD(1) [OF gspec_validate assms(1) TrueI] unfolding c
    by (cases call)
       (auto simp: gov_step_def well_typed_def faultless_def intro!: reach gspec_draft gspec_submit gspec_revise gspec_decide
          gspec_revoke gspec_list gspec_get_any gspec_consume gspec_authorize)
qed

lemma effect_mono: "gov_effect faults may w w' \<Longrightarrow> (\<And>d. may d \<Longrightarrow> may' d) \<Longrightarrow> gov_effect faults may' w w'"
  by (erule gov_effect.cases; simp only:) (rule gov_effect.intros; (assumption | blast))+

lemma reach_mono: "gov_reach faults may w w' \<Longrightarrow> (\<And>d. may d \<Longrightarrow> may' d) \<Longrightarrow> gov_reach faults may' w w'"
  by (induction rule: rtranclp_induct) (auto intro: effect_mono rtranclp.rtrancl_into_rtrancl)

lemma gov_run_reach:
  "named w \<Longrightarrow> \<forall>c\<in>set cs. well_typed c \<and> (faults \<or> faultless c)
    \<Longrightarrow> gov_reach faults (\<lambda>d. \<exists>c\<in>set cs. call_decides c d) w (gov_run w cs)"
proof (induction cs arbitrary: w)
  case (Cons c cs)
  then have step: "gov_reach faults (call_decides c) w (gov_step w c)" by (intro gov_step_reach) auto
  have "gov_reach faults (\<lambda>d. \<exists>c\<in>set cs. call_decides c d) (gov_step w c) (gov_run (gov_step w c) cs)"
    by (intro Cons.IH reach_named [OF step]) (use Cons.prems in auto)
  then have "gov_reach faults (\<lambda>d. \<exists>c\<in>set (c # cs). call_decides c d) (gov_step w c) (gov_run (gov_step w c) cs)"
    by (rule reach_mono) simp
  moreover have "gov_reach faults (\<lambda>d. \<exists>c\<in>set (c # cs). call_decides c d) w (gov_step w c)"
    using step by (rule reach_mono) simp
  ultimately show ?case unfolding gov_run_def foldl.simps by (rule rtranclp_trans [rotated])
qed (simp add: gov_run_def)

end
