(* ===== verification/Governance_Guarantees.thy ===== *)
theory Governance_Guarantees
  imports Governance_Properties
begin

text \<open>
  The guarantees of the governance service, by induction over the effects its calls are made of: the store of
  records, decisions and transactions stays sound, an approval in force rests on a decision of ADMIN, terms never
  change once a record has been written, and, when no write of a decision fails, records only move forward and
  are used no more often than approved.
\<close>

section \<open>A sound store\<close>

abbreviation file_at :: "gov_world \<Rightarrow> gov_path \<Rightarrow> gov_record \<Rightarrow> bool" where
  "file_at w p s \<equiv> map_of (gvw_files w) p = Some s"

text \<open>What is left of a record without the fields that its life cycle writes.\<close>

definition gov_terms :: "gov_record \<Rightarrow> gov_record" where
  "gov_terms s = s\<lparr>gv_status := Gs_draft, gv_approval := None, gv_submitted := None, gv_used := 0, gv_verified := False,
     gv_decision := None, gv_lease := None\<rparr>"

lemma gov_terms_fields:
  assumes "gov_terms s = gov_terms t"
  shows "gv_id s = gv_id t" "gv_rev s = gv_rev t" "gv_content_hash s = gv_content_hash t" "gv_scope_digest s = gv_scope_digest t"
    "gv_limit s = gv_limit t" "content_of_record s = content_of_record t" "scope_of_record s = scope_of_record t"
  using assms by (cases s; cases t; simp add: gov_terms_def content_of_record_def scope_of_record_def gov_scope.defs gov_content.defs)+

lemma gov_terms_changes [simp]:
  "gov_terms (decided_fields d s) = gov_terms s" "gov_terms (settle_fields d s) = gov_terms s"
  "gov_terms (submit_fields env s) = gov_terms s" "gov_terms (consume_fields s) = gov_terms s"
  "gov_terms (s\<lparr>gv_status := st\<rparr>) = gov_terms s"
  by (simp_all add: gov_terms_def decided_fields_def settle_fields_def submit_fields_def consume_fields_def Let_def)

lemma approval_changes [simp]:
  "gv_approval (decided_fields d s) = gv_approval s" "gv_approval (settle_fields d s) = gv_approval s"
  "gv_approval (consume_fields s) = gv_approval s" "gv_status (consume_fields s) \<in> {Gs_effective, Gs_consumed}"
  by (simp_all add: decided_fields_def settle_fields_def consume_fields_def Let_def)

definition approved_by :: "gov_world \<Rightarrow> gov_record \<Rightarrow> bool" where
  "approved_by w s \<longleftrightarrow> (\<exists>k d. map_of (gvw_decisions w) k = Some d \<and> gvd_verdict d = Gv_approved \<and> matches d s)"

definition tx_sound :: "gov_world \<Rightarrow> bool" where
  "tx_sound w \<longleftrightarrow> (\<forall>k x. map_of (gvw_tx w) k = Some x \<longrightarrow>
     (\<exists>d. map_of (gvw_decisions w) (gvx_decision x) = Some d \<and> gov_sanitize (gvx_decision x) = gvx_decision x
        \<and> gvd_gov d = gvx_gov x \<and> gvd_rev d = gvx_rev x))"

definition decisions_sound :: "gov_world \<Rightarrow> bool" where
  "decisions_sound w \<longleftrightarrow> (\<forall>k d. map_of (gvw_decisions w) k = Some d \<longrightarrow>
     k = gvd_id d \<and> gov_sanitize k = k \<and> (\<exists>p s. file_at w p s \<and> snd p = (gvd_gov d, gvd_rev d))
   \<and> (\<forall>p s. file_at w p s \<longrightarrow> snd p = (gvd_gov d, gvd_rev d) \<longrightarrow> matches d s \<and> gv_status s \<noteq> Gs_draft))"

definition files_placed :: "gov_world \<Rightarrow> bool" where
  "files_placed w \<longleftrightarrow> (\<forall>p s. file_at w p s \<longrightarrow> fst p = gov_bucket_of (gv_status s))"

definition files_approved :: "gov_world \<Rightarrow> bool" where
  "files_approved w \<longleftrightarrow> (\<forall>p s. file_at w p s \<longrightarrow> gv_status s \<in> {Gs_effective, Gs_consumed} \<longrightarrow> approved_by w s)"

text \<open>Two files of one revision differ in nothing but their place in the life cycle; a draft is alone.\<close>

definition files_agree :: "gov_world \<Rightarrow> bool" where
  "files_agree w \<longleftrightarrow> (\<forall>p s p' s'. file_at w p s \<longrightarrow> file_at w p' s' \<longrightarrow> snd p = snd p' \<longrightarrow>
     gov_terms s = gov_terms s' \<and> gv_approval s = gv_approval s' \<and> (gv_status s = Gs_draft \<longrightarrow> p = p'))"

definition store_sound :: "gov_world \<Rightarrow> bool" where
  "store_sound w \<longleftrightarrow> named w \<and> files_placed w \<and> files_approved w \<and> files_agree w \<and> decisions_sound w \<and> tx_sound w"

lemma files_placedD: "files_placed w \<Longrightarrow> file_at w p s \<Longrightarrow> fst p = gov_bucket_of (gv_status s)"
  by (cases p) (simp add: files_placed_def)

lemma files_approvedD: "files_approved w \<Longrightarrow> file_at w p s \<Longrightarrow> gv_status s \<in> {Gs_effective, Gs_consumed} \<Longrightarrow> approved_by w s"
  unfolding files_approved_def by blast

lemma files_agreeD:
  assumes "files_agree w" and "file_at w p s" and "file_at w p' s'" and "snd p = snd p'"
  shows "gov_terms s = gov_terms s'" and "gv_approval s = gv_approval s'" and "gv_status s = Gs_draft \<Longrightarrow> p = p'"
  using assms(1) [unfolded files_agree_def, rule_format, OF assms(2-4)] by simp_all

lemma decisions_soundD:
  assumes "decisions_sound w" and "map_of (gvw_decisions w) k = Some d"
  shows "k = gvd_id d" and "gov_sanitize k = k" and "\<exists>p s. file_at w p s \<and> snd p = (gvd_gov d, gvd_rev d)"
    and "file_at w p s \<Longrightarrow> snd p = (gvd_gov d, gvd_rev d) \<Longrightarrow> matches d s \<and> gv_status s \<noteq> Gs_draft"
proof -
  note all = mp [OF spec [OF spec [OF assms(1) [unfolded decisions_sound_def]]] assms(2)]
  show "k = gvd_id d" and "gov_sanitize k = k" and "\<exists>p s. file_at w p s \<and> snd p = (gvd_gov d, gvd_rev d)"
    and "file_at w p s \<Longrightarrow> snd p = (gvd_gov d, gvd_rev d) \<Longrightarrow> matches d s \<and> gv_status s \<noteq> Gs_draft"
    using all by (blast, blast, blast, blast)
qed

lemma matches_terms:
  assumes "gov_terms s = gov_terms t" and "gv_approval s = gv_approval t"
  shows "matches d s = matches d t"
  unfolding matches_def gov_terms_fields(1-4) [OF assms(1)] assms(2) ..

lemma store_sound_same:
  assumes "gvw_files w' = gvw_files w" and "gvw_decisions w' = gvw_decisions w" and "gvw_tx w' = gvw_tx w" and "store_sound w"
  shows "store_sound w'"
proof -
  have "approved_by w' = approved_by w" by (rule ext) (simp add: approved_by_def assms)
  then show ?thesis
    using assms(4) unfolding store_sound_def named_def files_placed_def files_approved_def files_agree_def decisions_sound_def tx_sound_def
    by (simp only: assms(1-3))
qed

text \<open>A record \<open>s\<close> at \<open>p\<close> moves, or is copied, to the place of its next status.\<close>

lemma store_sound_moved:
  assumes sound: "store_sound w" and s: "file_at w p s"
    and terms: "gov_terms s' = gov_terms s" and appr: "gv_approval s' = gv_approval s \<or> gv_status s = Gs_draft"
    and status: "gv_status s' \<noteq> Gs_draft" "gv_status s' \<in> {Gs_effective, Gs_consumed} \<Longrightarrow> approved_by w s'"
    and files: "\<And>x t. file_at w' x t \<Longrightarrow> x = (gov_bucket_of (gv_status s'), snd p) \<and> t = s' \<or> file_at w x t \<and> (gv_status s = Gs_draft \<longrightarrow> x \<noteq> p)"
    and kept: "\<And>x t. file_at w x t \<Longrightarrow> \<exists>y u. file_at w' y u \<and> snd y = snd x"
    and dec: "gvw_decisions w' = gvw_decisions w" and tx: "tx_sound w'" and named: "named w'"
  shows "store_sound w'"
proof -
  have fs: "files_placed w" "files_approved w" "files_agree w" and ds: "decisions_sound w"
    using sound by (simp_all add: store_sound_def)
  have key: "snd p = (gv_id s, gv_rev s)" using sound namedD [OF _ s] by (simp add: store_sound_def)
  have appr': "approved_by w' = approved_by w" by (rule ext) (simp add: approved_by_def dec)
  have like: "gov_terms t = gov_terms s' \<and> gv_approval t = gv_approval s' \<and> gv_status t \<noteq> Gs_draft"
    if t: "file_at w' x t" "snd x = snd p" for x t
    using files [OF t(1)]
  proof
    assume x: "file_at w x t \<and> (gv_status s = Gs_draft \<longrightarrow> x \<noteq> p)"
    then have "gv_status s \<noteq> Gs_draft" using files_agreeD(3) [OF fs(3) s, of x t] t(2) by auto
    moreover have "gv_status t \<noteq> Gs_draft"
      using files_agreeD(3) [OF fs(3) _ s, of x t] x t(2) s \<open>gv_status s \<noteq> Gs_draft\<close> by auto
    ultimately show ?thesis
      using files_agreeD(1,2) [OF fs(3) _ s, of x t] x t(2) terms appr by simp
  qed (use status in simp)
  have "files_placed w'"
    unfolding files_placed_def using files files_placedD [OF fs(1)] by fastforce
  moreover have "files_approved w'"
    unfolding files_approved_def appr' using files files_approvedD [OF fs(2)] status(2) by blast
  moreover have "files_agree w'"
    unfolding files_agree_def
  proof (intro allI impI)
    fix x t x' t' assume x: "file_at w' x t" "file_at w' x' t'" "snd x = snd x'"
    show "gov_terms t = gov_terms t' \<and> gv_approval t = gv_approval t' \<and> (gv_status t = Gs_draft \<longrightarrow> x = x')"
    proof (cases "snd x = snd p")
      case True
      then show ?thesis using like [OF x(1)] like [OF x(2)] x(3) by simp
    next
      case False
      then have "file_at w x t" "file_at w x' t'" using files [OF x(1)] files [OF x(2)] x(3) by auto
      then show ?thesis using files_agreeD [OF fs(3) _ _ x(3)] by blast
    qed
  qed
  moreover have "decisions_sound w'"
    unfolding decisions_sound_def dec
  proof (intro allI impI)
    fix k d assume d: "map_of (gvw_decisions w) k = Some d"
    have nodraft: "gv_status s \<noteq> Gs_draft" if "snd p = (gvd_gov d, gvd_rev d)"
      using decisions_soundD(4) [OF ds d s that] by simp
    have "matches d t \<and> gv_status t \<noteq> Gs_draft" if t: "file_at w' x t" "snd x = (gvd_gov d, gvd_rev d)" for x t
      using files [OF t(1)]
    proof
      assume x: "x = (gov_bucket_of (gv_status s'), snd p) \<and> t = s'"
      then have p: "snd p = (gvd_gov d, gvd_rev d)" using t(2) by simp
      then have "matches d s'" using decisions_soundD(4) [OF ds d s p] matches_terms [OF terms] appr nodraft by simp
      with x status(1) show ?thesis by simp
    next
      assume "file_at w x t \<and> (gv_status s = Gs_draft \<longrightarrow> x \<noteq> p)"
      then show ?thesis using decisions_soundD(4) [OF ds d] t(2) by blast
    qed
    then show "k = gvd_id d \<and> gov_sanitize k = k \<and> (\<exists>p s. file_at w' p s \<and> snd p = (gvd_gov d, gvd_rev d))
        \<and> (\<forall>p s. file_at w' p s \<longrightarrow> snd p = (gvd_gov d, gvd_rev d) \<longrightarrow> matches d s \<and> gv_status s \<noteq> Gs_draft)"
      using decisions_soundD(1-3) [OF ds d] kept by metis
  qed
  ultimately show ?thesis using tx named by (simp add: store_sound_def)
qed

lemma tx_sound_same: "gvw_decisions w' = gvw_decisions w \<Longrightarrow> gvw_tx w' = gvw_tx w \<Longrightarrow> tx_sound w \<Longrightarrow> tx_sound w'"
  by (simp only: tx_sound_def)

lemma tx_sound_del:
  "gvw_decisions w' = gvw_decisions w \<Longrightarrow> gvw_tx w' = AList.delete k (gvw_tx w) \<Longrightarrow> tx_sound w \<Longrightarrow> tx_sound w'"
  unfolding tx_sound_def by (auto simp: delete_conv' split: if_splits)

lemma tx_sound_add:
  assumes "gvw_decisions w' = gvw_decisions w" and "gvw_tx w' = AList.update k x (gvw_tx w)" and "tx_sound w"
    and "map_of (gvw_decisions w) (gvx_decision x) = Some d" and "gov_sanitize (gvx_decision x) = gvx_decision x"
    and "gvd_gov d = gvx_gov x" and "gvd_rev d = gvx_rev x"
  shows "tx_sound w'"
  using assms unfolding tx_sound_def by (auto simp: update_conv' split: if_splits)

lemma approved_same: "gvw_decisions w' = gvw_decisions w \<Longrightarrow> approved_by w' = approved_by w"
  by (rule ext) (simp add: approved_by_def)

text \<open>A move within the store: the record goes to the directory of its new status.\<close>

lemma store_sound_move:
  assumes sound: "store_sound w" and s: "file_at w p s" and terms: "gov_terms (f s) = gov_terms s"
    and appr: "gv_approval (f s) = gv_approval s \<or> gv_status s = Gs_draft"
    and status: "gv_status (f s) \<noteq> Gs_draft" "gv_status (f s) \<in> {Gs_effective, Gs_consumed} \<Longrightarrow> approved_by w (f s)"
  shows "store_sound (move_gov p f w)"
proof -
  let ?q = "(gov_bucket_of (gv_status (f s)), snd p)"
  have pl: "fst p = gov_bucket_of (gv_status s)" and tx: "tx_sound w" and nm: "named w"
    using sound files_placedD [OF _ s] by (simp_all add: store_sound_def)
  have away: "gv_status s = Gs_draft \<Longrightarrow> p \<noteq> ?q" using pl status(1) by (cases p) (auto simp: gov_bucket_of_def split: if_splits)
  show ?thesis
  proof (rule store_sound_moved [OF sound s terms appr status])
    fix x t assume "file_at (move_gov p f w) x t"
    then show "x = ?q \<and> t = f s \<or> file_at w x t \<and> (gv_status s = Gs_draft \<longrightarrow> x \<noteq> p)"
      using away by (auto simp: move_files [OF s] split: if_splits)
  next
    fix x t assume x: "file_at w x t"
    show "\<exists>y u. file_at (move_gov p f w) y u \<and> snd y = snd x"
    proof (cases "snd x = snd p")
      case True
      then show ?thesis using move_files [OF s, of f ?q] by (intro exI [of _ ?q]) simp
    next
      case False
      then have "file_at (move_gov p f w) x t" using x by (auto simp: move_files [OF s])
      then show ?thesis by blast
    qed
  next
    show "named (move_gov p f w)"
      using named_move [where f = f, OF nm s] gov_terms_fields(1,2) [OF terms] by blast
  qed (use tx in \<open>auto intro: tx_sound_same\<close>)
qed

lemma store_sound_tx:
  assumes "gvw_files w' = gvw_files w" and "gvw_decisions w' = gvw_decisions w" and "tx_sound w'" and "store_sound w"
  shows "store_sound w'"
  using assms(3,4) approved_same [OF assms(2)]
  unfolding store_sound_def named_def files_placed_def files_approved_def files_agree_def decisions_sound_def
  by (simp only: assms(1-2)) (elim conjE, intro conjI TrueI, assumption+)

text \<open>The writes of a decision: the copy at the new place, with or without the removal of the old file.\<close>

lemma store_sound_decided:
  assumes sound: "store_sound w" and s: "file_at w p s" "gv_status s = Gs_pending" and d: "map_of (gvw_decisions w) k = Some d" "matches d s"
    and files: "gvw_files w' = AList.update q (decided_fields d s) (gvw_files w)
      \<or> gvw_files w' = AList.delete p (AList.update q (decided_fields d s) (gvw_files w))"
    and q: "q = gov_path_of (target_status (gvd_verdict d)) (gvd_gov d) (gvd_rev d)"
    and dec: "gvw_decisions w' = gvw_decisions w" and tx: "tx_sound w'" and named: "named w'"
  shows "store_sound w'"
proof -
  have nm: "named w" and pl: "files_placed w" using sound by (simp_all add: store_sound_def)
  have qp: "q = (gov_bucket_of (gv_status (decided_fields d s)), snd p)"
    using namedD [OF nm s(1)] d(2) by (simp add: q gov_path_of_def matches_def)
  have "q \<noteq> p" using qp files_placedD [OF pl s(1)] s(2) by (cases p; cases "gvd_verdict d") (auto simp: gov_bucket_of_def)
  show ?thesis
  proof (rule store_sound_moved [OF sound s(1), of "decided_fields d s"])
    show "gv_status (decided_fields d s) \<in> {Gs_effective, Gs_consumed} \<Longrightarrow> approved_by w (decided_fields d s)"
      using d by (cases "gvd_verdict d") (auto simp: approved_by_def matches_terms [of "decided_fields d s" s])
    show "file_at w' x t \<Longrightarrow> x = (gov_bucket_of (gv_status (decided_fields d s)), snd p) \<and> t = decided_fields d s
        \<or> file_at w x t \<and> (gv_status s = Gs_draft \<longrightarrow> x \<noteq> p)" for x t
      using files s(2) by (auto simp: update_conv' delete_conv' qp split: if_splits)
    show "\<exists>y u. file_at w' y u \<and> snd y = snd x" if x: "file_at w x t" for x t
    proof (cases "snd x = snd p")
      case True
      have "file_at w' q (decided_fields d s)" using files \<open>q \<noteq> p\<close> by (auto simp: update_conv' delete_conv')
      then show ?thesis using True qp by (metis snd_conv)
    next
      case False
      then have "file_at w' x t" using files x qp by (auto simp: update_conv' delete_conv')
      then show ?thesis by blast
    qed
    show "gv_status (decided_fields d s) \<noteq> Gs_draft" by (cases "gvd_verdict d") simp_all
  qed (use dec tx named in auto)
qed

lemma store_sound_draft:
  assumes sound: "store_sound w" and free: "find_gov_path w (gv_id r) (gv_rev r) = None" and r: "fresh_draft r"
  shows "store_sound (put_gov (Gb_draft, gv_id r, gv_rev r) r w)"
proof -
  let ?q = "(Gb_draft, gv_id r, gv_rev r)" and ?w = "put_gov (Gb_draft, gv_id r, gv_rev r) r w"
  have parts: "named w" "files_placed w" "files_approved w" "files_agree w" "decisions_sound w" "tx_sound w"
    using sound by (simp_all add: store_sound_def)
  have st: "gv_status r = Gs_draft" "gov_sanitize (gv_id r) = gv_id r" using r by (simp_all add: fresh_draft_def)
  have other: "snd x \<noteq> snd ?q" if "file_at w x t" for x t
    using find_gov_path_None [OF free that] st by simp
  have files: "file_at ?w x t \<longleftrightarrow> x = ?q \<and> t = r \<or> x \<noteq> ?q \<and> file_at w x t" for x t
    by (auto simp: put_gov_def update_conv')
  have dec: "gvw_decisions ?w = gvw_decisions w" "gvw_tx ?w = gvw_tx w" by (simp_all add: put_gov_def)
  have "named ?w"
    by (rule named_put [OF parts(1), of ?q r]) (simp_all add: st put_gov_def)
  moreover have "files_placed ?w"
    unfolding files_placed_def files using files_placedD [OF parts(2)] st by (auto simp: gov_bucket_of_def)
  moreover have "files_approved ?w"
    unfolding files_approved_def files approved_same [OF dec(1)] using files_approvedD [OF parts(3)] st by auto
  moreover have "files_agree ?w"
    unfolding files_agree_def
  proof (intro allI impI)
    fix x t x' t' assume x: "file_at ?w x t" "file_at ?w x' t'" "snd x = snd x'"
    show "gov_terms t = gov_terms t' \<and> gv_approval t = gv_approval t' \<and> (gv_status t = Gs_draft \<longrightarrow> x = x')"
    proof (cases "snd x = snd ?q")
      case True
      then have "x = ?q \<and> t = r" "x' = ?q \<and> t' = r" using x other unfolding files by metis+
      then show ?thesis by simp
    next
      case False
      then have "file_at w x t" "file_at w x' t'" using x unfolding files by auto
      then show ?thesis using files_agreeD [OF parts(4) _ _ x(3)] by blast
    qed
  qed
  moreover have "decisions_sound ?w"
    unfolding decisions_sound_def dec
  proof (intro allI impI)
    fix k d assume d: "map_of (gvw_decisions w) k = Some d"
    obtain p s where p: "file_at w p s" "snd p = (gvd_gov d, gvd_rev d)" using decisions_soundD(3) [OF parts(5) d] by blast
    have "file_at ?w p s" using p(1) other [OF p(1)] unfolding files by auto
    moreover have "matches d t \<and> gv_status t \<noteq> Gs_draft" if t: "file_at ?w x t" "snd x = (gvd_gov d, gvd_rev d)" for x t
    proof -
      have "file_at w x t" using t p(2) other [OF p(1)] unfolding files by (metis snd_conv)
      then show ?thesis using decisions_soundD(4) [OF parts(5) d _ t(2)] by simp
    qed
    ultimately show "k = gvd_id d \<and> gov_sanitize k = k \<and> (\<exists>p s. file_at ?w p s \<and> snd p = (gvd_gov d, gvd_rev d))
        \<and> (\<forall>p s. file_at ?w p s \<longrightarrow> snd p = (gvd_gov d, gvd_rev d) \<longrightarrow> matches d s \<and> gv_status s \<noteq> Gs_draft)"
      using decisions_soundD(1,2) [OF parts(5) d] p(2) by metis
  qed
  ultimately show ?thesis using tx_sound_same [OF dec parts(6)] by (simp add: store_sound_def)
qed

lemma store_sound_decision:
  assumes sound: "store_sound w" and s: "file_at w p s" "gv_status s \<noteq> Gs_draft" and d: "matches d s" "gov_sanitize (gvd_id d) = gvd_id d"
    and fresh: "map_of (gvw_decisions w) (gvd_id d) = None"
  shows "store_sound (w\<lparr>gvw_decisions := AList.update (gvd_id d) d (gvw_decisions w)\<rparr>)" (is "store_sound ?w")
proof -
  have parts: "named w" "files_placed w" "files_approved w" "files_agree w" "decisions_sound w" "tx_sound w"
    using sound by (simp_all add: store_sound_def)
  have files: "gvw_files ?w = gvw_files w" by simp
  have more: "map_of (gvw_decisions w) k = Some e \<Longrightarrow> map_of (gvw_decisions ?w) k = Some e" for k e
    using fresh by (auto simp: update_conv')
  have key: "snd p = (gvd_gov d, gvd_rev d)" using namedD [OF parts(1) s(1)] d(1) by (simp add: matches_def)
  have "named ?w" using parts(1) by (auto intro: named_same)
  moreover have "files_placed ?w" using parts(2) by (simp add: files_placed_def)
  moreover have "files_approved ?w"
  proof -
    have "approved_by w t \<Longrightarrow> approved_by ?w t" for t unfolding approved_by_def using more by blast
    then show ?thesis using parts(3) unfolding files_approved_def by simp
  qed
  moreover have "files_agree ?w" using parts(4) unfolding files_agree_def by (simp only: files)
  moreover have "tx_sound ?w" unfolding tx_sound_def
  proof (intro allI impI)
    fix k x assume "map_of (gvw_tx ?w) k = Some x"
    then obtain e where "map_of (gvw_decisions w) (gvx_decision x) = Some e" "gov_sanitize (gvx_decision x) = gvx_decision x"
      "gvd_gov e = gvx_gov x" "gvd_rev e = gvx_rev x" using parts(6) unfolding tx_sound_def by auto
    then show "\<exists>e. map_of (gvw_decisions ?w) (gvx_decision x) = Some e \<and> gov_sanitize (gvx_decision x) = gvx_decision x
        \<and> gvd_gov e = gvx_gov x \<and> gvd_rev e = gvx_rev x" using more by blast
  qed
  moreover have "decisions_sound ?w"
    unfolding decisions_sound_def
  proof (intro allI impI)
    fix k e assume e: "map_of (gvw_decisions ?w) k = Some e"
    show "k = gvd_id e \<and> gov_sanitize k = k \<and> (\<exists>p s. file_at ?w p s \<and> snd p = (gvd_gov e, gvd_rev e))
        \<and> (\<forall>p s. file_at ?w p s \<longrightarrow> snd p = (gvd_gov e, gvd_rev e) \<longrightarrow> matches e s \<and> gv_status s \<noteq> Gs_draft)"
    proof (cases "k = gvd_id d")
      case True
      have "matches d t \<and> gv_status t \<noteq> Gs_draft" if t: "file_at w x t" "snd x = (gvd_gov d, gvd_rev d)" for x t
      proof -
        have x: "snd x = snd p" using key t(2) by simp
        have "matches d t" using matches_terms [OF files_agreeD(1,2) [OF parts(4) t(1) s(1) x]] d(1) by simp
        moreover have "gv_status t \<noteq> Gs_draft" using files_agreeD(3) [OF parts(4) t(1) s(1) x] t(1) s by auto
        ultimately show ?thesis by simp
      qed
      moreover have "e = d" using e True by (simp add: update_conv')
      moreover have "file_at ?w p s" "gov_sanitize k = k" using s True d(2) by simp_all
      ultimately show ?thesis using True key by (simp only: files) blast
    next
      case False
      then have "map_of (gvw_decisions w) k = Some e" using e by (simp add: update_conv')
      then show ?thesis using decisions_soundD [OF parts(5)] by (simp only: files) blast
    qed
  qed
  ultimately show ?thesis by (simp only: store_sound_def)
qed

lemma effect_sound:
  assumes "gov_effect faults may w w'" and "store_sound w"
  shows "store_sound w'"
proof -
  have named': "named w'" using effect_named [OF assms(1)] assms(2) by (simp add: store_sound_def)
  have parts: "named w" "files_placed w" "files_approved w" "files_agree w" "decisions_sound w" "tx_sound w"
    using assms(2) by (simp_all add: store_sound_def)
  show ?thesis
    using assms(1)
  proof (cases rule: gov_effect.cases)
    case Aside
    then show ?thesis using assms(2) by (auto intro: store_sound_same)
  next
    case (Submit p s env)
    then show ?thesis using assms(2) by (auto intro: store_sound_move)
  next
    case (Expire p s)
    then show ?thesis using assms(2) by (auto intro: store_sound_move)
  next
    case (Revoke p s)
    then show ?thesis using assms(2) by (auto intro: store_sound_move)
  next
    case (Consume p s)
    have "approved_by w (consume_fields s)"
      using files_approvedD [OF parts(3) Consume(1)] Consume(2) matches_terms [of "consume_fields s" s]
      by (auto simp: approved_by_def)
    then have "store_sound (move_gov p consume_fields w)"
      using Consume(1,2) assms(2) approval_changes(4) [of s] by (intro store_sound_move) auto
    then show ?thesis by (rule store_sound_same [rotated 3]) (simp_all add: Consume)
  next
    case (Settle key x d p s)
    obtain d' where d': "map_of (gvw_decisions w) (gvx_decision x) = Some d'" "gov_sanitize (gvx_decision x) = gvx_decision x"
      "gvd_gov d' = gvx_gov x" "gvd_rev d' = gvx_rev x"
      using parts(6) Settle(2) unfolding tx_sound_def by blast
    then have dd: "d' = d" using Settle(3) by simp
    obtain p0 s0 where "file_at w p0 s0" "snd p0 = (gvd_gov d, gvd_rev d)" using decisions_soundD(3) [OF parts(5) d'(1)] dd by blast
    then have "gov_sanitize (gvx_gov x) = gvx_gov x" using namedD [OF parts(1)] d' dd by fastforce
    then have m: "matches d s" using decisions_soundD(4) [OF parts(5) Settle(3) Settle(4)] Settle(5) d' dd by simp
    have "approved_by w (settle_fields d s)" if "gvd_verdict d = Gv_approved"
      using that m Settle(3) matches_terms [of "settle_fields d s" s] by (auto simp: approved_by_def)
    then show ?thesis
      unfolding Settle(1) using Settle(4) assms(2)
      by (intro store_sound_move) (cases "gvd_verdict d"; auto)+
  next
    case (Forget key x)
    then show ?thesis using tx_sound_del [OF _ _ parts(6)] assms(2) by (intro store_sound_tx [of w' w]) auto
  next
    case (Draft r)
    then show ?thesis using store_sound_draft [OF assms(2)] by simp
  next
    case (Decision p s d)
    have "gv_status s \<noteq> Gs_draft" using Decision(5) by (auto split: if_splits)
    then show ?thesis unfolding Decision(1) by (rule store_sound_decision [OF assms(2) Decision(2) _ Decision(3,4,6)])
  next
    case (Commit p s d n)
    let ?w = "run_steps (take n (commit_steps p s d)) w"
    have ids: "gov_sanitize (gvd_id d) = gvd_id d" by (rule decisions_soundD(2) [OF parts(5) Commit(4)])
    have add: "tx_sound ?w" if "gvw_tx ?w = AList.update k \<lparr>gvx_gov = gvd_gov d, gvx_rev = gvd_rev d, gvx_decision = gvd_id d\<rparr> (gvw_tx w)" for k
      by (rule tx_sound_add [OF _ that parts(6), of d]) (use Commit(4) ids in simp_all)
    have drop: "tx_sound ?w" if "gvw_tx ?w = AList.delete k (AList.update k x (gvw_tx w))" for k x
      using parts(6) that unfolding tx_sound_def by (auto simp: update_conv' delete_conv' split: if_splits)
    have named: "named ?w" using named' Commit(1) by simp
    note decided = store_sound_decided [OF assms(2) Commit(2,3,4,5) _ refl commit_rest(1) _ named]
    have "store_sound ?w"
    proof (cases rule: commit_cases [of n p s d w])
      case 1
      then show ?thesis using assms(2) by simp
    next
      case (2 k x)
      then show ?thesis using store_sound_tx [OF _ commit_rest(1) add assms(2)] by simp
    next
      case (3 k x)
      then show ?thesis using decided add by simp
    next
      case (4 k x)
      then show ?thesis using decided add by simp
    next
      case (5 k x)
      then show ?thesis using decided drop by simp
    qed
    then show ?thesis using Commit(1) by simp
  qed
qed

lemma reach_sound: "gov_reach faults may w w' \<Longrightarrow> store_sound w \<Longrightarrow> store_sound w'"
  by (induction rule: rtranclp_induct) (auto intro: effect_sound)

lemma sound_named: "store_sound w \<Longrightarrow> named w"
  by (simp add: store_sound_def)

definition no_records :: gov_world where
  "no_records = \<lparr>gvw_files = [], gvw_decisions = [], gvw_idem = [], gvw_tx = [], gvw_locks = [], gvw_log = []\<rparr>"

lemma no_records_sound: "store_sound no_records"
  by (simp add: store_sound_def named_def files_placed_def files_approved_def files_agree_def decisions_sound_def tx_sound_def no_records_def)

lemma run_sound: "\<forall>c\<in>set cs. well_typed c \<Longrightarrow> store_sound w \<Longrightarrow> store_sound (gov_run w cs)"
  using gov_run_reach [of w cs True] reach_sound sound_named by blast

section \<open>What stays\<close>

text \<open>Decisions are never lost, and every record keeps a file with its terms.\<close>

definition gov_kept :: "gov_world \<Rightarrow> gov_world \<Rightarrow> bool" where
  "gov_kept w w' \<longleftrightarrow>
     (\<forall>p s. file_at w p s \<longrightarrow> (\<exists>p' s'. file_at w' p' s' \<and> snd p' = snd p \<and> gov_terms s' = gov_terms s))
   \<and> (\<forall>k d. map_of (gvw_decisions w) k = Some d \<longrightarrow> map_of (gvw_decisions w') k = Some d)"

lemma gov_kept_files:
  assumes "gvw_decisions w' = gvw_decisions w"
    and "\<And>x t. file_at w x t \<Longrightarrow> file_at w' x t \<or> (\<exists>y u. file_at w' y u \<and> snd y = snd x \<and> gov_terms u = gov_terms t)"
  shows "gov_kept w w'"
  unfolding gov_kept_def assms(1) using assms(2) by blast

lemma kept_move:
  assumes "files_agree w" and s: "file_at w p s" and "gov_terms (f s) = gov_terms s" and "gvw_decisions w' = gvw_decisions w"
    and w': "gvw_files w' = gvw_files (move_gov p f w)"
  shows "gov_kept w w'"
proof (rule gov_kept_files [OF assms(4)])
  fix x t assume x: "file_at w x t"
  let ?q = "(gov_bucket_of (gv_status (f s)), snd p)"
  show "file_at w' x t \<or> (\<exists>y u. file_at w' y u \<and> snd y = snd x \<and> gov_terms u = gov_terms t)"
  proof (cases "snd x = snd p")
    case True
    then have "file_at w' ?q (f s)" "gov_terms (f s) = gov_terms t"
      using files_agreeD(1) [OF assms(1) x s] assms(3) by (simp_all add: w' move_files [OF s])
    then show ?thesis using True by (metis snd_conv)
  next
    case False
    then show ?thesis using x by (auto simp: w' move_files [OF s])
  qed
qed

lemma effect_kept:
  assumes "gov_effect faults may w w'" and "store_sound w"
  shows "gov_kept w w'"
proof -
  have parts: "named w" "files_agree w" "files_placed w"
    using assms(2) by (simp_all add: store_sound_def)
  note move = kept_move [OF parts(2)]
  have moved: "gov_kept w (move_gov p f w)" if "file_at w p s" "gov_terms (f s) = gov_terms s" for p s f
    using move [of p s f "move_gov p f w"] that by simp
  show ?thesis
    using assms(1)
  proof (cases rule: gov_effect.cases)
    case (Draft r)
    have "x \<noteq> (Gb_draft, gv_id r, gv_rev r)" if "file_at w x t" for x t
      using find_gov_path_None [OF Draft(2) that] Draft(3) by (auto simp: fresh_draft_def)
    then show ?thesis unfolding Draft(1) by (intro gov_kept_files) (auto simp: put_gov_def update_conv')
  next
    case (Decision p s d)
    then show ?thesis unfolding gov_kept_def by (auto simp: update_conv')
  next
    case (Consume p s)
    then show ?thesis using move [of p s consume_fields w'] by simp
  next
    case (Commit p s d n)
    let ?q = "gov_path_of (target_status (gvd_verdict d)) (gvd_gov d) (gvd_rev d)"
    have q: "?q = (gov_bucket_of (gv_status (decided_fields d s)), snd p)"
      using namedD [OF parts(1) Commit(2)] Commit(5) by (simp add: gov_path_of_def matches_def)
    have "?q \<noteq> p" using q files_placedD [OF parts(3) Commit(2)] Commit(3) by (cases p; cases "gvd_verdict d") (auto simp: gov_bucket_of_def)
    have copy: "gov_kept w w'" if f: "gvw_files w' = AList.update ?q (decided_fields d s) (gvw_files w)
        \<or> gvw_files w' = AList.delete p (AList.update ?q (decided_fields d s) (gvw_files w))"
    proof (rule gov_kept_files)
      have *: "file_at w' ?q (decided_fields d s)" using f \<open>?q \<noteq> p\<close> by (auto simp: update_conv' delete_conv')
      fix x t assume x: "file_at w x t"
      show "file_at w' x t \<or> (\<exists>y u. file_at w' y u \<and> snd y = snd x \<and> gov_terms u = gov_terms t)"
      proof (cases "snd x = snd p")
        case True
        then show ?thesis using * q files_agreeD(1) [OF parts(2) x Commit(2)] by (metis gov_terms_changes(1) snd_conv)
      next
        case False
        then show ?thesis using x f q by (auto simp: update_conv' delete_conv')
      qed
    qed (simp add: Commit(1))
    show ?thesis
      by (cases rule: commit_cases [of n p s d w]) (use copy in \<open>auto simp: Commit(1) intro: gov_kept_files\<close>)
  qed (auto intro: gov_kept_files moved)
qed

lemma reach_kept:
  assumes "gov_reach faults may w w'" and "store_sound w"
  shows "gov_kept w w'"
  using assms
proof (induction rule: rtranclp_induct)
  case base
  then show ?case unfolding gov_kept_def by blast
next
  case (step v w')
  have "gov_kept w v" by (rule step.IH [OF step.prems])
  moreover have "gov_kept v w'" by (rule effect_kept [OF step.hyps(2) reach_sound [OF step.hyps(1) step.prems]])
  ultimately show ?case unfolding gov_kept_def by metis
qed

lemma kept_terms:
  assumes "gov_kept w w'" and "store_sound w'" and "file_at w p s" and "file_at w' p' s'" and "snd p' = snd p"
  shows "gov_terms s' = gov_terms s"
proof -
  obtain q t where "file_at w' q t" "snd q = snd p" "gov_terms t = gov_terms s" using assms(1,3) unfolding gov_kept_def by blast
  then show ?thesis using files_agreeD(1) [of w' p' s' q t] assms(2,4,5) by (simp add: store_sound_def)
qed

section \<open>Forward moves and bounded uses\<close>

text \<open>Without a failing write there is one file for each revision and no transaction is left behind.\<close>

definition calm :: "gov_world \<Rightarrow> bool" where
  "calm w \<longleftrightarrow> gvw_tx w = [] \<and> (\<forall>p s p' s'. file_at w p s \<longrightarrow> file_at w p' s' \<longrightarrow> snd p = snd p' \<longrightarrow> p = p')"

lemma calmD: "calm w \<Longrightarrow> file_at w p s \<Longrightarrow> file_at w p' s' \<Longrightarrow> snd p = snd p' \<Longrightarrow> p = p' \<and> s = s'"
  unfolding calm_def by (metis option.inject)

inductive gov_next :: "gov_status \<Rightarrow> gov_status \<Rightarrow> bool" where
  "gov_next Gs_draft Gs_pending"
| "gov_next Gs_pending Gs_effective"
| "gov_next Gs_pending Gs_rejected"
| "gov_next Gs_pending Gs_changes"
| "gov_next Gs_pending Gs_expired"
| "gov_next Gs_effective Gs_consumed"
| "gov_next Gs_effective Gs_expired"
| "gov_next Gs_effective Gs_revoked"

inductive_cases gov_nextE: "gov_next a b"

definition gov_open :: "gov_status \<Rightarrow> bool" where
  "gov_open s \<longleftrightarrow> s \<in> {Gs_draft, Gs_pending, Gs_effective}"

text \<open>One record's step: it stays as it is, is used once more, or takes an edge of the life cycle.\<close>

definition record_step :: "gov_record \<Rightarrow> gov_record \<Rightarrow> bool" where
  "record_step s s' \<longleftrightarrow> s' = s \<or> gov_next (gv_status s) (gv_status s') \<or> gv_status s = Gs_effective \<and> s' = consume_fields s"

lemma used_changes: "gv_used (decided_fields d s) = gv_used s"
  by (simp add: decided_fields_def settle_fields_def)

text \<open>What a faultless effect does to the files: a new draft, or one record moves.\<close>

lemma faultless_cases:
  assumes "gov_effect False may w w'" and "store_sound w" and "calm w"
  obtains (same) "gvw_files w' = gvw_files w" "use_log w' = use_log w"
  | (draft) r where "find_gov_path w (gv_id r) (gv_rev r) = None" "fresh_draft r" "use_log w' = use_log w"
      "gvw_files w' = gvw_files (put_gov (Gb_draft, gv_id r, gv_rev r) r w)"
  | (moved) p s f where "file_at w p s" "gov_next (gv_status s) (gv_status (f s))" "gov_terms (f s) = gov_terms s"
      "gv_used (f s) = gv_used s" "use_log w' = use_log w" "gvw_files w' = gvw_files (move_gov p f w)" "gv_status (f s) \<noteq> Gs_consumed"
  | (used) p s where "file_at w p s" "gv_status s = Gs_effective" "gvw_files w' = gvw_files (move_gov p consume_fields w)"
      "use_log w' = use_log w \<or> use_log w' = use_log w @ [(gv_id s, gv_rev s)]"
proof -
  have ulog: "use_log (move_gov p f w) = use_log w" for p f by (simp add: use_log_def)
  have parts: "named w" "files_placed w" "files_agree w" using assms(2) by (simp_all add: store_sound_def)
  from assms(1) show thesis
  proof (cases rule: gov_effect.cases)
    case (Draft r)
    then show ?thesis using draft by (simp add: put_gov_def use_log_def)
  next
    case (Submit p s env)
    show ?thesis
      by (rule moved [of p s "submit_fields env"])
         (use Submit in \<open>simp_all add: ulog submit_fields_def gov_next.intros\<close>, use Submit in \<open>simp add: gov_terms_def\<close>)
  next
    case (Expire p s)
    then show ?thesis using moved [of p s "\<lambda>s. s\<lparr>gv_status := Gs_expired\<rparr>"] by (auto simp: ulog gov_next.intros)
  next
    case (Revoke p s)
    then show ?thesis using moved [of p s "\<lambda>s. s\<lparr>gv_status := Gs_revoked\<rparr>"] by (simp add: ulog gov_next.intros)
  next
    case (Consume p s)
    then show ?thesis using used [of p s] by simp
  next
    case (Decision p s d)
    then show ?thesis using same by (simp add: use_log_def)
  next
    case (Commit p s d n)
    let ?q = "gov_path_of (target_status (gvd_verdict d)) (gvd_gov d) (gvd_rev d)"
    have q: "?q = (gov_bucket_of (gv_status (decided_fields d s)), snd p)"
      using namedD [OF parts(1) Commit(2)] Commit(5) by (simp add: gov_path_of_def matches_def)
    have "?q \<noteq> p" using q files_placedD [OF parts(2) Commit(2)] Commit(3) by (cases p; cases "gvd_verdict d") (auto simp: gov_bucket_of_def)
    have "gvw_files (run_steps (commit_steps p s d) w) = gvw_files (move_gov p (decided_fields d) w)"
      using Commit(2) \<open>?q \<noteq> p\<close> q
      by (simp add: commit_steps_def Let_def run_steps_def move_gov_def put_gov_def del_gov_def)
    moreover have "take n (commit_steps p s d) = commit_steps p s d" using Commit(7) by (simp add: commit_steps_def Let_def)
    moreover have "gov_next Gs_pending (target_status (gvd_verdict d))" "target_status (gvd_verdict d) \<noteq> Gs_consumed"
      using Commit(6) by (cases "gvd_verdict d"; simp add: gov_next.intros)+
    ultimately show ?thesis
      using Commit(1,2,3) commit_rest(2) [of n p s d w]
      by (intro moved [of p s "decided_fields d"]) (simp_all add: used_changes)
  next
    case (Settle key x d p s)
    then show ?thesis using assms(3) by (simp add: calm_def)
  next
    case (Forget key x)
    then show ?thesis using assms(3) by (simp add: calm_def)
  qed (use same in auto)
qed

lemma gov_next_draft: "gov_next a b \<Longrightarrow> b \<noteq> Gs_draft"
  by (erule gov_nextE) simp_all

lemma gov_next_bucket: "gov_next a b \<Longrightarrow> gov_bucket_of b \<noteq> gov_bucket_of a"
  by (erule gov_nextE) (simp_all add: gov_bucket_of_def)

text \<open>The files after such an effect, by revision.\<close>

lemma calm_move:
  assumes "calm w" and s: "file_at w p s" and w': "gvw_files w' = gvw_files (move_gov p f w)" and t: "file_at w' x t"
  shows "snd x = snd p \<and> x = (gov_bucket_of (gv_status (f s)), snd p) \<and> t = f s \<or> snd x \<noteq> snd p \<and> file_at w x t"
proof (cases "snd x = snd p")
  case True
  have "file_at w x t \<Longrightarrow> x = p" using calmD [OF assms(1) _ s True] by blast
  then show ?thesis using t True unfolding w' move_files [OF s] by (metis (no_types) option.distinct(1) option.inject)
next
  case False
  then have "x \<noteq> p" "x \<noteq> (gov_bucket_of (gv_status (f s)), snd p)" by auto
  then show ?thesis using t False unfolding w' move_files [OF s] by simp
qed

lemma effect_calm:
  assumes "gov_effect False may w w'" and "store_sound w" and "calm w"
  shows "calm w'"
proof -
  have tx: "gvw_tx w' = []"
    using assms(1)
  proof (cases rule: gov_effect.cases)
    case (Commit p s d n)
    have "n = 4" using Commit(7) by simp
    then show ?thesis using assms(3) Commit(1)
      by (simp add: commit_steps_def Let_def run_steps_def calm_def put_gov_def del_gov_def numeral_nat)
  qed (use assms(3) in \<open>auto simp: calm_def put_gov_def\<close>)
  have uniq: "x = x'" if x: "file_at w' x t" "file_at w' x' t'" "snd x = snd x'" for x t x' t'
    using assms
  proof (cases rule: faultless_cases)
    case same
    then show ?thesis using calmD [OF assms(3)] x by (metis (no_types))
  next
    case (draft r)
    have new: "snd y = (gv_id r, gv_rev r) \<longleftrightarrow> y = (Gb_draft, gv_id r, gv_rev r)" if "file_at w' y u" for y u
      using that find_gov_path_None [OF draft(1), of y u] draft(2) unfolding draft(4)
      by (auto simp: put_gov_def update_conv' fresh_draft_def split: if_splits)
    show ?thesis
    proof (cases "snd x = (gv_id r, gv_rev r)")
      case True
      then show ?thesis using new [OF x(1)] new [OF x(2)] x(3) by simp
    next
      case False
      then have "file_at w x t" "file_at w x' t'" using x unfolding draft(4) by (auto simp: put_gov_def update_conv' split: if_splits)
      then show ?thesis using calmD [OF assms(3)] x(3) by blast
    qed
  next
    case (moved p s f)
    then show ?thesis using calm_move [OF assms(3) moved(1,6) x(1)] calm_move [OF assms(3) moved(1,6) x(2)] calmD [OF assms(3)] x(3) by metis
  next
    case (used p s)
    then show ?thesis using calm_move [OF assms(3) used(1,3) x(1)] calm_move [OF assms(3) used(1,3) x(2)] calmD [OF assms(3)] x(3) by metis
  qed
  show ?thesis unfolding calm_def using tx uniq by blast
qed

lemma reach_calm: "gov_reach False may w w' \<Longrightarrow> store_sound w \<Longrightarrow> calm w \<Longrightarrow> calm w'"
  by (induction rule: rtranclp_induct) (auto intro: effect_calm reach_sound)

lemma effect_record_step:
  assumes "gov_effect False may w w'" and "store_sound w" and "calm w" and x: "file_at w x t" "file_at w' x' t'" "snd x' = snd x"
  shows "record_step t t'"
  using assms(1-3)
proof (cases rule: faultless_cases)
  case same
  then show ?thesis using calmD [OF assms(3) x(1), of x' t'] x by (simp add: record_step_def)
next
  case (draft r)
  then have "snd x \<noteq> (gv_id r, gv_rev r)" using find_gov_path_None [OF draft(1) x(1)] by (auto simp: fresh_draft_def)
  then have "file_at w x' t'" using x unfolding draft(4) by (auto simp: put_gov_def update_conv' split: if_splits)
  then show ?thesis using calmD [OF assms(3) x(1), of x' t'] x by (simp add: record_step_def)
next
  case (moved p s f)
  then show ?thesis using calm_move [OF assms(3) moved(1,6) x(2)] calmD [OF assms(3) x(1)] x(3) by (metis record_step_def)
next
  case (used p s)
  then show ?thesis using calm_move [OF assms(3) used(1,3) x(2)] calmD [OF assms(3) x(1)] x(3) by (metis record_step_def)
qed

lemma record_step_status: "record_step s s' \<Longrightarrow> gov_next\<^sup>*\<^sup>* (gv_status s) (gv_status s')"
  using approval_changes(4) [of s] r_into_rtranclp [of gov_next, OF gov_next.intros(6)] by (auto simp: record_step_def)

lemma record_step_closed: "record_step s s' \<Longrightarrow> \<not> gov_open (gv_status s) \<Longrightarrow> s' = s"
  by (auto simp: record_step_def gov_open_def elim: gov_nextE)

lemma reach_record_steps:
  assumes "gov_reach False may w w'" and "store_sound w" and "calm w" and "file_at w x t" and "file_at w' x' t'" and "snd x' = snd x"
  shows "record_step\<^sup>*\<^sup>* t t'"
  using assms(1,5,6)
proof (induction arbitrary: x' t' rule: rtranclp_induct)
  case base
  then show ?case using calmD [OF assms(3,4), of x' t'] by auto
next
  case (step v w')
  have v: "store_sound v" "calm v" using reach_sound reach_calm step.hyps(1) assms(2,3) by blast+
  obtain y u where y: "file_at v y u" "snd y = snd x"
    using reach_kept [OF step.hyps(1) assms(2)] assms(4) unfolding gov_kept_def by blast
  have "record_step\<^sup>*\<^sup>* t u" by (rule step.IH [OF y])
  moreover have "record_step u t'" by (rule effect_record_step [OF step.hyps(2) v y(1) step.prems(1)]) (simp add: step.prems y)
  ultimately show ?case by simp
qed

text \<open>No record is used more often than its limit allows, and every logged use is charged.\<close>

definition charged :: "(string \<times> int) list \<Rightarrow> gov_record \<Rightarrow> bool" where
  "charged us s \<longleftrightarrow> int (count_list us (gv_id s, gv_rev s)) \<le> gv_used s
     \<and> (\<forall>l. gv_limit s = Some l \<longrightarrow> gv_used s \<le> l \<and> (gv_status s \<noteq> Gs_consumed \<longrightarrow> gv_used s < l))"

definition uses_sound :: "gov_world \<Rightarrow> bool" where
  "uses_sound w \<longleftrightarrow> (\<forall>p s. file_at w p s \<longrightarrow> charged (use_log w) s)
     \<and> (\<forall>k\<in>set (use_log w). \<exists>p s. file_at w p s \<and> snd p = k)"

lemma charged_consume:
  assumes "charged us s" and "gv_status s = Gs_effective"
  shows "charged us (consume_fields s)" and "charged (us @ [(gv_id s, gv_rev s)]) (consume_fields s)"
  using assms by (auto simp: charged_def consume_fields_def Let_def split: option.splits)

lemma charged_other: "charged us s \<Longrightarrow> k \<noteq> (gv_id s, gv_rev s) \<Longrightarrow> charged (us @ [k]) s"
  by (auto simp: charged_def)

lemma effect_uses:
  assumes "gov_effect False may w w'" and "store_sound w" and "calm w" and "uses_sound w"
  shows "uses_sound w'"
proof -
  have nm: "named w" and kept: "gov_kept w w'" using assms(2) effect_kept [OF assms(1,2)] by (simp_all add: store_sound_def)
  have ch: "file_at w p s \<Longrightarrow> charged (use_log w) s" for p s using assms(4) unfolding uses_sound_def by blast
  have logged: "\<exists>p s. file_at w' p s \<and> snd p = k" if "k \<in> set (use_log w)" for k
  proof -
    obtain p s where "file_at w p s" "snd p = k" using assms(4) \<open>k \<in> set (use_log w)\<close> unfolding uses_sound_def by blast
    then show ?thesis using kept unfolding gov_kept_def by blast
  qed
  show ?thesis
    using assms(1-3)
  proof (cases rule: faultless_cases)
    case same
    then show ?thesis using assms(4) unfolding uses_sound_def by simp
  next
    case (draft r)
    have "charged (use_log w) r"
    proof -
      have "(gv_id r, gv_rev r) \<notin> set (use_log w)"
        using assms(4) find_gov_path_None [OF draft(1)] draft(2) unfolding uses_sound_def fresh_draft_def by metis
      then show ?thesis using draft(2) by (auto simp: charged_def fresh_draft_def split: option.splits)
    qed
    then have "charged (use_log w) t" if "file_at w' x t" for x t
      using that ch unfolding draft(4) by (auto simp: put_gov_def update_conv' split: if_splits)
    then show ?thesis using logged draft(3) unfolding uses_sound_def by simp
  next
    case (moved p s f)
    have "charged (use_log w) (f s)"
      using ch [OF moved(1)] moved(2,4,7) gov_terms_fields(1,2,5) [OF moved(3)] by (auto simp: charged_def elim: gov_nextE)
    then have "charged (use_log w) t" if "file_at w' x t" for x t
      using calm_move [OF assms(3) moved(1,6) that] ch by metis
    then show ?thesis using logged moved(5) unfolding uses_sound_def by simp
  next
    case (used p s)
    have key: "snd p = (gv_id s, gv_rev s)" using namedD [OF nm used(1)] by simp
    have "charged (use_log w') t" if t: "file_at w' x t" for x t
      using calm_move [OF assms(3) used(1,3) t]
    proof
      assume "snd x = snd p \<and> x = (gov_bucket_of (gv_status (consume_fields s)), snd p) \<and> t = consume_fields s"
      then show ?thesis using charged_consume [OF ch [OF used(1)] used(2)] used(4) by metis
    next
      assume o: "snd x \<noteq> snd p \<and> file_at w x t"
      then have "(gv_id s, gv_rev s) \<noteq> (gv_id t, gv_rev t)" using namedD [OF nm, of x t] key by auto
      then show ?thesis using used(4) ch o charged_other by metis
    qed
    moreover have "\<exists>p s. file_at w' p s \<and> snd p = k" if "k \<in> set (use_log w')" for k
    proof (cases "k \<in> set (use_log w)")
      case False
      then have "k = snd p" using that used(4) key by auto
      then show ?thesis using kept used(1) unfolding gov_kept_def by blast
    qed (rule logged)
    ultimately show ?thesis unfolding uses_sound_def by blast
  qed
qed

lemma reach_uses: "gov_reach False may w w' \<Longrightarrow> store_sound w \<Longrightarrow> calm w \<Longrightarrow> uses_sound w \<Longrightarrow> uses_sound w'"
  by (induction rule: rtranclp_induct) (auto intro: effect_uses reach_sound reach_calm)

lemma no_records_calm: "calm no_records" "uses_sound no_records"
  by (simp_all add: calm_def uses_sound_def no_records_def use_log_def)

lemma run_faultless:
  assumes "\<forall>c\<in>set cs. well_typed c \<and> faultless c" and "store_sound w" and "calm w"
  shows "gov_reach False (\<lambda>d. \<exists>c\<in>set cs. call_decides c d) w (gov_run w cs)" and "calm (gov_run w cs)"
  using gov_run_reach [of w cs False] reach_calm assms sound_named by blast+

section \<open>Who decided\<close>

lemma effect_decisions:
  "gov_effect faults may w w' \<Longrightarrow> map_of (gvw_decisions w') k = Some d \<Longrightarrow> map_of (gvw_decisions w) k = Some d \<or> may d"
  by (erule gov_effect.cases) (auto simp: put_gov_def update_conv' split: if_splits)

lemma reach_decisions:
  "gov_reach faults may w w' \<Longrightarrow> map_of (gvw_decisions w') k = Some d \<Longrightarrow> map_of (gvw_decisions w) k = Some d \<or> may d"
  by (induction rule: rtranclp_induct) (auto dest: effect_decisions)

text \<open>Every decision of a run was taken by a call of ADMIN.\<close>

lemma run_decisions:
  assumes "\<forall>c\<in>set cs. well_typed c" and "map_of (gvw_decisions (gov_run no_records cs)) k = Some d"
  shows "\<exists>c\<in>set cs. call_decides c d"
  using reach_decisions [OF gov_run_reach [of no_records cs True]] assms no_records_sound sound_named
  by (fastforce simp: no_records_def)

lemma gov_run_approved:
  assumes "\<forall>c\<in>set cs. well_typed c" and "file_at (gov_run no_records cs) p s" and "gv_status s \<in> {Gs_effective, Gs_consumed}"
  obtains d env q where "map_of (gvw_decisions (gov_run no_records cs)) (gvd_id d) = Some d" and "matches d s"
    and "gvd_verdict d = Gv_approved" and "(env, Call_decide q) \<in> set cs" and "admin_decides q d"
proof -
  have sound: "store_sound (gov_run no_records cs)" by (rule run_sound [OF assms(1) no_records_sound])
  then obtain k d where d: "map_of (gvw_decisions (gov_run no_records cs)) k = Some d" "gvd_verdict d = Gv_approved" "matches d s"
    using files_approvedD [OF _ assms(2,3)] unfolding store_sound_def approved_by_def by blast
  have k: "k = gvd_id d" using sound decisions_soundD(1) [OF _ d(1)] by (simp add: store_sound_def)
  obtain env call where "(env, call) \<in> set cs" "call_decides (env, call) d" using run_decisions [OF assms(1) d(1)] by force
  with d k that show thesis by (cases call) (auto simp: call_decides_def decision_for_def)
qed

end
