(* ===== verification/Governance_Results.thy ===== *)
theory Governance_Results
  imports Governance_Guarantees
begin

text \<open>
  The properties of the governance service over whole runs of calls, the recovery of an interrupted decision, the
  round trip of the content digest, witnesses at concrete runs, and the places where the code does something else
  than its comments say.
\<close>

section \<open>Charges\<close>

text \<open>Everything but the charge itself leaves the spent keys and the logged uses alone.\<close>

definition uses_view :: "gov_world \<Rightarrow> (string \<times> gov_idem) list \<times> (string \<times> int) list" where
  "uses_view w = (gvw_idem w, use_log w)"

abbreviation keeps_uses :: "'a gov \<Rightarrow> bool" where
  "keeps_uses m \<equiv> act_keeps (\<lambda>w w'. uses_view w' = uses_view w) m"

named_theorems uses_intros \<comment> \<open>calls that charge nothing\<close>

lemmas [uses_intros] = view.keeps_basic view.keeps_bind view.keeps_when view.keeps_if view.keeps_prod view.keeps_let view.keeps_each

lemma uses_basic [uses_intros]:
  "keeps_uses (gov_get h)" "keeps_uses (read_gov p)" "keeps_uses (read_idem k)"
  "(\<And>w. uses_view (f w) = uses_view w) \<Longrightarrow> keeps_uses (gov_upd f)"
  by (simp_all add: act_keeps_def gov_get_def read_idem_def gov_upd_def)

lemma uses_option [uses_intros]:
  "keeps_uses m \<Longrightarrow> (\<And>y. x = Some y \<Longrightarrow> keeps_uses (f y)) \<Longrightarrow> keeps_uses (case x of None \<Rightarrow> m | Some y \<Rightarrow> f y)"
  by (cases x) simp_all

lemma uses_map [uses_intros]: "(\<And>x. keeps_uses (f x)) \<Longrightarrow> keeps_uses (act_map f xs)"
  by (induction xs) (simp_all add: uses_intros)

lemma use_log_move [simp]: "use_log (move_gov p f w) = use_log w" "use_log (w\<lparr>gvw_locks := l\<rparr>) = use_log w"
  "use_log (w\<lparr>gvw_tx := t\<rparr>) = use_log w" "use_log (w\<lparr>gvw_idem := i\<rparr>) = use_log w"
  "e \<noteq> Ev_consumed \<Longrightarrow> use_log (gov_audit e g n w) = use_log w" "gvw_idem (gov_audit e g n w) = gvw_idem w"
  by (simp_all add: use_log_def gov_audit_def)

lemma uses_view_simps [simp]:
  "uses_view (w\<lparr>gvw_locks := l\<rparr>) = uses_view w" "uses_view (w\<lparr>gvw_tx := t\<rparr>) = uses_view w"
  "uses_view (move_gov p f w) = uses_view w" "e \<noteq> Ev_consumed \<Longrightarrow> uses_view (gov_audit e g n w) = uses_view w"
  by (simp_all add: uses_view_def)

lemma uses_lock [uses_intros]: "keeps_uses m \<Longrightarrow> keeps_uses (gov_lock g n m)"
  unfolding act_keeps_def gov_lock_def Let_def
  by (auto split: prod.split) (metis uses_view_simps(1) snd_conv)

lemma uses_expire [uses_intros]: "keeps_uses (expire_gov env x)"
  unfolding expire_gov_def expire_record_def by (intro uses_intros) simp

lemma uses_get [uses_intros]: "keeps_uses (get_gov env g n)" "keeps_uses (get_decision k)"
  unfolding get_gov_def get_decision_def by (intro uses_intros)+

lemma uses_latest [uses_intros]: "keeps_uses (latest_gov env g)"
proof -
  have "keeps_uses (recover_transactions env)"
    unfolding recover_transactions_def recover_one_def by (intro uses_intros) simp_all
  moreover have "keeps_uses (case xs of [] \<Rightarrow> act_return None | x # xs \<Rightarrow> act_return (Some x))" for xs :: "(gov_path \<times> gov_record) list"
    by (cases xs) (simp_all add: uses_intros)
  ultimately show ?thesis
    unfolding latest_gov_def list_gov_def by (intro uses_intros)
qed

lemma uses_validate: "keeps_uses (validate_authorization env a e)"
  unfolding validate_authorization_def assert_hashes_def by (intro uses_intros) simp_all

lemma keeps_usesD: "keeps_uses m \<Longrightarrow> m w = (r, w') \<Longrightarrow> gvw_idem w' = gvw_idem w \<and> use_log w' = use_log w"
  unfolding act_keeps_def uses_view_def by (metis prod.inject snd_conv)

definition unspent :: "gov_world \<Rightarrow> string \<Rightarrow> bool" where
  "unspent w key \<longleftrightarrow> map_option gvk_action (map_of (gvw_idem w) key) \<noteq> Some Act_consume"

lemma read_idem_run: "read_idem k w = (Inr (map_of (gvw_idem w) k), w)"
  by (simp add: read_idem_def gov_get_def)

lemma charge_result:
  assumes "charge p r key v w = (Inr x, w')" and "unspent w key" and "gvk_action v = Act_consume"
  shows "use_log w' = use_log w @ [(gv_id r, gv_rev r)]" and "map_of (gvw_idem w') key = Some v"
proof -
  have none: "map_of (gvw_idem w) key = None"
  proof (rule ccontr)
    assume "map_of (gvw_idem w) key \<noteq> None"
    then obtain y where "map_of (gvw_idem w) key = Some y" "y \<noteq> v" using assms(2,3) by (auto simp: unspent_def)
    then show False using assms(1)
      by (simp add: charge_def act_bind_def gov_upd_def write_idem_def read_idem_def gov_get_def act_throw_def)
  qed
  have "w' = gov_audit Ev_consumed (gv_id r) (gv_rev r) ((move_gov p consume_fields w)\<lparr>gvw_idem := AList.update key v (gvw_idem w)\<rparr>)"
    using charge_run [of p r key v w] none assms(1) by simp
  then show "use_log w' = use_log w @ [(gv_id r, gv_rev r)]" "map_of (gvw_idem w') key = Some v"
    using use_log_move(1) [of p consume_fields w] by (simp_all add: gov_audit_def use_log_def update_conv')
qed

lemma consume_gov_locked_result:
  assumes "consume_gov_locked env a g d w = (Inr x, w')" and "unspent w (gva_key a)" and "named w" and "gov_sanitize (gv_id g) = gv_id g"
  shows "use_log w' = use_log w @ [(gv_id g, gv_rev g)]"
proof -
  obtain p r w2 v where get: "get_gov env (gv_id g) (gv_rev g) w = (Inr (p, r), w2)"
    and run: "gvk_action v = Act_consume" "charge p r (gva_key a) v w2 = (Inr x, w')"
  proof -
    have "act_bind (get_gov env (gv_id g) (gv_rev g)) (\<lambda>(p, r).
       act_bind (act_check (check (gv_status r = Gs_effective) Ge_consumed)) (\<lambda>_.
       charge p r (gva_key a) \<lparr>gvk_gov = gv_id r, gvk_rev = gv_rev r, gvk_approval = gv_approval r,
         gvk_decision = Some (gvd_id d), gvk_action = Act_consume\<rparr>)) w = (Inr x, w')"
      using assms(1)
      unfolding consume_gov_locked_charge act_bind_Inr [where m = "read_idem (gva_key a)" and w = w, OF read_idem_run]
        if_not_P [OF assms(2) [unfolded unspent_def]] .
    then show thesis
      by (elim act_bindE) (auto simp: act_check_def split: prod.splits intro: that [rotated 2] elim!: act_bindE)
  qed
  have same: "gvw_idem w2 = gvw_idem w" "use_log w2 = use_log w" using keeps_usesD [OF uses_get(1) get] by auto
  note got = gspecD [OF gspec_get_key [of True "\<lambda>_. True" env "gv_id g" "gv_rev g"] assms(3) TrueI]
  have "named w2" using reach_named [OF got(1) assms(3)] get by simp
  then have "gv_id r = gv_id g" "gv_rev r = gv_rev g" using decision_key [OF _ got(2) [OF get]] assms(4) by auto
  moreover have "unspent w2 (gva_key a)" using assms(2) same by (simp add: unspent_def)
  ultimately show ?thesis using charge_result(1) run same by fastforce
qed

lemma validated:
  assumes "named w" and "validate_authorization env a e w = (Inr ((p, r), d), w1)"
  shows "gov_reach faults may w w1" and "named w1" and "authorized env a e p r d w1"
proof -
  show r: "gov_reach faults may w w1" for faults may
    using gspecD(1) [OF gspec_validate [of faults may] assms(1) TrueI, of env a e] assms(2) by simp
  show "named w1" by (rule reach_named [OF r assms(1)])
  show "authorized env a e p r d w1"
    using gspecD(2) [OF gspec_validate [of True may] assms(1) TrueI assms(2)] by simp
qed

lemma consume_charges:
  assumes "consume_gov env a e w = (Inr x, w')" and "unspent w (gva_key a)" and "named w"
  shows "use_log w' = use_log w @ [(gov_sanitize (gva_gov a), gva_rev a)]"
proof -
  obtain p g d w1 where v: "validate_authorization env a e w = (Inr ((p, g), d), w1)"
    and l: "gov_lock (gv_id g) (gv_rev g) (consume_gov_locked env a g d) w1 = (Inr x, w')"
    using assms(1,2) unfolding consume_gov_def unspent_def
    by (auto simp: act_bind_Inr_iff read_idem_def gov_get_def split: option.splits if_splits)
  have same: "gvw_idem w1 = gvw_idem w" "use_log w1 = use_log w" using keeps_usesD [OF uses_validate v] by auto
  have w1: "named w1" "authorized env a e p g d w1"
    using validated [OF assms(3) v] by blast+
  then have "at_key (gva_gov a) (gva_rev a) (p, g) w1" by (simp add: authorized_def)
  note key = decision_key [OF w1(1) this]
  obtain k w2 where "consume_gov_locked env a g d (w1\<lparr>gvw_locks := k\<rparr>) = (Inr x, w2)" "use_log w' = use_log w2"
    using l unfolding gov_lock_def Let_def by (auto split: if_splits prod.splits)
  moreover have "unspent (w1\<lparr>gvw_locks := k\<rparr>) (gva_key a)" "named (w1\<lparr>gvw_locks := k\<rparr>)"
    using assms(2) same w1(1) by (auto simp: unspent_def intro: named_same)
  ultimately have "use_log w' = use_log (w1\<lparr>gvw_locks := k\<rparr>) @ [(gv_id g, gv_rev g)]"
    using consume_gov_locked_result key by (metis gov_sanitize_idem)
  then show ?thesis using key same by simp
qed

section \<open>Properties of runs\<close>

text \<open>C3. A governance record is in force, or used up, only when ADMIN decided so: in every run from an empty store,
  whatever the calls and also when the file system fails within a decision, an effective or consumed record was
  approved by a decide call of ADMIN with a reason and a formal action of the interface, for its very revision and
  approval id, and the decision on disk carries the record's digests.\<close>

theorem effective_was_approved:
  assumes "\<forall>c\<in>set cs. well_typed c" and "file_at (gov_run no_records cs) p s" and "gv_status s \<in> {Gs_effective, Gs_consumed}"
  shows "\<exists>env q d. (env, Call_decide q) \<in> set cs \<and> js_upper (js_trim (gvq_actor q)) = ''ADMIN'' \<and> gvq_verdict q = Gv_approved
    \<and> js_trim (gvq_reason q) \<noteq> [] \<and> js_trim (gvq_ui_action q) \<noteq> []
    \<and> gov_sanitize (gvq_gov q) = gv_id s \<and> gvq_rev q = gv_rev s \<and> gv_approval s = Some (gvq_approval q)
    \<and> map_of (gvw_decisions (gov_run no_records cs)) (gvd_id d) = Some d
    \<and> gvd_content_hash d = gv_content_hash s \<and> gvd_scope_digest d = gv_scope_digest s"
proof -
  obtain d env q where "map_of (gvw_decisions (gov_run no_records cs)) (gvd_id d) = Some d" "matches d s"
    "gvd_verdict d = Gv_approved" "(env, Call_decide q) \<in> set cs" "admin_decides q d"
    using gov_run_approved [OF assms] by blast
  then show ?thesis unfolding admin_decides_def decision_for_def matches_def by metis
qed

text \<open>C29. What ADMIN approved cannot be rewritten: once a record is on disk, its revision always has a file, and every
  later file of it has the same terms (content, scope, limits, digests).\<close>

theorem record_terms_fixed:
  assumes "\<forall>c\<in>set cs. well_typed c" and "\<forall>c\<in>set ds. well_typed c" and "file_at (gov_run no_records cs) p s"
  shows "(\<exists>p' s'. file_at (gov_run (gov_run no_records cs) ds) p' s' \<and> snd p' = snd p)
    \<and> (\<forall>p' s'. file_at (gov_run (gov_run no_records cs) ds) p' s' \<longrightarrow> snd p' = snd p \<longrightarrow> gov_terms s' = gov_terms s)"
proof -
  let ?w = "gov_run no_records cs"
  have w: "store_sound ?w" by (rule run_sound [OF assms(1) no_records_sound])
  have kept: "gov_kept ?w (gov_run ?w ds)"
    by (rule reach_kept [OF gov_run_reach [of ?w ds True] w]) (use assms(2) sound_named [OF w] in auto)
  then have "\<exists>p' s'. file_at (gov_run ?w ds) p' s' \<and> snd p' = snd p" using assms(3) unfolding gov_kept_def by blast
  moreover have "gov_terms s' = gov_terms s" if "file_at (gov_run ?w ds) p' s'" "snd p' = snd p" for p' s'
    by (rule kept_terms [OF kept run_sound [OF assms(2) w] assms(3) that])
  ultimately show ?thesis by blast
qed

text \<open>C28. When the writes of decisions go through, a record only moves forward along the edges of its life cycle, and a
  record that was rejected, sent back, consumed, expired or revoked never changes again.\<close>

theorem governance_moves_forward:
  assumes "\<forall>c\<in>set cs. well_typed c \<and> faultless c" and "\<forall>c\<in>set ds. well_typed c \<and> faultless c"
    and "file_at (gov_run no_records cs) p s" and "file_at (gov_run (gov_run no_records cs) ds) p' s'" and "snd p' = snd p"
  shows "gov_next\<^sup>*\<^sup>* (gv_status s) (gv_status s') \<and> (gov_open (gv_status s) \<or> s' = s)"
proof -
  let ?w = "gov_run no_records cs"
  have w: "store_sound ?w" "calm ?w"
    using run_sound [OF _ no_records_sound] run_faultless(2) [OF assms(1) no_records_sound no_records_calm(1)] assms(1) by auto
  have steps: "record_step\<^sup>*\<^sup>* s s'"
    by (rule reach_record_steps [OF run_faultless(1) [OF assms(2) w] w assms(3-5)])
  then have "gov_next\<^sup>*\<^sup>* (gv_status s) (gv_status s')"
    by (induction rule: rtranclp_induct) (auto dest: record_step_status intro: rtranclp_trans)
  moreover from steps have "gov_open (gv_status s) \<or> s' = s"
    by (induction rule: rtranclp_induct) (auto dest: record_step_closed)
  ultimately show ?thesis ..
qed

text \<open>C19. An approval is used no more often than it allows: in a run in which no write of a decision fails, the uses
  logged for a revision never exceed its limit. (What a transaction file left by a failing write does to a later state of
  the record is shown in \<open>revoked_approval_returns\<close> below.)\<close>

theorem governance_uses_bounded:
  assumes "\<forall>c\<in>set cs. well_typed c \<and> faultless c" and "file_at (gov_run no_records cs) p s" and "gv_limit s = Some l"
  shows "int (count_list (use_log (gov_run no_records cs)) (gv_id s, gv_rev s)) \<le> l"
proof -
  have "uses_sound (gov_run no_records cs)"
    by (rule reach_uses [OF run_faultless(1) [OF assms(1) no_records_sound no_records_calm(1)] no_records_sound no_records_calm])
  then have "charged (use_log (gov_run no_records cs)) s" using assms(2) unfolding uses_sound_def by blast
  then show ?thesis using assms(3) by (auto simp: charged_def)
qed

text \<open>C10. An action is let through only on ADMIN's word: when \<open>authorizeAction\<close> returns, then at its check the revision
  named by the reference was effective, unexpired and untampered, for the project and the task of the caller, with
  the action and every target in the approved scope, and ADMIN had approved it with a decision of the same digests.\<close>

theorem authorized_action_in_scope:
  assumes "\<forall>c\<in>set cs. well_typed c" and "authorize_action env a project task action targets (gov_run no_records cs) = (Inr x, w')"
  shows "\<exists>w1 p s env' q d. file_at w1 p s \<and> snd p = (gov_sanitize (gva_gov a), gva_rev a) \<and> gv_status s = Gs_effective
    \<and> \<not> expires_now env (read_of s) \<and> hashes_match env s \<and> gv_project s = project \<and> gv_task s = task
    \<and> action_in_scope s action targets
    \<and> (env', Call_decide q) \<in> set cs \<and> js_upper (js_trim (gvq_actor q)) = ''ADMIN'' \<and> gvq_verdict q = Gv_approved
    \<and> gov_sanitize (gvq_gov q) = gv_id s \<and> gvq_rev q = gv_rev s
    \<and> map_of (gvw_decisions w1) (gov_sanitize (gva_decision a)) = Some d \<and> gvd_verdict d = Gv_approved
    \<and> gvd_scope_digest d = gv_scope_digest s \<and> gvd_content_hash d = gv_content_hash s"
proof -
  let ?w = "gov_run no_records cs"
  let ?e = "\<lparr>gvp_project = project, gvp_task = task, gvp_scope_digest = gva_scope_digest a, gvp_content_hash = Some (gva_content_hash a)\<rparr>"
  have nm: "named ?w" by (rule sound_named [OF run_sound [OF assms(1) no_records_sound]])
  obtain p r d w1 where v: "validate_authorization env a ?e ?w = (Inr ((p, r), d), w1)" and scope: "action_in_scope r action targets"
    using assms(2) unfolding authorize_action_def Let_def
    by (auto simp: act_check_def elim!: act_bindE split: prod.splits)
  have auth: "authorized env a ?e p r d w1" by (rule validated(3) [OF nm v])
  then obtain s where s: "file_at w1 p s" "r = read_of s" "snd p = (gov_sanitize (gva_gov a), gva_rev a)"
    by (auto simp: authorized_def at_key_def cur_def)
  have st: "gv_status s = Gs_effective" using auth s(2) by (simp add: authorized_def)
  let ?cs = "cs @ [(env, Call_validate a ?e)]"
  have run: "gov_run no_records ?cs = w1" using v by (simp add: gov_run_def gov_step_def)
  have typed: "\<forall>c\<in>set ?cs. well_typed c" using assms(1) by (auto simp: well_typed_def)
  obtain env' q where q: "(env', Call_decide q) \<in> set ?cs" "js_upper (js_trim (gvq_actor q)) = ''ADMIN''" "gvq_verdict q = Gv_approved"
    "gov_sanitize (gvq_gov q) = gv_id s" "gvq_rev q = gv_rev s"
    using gov_run_approved [OF typed, unfolded run, OF s(1)] st unfolding admin_decides_def decision_for_def matches_def by (metis insertCI)
  have "action_in_scope s action targets" "hashes_match env s" "gv_project s = project" "gv_task s = task"
    using auth scope by (simp_all add: authorized_def s(2) action_in_scope_def hashes_match_def scope_agrees_def)
  moreover have "\<not> expires_now env (read_of s)" "map_of (gvw_decisions w1) (gov_sanitize (gva_decision a)) = Some d"
    "gvd_verdict d = Gv_approved" "gvd_scope_digest d = gv_scope_digest s" "gvd_content_hash d = gv_content_hash s"
    using auth by (simp_all add: authorized_def s(2) decision_agrees_def scope_agrees_def)
  moreover have "(env', Call_decide q) \<in> set cs" using q(1) by auto
  ultimately show ?thesis using s(1,3) st q(2-5) by blast
qed

text \<open>C30. Every authorized action under a key that was not spent before is charged: exactly one use of the
  approved revision is logged.\<close>

theorem authorization_charged:
  assumes "\<forall>c\<in>set cs. well_typed c" and "authorize_action env a project task action targets (gov_run no_records cs) = (Inr x, w')"
    and "unspent (gov_run no_records cs) (gva_key a)"
  shows "use_log w' = use_log (gov_run no_records cs) @ [(gov_sanitize (gva_gov a), gva_rev a)]"
proof -
  let ?w = "gov_run no_records cs"
  let ?e = "\<lparr>gvp_project = project, gvp_task = task, gvp_scope_digest = gva_scope_digest a, gvp_content_hash = Some (gva_content_hash a)\<rparr>"
  have nm: "named ?w" by (rule sound_named [OF run_sound [OF assms(1) no_records_sound]])
  obtain p r d w1 where v: "validate_authorization env a ?e ?w = (Inr ((p, r), d), w1)" and c: "consume_gov env a ?e w1 = (Inr x, w')"
    using assms(2) unfolding authorize_action_def Let_def
    by (auto simp: act_check_def elim!: act_bindE split: prod.splits)
  have same: "gvw_idem w1 = gvw_idem ?w" "use_log w1 = use_log ?w" using keeps_usesD [OF uses_validate v] by auto
  have "unspent w1 (gva_key a)" using assms(3) same(1) by (simp add: unspent_def)
  then show ?thesis using consume_charges [OF c _ validated(2) [OF nm v]] same(2) by simp
qed

section \<open>The content digest\<close>

lemma js_uniq_Cons: "js_uniq (x # xs) = x # filter (\<lambda>y. y \<noteq> x) (js_uniq xs)"
proof -
  have "remdups (ys @ [x]) = filter (\<lambda>y. y \<noteq> x) (remdups ys) @ [x]" for ys :: "'a list"
    by (induction ys) auto
  then show ?thesis by (simp add: js_uniq_def rev_filter)
qed

lemma js_uniq_distinct: "distinct xs \<Longrightarrow> js_uniq xs = xs"
  by (simp add: js_uniq_def distinct_remdups_id)

lemma norm_list_Cons:
  "norm_list (x # xs) = (if js_trim x = [] then norm_list xs else js_trim x # filter (\<lambda>y. y \<noteq> js_trim x) (norm_list xs))"
  by (simp add: norm_list_def js_uniq_Cons)

lemma norm_list_props: "x \<in> set (norm_list xs) \<Longrightarrow> js_trim x = x \<and> x \<noteq> []" "distinct (norm_list xs)"
  by (auto simp: norm_list_def)

lemma norm_list_id: "\<forall>x\<in>set xs. js_trim x = x \<and> x \<noteq> [] \<Longrightarrow> distinct xs \<Longrightarrow> norm_list xs = xs"
  by (simp add: norm_list_def js_uniq_distinct map_idI)

lemma norm_list_idem [simp]: "norm_list (norm_list xs) = norm_list xs"
  by (rule norm_list_id) (auto dest: norm_list_props(1) simp: norm_list_props(2))

lemma norm_list_filter: "norm_list (filter P (norm_list xs)) = filter P (norm_list xs)"
  by (rule norm_list_id) (auto dest: norm_list_props(1) simp: norm_list_props(2))

lemma references_without_task:
  "norm_list (filter (\<lambda>x. x \<noteq> js_trim t) (norm_list (norm_list (t # xs)))) = norm_list xs \<longleftrightarrow> js_trim t \<notin> set (norm_list xs)"
proof -
  have "filter (\<lambda>x. x \<noteq> js_trim t) (norm_list (t # xs)) = filter (\<lambda>x. x \<noteq> js_trim t) (norm_list xs)"
    by (auto simp: norm_list_Cons)
  then show ?thesis
    unfolding norm_list_idem norm_list_filter by (simp add: filter_id_conv) blast
qed

text \<open>An input in normal form: no text has outer white space, an optional text is not blank, and the references do not
  name the target task.\<close>

definition normal_gov_input :: "gov_input \<Rightarrow> bool" where
  "normal_gov_input i \<longleftrightarrow>
     list_all (\<lambda>t. js_trim t = t) [gvi_type i, gvi_project i, gvi_task i, gvi_recipient i, gvi_thread i, gvi_source_kind i, gvi_intent i,
       gvi_boundary i, or_else (gvi_retry i) ''explicit_new_approval'', gvi_risk i]
   \<and> list_all (\<lambda>v. norm_opt v = v) [gvi_expires i, gvi_message i, gvi_session i, gvi_supersedes i]
   \<and> js_trim (gvi_task i) \<notin> set (norm_list (gvi_references i))
   \<and> gvi_issued_by i = ''ADMIN'' \<and> gvi_authored_by i = ''PM''"

text \<open>The digest that a decision recomputes from a stored draft is taken of the content the digest of the draft
  was taken of, for exactly the inputs in normal form.\<close>

theorem draft_content_roundtrip:
  "content_of_record (draft_record env i gid vn) = content_of_input i \<longleftrightarrow> normal_gov_input i"
  using references_without_task [of "gvi_task i" "gvi_references i"]
  by (auto simp: content_of_record_def content_of_input_def draft_record_def scope_of_record_def scope_of_input_def normal_gov_input_def
      gov_scope.defs gov_content.defs)

section \<open>Recovery of an interrupted decision\<close>

lemma find_append: "List.find P (xs @ ys) = (case List.find P xs of None \<Rightarrow> List.find P ys | Some x \<Rightarrow> Some x)"
  by (induction xs) auto

text \<open>A pending file is found before one of a later directory.\<close>

lemma find_pending:
  assumes "file_at w p s" and "snd p = (gov_sanitize g, n)" and "fst p = Gb_pending"
    and "\<And>x t. file_at w x t \<Longrightarrow> snd x = snd p \<Longrightarrow> fst x \<noteq> Gb_draft"
  shows "find_gov_path w g n = Some p"
proof -
  let ?P = "\<lambda>x. snd x = (gov_sanitize g, n)" and ?F = "\<lambda>b. filter (\<lambda>x. fst x = b) (map fst (gvw_files w))"
  have "List.find ?P (?F Gb_draft) = None"
  proof (rule ccontr)
    assume "List.find ?P (?F Gb_draft) \<noteq> None"
    then obtain x where x: "x \<in> set (?F Gb_draft)" "?P x" unfolding find_None_iff by blast
    then have "map_of (gvw_files w) x \<noteq> None" by (simp add: map_of_eq_None_iff)
    then show False using assms(4) [of x] x assms(2) by auto
  qed
  moreover have "List.find ?P (?F Gb_pending) = Some p"
  proof -
    have "p \<in> set (?F Gb_pending)" using assms(1,3) by (auto dest: map_of_SomeD simp: image_iff intro!: bexI [of _ "(p, s)"])
    then have "List.find ?P (?F Gb_pending) \<noteq> None" using assms(2) by (auto simp: find_None_iff)
    then obtain x where x: "List.find ?P (?F Gb_pending) = Some x" by blast
    then have "?P x" "x \<in> set (?F Gb_pending)" using find_SomeD [OF x] by auto
    then have "x = p" using assms(2,3) by (auto intro: prod_eqI)
    with x show ?thesis by simp
  qed
  ultimately show ?thesis unfolding find_gov_path_def gov_paths_def by (simp add: find_append)
qed

text \<open>The files of revision \<open>(g, n)\<close>: the one that is found, and perhaps one at the place \<open>q\<close>.\<close>

definition settling :: "gov_path \<Rightarrow> gov_path \<Rightarrow> gov_record \<Rightarrow> gov_world \<Rightarrow> bool" where
  "settling q p s v \<longleftrightarrow> file_at v p s \<and> snd p = snd q \<and> snd p = (gv_id s, gv_rev s) \<and> fst p = gov_bucket_of (gv_status s)
     \<and> (\<forall>x t. file_at v x t \<longrightarrow> snd x = snd q \<longrightarrow> x = p \<or> x = q)"

lemma settlingI:
  "file_at v p s \<Longrightarrow> snd p = snd q \<Longrightarrow> snd p = (gv_id s, gv_rev s) \<Longrightarrow> fst p = gov_bucket_of (gv_status s)
    \<Longrightarrow> (\<And>x t. file_at v x t \<Longrightarrow> snd x = snd q \<Longrightarrow> x = p \<or> x = q) \<Longrightarrow> settling q p s v"
  unfolding settling_def by blast

lemma expire_settling:
  assumes v: "settling q p s v" and id: "gov_sanitize (gv_id s) = gv_id s" "gv_id s \<noteq> []"
    and free: "(gv_id s, gv_rev s) \<notin> set (gvw_locks v)"
  obtains p2 s2 v1 where "expire_gov env (p, read_of s) v = (Inr (p2, read_of s2), v1)" and "settling q p2 s2 v1"
    and "gvw_tx v1 = gvw_tx v"
proof (cases "expires_now env (read_of s)")
  case False
  then have "expire_gov env (p, read_of s) v = (Inr (p, read_of s), v)" by (simp add: expire_gov_def act_return_def)
  then show ?thesis using that v by blast
next
  case True
  let ?f = "\<lambda>s. s\<lparr>gv_status := Gs_expired\<rparr>" and ?l = "v\<lparr>gvw_locks := (gv_id s, gv_rev s) # gvw_locks v\<rparr>"
  let ?q = "(Gb_closed, gv_id s, gv_rev s)"
  let ?m = "gov_audit Ev_expired (gv_id s) (gv_rev s) (move_gov p ?f ?l)"
  have s: "file_at v p s" "snd p = (gv_id s, gv_rev s)" "snd q = (gv_id s, gv_rev s)" using v by (auto simp: settling_def)
  have st: "gv_status s \<in> {Gs_pending, Gs_effective}" using True by (auto simp: expires_now_def)
  have files: "map_of (gvw_files ?m) x = (if x = ?q then Some (?f s) else if x = p then None else map_of (gvw_files v) x)" for x
    using move_files [of ?l p s ?f x] s by (simp add: gov_audit_def gov_bucket_of_def)
  have run: "expire_record p ?l = (Inr (?q, read_of (?f s)), ?m)"
    using s id st files [of ?q]
    by (auto simp add: expire_record_def act_bind_def read_gov_def gov_upd_def act_return_def read_of_def gov_path_of_def gov_bucket_of_def)
  let ?v = "?m\<lparr>gvw_locks := removeAll (gv_id s, gv_rev s) (gvw_locks ?m)\<rparr>"
  have "expire_gov env (p, read_of s) v = (Inr (?q, read_of (?f s)), ?v)"
    using True free id run by (simp add: expire_gov_def gov_lock_def Let_def)
  moreover have "settling q ?q (?f s) ?v"
    using v s(3) unfolding settling_def by (auto simp: files gov_bucket_of_def split: if_splits)
  moreover have "gvw_tx ?v = gvw_tx v" by (simp add: gov_audit_def)
  ultimately show ?thesis by (rule that)
qed

lemma settling_get:
  assumes v: "settling q p s v" and id: "gov_sanitize (gv_id s) = gv_id s" "gv_id s \<noteq> []"
    and free: "(gv_id s, gv_rev s) \<notin> set (gvw_locks v)" and found: "find_gov_path v (gv_id s) (gv_rev s) = Some p"
  obtains p2 s2 v1 where "get_gov env (gv_id s) (gv_rev s) v = (Inr (p2, read_of s2), v1)" and "settling q p2 s2 v1"
    and "gvw_tx v1 = gvw_tx v"
proof -
  have "file_at v p s" using v by (simp add: settling_def)
  then have "get_gov env (gv_id s) (gv_rev s) v = expire_gov env (p, read_of s) v"
    using found id by (simp add: get_gov_def act_bind_def gov_get_def read_gov_def read_of_def)
  then show thesis using expire_settling [OF v id free, of env] that by metis
qed

text \<open>The settlement leaves one file of the revision, at the place of the decision.\<close>

lemma settling_settle:
  assumes v: "settling q p s v" and q: "fst q = gov_bucket_of (target_status (gvd_verdict d))"
    and w: "w = (if gv_status s \<noteq> target_status (gvd_verdict d) then move_gov p (settle_fields d) v else v)"
  shows "\<exists>s2. file_at w q s2 \<and> gv_status s2 = target_status (gvd_verdict d) \<and> gov_terms s2 = gov_terms s"
    and "file_at w x t \<Longrightarrow> snd x = snd q \<Longrightarrow> x = q"
proof -
  have s: "file_at v p s" "snd p = snd q" "fst p = gov_bucket_of (gv_status s)" and two: "file_at v x t \<Longrightarrow> snd x = snd q \<Longrightarrow> x = p \<or> x = q" for x t
    using v unfolding settling_def by (blast, blast, blast, blast)
  have qq: "(gov_bucket_of (target_status (gvd_verdict d)), snd p) = q" using q s(2) by (cases q) simp
  show "\<exists>s2. file_at w q s2 \<and> gv_status s2 = target_status (gvd_verdict d) \<and> gov_terms s2 = gov_terms s"
  proof (cases "gv_status s = target_status (gvd_verdict d)")
    case True
    then have "p = q" using s qq by (cases p) auto
    then show ?thesis using True s(1) w by auto
  next
    case False
    then show ?thesis using w move_files [OF s(1), of "settle_fields d" q] qq by (intro exI [of _ "settle_fields d s"]) simp
  qed
  assume x: "file_at w x t" "snd x = snd q"
  show "x = q"
  proof (cases "gv_status s = target_status (gvd_verdict d)")
    case True
    then have "p = q" using s qq by (cases p) auto
    then show ?thesis using True x w two by auto
  next
    case False
    then show ?thesis using w x two [of x t] qq by (auto simp: move_files [OF s(1)] split: if_splits)
  qed
qed

lemma recover_single:
  assumes v: "settling q p s v" and id: "gov_sanitize (gv_id s) = gv_id s" "gv_id s \<noteq> []"
    and free: "(gv_id s, gv_rev s) \<notin> set (gvw_locks v)" and found: "find_gov_path v (gv_id s) (gv_rev s) = Some p"
    and tx: "gvw_tx v = [(key, \<lparr>gvx_gov = gv_id s, gvx_rev = gv_rev s, gvx_decision = gvd_id d\<rparr>)]"
    and d: "map_of (gvw_decisions v) (gvd_id d) = Some d" "gov_sanitize (gvd_id d) = gvd_id d"
    and q: "fst q = gov_bucket_of (target_status (gvd_verdict d))"
  shows "\<exists>w s2. recover_transactions env v = (Inr (), w) \<and> gvw_tx w = [] \<and> file_at w q s2
    \<and> gv_status s2 = target_status (gvd_verdict d) \<and> (\<forall>x t. file_at w x t \<longrightarrow> snd x = snd q \<longrightarrow> x = q)"
proof -
  obtain p2 s2 v1 where got: "get_gov env (gv_id s) (gv_rev s) v = (Inr (p2, read_of s2), v1)" "settling q p2 s2 v1" "gvw_tx v1 = gvw_tx v"
    by (rule settling_get [OF v id free found])
  let ?w = "if gv_status s2 \<noteq> target_status (gvd_verdict d) then move_gov p2 (settle_fields d) v1 else v1"
  let ?z = "gov_audit Ev_recovered (gv_id s) (gv_rev s) (?w\<lparr>gvw_tx := AList.delete key (gvw_tx ?w)\<rparr>)"
  have "recover_one env key v = (Inr (), ?z)"
    using got(1) tx d
    by (simp add: recover_one_def act_bind_def gov_get_def get_decision_def act_return_def act_when_def gov_upd_def)
  then have run: "recover_transactions env v = (Inr (), ?z)"
    using tx by (simp add: recover_transactions_def act_bind_def gov_get_def act_return_def)
  have files: "gvw_files ?z = gvw_files ?w" by (simp add: gov_audit_def)
  have "gvw_tx ?z = []" using got(3) tx by (simp add: gov_audit_def)
  with run settling_settle [OF got(2) q refl] show ?thesis unfolding files [symmetric] by blast
qed


text \<open>The transaction files are written by the commit alone.\<close>

abbreviation keeps_tx :: "'a gov \<Rightarrow> bool" where
  "keeps_tx m \<equiv> act_keeps (\<lambda>w w'. gvw_tx w' = gvw_tx w) m"

named_theorems tx_intros \<comment> \<open>calls that leave the transactions alone\<close>

lemmas [tx_intros] = view.keeps_basic view.keeps_bind view.keeps_when view.keeps_if view.keeps_prod view.keeps_let

lemma tx_basic [tx_intros]:
  "keeps_tx (gov_get h)" "keeps_tx (read_gov p)" "keeps_tx (read_idem k)" "keeps_tx (same_action a b)"
  "(\<And>w. gvw_tx (f w) = gvw_tx w) \<Longrightarrow> keeps_tx (gov_upd f)"
  by (simp_all add: act_keeps_def gov_get_def read_idem_def gov_upd_def same_action_def act_check_def)

lemma tx_option [tx_intros]:
  "keeps_tx m \<Longrightarrow> (\<And>y. x = Some y \<Longrightarrow> keeps_tx (f y)) \<Longrightarrow> keeps_tx (case x of None \<Rightarrow> m | Some y \<Rightarrow> f y)"
  by (cases x) simp_all

lemma tx_lock [tx_intros]: "keeps_tx m \<Longrightarrow> keeps_tx (gov_lock g n m)"
  unfolding act_keeps_def gov_lock_def Let_def by (auto split: prod.split) (metis gov_world.select_convs(4) gov_world.surjective gov_world.update_convs(5) snd_conv)

lemma tx_calls [tx_intros]:
  "keeps_tx (get_gov env g n)" "keeps_tx (get_decision k)" "keeps_tx (decided_before env g n prior v)"
  "keeps_tx (assert_hashes env r)" "keeps_tx (create_decision d)" "keeps_tx (write_idem k v')"
proof -
  show g: "keeps_tx (get_gov env g n)" for g n
    unfolding get_gov_def expire_gov_def expire_record_def by (intro tx_intros) (simp add: gov_audit_def)
  show d: "keeps_tx (get_decision k)" for k unfolding get_decision_def by (intro tx_intros)
  show "keeps_tx (decided_before env g n prior v)" unfolding decided_before_def by (intro tx_intros g d)
  show "keeps_tx (assert_hashes env r)" unfolding assert_hashes_def by (intro tx_intros) (simp add: gov_audit_def)
  show "keeps_tx (create_decision d)" unfolding create_decision_def by (intro tx_intros) simp
  show "keeps_tx (write_idem k v')" unfolding write_idem_def by (intro tx_intros) simp
qed

lemma gspec_assert_key: "gspec faults may (at_key g n x) (assert_hashes env r) (\<lambda>_. at_key g n x)"
  by (rule gspec_conseq [OF gspec_assert_hashes [where P = "at_key g n x"]]) (auto intro: at_key_aside)

lemma lock_unfold:
  "gov_lock g n m w = (if (gov_sanitize g, n) \<in> set (gvw_locks w) then (Inl Ge_busy, w)
     else (fst (m (w\<lparr>gvw_locks := (gov_sanitize g, n) # gvw_locks w\<rparr>)),
       (snd (m (w\<lparr>gvw_locks := (gov_sanitize g, n) # gvw_locks w\<rparr>)))
         \<lparr>gvw_locks := removeAll (gov_sanitize g, n) (gvw_locks (snd (m (w\<lparr>gvw_locks := (gov_sanitize g, n) # gvw_locks w\<rparr>))))\<rparr>))"
  by (simp add: gov_lock_def Let_def split: prod.split)

lemma decide_gov_lock:
  assumes "gvw_tx (snd (decide_gov env q w)) \<noteq> gvw_tx w"
  shows "decide_gov env q w = gov_lock (gvq_gov q) (gvq_rev q) (decide_locked env q) w"
  using assms by (auto simp: decide_gov_def act_bind_def act_check_def check_def split: if_splits)

text \<open>How far a decision went when it leaves a transaction behind: it was committed in part.\<close>

lemma decide_locked_interrupted:
  assumes u: "gvw_tx (snd (decide_locked env q w)) \<noteq> gvw_tx w" and sound: "store_sound w" "calm w" and verdict: "gvq_verdict q \<noteq> Gv_revoked"
  obtains v0 p s d n where "store_sound v0" and "calm v0" and "file_at v0 p s" and "gv_status s = Gs_pending" and "gv_id s \<noteq> []"
    and "snd p = (gov_sanitize (gvq_gov q), gvq_rev q)" and "map_of (gvw_decisions v0) (gvd_id d) = Some d" and "matches d s"
    and "gvd_verdict d = gvq_verdict q" and "snd (decide_locked env q w) = run_steps (take n (commit_steps p s d)) v0"
proof -
  let ?any = "\<lambda>_::gov_decision. True"
  have good: "store_sound v \<and> calm v" if "gov_reach False ?any w v" for v
    using reach_sound [OF that sound(1)] reach_calm [OF that sound] by simp
  let ?D = "decided_before env (gvq_gov q) (gvq_rev q) (map_of (gvw_idem w) (gvq_key q)) (gvq_verdict q)"
  obtain B where run0: "decide_locked env q w = act_bind ?D B w"
    and B: "B = (\<lambda>again. case again of Some x \<Rightarrow> act_return x | None \<Rightarrow>
         act_bind (get_gov env (gvq_gov q) (gvq_rev q)) (\<lambda>(p, r).
         if gv_status r \<noteq> Gs_pending \<or> gv_approval r \<noteq> Some (gvq_approval q) then
           act_bind (gov_get (decision_for_revision (gvq_gov q) (gvq_rev q))) (\<lambda>old.
           case old of
             None \<Rightarrow> act_throw Ge_state_conflict
           | Some d \<Rightarrow> if gvd_verdict d = gvq_verdict q then act_return (r, d) else act_throw Ge_state_conflict)
         else decide_pending env q p r))"
    unfolding decide_locked_def act_bind_Inr [where m = "read_idem (gvq_key q)" and w = w, OF read_idem_run] by blast
  obtain again wa where a: "?D w = (Inr again, wa)" "gvw_tx wa = gvw_tx w" "gvw_tx (snd (B again wa)) \<noteq> gvw_tx wa"
    by (rule view.unkept_bindE [OF u [unfolded run0] tx_calls(3)])
  have ra: "gov_reach False ?any w wa" using gspecD(1) [OF gspec_decided_before sound_named [OF sound(1)] TrueI] a(1) by (metis snd_conv)
  have na: "named wa" using good [OF ra] sound_named by blast
  have again: "again = None" using a(3) by (cases again) (auto simp: B act_return_def)
  obtain G where G: "G = (\<lambda>(p, r). if gv_status r \<noteq> Gs_pending \<or> gv_approval r \<noteq> Some (gvq_approval q) then
           act_bind (gov_get (decision_for_revision (gvq_gov q) (gvq_rev q))) (\<lambda>old.
           case old of
             None \<Rightarrow> act_throw Ge_state_conflict
           | Some d \<Rightarrow> if gvd_verdict d = gvq_verdict q then act_return (r, d) else act_throw Ge_state_conflict)
         else decide_pending env q p r)" and BG: "B None = act_bind (get_gov env (gvq_gov q) (gvq_rev q)) G"
    unfolding B by simp
  obtain pr wb where b: "get_gov env (gvq_gov q) (gvq_rev q) wa = (Inr pr, wb)" "gvw_tx wb = gvw_tx wa" "gvw_tx (snd (G pr wb)) \<noteq> gvw_tx wb"
    by (rule view.unkept_bindE [OF a(3) [unfolded again BG] tx_calls(1)])
  obtain p r where pr: "pr = (p, r)" by fastforce
  note gb = gspecD [OF gspec_get_key [of False ?any env "gvq_gov q" "gvq_rev q"] na TrueI]
  have rb: "gov_reach False ?any w wb" using ra gb(1) b(1) by simp
  have kb: "at_key (gvq_gov q) (gvq_rev q) (p, r) wb" using gb(2) [OF b(1)] pr by simp
  have nb: "named wb" using good [OF rb] sound_named by blast
  have pend: "gv_status r = Gs_pending" "G (p, r) = decide_pending env q p r" and c: "gvw_tx (snd (decide_pending env q p r wb)) \<noteq> gvw_tx wb"
    using b(3) unfolding G pr
    by (auto simp: act_bind_def gov_get_def act_throw_def act_return_def split: if_splits option.splits)
  let ?d = "decision_of env q r"
  obtain u1 wc where cc: "assert_hashes env r wb = (Inr u1, wc)" "gvw_tx wc = gvw_tx wb"
    "gvw_tx (snd (act_bind (create_decision ?d) (\<lambda>_. act_bind (commit_decision env p ?d) (\<lambda>_.
      act_bind (write_idem (gvq_key q) \<lparr>gvk_gov = gv_id r, gvk_rev = gv_rev r, gvk_approval = gv_approval r,
        gvk_decision = Some (gvd_id ?d), gvk_action = Act_decided (gvq_verdict q)\<rparr>) (\<lambda>_.
      act_bind (gov_upd (gov_audit (Ev_decided (gvq_verdict q)) (gv_id r) (gv_rev r))) (\<lambda>_.
      act_bind (read_gov (gov_path_of (target_status (gvq_verdict q)) (gv_id r) (gv_rev r))) (\<lambda>r'. act_return (r', ?d)))))) wc)) \<noteq> gvw_tx wc"
    by (rule view.unkept_bindE [OF c [unfolded decide_pending_def Let_def] tx_calls(4)])
  note gc = gspecD [OF gspec_assert_key [of False ?any "gvq_gov q" "gvq_rev q" "(p, r)" env r] nb kb]
  have rc: "gov_reach False ?any w wc" using rb gc(1) cc(1) by simp
  have kc: "at_key (gvq_gov q) (gvq_rev q) (p, r) wc" by (rule gc(2) [OF cc(1)])
  have nc: "named wc" using good [OF rc] sound_named by blast
  obtain u2 wd where dd: "create_decision ?d wc = (Inr u2, wd)" "gvw_tx wd = gvw_tx wc"
    "gvw_tx (snd (act_bind (commit_decision env p ?d) (\<lambda>_.
      act_bind (write_idem (gvq_key q) \<lparr>gvk_gov = gv_id r, gvk_rev = gv_rev r, gvk_approval = gv_approval r,
        gvk_decision = Some (gvd_id ?d), gvk_action = Act_decided (gvq_verdict q)\<rparr>) (\<lambda>_.
      act_bind (gov_upd (gov_audit (Ev_decided (gvq_verdict q)) (gv_id r) (gv_rev r))) (\<lambda>_.
      act_bind (read_gov (gov_path_of (target_status (gvq_verdict q)) (gv_id r) (gv_rev r))) (\<lambda>r'. act_return (r', ?d))))) wd)) \<noteq> gvw_tx wd"
    by (rule view.unkept_bindE [OF cc(3) tx_calls(5)])
  have may: "gspec False ?any (at_key (gvq_gov q) (gvq_rev q) (p, r)) (create_decision ?d) (\<lambda>_. decided_at (gvq_gov q) (gvq_rev q) (p, r) ?d)"
    by (rule gspec_create) (simp_all add: matches_decision pend verdict)
  note gd = gspecD [OF may nc kc]
  have rd: "gov_reach False ?any w wd" using rc gd(1) dd(1) by simp
  have kd: "decided_at (gvq_gov q) (gvq_rev q) (p, r) ?d wd" by (rule gd(2) [OF dd(1)])
  obtain s where s: "file_at wd p s" "r = read_of s" "gv_id s \<noteq> []" "snd p = (gov_sanitize (gvq_gov q), gvq_rev q)"
    using kd by (auto simp: decided_at_def at_key_def cur_def)
  have tx0: "gvw_tx wd = []" using good [OF rd] by (simp add: calm_def)
  obtain ec we where e: "commit_decision env p ?d wd = (ec, we)" by fastforce
  have stop: "gve_fault env \<noteq> None"
  proof
    assume f: "gve_fault env = None"
    then have "gvw_tx we = []" using e s(1) tx0
      by (auto simp: commit_decision_def commit_steps_def Let_def run_steps_def put_gov_def del_gov_def)
    moreover have "keeps_tx (act_bind (write_idem (gvq_key q) v) (\<lambda>_.
      act_bind (gov_upd (gov_audit (Ev_decided (gvq_verdict q)) (gv_id r) (gv_rev r))) (\<lambda>_.
      act_bind (read_gov (gov_path_of (target_status (gvq_verdict q)) (gv_id r) (gv_rev r))) (\<lambda>r'. act_return (r', ?d)))))" for v
      by (intro tx_intros) (simp add: gov_audit_def)
    ultimately show False using dd(3) e tx0 unfolding act_keeps_def by (auto simp: act_bind_def split: sum.splits)
  qed
  then obtain n where n: "gve_fault env = Some n" by blast
  then have ce: "commit_decision env p ?d wd = (Inl Ge_io, run_steps (take n (commit_steps p s ?d)) wd)"
    using s(1) by (simp add: commit_decision_def)
  have "decide_pending env q p r wb = (Inl Ge_io, run_steps (take n (commit_steps p s ?d)) wd)"
    unfolding decide_pending_def Let_def act_bind_Inr [where m = "assert_hashes env r", OF cc(1)]
      act_bind_Inr [where m = "create_decision ?d", OF dd(1)]
    by (rule act_bind_Inl [where m = "commit_decision env p ?d", OF ce])
  then have "snd (decide_locked env q w) = run_steps (take n (commit_steps p s ?d)) wd"
    unfolding run0 act_bind_Inr [where m = ?D, OF a(1)] again BG act_bind_Inr [where m = "get_gov env (gvq_gov q) (gvq_rev q)", OF b(1)] pr pend(2)
    by simp
  moreover have "gv_status s = Gs_pending" "matches ?d s" using pend(1) s(2) matches_decision(1) [of env q r] by (simp_all add: matches_read)
  moreover have "map_of (gvw_decisions wd) (gvd_id ?d) = Some ?d" using kd by (simp add: decided_at_def)
  ultimately show thesis using that good [OF rd] s(1,3,4) by (metis decision_ids(2))
qed

text \<open>A commit that left its transaction: the revision's files are the old one, the new one or both.\<close>

lemma commit_settling:
  assumes sound: "store_sound w" "calm w" and s: "file_at w p s" "gv_status s = Gs_pending" and d: "matches d s" "gvd_verdict d \<noteq> Gv_revoked"
    and tx: "gvw_tx (run_steps (take n (commit_steps p s d)) w) \<noteq> []" and v: "v = run_steps (take n (commit_steps p s d)) w"
    and q: "q = gov_path_of (target_status (gvd_verdict d)) (gv_id s) (gv_rev s)"
  obtains p1 s1 where "settling q p1 s1 v" and "gv_id s1 = gv_id s" and "gv_rev s1 = gv_rev s"
    and "find_gov_path v (gv_id s) (gv_rev s) = Some p1"
    and "gvw_tx v = [(''TX-'' @ gvd_id d, \<lparr>gvx_gov = gv_id s, gvx_rev = gv_rev s, gvx_decision = gvd_id d\<rparr>)]"
proof -
  have tx0: "gvw_tx w = []" and nm: "named w" and pl: "files_placed w" using sound by (simp_all add: calm_def store_sound_def)
  have key: "snd p = (gv_id s, gv_rev s)" "gov_sanitize (gv_id s) = gv_id s" using namedD [OF nm s(1)] by auto
  have ids: "gvd_gov d = gv_id s" "gvd_rev d = gv_rev s" using d(1) by (simp_all add: matches_def)
  have fp: "fst p = Gb_pending" using files_placedD [OF pl s(1)] s(2) by (simp add: gov_bucket_of_def)
  have qp: "snd q = snd p" "fst q = gov_bucket_of (target_status (gvd_verdict d))" "q \<noteq> p" "fst q \<noteq> Gb_draft"
    using key fp d(2) by (cases "gvd_verdict d"; cases p; simp add: q gov_path_of_def gov_bucket_of_def)+
  have only: "x = p" if "file_at w x t" "snd x = snd p" for x t using calmD [OF sound(2) that(1) s(1) that(2)] by simp
  have tx1: "gvw_tx v = [(''TX-'' @ gvd_id d, \<lparr>gvx_gov = gv_id s, gvx_rev = gv_rev s, gvx_decision = gvd_id d\<rparr>)]" and n: "n = 1 \<or> n = 2 \<or> n = 3"
  proof -
    have "n = 0 \<or> n = 1 \<or> n = 2 \<or> n = 3 \<or> take n (commit_steps p s d) = commit_steps p s d"
      by (auto simp: commit_steps_def Let_def)
    then show "gvw_tx v = [(''TX-'' @ gvd_id d, \<lparr>gvx_gov = gv_id s, gvx_rev = gv_rev s, gvx_decision = gvd_id d\<rparr>)]" "n = 1 \<or> n = 2 \<or> n = 3"
      using tx tx0 unfolding v
      by (elim disjE; simp add: commit_steps_def Let_def run_steps_def put_gov_def del_gov_def numeral_nat ids)+
  qed
  have files: "gvw_files v = (if n = 1 then gvw_files w else if n = 2 then AList.update q (decided_fields d s) (gvw_files w)
      else AList.delete p (AList.update q (decided_fields d s) (gvw_files w)))"
    using n unfolding v by (elim disjE; simp add: commit_steps_def Let_def run_steps_def put_gov_def del_gov_def numeral_nat ids q)
  have at: "file_at v x t \<longleftrightarrow> (if x = q \<and> n \<noteq> 1 then t = decided_fields d s else if x = p \<and> n = 3 then False else file_at w x t)" for x t
    using n qp(3) unfolding files by (auto simp: update_conv' delete_conv')
  show thesis
  proof (cases "n = 3")
    case True
    then have f: "file_at v q (decided_fields d s)" "file_at v x t \<Longrightarrow> snd x = snd q \<Longrightarrow> x = q" for x t
      using at only [of x t] qp(1) by (auto split: if_splits)
    have "settling q q (decided_fields d s) v"
      by (rule settlingI [OF f(1)]) (use f(2) qp key in \<open>simp_all add: ids\<close>)
    moreover have "find_gov_path v (gv_id s) (gv_rev s) = Some q"
    proof (cases "find_gov_path v (gv_id s) (gv_rev s)")
      case None
      then show ?thesis using find_gov_path_None [OF None f(1)] qp(1) key by simp
    next
      case (Some x)
      then show ?thesis using find_gov_path_Some [OF Some] f(2) [of x] qp(1) key by auto
    qed
    ultimately show thesis using that tx1 by simp
  next
    case False
    then have f: "file_at v p s" "file_at v x t \<Longrightarrow> snd x = snd q \<Longrightarrow> x = p \<or> x = q" for x t
      using at [of p s] at [of x t] only [of x t] qp s(1) by (auto split: if_splits)
    have "settling q p s v"
      by (rule settlingI [OF f(1)]) (use f(2) qp key fp s(2) in \<open>simp_all add: gov_bucket_of_def\<close>)
    moreover have "find_gov_path v (gv_id s) (gv_rev s) = Some p"
    proof (rule find_pending [OF f(1) _ fp])
      fix x t assume "file_at v x t" "snd x = snd p"
      then have "x = p \<or> x = q" using f(2) qp(1) by simp
      then show "fst x \<noteq> Gb_draft" using fp qp(4) by auto
    qed (simp add: key)
    ultimately show thesis using that tx1 by simp
  qed
qed

lemma settling_locks [simp]:
  "settling q p s (v\<lparr>gvw_locks := l\<rparr>) = settling q p s v" "find_gov_path (v\<lparr>gvw_locks := l\<rparr>) = find_gov_path v"
  by (simp_all add: settling_def find_gov_path_def gov_paths_def fun_eq_iff)

text \<open>C11. A decision whose transaction is on disk is completed: when, after a run without failing writes, a decision is
  cut short by the file system after its transaction file was written, at whichever of the later writes, then the next
  recovery returns, whatever its clock, leaves no transaction, and the revision has exactly one file, at the place and
  with the status that ADMIN decided. A cut before that file is another matter: see
  \<open>cut_before_transaction_stays_pending\<close> below.\<close>

theorem interrupted_decision_recovered:
  assumes "\<forall>c\<in>set cs. well_typed c \<and> faultless c" and "well_typed (env, Call_decide q)"
    and "gvw_tx (snd (decide_gov env q (gov_run no_records cs))) \<noteq> []"
  shows "\<exists>w s. recover_transactions env' (snd (decide_gov env q (gov_run no_records cs))) = (Inr (), w) \<and> gvw_tx w = []
    \<and> file_at w (gov_path_of (target_status (gvq_verdict q)) (gvq_gov q) (gvq_rev q)) s
    \<and> gv_status s = target_status (gvq_verdict q)
    \<and> (\<forall>x t. file_at w x t \<longrightarrow> snd x = (gov_sanitize (gvq_gov q), gvq_rev q)
         \<longrightarrow> x = gov_path_of (target_status (gvq_verdict q)) (gvq_gov q) (gvq_rev q))"
proof -
  let ?w = "gov_run no_records cs" and ?k = "(gov_sanitize (gvq_gov q), gvq_rev q)"
  let ?l = "?w\<lparr>gvw_locks := ?k # gvw_locks ?w\<rparr>" and ?q = "gov_path_of (target_status (gvq_verdict q)) (gvq_gov q) (gvq_rev q)"
  have w: "store_sound ?w" "calm ?w"
    using run_sound [OF _ no_records_sound] run_faultless(2) [OF assms(1) no_records_sound no_records_calm(1)] assms(1) by auto
  have l: "store_sound ?l" "calm ?l"
    using store_sound_same [of ?l ?w] w by (simp_all add: calm_def use_log_def)
  have verdict: "gvq_verdict q \<noteq> Gv_revoked" using assms(2) by (simp add: well_typed_def)
  let ?v = "snd (decide_locked env q ?l)"
  have changed: "gvw_tx (snd (decide_gov env q ?w)) \<noteq> gvw_tx ?w" using assms(3) w(2) by (simp add: calm_def)
  note run = decide_gov_lock [OF changed]
  have free: "?k \<notin> set (gvw_locks ?w)" using changed unfolding run lock_unfold by auto
  then have res: "snd (decide_gov env q ?w) = ?v\<lparr>gvw_locks := removeAll ?k (gvw_locks ?v)\<rparr>"
    unfolding run lock_unfold by simp
  have "gvw_tx ?v \<noteq> gvw_tx ?l" using changed unfolding res by simp
  then obtain v0 p s d n where i: "store_sound v0" "calm v0" "file_at v0 p s" "gv_status s = Gs_pending" "gv_id s \<noteq> []"
    "snd p = ?k" "map_of (gvw_decisions v0) (gvd_id d) = Some d" "matches d s"
    "gvd_verdict d = gvq_verdict q" "?v = run_steps (take n (commit_steps p s d)) v0"
    by (rule decide_locked_interrupted [OF _ l verdict])
  have key: "gv_id s = gov_sanitize (gvq_gov q)" "gv_rev s = gvq_rev q" using namedD [OF sound_named [OF i(1)] i(3)] i(6) by auto
  have q: "?q = gov_path_of (target_status (gvd_verdict d)) (gv_id s) (gv_rev s)" using key i(9) by (simp add: gov_path_of_def)
  have vd: "gvd_verdict d \<noteq> Gv_revoked" using i(9) verdict by simp
  have tx: "gvw_tx (run_steps (take n (commit_steps p s d)) v0) \<noteq> []" using assms(3) res i(10) by simp
  obtain p1 s1 where c: "settling ?q p1 s1 ?v" "gv_id s1 = gv_id s" "gv_rev s1 = gv_rev s"
    "find_gov_path ?v (gv_id s) (gv_rev s) = Some p1"
    "gvw_tx ?v = [(''TX-'' @ gvd_id d, \<lparr>gvx_gov = gv_id s, gvx_rev = gv_rev s, gvx_decision = gvd_id d\<rparr>)]"
    by (rule commit_settling [OF i(1-4,8) vd tx i(10) q])
  let ?v1 = "?v\<lparr>gvw_locks := removeAll ?k (gvw_locks ?v)\<rparr>"
  have dec: "map_of (gvw_decisions ?v1) (gvd_id d) = Some d" using i(7,10) by simp
  have did: "gov_sanitize (gvd_id d) = gvd_id d" using decisions_soundD(2) [OF _ i(7)] i(1) by (simp add: store_sound_def)
  have f1: "settling ?q p1 s1 ?v1" unfolding settling_locks by (rule c(1))
  have f2: "gov_sanitize (gv_id s1) = gv_id s1" "gv_id s1 \<noteq> []" unfolding c(2) using key(1) i(5) by simp_all
  have f4: "(gv_id s1, gv_rev s1) \<notin> set (gvw_locks ?v1)" unfolding c(2,3) key by simp
  have f5: "find_gov_path ?v1 (gv_id s1) (gv_rev s1) = Some p1" unfolding settling_locks c(2,3) by (rule c(4))
  have f6: "gvw_tx ?v1 = [(''TX-'' @ gvd_id d, \<lparr>gvx_gov = gv_id s1, gvx_rev = gv_rev s1, gvx_decision = gvd_id d\<rparr>)]"
    using c(5) unfolding c(2,3) by simp
  have f9: "fst ?q = gov_bucket_of (target_status (gvd_verdict d))" unfolding i(9) gov_path_of_def by simp
  have "snd ?q = ?k" by (simp add: gov_path_of_def)
  then show ?thesis
    using recover_single [OF f1 f2 f4 f5 f6 dec did f9, of env'] unfolding res i(9) by (simp only:)
qed

section \<open>Example runs\<close>

definition ex_env :: "time \<Rightarrow> nat option \<Rightarrow> gov_env" where
  "ex_env t f =
     \<lparr>gve_now = t, gve_enabled = True, gve_parse_date = (\<lambda>s. if s = ''T50'' then Some 50 else None),
      gve_content_digest = (\<lambda>c. gvc_intent c), gve_scope_digest = (\<lambda>s. concat (gvs_allowed s)),
      gve_lease_digest = (\<lambda>g n d. d), gve_new_id = ''G'', gve_new_approval = ''A'', gve_new_decision = ''D'',
      gve_verify = None, gve_task_files = [(''T-1.md'', None)], gve_fault = f\<rparr>"

definition ex_input :: "string \<Rightarrow> string option \<Rightarrow> gov_input" where
  "ex_input intent expires =
     \<lparr>gvi_type = ''AUTHORIZATION'', gvi_issued_by = ''ADMIN'', gvi_authored_by = ''PM'', gvi_recipient = ''DEV'', gvi_task = ''T-1'',
      gvi_thread = ''th'', gvi_project = ''P'', gvi_source_kind = ''admin_formal'', gvi_message = None, gvi_session = None,
      gvi_intent = intent, gvi_boundary = ''b'', gvi_allowed = [''deploy''], gvi_prohibited = [''drop''], gvi_targets = [''prod''],
      gvi_conditions = [], gvi_expires = expires, gvi_limit = Some 1, gvi_retry = None, gvi_risk = ''r'', gvi_revocation = [],
      gvi_evidence = [], gvi_references = [], gvi_supersedes = None, gvi_blocks = True\<rparr>"

definition ex_decide :: "gov_verdict \<Rightarrow> string \<Rightarrow> gov_decide" where
  "ex_decide v key =
     \<lparr>gvq_gov = ''G'', gvq_rev = 1, gvq_approval = ''A'', gvq_actor = ''ADMIN'', gvq_verdict = v, gvq_reason = ''ok'',
      gvq_conditions = [], gvq_ui_action = ''ui-1'', gvq_key = key\<rparr>"

definition ex_pending :: "string \<Rightarrow> string option \<Rightarrow> (gov_env \<times> gov_call) list" where
  "ex_pending intent expires =
     [(ex_env 0 None, Call_draft (ex_input intent expires) None None None),
      (ex_env 1 None, Call_submit ''G'' 1 ''PM'' None)]"

definition ex_reference :: "string \<Rightarrow> gov_reference" where
  "ex_reference key =
     \<lparr>gva_gov = ''G'', gva_rev = 1, gva_approval = ''A'', gva_decision = ''D'', gva_scope_digest = ''deploy'',
      gva_content_hash = ''ship'', gva_lease = ''LEASE-D'', gva_key = key\<rparr>"

definition ex_approved :: "(gov_env \<times> gov_call) list" where
  "ex_approved = ex_pending ''ship'' None @ [(ex_env 2 None, Call_decide (ex_decide Gv_approved ''k''))]"

text \<open>The store after the approval and the record after its one use, written out.\<close>

definition ex_stored :: gov_record where
  "ex_stored =
     \<lparr>gv_type = ''AUTHORIZATION'', gv_id = ''G'', gv_rev = 1, gv_status = Gs_effective, gv_approval = Some ''A'',
      gv_recipient = ''DEV'', gv_task = ''T-1'', gv_thread = ''th'', gv_project = ''P'', gv_source_kind = ''admin_formal'',
      gv_message = None, gv_session = None, gv_scope_digest = ''deploy'', gv_content_hash = ''ship'', gv_created = 0,
      gv_submitted = Some 1, gv_expires = None, gv_limit = Some 1, gv_used = 0, gv_supersedes = None, gv_blocks = True,
      gv_retry = ''explicit_new_approval'', gv_intent = ''ship'', gv_boundary = ''b'', gv_allowed = [''deploy''],
      gv_prohibited = [''drop''], gv_targets = [''prod''], gv_conditions = [], gv_risk = ''r'', gv_revocation = [],
      gv_evidence = [], gv_references = [''T-1''], gv_verified = True, gv_decision = Some ''D'', gv_lease = Some ''LEASE-D''\<rparr>"

definition ex_world :: gov_world where
  "ex_world =
     \<lparr>gvw_files = [((Gb_effective, ''G'', 1), ex_stored)],
      gvw_decisions = [(''D'', \<lparr>gvd_id = ''D'', gvd_lease = Some ''LEASE-D'', gvd_approval = Some ''A'', gvd_gov = ''G'', gvd_rev = 1,
        gvd_by = ''ADMIN'', gvd_verdict = Gv_approved, gvd_scope_digest = ''deploy'', gvd_content_hash = ''ship'', gvd_created = 2,
        gvd_ui_action = ''ui-1'', gvd_reason = ''ok'', gvd_conditions = []\<rparr>)],
      gvw_idem = [(''k'', \<lparr>gvk_gov = ''G'', gvk_rev = 1, gvk_approval = Some ''A'', gvk_decision = Some ''D'',
        gvk_action = Act_decided Gv_approved\<rparr>)],
      gvw_tx = [], gvw_locks = [],
      gvw_log = [(Ev_drafted, ''G'', 1), (Ev_validated, ''G'', 1), (Ev_submitted, ''G'', 1), (Ev_decided Gv_approved, ''G'', 1)]\<rparr>"

lemma ex_approved_run: "gov_run no_records ex_approved = ex_world"
  by code_simp

definition ex_used :: gov_record where
  "ex_used = ex_stored\<lparr>gv_status := Gs_consumed, gv_used := 1\<rparr>"

definition ex_spent :: gov_world where
  "ex_spent = ex_world\<lparr>gvw_files := [((Gb_closed, ''G'', 1), ex_used)],
     gvw_idem := gvw_idem ex_world @ [(''u'', \<lparr>gvk_gov = ''G'', gvk_rev = 1, gvk_approval = Some ''A'', gvk_decision = Some ''D'',
       gvk_action = Act_consume\<rparr>)],
     gvw_log := gvw_log ex_world @ [(Ev_consumed, ''G'', 1)]\<rparr>"

definition ex_use :: "string \<Rightarrow> gov_env \<times> gov_call" where
  "ex_use key = (ex_env 3 None, Call_authorize (ex_reference key) ''P'' ''T-1'' ''Deploy'' [''prod''])"

lemma ex_authorized:
  "authorize_action (ex_env 3 None) (ex_reference ''u'') ''P'' ''T-1'' ''Deploy'' [''prod''] ex_world = (Inr ex_used, ex_spent)"
  by code_simp

lemma ex_spent_run: "gov_run no_records (ex_approved @ [ex_use ''u'']) = ex_spent" "gov_run ex_world [ex_use ''u''] = ex_spent"
  using ex_authorized ex_approved_run by (simp_all add: gov_run_def gov_step_def ex_use_def)

lemma ex_files: "file_at ex_world (Gb_effective, ''G'', 1) ex_stored" "file_at ex_spent (Gb_closed, ''G'', 1) ex_used"
  by (simp_all add: ex_world_def ex_spent_def)

lemma ex_fields:
  "gv_status ex_stored = Gs_effective" "gv_limit ex_used = Some 1" "gv_id ex_used = ''G''" "gv_rev ex_used = 1"
  by (simp_all add: ex_stored_def ex_used_def)

lemma ex_typed:
  "\<forall>c\<in>set (ex_pending i e). well_typed c \<and> faultless c" "\<forall>c\<in>set ex_approved. well_typed c \<and> faultless c"
  "\<forall>c\<in>set [ex_use k]. well_typed c \<and> faultless c"
  by (simp_all add: ex_approved_def ex_pending_def ex_use_def ex_env_def ex_decide_def well_typed_def faultless_def)

theorem effective_was_approved_witness:
  "\<exists>q :: gov_decide. js_upper (js_trim (gvq_actor q)) = ''ADMIN'' \<and> gvq_verdict q = Gv_approved
    \<and> gv_approval ex_stored = Some (gvq_approval q)"
proof -
  have typed: "\<forall>c\<in>set ex_approved. well_typed c" using ex_typed(2) by auto
  have "gv_status ex_stored \<in> {Gs_effective, Gs_consumed}" by (simp add: ex_fields)
  from effective_was_approved [OF typed, unfolded ex_approved_run, OF ex_files(1) this] show ?thesis by blast
qed

theorem record_terms_fixed_witness: "gov_terms ex_used = gov_terms ex_stored"
  using record_terms_fixed [of ex_approved "[ex_use ''u'']", unfolded ex_approved_run, OF _ _ ex_files(1)]
    ex_typed(2,3) ex_files(2) unfolding ex_spent_run by auto

theorem governance_moves_forward_witness: "gov_next\<^sup>*\<^sup>* (gv_status ex_stored) (gv_status ex_used)"
  using governance_moves_forward [OF ex_typed(2) ex_typed(3) [where k = "''u''"], unfolded ex_approved_run ex_spent_run, OF ex_files] by simp

theorem governance_uses_bounded_witness:
  "count_list (use_log (gov_run no_records (ex_approved @ [ex_use ''u'']))) (''G'', 1) \<le> 1"
proof -
  have "\<forall>c\<in>set (ex_approved @ [ex_use ''u'']). well_typed c \<and> faultless c" using ex_typed(2,3) by auto
  from governance_uses_bounded [OF this, unfolded ex_spent_run, OF ex_files(2) ex_fields(2)] show ?thesis
    unfolding ex_spent_run ex_fields by simp
qed

theorem authorized_action_in_scope_witness:
  "\<exists>w1 p s. file_at w1 p s \<and> gv_status s = Gs_effective \<and> action_in_scope s ''Deploy'' [''prod'']"
proof -
  have typed: "\<forall>c\<in>set ex_approved. well_typed c" using ex_typed(2) by auto
  from authorized_action_in_scope [OF typed, unfolded ex_approved_run, OF ex_authorized] show ?thesis by blast
qed

theorem authorization_charged_witness: "use_log ex_spent = [(''G'', 1)]"
proof -
  have typed: "\<forall>c\<in>set ex_approved. well_typed c" using ex_typed(2) by auto
  have free: "unspent ex_world (gva_key (ex_reference ''u''))" and none: "use_log ex_world = []"
    and key: "(gov_sanitize (gva_gov (ex_reference ''u'')), gva_rev (ex_reference ''u'')) = (''G'', 1)"
    by code_simp+
  show ?thesis
    unfolding authorization_charged [OF typed, unfolded ex_approved_run, OF ex_authorized free] none key by simp
qed

theorem interrupted_decision_recovered_witness:
  "\<exists>w s. recover_transactions (ex_env 9 None) (snd (decide_gov (ex_env 2 (Some 2)) (ex_decide Gv_approved ''k'')
       (gov_run no_records (ex_pending ''ship'' None)))) = (Inr (), w)
    \<and> file_at w (Gb_effective, ''G'', 1) s \<and> gv_status s = Gs_effective"
proof -
  have tx: "gvw_tx (snd (decide_gov (ex_env 2 (Some 2)) (ex_decide Gv_approved ''k'') (gov_run no_records (ex_pending ''ship'' None)))) \<noteq> []"
    and typed: "well_typed (ex_env 2 (Some 2), Call_decide (ex_decide Gv_approved ''k''))"
    and path: "gov_path_of Gs_effective (gvq_gov (ex_decide Gv_approved ''k''))
        (gvq_rev (ex_decide Gv_approved ''k'')) = (Gb_effective, ''G'', 1)"
      "target_status (gvq_verdict (ex_decide Gv_approved ''k'')) = Gs_effective"
    by code_simp+
  from interrupted_decision_recovered [OF ex_typed(1) typed tx, of "ex_env 9 None"] show ?thesis unfolding path by blast
qed

section \<open>Where the code does something else\<close>

text \<open>
  A decision that is cut between its decision file and its transaction file is not completed: the recovery looks at
  transactions only, so an approval of ADMIN is on disk while the record stays pending. (The
  fault counts the writes from the transaction file on, so that a cut at 0 leaves the decision file alone.)
\<close>

lemma cut_before_transaction_stays_pending:
  "let w = snd (decide_gov (ex_env 2 (Some 0)) (ex_decide Gv_approved ''k'') (gov_run no_records (ex_pending ''ship'' None)));
       v = snd (recover_transactions (ex_env 9 None) w) in
   gvw_tx w = [] \<and> map (\<lambda>(p, s). (p, gv_status s)) (gvw_files v) = [((Gb_pending, ''G'', 1), Gs_pending)]
   \<and> map (\<lambda>(k, d). (k, gvd_verdict d, gvd_gov d)) (gvw_decisions v) = [(''D'', Gv_approved, ''G'')]"
  by code_simp

text \<open>White space around a text of the draft: submission accepts it, but the decision recomputes the digest from the
  trimmed file and reports a tampered file. ADMIN can neither approve nor reject the record.\<close>

lemma untrimmed_draft_undecidable:
  "fst (decide_gov (ex_env 2 None) (ex_decide v ''k'') (gov_run no_records (ex_pending '' ship'' None))) = Inl Ge_scope_mismatch"
  by code_simp

text \<open>A call that finds its record expired asks for the lock it already holds: the answer is busy, not expired, and the
  record stays as it is, however often the call is repeated.\<close>

lemma expired_record_busy:
  "decide_gov (ex_env 60 None) (ex_decide Gv_rejected ''k'') (gov_run no_records (ex_pending ''ship'' (Some ''T50'')))
    = (Inl Ge_busy, gov_run no_records (ex_pending ''ship'' (Some ''T50'')))"
  by code_simp

text \<open>Revocation does not look at the transactions: an approval whose transaction was not finished is revoked, and the
  next listing makes it effective again.\<close>

definition ex_revoked :: gov_world where
  "ex_revoked = gov_run no_records (ex_pending ''ship'' None @
     [(ex_env 2 (Some 3), Call_decide (ex_decide Gv_approved ''k'')),
      ((ex_env 3 None)\<lparr>gve_new_decision := ''R''\<rparr>, Call_revoke (ex_decide Gv_revoked ''k2''))])"

lemma revoked_approval_returns:
  "map (gv_status \<circ> snd) (gvw_files ex_revoked) = [Gs_revoked]"
  "map (gv_status \<circ> snd) (gvw_files (gov_step ex_revoked (ex_env 4 None, Call_list None None None))) = [Gs_effective]"
  by code_simp+

text \<open>A key spent on one authorization makes \<open>consume\<close> succeed for any reference that carries it, although
  nothing of the reference is looked at.\<close>

lemma spent_key_opens_any_reference:
  "fst (consume_gov (ex_env 4 None) ((ex_reference ''u'')\<lparr>gva_gov := ''other'', gva_scope_digest := ''x''\<rparr>)
       \<lparr>gvp_project = ''Q'', gvp_task = ''T-9'', gvp_scope_digest = ''x'', gvp_content_hash = None\<rparr>
       (gov_run no_records (ex_approved @ [ex_use ''u''])))
    = Inr ex_used"
  unfolding ex_spent_run
  by code_simp

text \<open>The key of a decision is looked at after the decision took effect: with a key that a draft used, the call
  reports a conflict and the record is in force.\<close>

lemma conflicting_key_decides:
  "(let w = gov_run no_records [(ex_env 0 None, Call_draft (ex_input ''ship'' None) None None (Some ''k'')),
        (ex_env 1 None, Call_submit ''G'' 1 ''PM'' None)];
      r = decide_gov (ex_env 2 None) (ex_decide Gv_approved ''k'') w
    in fst r = Inl Ge_idempotency \<and> map (gv_status \<circ> snd) (gvw_files (snd r)) = [Gs_effective])"
  by code_simp

text \<open>A draft with an empty id is written, and no list of the store succeeds afterwards.\<close>

lemma empty_id_blocks_lists:
  "fst (list_gov (ex_env 2 None) None None None
     (gov_run no_records [(ex_env 0 None, Call_draft (ex_input ''ship'' None) (Some []) None None)])) = Inl Ge_corrupt"
  by code_simp

end
