(* ===== verification/Spec2Isabelle.thy ===== *)
theory Spec2Isabelle
  imports Lifecycle_Properties Project_Barrier Approval_Properties Dispatch_Store Session_Lease Retry_Control
    Dispatch_Properties Planning_Gates Runtime_Alerts Event_Filters Pm_Guards Recovery_Guarantees
    Governance_Results
begin

text \<open>
  \<^bold>\<open>CodeFlowMu runtime: a verification development.\<close>

  CodeFlowMu drives a team of agents (a project manager PM, workers DEV, QA, OPS, the human ADMIN) through tasks
  that are Markdown files with YAML frontmatter. A task file moves through five directories (inbox, active,
  review, done, archive); the runtime under \<^verbatim>\<open>src/packages/codeflowmu-runtime/src\<close> decides which moves are
  allowed, dispatches tasks to agents, asks ADMIN before dangerous operations, retries failed sessions and tells
  the panel what is wrong. The theories follow these parts; all paths below are relative to that directory.

  \<^bold>\<open>Foundations.\<close>
  \<open>Js_Prelude\<close>: the JavaScript strings, maps, lists and exceptions the code uses; actions on a state that may throw
  and the rules that carry a relation or a specification through them (locale \<open>step_preorder\<close>).

  \<^bold>\<open>The life of a task.\<close>
  \<open>Lifecycle_Types\<close> (\<^verbatim>\<open>lifecycle/types.ts\<close>, \<^verbatim>\<open>authorityDefaults.ts\<close>, \<^verbatim>\<open>AuthorityGuard.ts\<close>, \<^verbatim>\<open>ArchiveGuard.ts\<close>): stages, frontmatter
  and who may decide. \<open>Lifecycle_Store\<close> (\<^verbatim>\<open>TaskFrontmatterStore.ts\<close>, \<^verbatim>\<open>TransitionRecorder.ts\<close>, \<^verbatim>\<open>transitionIdempotency.ts\<close>,
  \<^verbatim>\<open>taskPathUtils.ts\<close>): the file format, the store, the transition log. \<open>Lifecycle_Rework\<close>
  (\<^verbatim>\<open>ledger/taskReworkSemantics.ts\<close>, \<^verbatim>\<open>ledger/reworkSettlement.ts\<close>): rework rounds and what settles them.
  \<open>Lifecycle_Children\<close> (\<^verbatim>\<open>lifecycle/closedParentResidue.ts\<close>, \<^verbatim>\<open>childTaskArchiveGate.ts\<close>): child tasks at the end of their
  parent. \<open>Lifecycle_Machine\<close> (\<^verbatim>\<open>LifecycleStateMachine.ts\<close>, \<^verbatim>\<open>LifecycleKernel.ts\<close>, \<^verbatim>\<open>humanTaskAcceptance.ts\<close>): every operation on a
  task, as an action on the world of task files, transition log and agent queue. \<open>Lifecycle_Properties\<close> shows over
  any sequence of kernel calls that tasks only make the legal moves, none is lost or doubled, archived ones stay,
  and who may approve, reject, submit and archive what. \<open>Agent_Queue\<close> (\<^verbatim>\<open>pm/agentTaskQueue.ts\<close>): the queues of the agents,
  well formed in every run, first in first out.

  \<^bold>\<open>Approval of operations.\<close>
  \<open>Operation_Facts\<close> (\<^verbatim>\<open>approval/OperationFacts.ts\<close>, \<^verbatim>\<open>approval/UnifiedOperationPolicy.ts\<close>): the negative predicates and the policy.
  \<open>Operation_Approval\<close> (\<^verbatim>\<open>approval/OperationApprovalService.ts\<close>): records, decisions, the single use of an authorization and
  its execution. \<open>Approval_Properties\<close>: a grant rests on a decision of ADMIN about the very request, is given at most
  once in any sequence of calls, and a changed request voids it.

  \<^bold>\<open>Governance approvals.\<close>
  \<open>Governance_Approval\<close> (\<^verbatim>\<open>approval/GovernanceApprovalService.ts\<close>): the formal records that ADMIN approves, as files with their
  decisions, idempotency keys, locks and the transactions of decisions under way; the environment may stop a decision
  after any of its writes. \<open>Governance_Properties\<close>: every call, whatever it answers, is a sequence of abstract effects on the
  files, and each decision among them is one the call may take. \<open>Governance_Guarantees\<close>: the invariants of the store over
  these effects. \<open>Governance_Results\<close>: what is in force was approved by ADMIN, actions stay in its scope and are charged, records
  move forward, keep their terms and are not used more often than approved, an interrupted decision is completed;
  and where the code does otherwise.

  \<^bold>\<open>Dispatch.\<close>
  \<open>Task_Parser\<close> (\<^verbatim>\<open>scheduler/TaskParser.ts\<close>): what the scheduler reads from a file. \<open>Dispatch_Gate\<close> (\<^verbatim>\<open>pm/taskDispatchGate.ts\<close>): which
  tasks are dispatched on arrival and when a dispatch is eligible. \<open>Execution_Gate\<close> (\<^verbatim>\<open>pm/taskDispatchContext.ts\<close>,
  \<^verbatim>\<open>pm/executionState.ts\<close>, \<^verbatim>\<open>pm/qaDispatchGate.ts\<close>): supersession, cancellation, missing artifacts and the gate of the tester,
  which agrees with the derived execution state. \<open>Dependency_Gate\<close> (\<^verbatim>\<open>scheduler/TaskDependencyGate.ts\<close>,
  \<^verbatim>\<open>scheduler/DependencyReleaseRunner.ts\<close>): the gate on the files themselves and the release of waiting tasks, including what the
  release patch does to the text. \<open>Dispatch_Store\<close> (\<^verbatim>\<open>scheduler/DispatchAttemptStore.ts\<close>): attempts and execution leases; the
  store refines a table of expiring locks (locale \<open>lock_table\<close>, interpreted on the store). \<open>Session_Lease\<close>
  (\<^verbatim>\<open>session/SessionLeaseStore.ts\<close>) and \<open>Project_Barrier\<close> (\<^verbatim>\<open>project/ProjectWriteBarrier.ts\<close>): locks that are files, as interleaved file
  system operations of many processes. \<open>Retry_Control\<close> (\<^verbatim>\<open>_internal/transient-sdk-error.ts\<close>, \<^verbatim>\<open>dispatch-failure.ts\<close>,
  \<^verbatim>\<open>SdkCooldownRegistry.ts\<close>, \<^verbatim>\<open>DispatchRetryRegistry.ts\<close>): retries are bounded and then wait for ADMIN. \<open>Task_Dispatch\<close>
  (\<^verbatim>\<open>scheduler/TaskDispatcher.ts\<close>, \<^verbatim>\<open>scheduler/LifecycleGovernor.ts\<close>) composes all of these with the lifecycle kernel and the agent
  queue on one world: the control plane asks the gates in order and records its decision, the dispatch reconciles
  the agent's queue, offers an attempt, claims the lease, moves the file and starts the session.
  \<open>Dispatch_Properties\<close> shows that a session starts only behind every gate and under a lease of its own, that a
  dispatch which starts nothing leaves no lease, and what a spent idempotency key does. The verdicts of the
  admission gate and of the product gate, the parser, the liveness of sessions and the answer of the session
  manager are arguments there, and the theorems hold for any.

  \<^bold>\<open>Around the dispatch.\<close>
  \<open>Adhoc_Queue\<close>: the queue of tasks whose agent was busy, which refines one lane per priority. \<open>Session_Settlement\<close>
  (\<^verbatim>\<open>scheduler/TaskDispatcher.ts\<close>, \<^verbatim>\<open>pm/agentTaskQueueControl.ts\<close>): what the end of a session sets off, on a world that adds the
  ad-hoc queue, the PM's guard, the breaker and what is scheduled to that of the dispatch. \<open>Dispatch_Recovery\<close>: the
  watcher and the scan of the inbox with their reconciliation, held tasks, dispatch again by the PM or ADMIN, the
  claim by an agent itself, pause and resumption, the view of a stalled task (\<^verbatim>\<open>scheduler/TaskDispatchStall.ts\<close>).
  \<open>Recovery_Properties\<close> runs all of these in any order: whatever relation the calls of the attempt store, the control
  plane and quiet changes keep, every operation keeps (locales \<open>dispatch_preorder\<close> and \<open>recovery_preorder\<close>), so the attempts
  stay what the store makes of them, and a settled session stays settled. \<open>Recovery_Guarantees\<close>: a held task is not
  started, an interruption by policy costs no retry, a claim holds its lease; and what the recoveries lose.

  \<^bold>\<open>Filters, mutexes and guards.\<close>
  \<open>Event_Filters\<close> (\<^verbatim>\<open>_internal/EventDedupeRegistry.ts\<close>, \<^verbatim>\<open>EventDisplayDedupe.ts\<close>, \<^verbatim>\<open>LifecycleTransitionDedupe.ts\<close>,
  \<^verbatim>\<open>check-throttle.ts\<close>, \<^verbatim>\<open>ZeroToolcallCircuitBreaker.ts\<close>, \<^verbatim>\<open>KeyedMutex.ts\<close>): the filters are instances of one rate limit (locale
  \<open>event_filter\<close>), the breaker counts a window, and the keyed mutex excludes and never blocks for ever, over all interleavings
  of its callers. \<open>Pm_Guards\<close> (\<^verbatim>\<open>_internal/AgentWakeGuard.ts\<close>, \<^verbatim>\<open>scheduler/PmQueueGuard.ts\<close>): when an agent is woken, and whether
  the PM is busy, waits for a worker or is taken for stale.

  \<^bold>\<open>Planning and alerts.\<close>
  \<open>Planning_Gates\<close> (\<^verbatim>\<open>pm/PlanningGateStore.ts\<close>, \<^verbatim>\<open>pm/PlanningGrantStore.ts\<close>): an approval speaks of one version of a plan, a grant of
  explicit work packages. \<open>Runtime_Alerts\<close> (\<^verbatim>\<open>alerts/RuntimeAlertManager.ts\<close>, \<^verbatim>\<open>alerts/alert-taxonomy.ts\<close>): the bounded table of
  alerts and what the panel is shown.

  \<^bold>\<open>How state and operations correspond.\<close>
  A class or interface is a record with a field prefix of its own, a union of literals a datatype, a \<open>Map\<close> or an object
  used as one an association list in insertion order, an optional property an option. A method that reads and
  writes state is a function from the state to the result and the new state; a thrown error is a value of a sum or
  an option. The clock, random numbers, fresh identifiers and hashes are arguments. Files are maps from paths to
  their content; where several processes work on the same file the operations of \<^verbatim>\<open>node:fs\<close> are single steps and a
  run is any interleaving; where the code holds a mutex or a lock around an operation the operation is one step.
  The YAML library is a parameter: any printer and any parser, of which nothing is assumed but, where a written file is
  read back, that the printed block holds no line \<open>---\<close>.

  \<^bold>\<open>Bounds and recursion.\<close>
  No definition uses fuel. The loops of the code end because they consume a list, a string or a retry budget; the walk
  along the parents of a task carries the set of the tasks it has seen, as the code does. Session acquisition is shown
  wait-free: at most eleven steps of its own.

  \<^bold>\<open>Not modelled.\<close>
  Of the dispatcher the file events of the watcher, the recovery of missed session events, the prompts, the panel
  events and the timeouts of the governor. The tools and executors behind the approvals, the PM's
  governance cycle and admission of task specifications, the review engine, sessions over the vendor SDK, the ledger
  builder and the watchers are not modelled yet. The web panel, the desktop and
  mobile front ends are user interface and HTTP; the bridge to the Python package fcop, the protocol validator and
  the skills are calls of code outside the repository or prompts. Strings are ASCII: titles in Chinese are
  constructors. Texts of error messages that no code reads are left out. \<open>guardAutomaticWrite\<close> has no counterpart: the
  test it asks, \<open>isYamlFallbackAutomaticWriteBlocked\<close> of \<^verbatim>\<open>lifecycle/yamlFallbackGuard.ts\<close>, answers false for every argument.
  The hold of a task for an explicit dispatch
  reads the frontmatter as the task parser does; the code splits the file once more by \<open>parseMarkdownFrontmatter\<close>, which
  can differ on a file that the parser refuses.
\<close>

section \<open>Where the two dependency gates differ\<close>

text \<open>
  The dispatcher asks both \<open>evaluate_task_dependency_gate\<close> and \<open>evaluate_dispatch_eligibility\<close>. Their notions of a task id
  differ: a dependency named by its number is met for the second by a report that names the task in full, and
  never for the first.
\<close>

lemma gates_differ_on_ids:
  "normalize_dependency_task_id ''TASK-20260101-001-PM-to-DEV'' = normalize_dependency_task_id ''TASK-20260101-001''
   \<and> task_id_key ''TASK-20260101-001-PM-to-DEV'' \<noteq> task_id_key ''TASK-20260101-001''"
  by code_simp

text \<open>What satisfies the first satisfies the second as far as the task and the status go; the second asks for the
  reporter too.\<close>

lemma lower_upper_char: "lower_char (upper_char c) = lower_char c"
  by (cases c) (simp add: lower_char_def upper_char_def of_char_def)

lemma js_lower_upper: "js_lower (js_upper s) = js_lower s"
  by (simp add: js_lower_def js_upper_def lower_upper_char)

lemma js_digit_upper: "js_digit (upper_char c) = js_digit c"
  by (cases c) (simp add: js_digit_def upper_char_def of_char_def Let_def)

lemma upper_dash: "upper_char c = CHR ''-'' \<longleftrightarrow> c = CHR ''-''"
  by (cases c) (auto simp: upper_char_def of_char_def)

lemma take_upper: "take n (js_upper s) = js_upper (take n s)" "drop n (js_upper s) = js_upper (drop n s)"
  "length (js_upper s) = length s"
  by (simp_all add: js_upper_def take_map drop_map)

lemma digits_upper: "takeWhile js_digit (js_upper s) = js_upper (takeWhile js_digit s)"
  "list_all js_digit (js_upper s) = list_all js_digit s"
  by (simp_all add: js_upper_def takeWhile_map comp_def js_digit_upper list_all_iff)

lemma upper_is_dash: "js_upper s = ''-'' \<longleftrightarrow> s = ''-''"
  by (cases s) (auto simp: js_upper_def upper_dash)

lemma task_id_prefix_upper: "task_id_prefix (js_upper s) = map_option js_upper (task_id_prefix s)"
  by (simp add: task_id_prefix_def Let_def take_upper digits_upper js_lower_upper upper_is_dash)

lemma same_key_same_task:
  "task_id_key d = task_id_key r \<Longrightarrow> normalize_dependency_task_id d = normalize_dependency_task_id r"
proof -
  assume "task_id_key d = task_id_key r"
  then have u: "js_upper (strip_md (js_trim d)) = js_upper (strip_md (js_trim r))"
    by (simp add: task_id_key_def gate_task_id_def)
  have "normalize_dependency_task_id v =
      or_else (task_id_prefix (js_upper (strip_md (js_trim v)))) (js_upper (strip_md (js_trim v)))" for v
    by (simp add: normalize_dependency_task_id_def task_id_prefix_upper or_else_def split: option.split)
  then show ?thesis by (simp only: u)
qed
theorem file_gate_report_counts:
  assumes "dep_allowed (evaluate_task_dependency_gate t project)" and "d \<in> set (gate_dependencies t project)"
  shows "\<exists>name r task_id status. (name, Some r) \<in> set (report_entries project)
    \<and> pick_string_field (pt_frontmatter r) ''task_id'' = Some task_id
    \<and> pick_string_field (pt_frontmatter r) ''status'' = Some status
    \<and> normalize_dependency_task_id task_id = normalize_dependency_task_id d \<and> is_done_report_status status"
proof -
  have "task_id_key d \<in> done_ids project"
    using assms unfolding evaluate_task_dependency_gate_def Let_def dep_allowed_def
    by (auto simp: filter_empty_conv split: if_splits)
  then obtain e where e: "e \<in> set (report_entries project)" "reports_done d e"
    by (auto simp: done_ids_iff list_ex_iff)
  then obtain r task_id status where "snd e = Some r" "pick_string_field (pt_frontmatter r) ''task_id'' = Some task_id"
    "task_id_key task_id = task_id_key d" "pick_string_field (pt_frontmatter r) ''status'' = Some status"
    "js_lower (js_trim status) = ''done''"
    by (auto simp: reports_done_def split: option.splits)
  moreover have "(fst e, Some r) \<in> set (report_entries project)" using e(1) calculation(1) by (metis prod.collapse)
  moreover have "normalize_dependency_task_id task_id = normalize_dependency_task_id d"
    by (rule same_key_same_task) (rule calculation(3))
  ultimately show ?thesis
    by (intro exI[of _ "fst e"] exI[of _ r] exI[of _ task_id] exI[of _ status]) (simp add: is_done_report_status_def)
qed

end
